(* ===== verification/Prelude.thy ===== *)
theory Prelude
  imports Complex_Main "HOL-Library.Word"
begin

text \<open>
  The prelude of the pyrad2 development: the Python exceptions the package raises or lets
  through, a result type with its sequencing operators, octet strings and their big-endian
  integer codec (\<^verbatim>\<open>int.from_bytes\<close>, \<^verbatim>\<open>int.to_bytes\<close>, \<^verbatim>\<open>struct.pack\<close>), slices and fixed-size
  chunks of byte strings, and the byte-wise exclusive or.

  Python integers are \<open>int\<close>, byte strings are lists of \<open>8 word\<close>, and a call that may raise
  returns \<open>exn + 'a\<close>: \<open>Inl\<close> is the exception, \<open>Inr\<close> the value.
\<close>

unbundle bit_operations_syntax

named_theorems wire_simps "lengths and round trips of the byte codecs"
named_theorems res_simps "sequencing of results"

section \<open>Exceptions and results\<close>

datatype exn =
    PacketError
  | ServerPacketError
  | ParseError
  | Timeout
  | IdentifierExhausted
  | NoCommonRadiusVersion
  | UnknownHost
  | ValueError
  | BinasciiError
  | UnicodeError
  | TypeError
  | KeyError
  | IndexError
  | AttributeError
  | StructError
  | OverflowError
  | AssertionError
  | RuntimeError
  | ImportError
  | TimeoutError
  | IncompleteReadError
  | OSError
  | InvalidStateError
  | NotImplementedError
  | GenericException

type_synonym 'a res = "exn + 'a"

fun bindE :: "'e + 'a \<Rightarrow> ('a \<Rightarrow> 'e + 'b) \<Rightarrow> 'e + 'b" where
  "bindE (Inl e) f = Inl e"
| "bindE (Inr x) f = f x"

lemma bindE_cong [fundef_cong]:
  "r = r' \<Longrightarrow> (\<And>x. r' = Inr x \<Longrightarrow> f x = g x) \<Longrightarrow> bindE r f = bindE r' g"
  by (cases r') auto

lemma bindE_InrE:
  assumes "bindE r f = Inr y"
  obtains x where "r = Inr x" "f x = Inr y"
  using assms by (cases r) auto

lemma bindE_eq_Inr [res_simps]: "bindE r f = Inr y \<longleftrightarrow> (\<exists>x. r = Inr x \<and> f x = Inr y)"
  by (cases r) auto

lemma bindE_eq_Inl [res_simps]:
  "bindE r f = Inl e \<longleftrightarrow> r = Inl e \<or> (\<exists>x. r = Inr x \<and> f x = Inl e)"
  by (cases r) auto

lemma bindE_Inr_right [simp]: "bindE r Inr = r"
  by (cases r) auto

lemma bindE_assoc: "bindE (bindE r f) g = bindE r (\<lambda>x. bindE (f x) g)"
  by (cases r) auto

definition checkE :: "bool \<Rightarrow> 'e \<Rightarrow> 'e + unit" where
  "checkE c e = (if c then Inr () else Inl e)"

lemma checkE_simps [simp]: "checkE True e = Inr ()" "checkE False e = Inl e"
  by (simp_all add: checkE_def)

lemma checkE_eq_Inr [res_simps]: "checkE c e = Inr u \<longleftrightarrow> c"
  by (simp add: checkE_def)

lemma checkE_eq_Inl [res_simps]: "checkE c e = Inl e' \<longleftrightarrow> \<not> c \<and> e' = e"
  by (auto simp: checkE_def)

fun mapE :: "('a \<Rightarrow> 'e + 'b) \<Rightarrow> 'a list \<Rightarrow> 'e + 'b list" where
  "mapE f [] = Inr []"
| "mapE f (x # xs) = bindE (f x) (\<lambda>y. bindE (mapE f xs) (\<lambda>ys. Inr (y # ys)))"

lemma mapE_cong [fundef_cong]:
  "xs = ys \<Longrightarrow> (\<And>x. x \<in> set ys \<Longrightarrow> f x = g x) \<Longrightarrow> mapE f xs = mapE g ys"
  by (induction ys arbitrary: xs) auto

lemma mapE_total: "(\<And>x. x \<in> set xs \<Longrightarrow> f x = Inr (g x)) \<Longrightarrow> mapE f xs = Inr (map g xs)"
  by (induction xs) auto

lemma mapE_map: "mapE f (map g xs) = mapE (\<lambda>x. f (g x)) xs"
  by (induction xs) auto

lemma mapE_append:
  "mapE f (xs @ ys) = bindE (mapE f xs) (\<lambda>us. bindE (mapE f ys) (\<lambda>vs. Inr (us @ vs)))"
proof (induction xs)
  case Nil
  then show ?case by simp
next
  case (Cons x xs)
  then show ?case by (cases "f x"; cases "mapE f xs"; cases "mapE f ys") auto
qed

text \<open>Tests that a run succeeds with a result satisfying \<open>P\<close>, for evaluation.\<close>

definition okE :: "('e + 'a) \<Rightarrow> ('a \<Rightarrow> bool) \<Rightarrow> bool" where
  "okE r P = (case r of Inl _ \<Rightarrow> False | Inr x \<Rightarrow> P x)"

definition ok_opt :: "('e + 'a) option \<Rightarrow> ('a \<Rightarrow> bool) \<Rightarrow> bool" where
  "ok_opt r P = (case r of None \<Rightarrow> False | Some q \<Rightarrow> okE q P)"

definition failsE :: "('e + 'a) \<Rightarrow> 'e \<Rightarrow> bool" where
  "failsE r e = (case r of Inl e' \<Rightarrow> e' = e | Inr _ \<Rightarrow> False)"

lemma failsE_Inl: "failsE r e \<Longrightarrow> r = Inl e"
  by (simp add: failsE_def split: sum.splits)

lemma okE_Inr: "okE r P \<Longrightarrow> \<exists>x. r = Inr x \<and> P x"
  by (auto simp: okE_def split: sum.splits)

lemma ok_opt_Some: "ok_opt r P \<Longrightarrow> \<exists>x. r = Some (Inr x) \<and> P x"
  by (auto simp: ok_opt_def dest: okE_Inr split: option.splits)

text \<open>A loop over a list whose body updates a state and may raise.\<close>

fun foldE :: "('a \<Rightarrow> 's \<Rightarrow> 'e + 's) \<Rightarrow> 'a list \<Rightarrow> 's \<Rightarrow> 'e + 's" where
  "foldE f [] s = Inr s"
| "foldE f (x # xs) s = bindE (f x s) (foldE f xs)"

lemma foldE_append: "foldE f (xs @ ys) s = bindE (foldE f xs s) (foldE f ys)"
proof (induction xs arbitrary: s)
  case (Cons x xs)
  then show ?case by (cases "f x s") auto
qed simp

lemma foldE_cong [fundef_cong]:
  "xs = ys \<Longrightarrow> s = t \<Longrightarrow> (\<And>x u. x \<in> set ys \<Longrightarrow> f x u = g x u) \<Longrightarrow> foldE f xs s = foldE g ys t"
  by (induction ys arbitrary: xs s t) (auto intro!: bindE_cong)

lemma foldE_invariant:
  assumes "foldE f xs s = Inr t" and "P s"
    and "\<And>x u v. x \<in> set xs \<Longrightarrow> P u \<Longrightarrow> f x u = Inr v \<Longrightarrow> P v"
  shows "P t"
  using assms by (induction xs arbitrary: s) (auto simp: bindE_eq_Inr)

section \<open>Byte strings and big-endian integers\<close>

type_synonym byte = "8 word"
type_synonym bytes = "8 word list"

text \<open>\<^verbatim>\<open>n.to_bytes(k, "big")\<close> on the low \<open>8 * k\<close> bits.\<close>

primrec be_bytes :: "nat \<Rightarrow> int \<Rightarrow> bytes" where
  "be_bytes 0 x = []"
| "be_bytes (Suc n) x = be_bytes n (x div 256) @ [word_of_int x]"

text \<open>\<^verbatim>\<open>int.from_bytes(bs, "big")\<close>.\<close>

definition be_val :: "bytes \<Rightarrow> int" where
  "be_val bs = foldl (\<lambda>a b. a * 256 + uint b) 0 bs"

lemma be_val_Nil [simp]: "be_val [] = 0"
  by (simp add: be_val_def)

lemma be_val_snoc [simp]: "be_val (bs @ [b]) = be_val bs * 256 + uint b"
  by (simp add: be_val_def)

lemma length_be_bytes [simp, wire_simps]: "length (be_bytes n x) = n"
  by (induction n arbitrary: x) auto

lemma uint_byte_bounds: "0 \<le> uint (b :: byte)" "uint (b :: byte) < 256"
  using uint_lt2p [of b] by simp_all

lemma uint_word_of_int_byte: "uint (word_of_int x :: byte) = x mod 256"
  by (simp add: uint_word_of_int)

lemma be_val_nonneg [simp]: "0 \<le> be_val bs"
  by (induction bs rule: rev_induct) (auto simp: uint_byte_bounds)

lemma be_val_less: "be_val bs < 256 ^ length bs"
proof (induction bs rule: rev_induct)
  case Nil
  then show ?case by simp
next
  case (snoc b bs)
  have "be_val bs * 256 + uint b < (be_val bs + 1) * 256"
    using uint_byte_bounds(2) [of b] by simp
  also have "\<dots> \<le> 256 ^ length bs * 256"
    using snoc by simp
  finally show ?case by (simp add: mult.commute)
qed

lemma be_val_be_bytes [wire_simps]: "be_val (be_bytes n x) = x mod 256 ^ n"
proof (induction n arbitrary: x)
  case 0
  then show ?case by simp
next
  case (Suc n)
  have "be_val (be_bytes (Suc n) x) = (x div 256) mod 256 ^ n * 256 + x mod 256"
    by (simp add: Suc uint_word_of_int_byte)
  also have "\<dots> = x mod (256 * 256 ^ n)"
    by (simp add: zmod_zmult2_eq mult.commute)
  finally show ?case by simp
qed

lemma be_val_be_bytes_id: "0 \<le> x \<Longrightarrow> x < 256 ^ n \<Longrightarrow> be_val (be_bytes n x) = x"
  by (simp add: be_val_be_bytes)

lemma be_bytes_be_val [wire_simps]: "be_bytes (length bs) (be_val bs) = bs"
proof (induction bs rule: rev_induct)
  case Nil
  then show ?case by simp
next
  case (snoc b bs)
  have "(be_val bs * 256 + uint b) div 256 = be_val bs"
    using uint_byte_bounds [of b] by (simp add: div_pos_pos_trivial)
  moreover have "(word_of_int (be_val bs * 256 + uint b) :: byte) = b"
  proof (rule word_uint_eqI)
    show "uint (word_of_int (be_val bs * 256 + uint b) :: byte) = uint b"
      using uint_byte_bounds [of b]
      by (simp only: uint_word_of_int_byte) (simp add: mod_pos_pos_trivial)
  qed
  ultimately show ?case using snoc by simp
qed

lemma be_bytes_1: "be_bytes (Suc 0) x = [word_of_int x]"
  by simp

text \<open>
  \<^verbatim>\<open>struct.pack\<close> of one unsigned field of \<open>n\<close> octets in network order: a value that does
  not fit raises \<^verbatim>\<open>struct.error\<close>.
\<close>

definition pack_uint :: "nat \<Rightarrow> int \<Rightarrow> bytes res" where
  "pack_uint n x = (if 0 \<le> x \<and> x < 256 ^ n then Inr (be_bytes n x) else Inl StructError)"

text \<open>\<^verbatim>\<open>struct.pack\<close> of one signed field (two's complement).\<close>

definition pack_sint :: "nat \<Rightarrow> int \<Rightarrow> bytes res" where
  "pack_sint n x =
     (if - (2 ^ (8 * n - 1)) \<le> x \<and> x < 2 ^ (8 * n - 1)
      then Inr (be_bytes n (x mod 256 ^ n)) else Inl StructError)"

text \<open>\<^verbatim>\<open>struct.unpack\<close>: the length has to match exactly.\<close>

definition unpack_uint :: "nat \<Rightarrow> bytes \<Rightarrow> int res" where
  "unpack_uint n bs = (if length bs = n then Inr (be_val bs) else Inl StructError)"

definition unpack_sint :: "nat \<Rightarrow> bytes \<Rightarrow> int res" where
  "unpack_sint n bs =
     (if length bs = n
      then Inr (if be_val bs < 2 ^ (8 * n - 1) then be_val bs else be_val bs - 256 ^ n)
      else Inl StructError)"

lemma pack_uint_eq_Inr [res_simps]:
  "pack_uint n x = Inr bs \<longleftrightarrow> 0 \<le> x \<and> x < 256 ^ n \<and> bs = be_bytes n x"
  by (auto simp: pack_uint_def)

lemma pack_uint_ok [simp]: "0 \<le> x \<Longrightarrow> x < 256 ^ n \<Longrightarrow> pack_uint n x = Inr (be_bytes n x)"
  by (simp add: pack_uint_def)

lemma unpack_pack_uint: "pack_uint n x = Inr bs \<Longrightarrow> unpack_uint n bs = Inr x"
  by (auto simp: pack_uint_def unpack_uint_def be_val_be_bytes split: if_splits)

lemma pack_unpack_uint: "unpack_uint n bs = Inr x \<Longrightarrow> pack_uint n x = Inr bs"
  using be_val_less [of bs]
  by (auto simp: pack_uint_def unpack_uint_def be_bytes_be_val split: if_splits)

lemma unpack_pack_sint:
  assumes "0 < n" and "pack_sint n x = Inr bs"
  shows "unpack_sint n bs = Inr x"
proof -
  have p: "(256 :: int) ^ n = 2 * 2 ^ (8 * n - 1)"
  proof -
    have "(256 :: int) ^ n = 2 ^ (8 * n)" by (simp add: power_mult)
    also have "8 * n = Suc (8 * n - 1)" using assms(1) by simp
    finally show ?thesis by simp
  qed
  from assms(2) have r: "- (2 ^ (8 * n - 1)) \<le> x" "x < 2 ^ (8 * n - 1)"
    and bs: "bs = be_bytes n (x mod 256 ^ n)"
    by (auto simp: pack_sint_def split: if_splits)
  have v: "be_val bs = x mod 256 ^ n"
    by (simp add: bs be_val_be_bytes)
  show ?thesis
  proof (cases "0 \<le> x")
    case True
    then have "x mod 256 ^ n = x" using r p by simp
    then show ?thesis using r v by (simp add: unpack_sint_def bs)
  next
    case False
    have "x mod 256 ^ n = (x + 256 ^ n) mod 256 ^ n" by simp
    also have "\<dots> = x + 256 ^ n"
      using False r p by (intro mod_pos_pos_trivial) auto
    finally show ?thesis using False r v p by (simp add: unpack_sint_def bs)
  qed
qed

text \<open>\<^verbatim>\<open>x.to_bytes(n, "big")\<close>: an integer that does not fit raises \<^verbatim>\<open>OverflowError\<close>.\<close>

definition int_to_bytes :: "nat \<Rightarrow> int \<Rightarrow> bytes res" where
  "int_to_bytes n x = (if 0 \<le> x \<and> x < 256 ^ n then Inr (be_bytes n x) else Inl OverflowError)"

lemma int_to_bytes_ok [simp]: "0 \<le> x \<Longrightarrow> x < 256 ^ n \<Longrightarrow> int_to_bytes n x = Inr (be_bytes n x)"
  by (simp add: int_to_bytes_def)

lemma be_bytes_inj:
  "be_bytes n x = be_bytes n y \<Longrightarrow> x mod 256 ^ n = y mod 256 ^ n"
  by (metis be_val_be_bytes)

section \<open>Slices and chunks\<close>

text \<open>\<^verbatim>\<open>xs[a:b]\<close> for indices that are not negative.\<close>

definition py_slice :: "'a list \<Rightarrow> nat \<Rightarrow> nat \<Rightarrow> 'a list" where
  "py_slice xs a b = take (b - a) (drop a xs)"

lemma length_py_slice [simp]: "length (py_slice xs a b) = min (b - a) (length xs - a)"
  by (simp add: py_slice_def)

lemma py_slice_0 [simp]: "py_slice xs 0 b = take b xs"
  by (simp add: py_slice_def)

text \<open>\<^verbatim>\<open>[xs[i:i+n] for i in range(0, len(xs), n)]\<close>; a step of 0 is never used by a caller.\<close>

fun chunks :: "nat \<Rightarrow> 'a list \<Rightarrow> 'a list list" where
  "chunks n [] = []"
| "chunks n (x # xs) =
     (if n = 0 then [x # xs] else take n (x # xs) # chunks n (drop n (x # xs)))"

declare chunks.simps(2) [simp del]

lemma chunks_rec: "xs \<noteq> [] \<Longrightarrow> 0 < n \<Longrightarrow> chunks n xs = take n xs # chunks n (drop n xs)"
  by (cases xs) (simp_all add: chunks.simps)

lemma chunks_eq_Nil [simp]: "chunks n xs = [] \<longleftrightarrow> xs = []"
  by (cases xs) (simp_all add: chunks.simps)

lemma concat_chunks [simp]: "concat (chunks n xs) = xs"
proof (induction n xs rule: chunks.induct)
  case (2 n x xs)
  then show ?case
    by (cases n) (simp_all add: chunks.simps)
qed simp

lemma chunks_bounds: "0 < n \<Longrightarrow> c \<in> set (chunks n xs) \<Longrightarrow> c \<noteq> [] \<and> length c \<le> n"
proof (induction n xs rule: chunks.induct)
  case (2 n x xs)
  then show ?case by (auto simp: chunks.simps)
qed simp

lemma chunks_short: "xs \<noteq> [] \<Longrightarrow> length xs \<le> n \<Longrightarrow> chunks n xs = [xs]"
  by (cases xs) (auto simp: chunks.simps)

lemma chunks_append:
  assumes "length xs = n" "0 < n"
  shows "chunks n (xs @ ys) = xs # chunks n ys"
proof -
  from assms have "xs \<noteq> []" by auto
  then show ?thesis using assms by (simp add: chunks_rec)
qed

lemma chunks_multiple:
  "0 < n \<Longrightarrow> n dvd length xs \<Longrightarrow> c \<in> set (chunks n xs) \<Longrightarrow> length c = n"
proof (induction n xs rule: chunks.induct)
  case (2 n x xs)
  have le: "n \<le> length (x # xs)"
    using 2(2,3) by (intro dvd_imp_le) auto
  moreover have "n dvd length (drop n (x # xs))"
    using 2(3) le by (simp add: dvd_diff_nat)
  ultimately show ?case using 2 by (auto simp: chunks.simps)
qed simp

lemma length_chunks_multiple:
  "0 < n \<Longrightarrow> n dvd length xs \<Longrightarrow> length (chunks n xs) = length xs div n"
proof (induction n xs rule: chunks.induct)
  case (2 n x xs)
  have le: "n \<le> length (x # xs)"
    using 2(2,3) by (intro dvd_imp_le) auto
  have "n dvd length (drop n (x # xs))"
    using 2(3) le by (simp add: dvd_diff_nat)
  then have "length (chunks n (drop n (x # xs))) = length (drop n (x # xs)) div n"
    using 2 by (intro 2(1)) simp_all
  then show ?case
    using 2(2) le by (simp add: chunks.simps(2) le_div_geq del: drop.simps)
qed simp

section \<open>Byte-wise exclusive or\<close>

definition xor_bytes :: "bytes \<Rightarrow> bytes \<Rightarrow> bytes" where
  "xor_bytes xs ys = map2 (XOR) xs ys"

lemma length_xor_bytes [simp, wire_simps]: "length (xor_bytes xs ys) = min (length xs) (length ys)"
  by (simp add: xor_bytes_def)

lemma xor_bytes_Nil [simp]: "xor_bytes [] ys = []"
  by (simp add: xor_bytes_def)

lemma xor_bytes_cancel:
  assumes "length xs = length ys"
  shows "xor_bytes xs (xor_bytes xs ys) = ys"
  using assms
  by (induction xs ys rule: list_induct2)
    (simp_all add: xor_bytes_def xor.assoc [symmetric])

lemma xor_bytes_snoc:
  "length xs = length ys \<Longrightarrow> xor_bytes (xs @ [x]) (ys @ [y]) = xor_bytes xs ys @ [x XOR y]"
  by (simp add: xor_bytes_def)

end
