(* ===== verification/RadiusV11.thy ===== *)
theory RadiusV11
  imports Prelude
begin

text \<open>
  \<^verbatim>\<open>pyrad2/radsec/v11.py\<close>: the RADIUS protocol version, its negotiation over ALPN, the TLS
  version floor and the per-connection token counter of RFC 9765.

  \<^verbatim>\<open>ssl.TLSVersion\<close> is an \<^verbatim>\<open>IntEnum\<close> (minimum supported -2, SSLv3 0x300, TLSv1 0x301 to
  TLSv1.3 0x304), so TLS versions are integers and the comparison is the integer order.
\<close>

datatype RadiusVersion = V1_0 | V1_1

text \<open>An \<^verbatim>\<open>IntEnum\<close>: its members are ordered as their numbers.\<close>

fun version_number :: "RadiusVersion \<Rightarrow> int" where
  "version_number V1_0 = 0"
| "version_number V1_1 = 1"

lemma version_number_inj: "version_number v = version_number w \<Longrightarrow> v = w"
  by (cases v; cases w) simp_all

instantiation RadiusVersion :: linorder
begin

definition less_eq_RadiusVersion :: "RadiusVersion \<Rightarrow> RadiusVersion \<Rightarrow> bool" where
  "v \<le> w \<longleftrightarrow> version_number v \<le> version_number w"

definition less_RadiusVersion :: "RadiusVersion \<Rightarrow> RadiusVersion \<Rightarrow> bool" where
  "v < w \<longleftrightarrow> version_number v < version_number w"

instance
  by standard (auto simp: less_eq_RadiusVersion_def less_RadiusVersion_def intro: version_number_inj)

end

definition ALPN_V1_0 :: string where "ALPN_V1_0 = ''radius/1.0''"
definition ALPN_V1_1 :: string where "ALPN_V1_1 = ''radius/1.1''"

fun ALPN_BY_VERSION :: "RadiusVersion \<Rightarrow> string" where
  "ALPN_BY_VERSION V1_0 = ALPN_V1_0"
| "ALPN_BY_VERSION V1_1 = ALPN_V1_1"

definition VERSION_BY_ALPN :: "string \<Rightarrow> RadiusVersion option" where
  "VERSION_BY_ALPN s =
     (if s = ALPN_V1_0 then Some V1_0 else if s = ALPN_V1_1 then Some V1_1 else None)"

definition version_from_alpn :: "string option \<Rightarrow> RadiusVersion" where
  "version_from_alpn selected =
     (case selected of
        None \<Rightarrow> V1_0
      | Some s \<Rightarrow> (case VERSION_BY_ALPN s of Some v \<Rightarrow> v | None \<Rightarrow> V1_0))"

definition negotiate :: "RadiusVersion list \<Rightarrow> string option \<Rightarrow> RadiusVersion res" where
  "negotiate configured selected_alpn =
     (case selected_alpn of
        Some s \<Rightarrow>
          (case VERSION_BY_ALPN s of
             None \<Rightarrow> Inl NoCommonRadiusVersion
           | Some chosen \<Rightarrow>
               if chosen \<notin> set configured then Inl NoCommonRadiusVersion else Inr chosen)
      | None \<Rightarrow> if V1_0 \<in> set configured then Inr V1_0 else Inl NoCommonRadiusVersion)"

definition TLSv1_3 :: int where "TLSv1_3 = 0x304"
definition TLSv1_2 :: int where "TLSv1_2 = 0x303"

definition enforce_tls_version_floor :: "int \<Rightarrow> RadiusVersion list \<Rightarrow> int" where
  "enforce_tls_version_floor minimum versions =
     (if V1_1 \<notin> set versions then minimum
      else if minimum < TLSv1_3 then TLSv1_3
      else minimum)"

text \<open>
  \<^verbatim>\<open>apply_alpn\<close>: \<open>None\<close> when the context is left untouched, otherwise the protocol list
  passed to \<^verbatim>\<open>ctx.set_alpn_protocols\<close>, the highest version first.
\<close>

definition apply_alpn :: "RadiusVersion list \<Rightarrow> string list option res" where
  "apply_alpn versions =
     (if versions = [] then Inl ValueError
      else if versions = [V1_0] then Inr None
      else Inr (Some (map ALPN_BY_VERSION (rev (sorted_list_of_set (set versions))))))"

section \<open>Tokens\<close>

definition TOKEN_MASK :: int where "TOKEN_MASK = 0xFFFFFFFF"

text \<open>The state of a \<^verbatim>\<open>TokenCounter\<close> is its \<^verbatim>\<open>_value\<close>; \<open>secrets.randbits(32)\<close> seeds it.\<close>

definition token_init :: "int \<Rightarrow> int" where
  "token_init rnd = rnd"

definition token_next :: "int \<Rightarrow> (bytes \<times> int) res" where
  "token_next v = bindE (int_to_bytes 4 v) (\<lambda>token. Inr (token, (v + 1) AND TOKEN_MASK))"

fun token_run :: "nat \<Rightarrow> int \<Rightarrow> (bytes list \<times> int) res" where
  "token_run 0 v = Inr ([], v)"
| "token_run (Suc n) v =
     bindE (token_next v) (\<lambda>(t, v').
     bindE (token_run n v') (\<lambda>(ts, v''). Inr (t # ts, v'')))"

lemma VERSION_BY_ALPN_inverse: "VERSION_BY_ALPN (ALPN_BY_VERSION v) = Some v"
  by (cases v) (simp_all add: VERSION_BY_ALPN_def ALPN_V1_0_def ALPN_V1_1_def)

lemma token_mask: "x AND TOKEN_MASK = x mod 2 ^ 32"
  using take_bit_eq_mask [of 32 x]
  by (simp add: TOKEN_MASK_def take_bit_eq_mod mask_eq_exp_minus_1)

lemma token_next_eq:
  "0 \<le> v \<Longrightarrow> v < 2 ^ 32 \<Longrightarrow> token_next v = Inr (be_bytes 4 v, (v + 1) mod 2 ^ 32)"
  by (simp add: token_next_def token_mask del: be_bytes.simps)

lemma token_run_eq:
  "0 \<le> v \<Longrightarrow> v < 2 ^ 32 \<Longrightarrow>
   token_run n v =
     Inr (map (\<lambda>i. be_bytes 4 ((v + int i) mod 2 ^ 32)) [0..<n], (v + int n) mod 2 ^ 32)"
proof (induction n arbitrary: v)
  case 0
  then show ?case by simp
next
  case (Suc n)
  let ?w = "(v + 1) mod 2 ^ 32"
  have w: "(?w + int i) mod 2 ^ 32 = (v + int (Suc i)) mod 2 ^ 32" for i
    using mod_add_left_eq [of "v + 1" "2 ^ 32" "int i"] by (simp add: ac_simps)
  have "[0..<Suc n] = 0 # map Suc [0..<n]"
    by (simp add: map_Suc_upt upt_rec [of 0 "Suc n"] del: upt_Suc)
  then have "map (\<lambda>i. be_bytes 4 ((v + int i) mod 2 ^ 32)) [0..<Suc n] =
        be_bytes 4 v # map (\<lambda>i. be_bytes 4 ((?w + int i) mod 2 ^ 32)) [0..<n]"
    using Suc.prems unfolding w by (simp add: comp_def del: be_bytes.simps upt_Suc)
  moreover have "token_run n ?w =
      Inr (map (\<lambda>i. be_bytes 4 ((?w + int i) mod 2 ^ 32)) [0..<n], (?w + int n) mod 2 ^ 32)"
    by (rule Suc.IH) simp_all
  ultimately show ?case
    using Suc.prems w [of n] by (simp add: token_next_eq del: be_bytes.simps)
qed



lemma tokens_distinct:
  assumes "0 \<le> v" "v < 2 ^ 32" "n \<le> 2 ^ 32"
  shows "\<exists>ts v'. token_run n v = Inr (ts, v') \<and> length ts = n \<and> distinct ts
    \<and> (\<forall>t. t \<in> set ts \<longrightarrow> length t = 4) \<and> 0 \<le> v' \<and> v' < 2 ^ 32"
proof -
  have inj: "inj_on (\<lambda>i. be_bytes 4 ((v + int i) mod 2 ^ 32)) {0..<n}"
  proof (rule inj_onI)
    fix i j
    assume ij: "i \<in> {0..<n}" "j \<in> {0..<n}"
      and "be_bytes 4 ((v + int i) mod 2 ^ 32) = be_bytes 4 ((v + int j) mod 2 ^ 32)"
    then have "(v + int i) mod 2 ^ 32 = (v + int j) mod 2 ^ 32"
      using be_bytes_inj by (fastforce simp del: be_bytes.simps)
    then have "int i mod 2 ^ 32 = int j mod 2 ^ 32"
      using mod_diff_cong [of "v + int i" "2 ^ 32" "v + int j" v v] by simp
    then show "i = j" using ij assms(3) by simp
  qed
  then show ?thesis
    using assms by (auto simp: token_run_eq distinct_map simp del: be_bytes.simps)
qed

lemma negotiate_configured: "negotiate cs a = Inr v \<Longrightarrow> v \<in> set cs"
  by (auto simp: negotiate_def split: option.splits if_splits)

lemma negotiate_strict:
  "V1_0 \<notin> set cs \<Longrightarrow> negotiate cs None = Inl NoCommonRadiusVersion"
  by (simp add: negotiate_def)

text \<open>
  Both ends of one handshake. The TLS library picks a protocol both sides advertised, or none;
  the two ends then agree on a version, or neither opens the connection.
\<close>

lemma negotiate_agreement:
  assumes "negotiate cs1 sel = Inr v1" "negotiate cs2 sel = Inr v2"
  shows "v1 = v2 \<and> v1 \<in> set cs1 \<inter> set cs2"
  using assms by (auto simp: negotiate_def split: option.splits if_splits)

lemma enforce_tls_floor:
  "minimum \<le> enforce_tls_version_floor minimum vs
   \<and> (V1_1 \<in> set vs \<longrightarrow> TLSv1_3 \<le> enforce_tls_version_floor minimum vs)"
  by (simp add: enforce_tls_version_floor_def)

lemma sorted_le_last: "sorted xs \<Longrightarrow> x \<in> set xs \<Longrightarrow> x \<le> last xs"
  by (induction xs) auto

text \<open>What is advertised: the configured versions, each once, in descending order.\<close>

lemma ALPN_BY_VERSION_inj: "inj ALPN_BY_VERSION"
  using VERSION_BY_ALPN_inverse by (metis injI option.inject)

lemma apply_alpn_prefers_v11:
  assumes "apply_alpn vs = Inr (Some ps)"
  shows "set ps = ALPN_BY_VERSION ` set vs \<and> distinct ps
    \<and> (V1_1 \<in> set vs \<longrightarrow> hd ps = ALPN_V1_1)"
proof -
  let ?l = "sorted_list_of_set (set vs)"
  from assms have ps: "ps = map ALPN_BY_VERSION (rev ?l)" and vs: "set vs \<noteq> {}"
    by (auto simp: apply_alpn_def split: if_splits)
  have "hd ps = ALPN_V1_1" if "V1_1 \<in> set vs"
  proof -
    have "?l \<noteq> []" using vs by simp
    moreover have "w \<le> last ?l" if "w \<in> set vs" for w
      using that sorted_le_last [of ?l w] by simp
    ultimately have "V1_1 \<le> last ?l" using that by blast
    then have "last ?l = V1_1" by (cases "last ?l") (simp_all add: less_eq_RadiusVersion_def)
    then show ?thesis using \<open>?l \<noteq> []\<close> by (simp add: ps hd_rev hd_map)
  qed
  then show ?thesis
    using ALPN_BY_VERSION_inj by (simp add: ps distinct_map inj_on_subset [OF _ subset_UNIV])
qed

end
