(* ===== verification/Retry.thy ===== *)
theory Retry
  imports Prelude
begin

text \<open>
  \<^verbatim>\<open>pyrad2/retry.py\<close>: the retransmission policy of both clients. Python floats are modelled as
  rationals (no rounding, no overflow); \<^verbatim>\<open>random.uniform(a, b)\<close> is \<open>a + (b - a) * u\<close> with the
  generator's sample \<open>u\<close>, at least 0 and at most 1, as an argument.
\<close>

record RetryPolicy =
  retries :: int
  timeout :: rat
  backoff :: rat
  jitter :: rat
  max_wait :: rat

definition default_policy :: RetryPolicy where
  "default_policy = \<lparr>retries = 3, timeout = 5, backoff = 1, jitter = 0, max_wait = 30\<rparr>"

definition uniform :: "rat \<Rightarrow> rat \<Rightarrow> rat \<Rightarrow> rat" where
  "uniform a b u = a + (b - a) * u"

definition wait_for :: "rat \<Rightarrow> nat \<Rightarrow> RetryPolicy \<Rightarrow> rat" where
  "wait_for u attempt p =
     (let wait = min (timeout p * backoff p ^ attempt) (max_wait p)
      in if jitter p \<noteq> 0
         then (let wait = wait + wait * uniform (- jitter p) (jitter p) u in max 0 wait)
         else wait)"

definition set_retries :: "int \<Rightarrow> RetryPolicy \<Rightarrow> RetryPolicy" where
  "set_retries v p = p\<lparr>retries := v\<rparr>"

definition set_timeout :: "rat \<Rightarrow> RetryPolicy \<Rightarrow> RetryPolicy" where
  "set_timeout v p = p\<lparr>timeout := v\<rparr>"

definition policy_from_legacy :: "RetryPolicy option \<Rightarrow> int \<Rightarrow> rat \<Rightarrow> RetryPolicy" where
  "policy_from_legacy policy r t =
     (case policy of
        Some p \<Rightarrow> p
      | None \<Rightarrow> \<lparr>retries = r, timeout = t, backoff = 1, jitter = 0, max_wait = 30\<rparr>)"

definition policy_wf :: "RetryPolicy \<Rightarrow> bool" where
  "policy_wf p \<longleftrightarrow> 0 \<le> timeout p \<and> 0 \<le> backoff p \<and> 0 \<le> jitter p \<and> 0 \<le> max_wait p"

definition base_wait :: "nat \<Rightarrow> RetryPolicy \<Rightarrow> rat" where
  "base_wait n p = min (timeout p * backoff p ^ n) (max_wait p)"

lemma base_wait_nonneg: "policy_wf p \<Longrightarrow> 0 \<le> base_wait n p"
  by (simp add: policy_wf_def base_wait_def)

lemma uniform_bounds:
  assumes "0 \<le> j" "0 \<le> u" "u \<le> 1"
  shows "- j \<le> uniform (- j) j u" "uniform (- j) j u \<le> j"
  using assms mult_left_le [of u "2 * j"] by (simp_all add: uniform_def)

text \<open>The wait stays within the jitter band around the capped exponential schedule.\<close>

lemma wait_for_bounds:
  assumes "policy_wf p" "0 \<le> u" "u \<le> 1"
  shows "0 \<le> wait_for u n p" "base_wait n p * (1 - jitter p) \<le> wait_for u n p"
    "wait_for u n p \<le> base_wait n p * (1 + jitter p)"
proof -
  let ?w = "base_wait n p" and ?x = "uniform (- jitter p) (jitter p) u"
  have w: "0 \<le> ?w" using assms(1) by (rule base_wait_nonneg)
  have j: "0 \<le> jitter p" using assms(1) by (simp add: policy_wf_def)
  have x: "- jitter p \<le> ?x" "?x \<le> jitter p" using uniform_bounds [OF j assms(2,3)] by simp_all
  have eq: "wait_for u n p = (if jitter p \<noteq> 0 then max 0 (?w + ?w * ?x) else ?w)"
    by (simp add: wait_for_def base_wait_def Let_def)
  have up: "?w * ?x \<le> ?w * jitter p" and lo: "?w * (- jitter p) \<le> ?w * ?x"
    using w x by (intro mult_left_mono; simp)+
  show "0 \<le> wait_for u n p" using eq w by simp
  show "?w * (1 - jitter p) \<le> wait_for u n p" using eq lo w by (simp add: algebra_simps max_def)
  show "wait_for u n p \<le> ?w * (1 + jitter p)"
    using eq up w j by (simp add: algebra_simps)
qed

lemma wait_for_no_jitter_le_max:
  "jitter p = 0 \<Longrightarrow> wait_for u n p \<le> max_wait p"
  by (simp add: wait_for_def)

section \<open>Properties\<close>

text \<open>
  Every wait of a sane policy lies within the jitter band around the capped exponential
  schedule; without jitter it never exceeds \<^verbatim>\<open>max_wait\<close>, and with jitter it never exceeds
  \<^verbatim>\<open>max_wait\<close> by more than the jitter fraction.
\<close>

theorem wait_within_band:
  assumes "policy_wf p" "0 \<le> x" "x \<le> 1"
  shows "0 \<le> wait_for x n p \<and> base_wait n p * (1 - jitter p) \<le> wait_for x n p
    \<and> wait_for x n p \<le> base_wait n p * (1 + jitter p)
    \<and> wait_for x n p \<le> max_wait p * (1 + jitter p)"
proof -
  have "base_wait n p * (1 + jitter p) \<le> max_wait p * (1 + jitter p)"
    using assms(1) by (intro mult_right_mono) (simp_all add: base_wait_def policy_wf_def)
  then show ?thesis using wait_for_bounds [OF assms, of n] by linarith
qed

lemma wait_within_band_witness:
  "wait_for 1 3 \<lparr>retries = 3, timeout = 5, backoff = 2, jitter = 1 / 10, max_wait = 30\<rparr> \<le> 33"
  using wait_within_band
    [of "\<lparr>retries = 3, timeout = 5, backoff = 2, jitter = 1 / 10, max_wait = 30\<rparr>" 1 3]
  by (simp add: policy_wf_def)

text \<open>
  The cap is applied before the jitter, so a jittered wait does exceed \<^verbatim>\<open>max_wait\<close>, which the
  documentation calls a hard ceiling: at the cap every sample above one half does.
\<close>

theorem jitter_exceeds_max_wait:
  assumes "max_wait p \<le> timeout p * backoff p ^ n" "0 < max_wait p" "0 < jitter p" "1 / 2 < x"
  shows "max_wait p < wait_for x n p"
proof -
  have w: "min (timeout p * backoff p ^ n) (max_wait p) = max_wait p" using assms(1) by simp
  have "0 < jitter p * (2 * x - 1)" using assms(3,4) by simp
  then have "0 < uniform (- jitter p) (jitter p) x" by (simp add: uniform_def algebra_simps)
  then have "0 < max_wait p * uniform (- jitter p) (jitter p) x" using assms(2) by simp
  then show ?thesis using assms(3) unfolding wait_for_def w Let_def by simp
qed

lemma jitter_exceeds_max_wait_witness:
  "30 < wait_for 1 3 \<lparr>retries = 3, timeout = 5, backoff = 2, jitter = 1 / 10, max_wait = 30\<rparr>"
  using jitter_exceeds_max_wait
    [of "\<lparr>retries = 3, timeout = 5, backoff = 2, jitter = 1 / 10, max_wait = 30\<rparr>" 3 1]
  by simp

end
