(* ===== verification/Hashes.thy ===== *)
theory Hashes
  imports Prelude
begin

text \<open>
  The digests of Python's \<^verbatim>\<open>hashlib\<close> and \<^verbatim>\<open>hmac\<close> that the package calls: MD5 (RFC 1321),
  HMAC-MD5 (RFC 2104, with the key block of 64 octets) and SHA-1 (FIPS 180). They are
  executable on 32-bit words. What the proofs about the packets use is only the length of a
  digest and that it is a function of its input.
\<close>

section \<open>Words and blocks\<close>

definition le_bytes :: "nat \<Rightarrow> int \<Rightarrow> bytes" where
  "le_bytes n x = rev (be_bytes n x)"

definition le_val :: "bytes \<Rightarrow> int" where
  "le_val bs = be_val (rev bs)"

lemma length_le_bytes [simp, wire_simps]: "length (le_bytes n x) = n"
  by (simp add: le_bytes_def)

lemma le_val_le_bytes: "le_val (le_bytes n x) = x mod 256 ^ n"
  by (simp add: le_val_def le_bytes_def be_val_be_bytes)

lemma le_val_bounds: "0 \<le> le_val bs" "le_val bs < 256 ^ length bs"
  using be_val_less [of "rev bs"] by (simp_all add: le_val_def)

text \<open>
  One \<^verbatim>\<open>1\<close> bit, zeros up to 56 octets modulo 64, and the bit length in eight octets.
\<close>

definition pad_zeros :: "nat \<Rightarrow> nat" where
  "pad_zeros n = nat ((55 - int n) mod 64)"

lemma pad_zeros_aligned: "64 dvd n + 1 + pad_zeros n + 8"
proof -
  have "int (n + 1 + pad_zeros n + 8) = 64 * (1 - (55 - int n) div 64)"
  proof -
    have "int (pad_zeros n) = (55 - int n) mod 64" by (simp add: pad_zeros_def)
    then show ?thesis
      using div_mult_mod_eq [of "55 - int n" 64] by (simp add: algebra_simps)
  qed
  then have "int 64 dvd int (n + 1 + pad_zeros n + 8)" by (metis dvd_triv_left of_nat_numeral)
  then show ?thesis by (simp only: int_dvd_int_iff)
qed

definition pad_le :: "bytes \<Rightarrow> bytes" where
  "pad_le m = m @ [0x80] @ replicate (pad_zeros (length m)) 0 @ le_bytes 8 (8 * int (length m))"

definition pad_be :: "bytes \<Rightarrow> bytes" where
  "pad_be m = m @ [0x80] @ replicate (pad_zeros (length m)) 0 @ be_bytes 8 (8 * int (length m))"

lemma pad_le_aligned: "64 dvd length (pad_le m)"
  using pad_zeros_aligned [of "length m"] by (simp add: pad_le_def ac_simps)

text \<open>
  MD5 is computed on the integers below \<open>2 ^ 32\<close>: \<open>low32\<close> is the reduction that a 32-bit
  register makes, and a rotation by \<open>n\<close> adds the bits shifted out back at the bottom.
\<close>

definition low32 :: "int \<Rightarrow> int" where
  "low32 x = x AND 0xFFFFFFFF"

lemma low32_mod: "low32 x = x mod 2 ^ 32"
  using take_bit_eq_mask [of 32 x] by (simp add: low32_def take_bit_eq_mod mask_eq_exp_minus_1)

definition rotl32 :: "nat \<Rightarrow> int \<Rightarrow> int" where
  "rotl32 n x = (let y = push_bit n (low32 x) in y + y div 4294967296)"

definition words_le :: "bytes \<Rightarrow> int list" where
  "words_le blk = map le_val (chunks 4 blk)"

definition words_be :: "bytes \<Rightarrow> 32 word list" where
  "words_be blk = map (\<lambda>c. word_of_int (be_val c)) (chunks 4 blk)"

section \<open>MD5\<close>

text \<open>Per step: the round, the rotation, the message word and the additive constant.\<close>

definition MD5_STEPS :: "(nat \<times> nat \<times> nat \<times> int) list" where
  "MD5_STEPS =
    [(0, 7, 0, 0xd76aa478), (0, 12, 1, 0xe8c7b756), (0, 17, 2, 0x242070db), (0, 22, 3, 0xc1bdceee),
     (0, 7, 4, 0xf57c0faf), (0, 12, 5, 0x4787c62a), (0, 17, 6, 0xa8304613), (0, 22, 7, 0xfd469501),
     (0, 7, 8, 0x698098d8), (0, 12, 9, 0x8b44f7af), (0, 17, 10, 0xffff5bb1), (0, 22, 11, 0x895cd7be),
     (0, 7, 12, 0x6b901122), (0, 12, 13, 0xfd987193), (0, 17, 14, 0xa679438e), (0, 22, 15, 0x49b40821),
     (1, 5, 1, 0xf61e2562), (1, 9, 6, 0xc040b340), (1, 14, 11, 0x265e5a51), (1, 20, 0, 0xe9b6c7aa),
     (1, 5, 5, 0xd62f105d), (1, 9, 10, 0x2441453), (1, 14, 15, 0xd8a1e681), (1, 20, 4, 0xe7d3fbc8),
     (1, 5, 9, 0x21e1cde6), (1, 9, 14, 0xc33707d6), (1, 14, 3, 0xf4d50d87), (1, 20, 8, 0x455a14ed),
     (1, 5, 13, 0xa9e3e905), (1, 9, 2, 0xfcefa3f8), (1, 14, 7, 0x676f02d9), (1, 20, 12, 0x8d2a4c8a),
     (2, 4, 5, 0xfffa3942), (2, 11, 8, 0x8771f681), (2, 16, 11, 0x6d9d6122), (2, 23, 14, 0xfde5380c),
     (2, 4, 1, 0xa4beea44), (2, 11, 4, 0x4bdecfa9), (2, 16, 7, 0xf6bb4b60), (2, 23, 10, 0xbebfbc70),
     (2, 4, 13, 0x289b7ec6), (2, 11, 0, 0xeaa127fa), (2, 16, 3, 0xd4ef3085), (2, 23, 6, 0x4881d05),
     (2, 4, 9, 0xd9d4d039), (2, 11, 12, 0xe6db99e5), (2, 16, 15, 0x1fa27cf8), (2, 23, 2, 0xc4ac5665),
     (3, 6, 0, 0xf4292244), (3, 10, 7, 0x432aff97), (3, 15, 14, 0xab9423a7), (3, 21, 5, 0xfc93a039),
     (3, 6, 12, 0x655b59c3), (3, 10, 3, 0x8f0ccc92), (3, 15, 10, 0xffeff47d), (3, 21, 1, 0x85845dd1),
     (3, 6, 8, 0x6fa87e4f), (3, 10, 15, 0xfe2ce6e0), (3, 15, 6, 0xa3014314), (3, 21, 13, 0x4e0811a1),
     (3, 6, 4, 0xf7537e82), (3, 10, 11, 0xbd3af235), (3, 15, 2, 0x2ad7d2bb), (3, 21, 9, 0xeb86d391)]"

type_synonym md_state = "int \<times> int \<times> int \<times> int"

text \<open>
  The round functions, with the choice \<open>(b \<and> c) \<or> (\<not> b \<and> d)\<close> in its form without negation.
\<close>

fun md5_f :: "nat \<Rightarrow> int \<Rightarrow> int \<Rightarrow> int \<Rightarrow> int" where
  "md5_f r b c d =
     (if r = 0 then d XOR (b AND (c XOR d))
      else if r = 1 then c XOR (d AND (b XOR c))
      else if r = 2 then b XOR c XOR d
      else c XOR (b OR (d XOR 0xFFFFFFFF)))"

lemma md5_choice:
  fixes b c d :: int
  shows "d XOR (b AND (c XOR d)) = (b AND c) OR (NOT b AND d)"
  by (rule bit_eqI) (auto simp: bit_simps)

fun md5_step :: "int list \<Rightarrow> nat \<times> nat \<times> nat \<times> int \<Rightarrow> md_state \<Rightarrow> md_state" where
  "md5_step x (r, rot, g, k) (a, b, c, d) =
     (d, low32 (b + rotl32 rot (a + md5_f r b c d + k + x ! g)), b, c)"

fun md_add :: "md_state \<Rightarrow> md_state \<Rightarrow> md_state" where
  "md_add (a, b, c, d) (a', b', c', d') =
     (low32 (a + a'), low32 (b + b'), low32 (c + c'), low32 (d + d'))"

text \<open>Only whole blocks, of sixteen words, are hashed; the padding leaves no other.\<close>

definition md5_block :: "bytes \<Rightarrow> md_state \<Rightarrow> md_state" where
  "md5_block blk s =
     (let x = words_le blk
      in if length x = 16 then md_add s (fold (md5_step x) MD5_STEPS s) else s)"

fun md_out :: "md_state \<Rightarrow> bytes" where
  "md_out (a, b, c, d) = le_bytes 4 a @ le_bytes 4 b @ le_bytes 4 c @ le_bytes 4 d"

definition md5 :: "bytes \<Rightarrow> bytes" where
  "md5 m = md_out (fold md5_block (chunks 64 (pad_le m))
     (0x67452301, 0xEFCDAB89, 0x98BADCFE, 0x10325476))"

text \<open>For evaluation: nothing is hashed before every octet of the message is known.\<close>

lemma md5_code [code]:
  "md5 m =
     (if list_all (\<lambda>b. uint b < 256) m
      then md_out (fold md5_block (chunks 64 (pad_le m))
             (0x67452301, 0xEFCDAB89, 0x98BADCFE, 0x10325476))
      else [])"
proof -
  have "uint b < 256" for b :: byte
    using uint_lt2p [of b] by simp
  then show ?thesis by (simp add: md5_def list_all_iff)
qed

lemma length_md_out [simp]: "length (md_out s) = 16"
  by (cases s) simp

lemma length_md5 [simp, wire_simps]: "length (md5 m) = 16"
  by (simp add: md5_def)

section \<open>HMAC-MD5\<close>

definition hmac_key :: "bytes \<Rightarrow> bytes" where
  "hmac_key k = (let k = (if length k > 64 then md5 k else k) in k @ replicate (64 - length k) 0)"

definition hmac_md5 :: "bytes \<Rightarrow> bytes \<Rightarrow> bytes" where
  "hmac_md5 k m =
     (let key = hmac_key k
      in md5 (map (\<lambda>b. b XOR 0x5C) key @ md5 (map (\<lambda>b. b XOR 0x36) key @ m)))"

lemma length_hmac_md5 [simp, wire_simps]: "length (hmac_md5 k m) = 16"
  by (simp add: hmac_md5_def Let_def)

section \<open>SHA-1\<close>

fun sha1_expand :: "nat \<Rightarrow> 32 word list \<Rightarrow> 32 word list" where
  "sha1_expand 0 w = w"
| "sha1_expand (Suc n) w =
     (let t = length w
      in sha1_expand n
           (w @ [word_rotl 1 (w ! (t - 3) XOR w ! (t - 8) XOR w ! (t - 14) XOR w ! (t - 16))]))"

type_synonym sha_state = "32 word \<times> 32 word \<times> 32 word \<times> 32 word \<times> 32 word"

definition sha1_step :: "nat \<times> 32 word \<Rightarrow> sha_state \<Rightarrow> sha_state" where
  "sha1_step tw s =
     (case tw of (t, w) \<Rightarrow> case s of (a, b, c, d, e) \<Rightarrow>
        let (f, k) =
          (if t < 20 then ((b AND c) OR (NOT b AND d), 0x5A827999)
           else if t < 40 then (b XOR c XOR d, 0x6ED9EBA1)
           else if t < 60 then ((b AND c) OR (b AND d) OR (c AND d), 0x8F1BBCDC)
           else (b XOR c XOR d, 0xCA62C1D6))
        in (word_rotl 5 a + f + e + k + w, a, word_rotl 30 b, c, d))"

definition sha1_block :: "bytes \<Rightarrow> sha_state \<Rightarrow> sha_state" where
  "sha1_block blk s =
     (case s of (a, b, c, d, e) \<Rightarrow>
      case fold sha1_step (zip [0..<80] (sha1_expand 64 (words_be blk))) s of
        (a', b', c', d', e') \<Rightarrow> (a + a', b + b', c + c', d + d', e + e'))"

definition sha1 :: "bytes \<Rightarrow> bytes" where
  "sha1 m =
     (case fold sha1_block (chunks 64 (pad_be m))
             (0x67452301, 0xEFCDAB89, 0x98BADCFE, 0x10325476, 0xC3D2E1F0) of
        (a, b, c, d, e) \<Rightarrow> concat (map (\<lambda>w. be_bytes 4 (uint w)) [a, b, c, d, e]))"

lemma length_sha1 [simp, wire_simps]: "length (sha1 m) = 20"
  by (simp add: sha1_def split: prod.split)

end
