(* ===== verification/Md4.thy ===== *)
theory Md4
  imports Hashes
begin

text \<open>
  \<^verbatim>\<open>pyrad2/_md4.py\<close>: the package's own MD4, written on Python integers that are masked to 32
  bits after every operation, exactly as the source does it. The reference \<open>rfc_md4\<close> is
  RFC 1320 on 32-bit words, with its own word orders and shifts; \<open>md4_correct\<close> proves that the masked integers compute it.
\<close>

section \<open>The code\<close>

definition MASK32 :: int where "MASK32 = 0xFFFFFFFF"

definition md4_F :: "int \<Rightarrow> int \<Rightarrow> int \<Rightarrow> int" where
  "md4_F x y z = ((x AND y) OR ((NOT x AND MASK32) AND z)) AND MASK32"

definition md4_G :: "int \<Rightarrow> int \<Rightarrow> int \<Rightarrow> int" where
  "md4_G x y z = ((x AND y) OR (x AND z) OR (y AND z)) AND MASK32"

definition md4_H :: "int \<Rightarrow> int \<Rightarrow> int \<Rightarrow> int" where
  "md4_H x y z = (x XOR y XOR z) AND MASK32"

definition md4_rotl :: "int \<Rightarrow> nat \<Rightarrow> int" where
  "md4_rotl value shift =
     (let v = value AND MASK32
      in (push_bit shift v OR drop_bit (32 - shift) v) AND MASK32)"

definition ROUND1_S :: "nat list" where "ROUND1_S = [3, 7, 11, 19]"
definition ROUND2_S :: "nat list" where "ROUND2_S = [3, 5, 9, 13]"
definition ROUND3_S :: "nat list" where "ROUND3_S = [3, 9, 11, 15]"
definition ROUND2_K :: "nat list" where
  "ROUND2_K = [0, 4, 8, 12, 1, 5, 9, 13, 2, 6, 10, 14, 3, 7, 11, 15]"
definition ROUND3_K :: "nat list" where
  "ROUND3_K = [0, 8, 4, 12, 2, 10, 6, 14, 1, 9, 5, 13, 3, 11, 7, 15]"

type_synonym md4_ints = "int \<times> int \<times> int \<times> int"

text \<open>
  One pass of the body of a round: \<open>v\<close> is the value the round adds (message word and
  constant), \<open>f\<close> its function; which of the four variables is updated depends on \<open>j % 4\<close>.
\<close>

definition md4_round :: "(int \<Rightarrow> int \<Rightarrow> int \<Rightarrow> int) \<Rightarrow> int \<Rightarrow> nat \<Rightarrow> nat \<Rightarrow> md4_ints \<Rightarrow> md4_ints" where
  "md4_round f v s j st =
     (case st of (a, b, c, d) \<Rightarrow>
        if j mod 4 = 0 then (md4_rotl ((a + f b c d + v) AND MASK32) s, b, c, d)
        else if j mod 4 = 1 then (a, b, c, md4_rotl ((d + f a b c + v) AND MASK32) s)
        else if j mod 4 = 2 then (a, b, md4_rotl ((c + f d a b + v) AND MASK32) s, d)
        else (a, md4_rotl ((b + f c d a + v) AND MASK32) s, c, d))"

definition md4_block :: "bytes \<Rightarrow> md4_ints \<Rightarrow> md4_ints" where
  "md4_block blk st =
     (let x = map le_val (chunks 4 blk);
          r1 = fold (\<lambda>j. md4_round md4_F (x ! j) (ROUND1_S ! (j mod 4)) j) [0..<16] st;
          r2 = fold (\<lambda>j. md4_round md4_G (x ! (ROUND2_K ! j) + 0x5A827999)
                 (ROUND2_S ! (j mod 4)) j) [0..<16] r1;
          r3 = fold (\<lambda>j. md4_round md4_H (x ! (ROUND3_K ! j) + 0x6ED9EBA1)
                 (ROUND3_S ! (j mod 4)) j) [0..<16] r2
      in case st of (a0, b0, c0, d0) \<Rightarrow> case r3 of (a, b, c, d) \<Rightarrow>
           ((a0 + a) AND MASK32, (b0 + b) AND MASK32, (c0 + c) AND MASK32, (d0 + d) AND MASK32))"

text \<open>
  \<^verbatim>\<open>while (len(padded) * 8) % 512 != 448: padded = padded + b"\x00"\<close>: at most 63 zeros are
  added, which \<open>md4_pad_loop\<close> gets as its fuel (\<open>md4_pad_loop_enough\<close>).
\<close>

fun md4_pad_loop :: "nat \<Rightarrow> bytes \<Rightarrow> bytes option" where
  "md4_pad_loop fuel padded =
     (if (length padded * 8) mod 512 = 448 then Some padded
      else case fuel of 0 \<Rightarrow> None | Suc n \<Rightarrow> md4_pad_loop n (padded @ [0]))"

declare md4_pad_loop.simps [simp del]

definition md4 :: "bytes \<Rightarrow> bytes res" where
  "md4 message =
     (case md4_pad_loop 63 (message @ [0x80]) of
        None \<Rightarrow> Inl RuntimeError
      | Some padded \<Rightarrow>
          (let bit_length = 8 * int (length message)
           in if bit_length \<ge> 2 ^ 64 then Inl StructError
              else
                (case fold md4_block (chunks 64 (padded @ le_bytes 8 bit_length))
                        (0x67452301, 0xEFCDAB89, 0x98BADCFE, 0x10325476) of
                   (a0, b0, c0, d0) \<Rightarrow>
                     Inr (le_bytes 4 a0 @ le_bytes 4 b0 @ le_bytes 4 c0 @ le_bytes 4 d0))))"

section \<open>RFC 1320 on words\<close>

definition rfc_F :: "32 word \<Rightarrow> 32 word \<Rightarrow> 32 word \<Rightarrow> 32 word" where
  "rfc_F x y z = (x AND y) OR (NOT x AND z)"

definition rfc_G :: "32 word \<Rightarrow> 32 word \<Rightarrow> 32 word \<Rightarrow> 32 word" where
  "rfc_G x y z = (x AND y) OR (x AND z) OR (y AND z)"

definition rfc_H :: "32 word \<Rightarrow> 32 word \<Rightarrow> 32 word \<Rightarrow> 32 word" where
  "rfc_H x y z = x XOR y XOR z"

type_synonym md4_state = "32 word \<times> 32 word \<times> 32 word \<times> 32 word"

definition rfc_words :: "bytes \<Rightarrow> 32 word list" where
  "rfc_words blk = map (\<lambda>c. word_of_int (le_val c)) (chunks 4 blk)"

definition rfc_out :: "md4_state \<Rightarrow> bytes" where
  "rfc_out s = (case s of (a, b, c, d) \<Rightarrow>
     le_bytes 4 (uint a) @ le_bytes 4 (uint b) @ le_bytes 4 (uint c) @ le_bytes 4 (uint d))"

definition rfc_round ::
    "(32 word \<Rightarrow> 32 word \<Rightarrow> 32 word \<Rightarrow> 32 word) \<Rightarrow> 32 word \<Rightarrow> nat \<Rightarrow> md4_state \<Rightarrow> md4_state" where
  "rfc_round f v s st = (case st of (a, b, c, d) \<Rightarrow> (d, word_rotl s (a + f b c d + v), b, c))"

text \<open>
  The order in which the steps of a round read the sixteen words of the block, and the shifts of
  its four kinds of step, are stated here from the text of the RFC and not from the tables of the
  code: round 2 walks the 4 by 4 arrangement of the words by columns, round 3 takes them in
  bit-reversed order. \<open>round_tables\<close> shows that the tables of the code say the same.
\<close>

definition rfc_order2 :: "nat \<Rightarrow> nat" where
  "rfc_order2 j = 4 * (j mod 4) + j div 4"

definition rfc_order3 :: "nat \<Rightarrow> nat" where
  "rfc_order3 j = 8 * (j mod 2) + 4 * (j div 2 mod 2) + 2 * (j div 4 mod 2) + j div 8"

definition rfc_shift :: "nat \<Rightarrow> nat \<Rightarrow> nat \<Rightarrow> nat \<Rightarrow> nat \<Rightarrow> nat" where
  "rfc_shift s0 s1 s2 s3 j =
     (case j mod 4 of 0 \<Rightarrow> s0 | Suc 0 \<Rightarrow> s1 | Suc (Suc 0) \<Rightarrow> s2 | _ \<Rightarrow> s3)"

definition rfc_md4_block :: "bytes \<Rightarrow> md4_state \<Rightarrow> md4_state" where
  "rfc_md4_block blk st =
     (let x = rfc_words blk;
          r1 = fold (\<lambda>j. rfc_round rfc_F (x ! j) (rfc_shift 3 7 11 19 j)) [0..<16] st;
          r2 = fold (\<lambda>j. rfc_round rfc_G (x ! rfc_order2 j + 0x5A827999)
                 (rfc_shift 3 5 9 13 j)) [0..<16] r1;
          r3 = fold (\<lambda>j. rfc_round rfc_H (x ! rfc_order3 j + 0x6ED9EBA1)
                 (rfc_shift 3 9 11 15 j)) [0..<16] r2
      in case st of (a0, b0, c0, d0) \<Rightarrow> case r3 of (a, b, c, d) \<Rightarrow>
           (a0 + a, b0 + b, c0 + c, d0 + d))"

definition rfc_md4 :: "bytes \<Rightarrow> bytes" where
  "rfc_md4 m = rfc_out (fold rfc_md4_block (chunks 64 (pad_le m))
     (0x67452301, 0xEFCDAB89, 0x98BADCFE, 0x10325476))"

section \<open>Padding\<close>

lemma pad_condition: "(n * 8) mod 512 = 448 \<longleftrightarrow> n mod 64 = 56" for n :: nat
  using mult_mod_left [of n 64 8] by simp linarith

lemma md4_pad_loop_Some:
  "(length p + k) mod 64 = 56 \<Longrightarrow> (\<And>i. i < k \<Longrightarrow> (length p + i) mod 64 \<noteq> 56) \<Longrightarrow> k \<le> fuel \<Longrightarrow>
   md4_pad_loop fuel p = Some (p @ replicate k 0)"
proof (induction k arbitrary: fuel p)
  case 0
  then show ?case by (simp add: md4_pad_loop.simps [of fuel] pad_condition)
next
  case (Suc k)
  then obtain n where fuel: "fuel = Suc n" by (cases fuel) auto
  have "length p mod 64 \<noteq> 56" using Suc.prems(2) [of 0] by simp
  moreover have "md4_pad_loop n (p @ [0]) = Some ((p @ [0]) @ replicate k 0)"
    using Suc.prems Suc.prems(2) [of "Suc _"] fuel by (intro Suc.IH) (auto simp: add.assoc)
  ultimately show ?case
    unfolding fuel md4_pad_loop.simps [of "Suc n"] by (simp add: pad_condition)
qed

lemma int_pad_zeros: "int (pad_zeros n) = (55 - int n) mod 64"
  by (simp add: pad_zeros_def)

lemma pad_zeros_le: "pad_zeros n \<le> 63"
  using int_pad_zeros [of n] by presburger

lemma pad_zeros_first:
  "(n + 1 + pad_zeros n) mod 64 = 56" "i < pad_zeros n \<Longrightarrow> (n + 1 + i) mod 64 \<noteq> 56"
proof -
  have m: "int (n + 1 + k) mod 64 = (56 - (int (pad_zeros n) - int k)) mod 64" for k
  proof -
    let ?q = "(55 - int n) div 64"
    have "56 - (int (pad_zeros n) - int k) = int (n + 1 + k) + ?q * 64"
      using div_mult_mod_eq [of "55 - int n" 64] by (simp only: int_pad_zeros)
    then show ?thesis by (simp only: mod_mult_self1)
  qed
  show "(n + 1 + pad_zeros n) mod 64 = 56"
  proof -
    have "int (n + 1 + pad_zeros n) mod 64 = 56" unfolding m by simp
    then have "int ((n + 1 + pad_zeros n) mod 64) = int 56"
      by (simp only: of_nat_mod of_nat_numeral)
    then show ?thesis by (simp only: of_nat_eq_iff)
  qed
  show "(n + 1 + i) mod 64 \<noteq> 56" if "i < pad_zeros n"
  proof -
    have "int (n + 1 + i) mod 64 \<noteq> 56"
    proof -
      have "(56 - d) mod 64 \<noteq> 56" if "1 \<le> d" "d \<le> 63" for d :: int
        using that by presburger
      then show ?thesis unfolding m using that pad_zeros_le [of n] by simp
    qed
    then show ?thesis by (metis of_nat_mod of_nat_numeral)
  qed
qed

lemma md4_pad_loop_enough:
  "md4_pad_loop 63 (m @ [0x80]) = Some (m @ [0x80] @ replicate (pad_zeros (length m)) 0)"
  using md4_pad_loop_Some [of "m @ [0x80]" "pad_zeros (length m)" 63]
    pad_zeros_first(1) [of "length m"] pad_zeros_first(2) [of _ "length m"]
    pad_zeros_le [of "length m"]
  by simp

section \<open>Masked integers compute words\<close>

lemma MASK32_and: "k AND MASK32 = uint (word_of_int k :: 32 word)"
  using take_bit_eq_mask [of 32 k]
  by (simp add: MASK32_def uint_word_of_int take_bit_eq_mod mask_eq_exp_minus_1)

lemma uint_MASK32 [simp]: "uint (x :: 32 word) AND MASK32 = uint x"
  by (simp add: MASK32_and)

lemma md4_F_uint: "md4_F (uint x) (uint y) (uint z) = uint (rfc_F x y z)"
proof -
  have "NOT (uint x) AND MASK32 = uint (NOT x)"
    using take_bit_eq_mask [of 32 "NOT (uint x)"]
    by (simp add: MASK32_def unsigned_not_eq mask_eq_exp_minus_1)
  then show ?thesis
    by (simp add: md4_F_def rfc_F_def unsigned_and_eq [symmetric] unsigned_or_eq [symmetric])
qed

lemma md4_G_uint: "md4_G (uint x) (uint y) (uint z) = uint (rfc_G x y z)"
  by (simp add: md4_G_def rfc_G_def unsigned_and_eq [symmetric] unsigned_or_eq [symmetric])

lemma md4_H_uint: "md4_H (uint x) (uint y) (uint z) = uint (rfc_H x y z)"
  by (simp add: md4_H_def rfc_H_def unsigned_xor_eq [symmetric])

lemma md4_rotl_uint:
  assumes "0 < s" "s < 32"
  shows "md4_rotl (uint (v :: 32 word)) s = uint (word_rotl s v)"
proof (rule bit_eqI)
  fix n
  let ?u = "uint v"
  have l: "md4_rotl ?u s = take_bit 32 (push_bit s ?u OR drop_bit (32 - s) ?u)"
    by (simp add: md4_rotl_def MASK32_and Let_def uint_word_of_int take_bit_eq_mod)
  have l': "bit (md4_rotl ?u s) n \<longleftrightarrow>
      n < 32 \<and> (s \<le> n \<and> bit v (n - s) \<or> bit v (32 - s + n))"
    unfolding l using assms bit_imp_le_length [of v "n - s"] bit_imp_le_length [of v "32 - s + n"]
    by (auto simp: bit_take_bit_iff bit_or_iff bit_push_bit_iff bit_drop_bit_eq bit_uint_iff)
  have r: "bit (uint (word_rotl s v)) n \<longleftrightarrow> n < 32 \<and> bit v ((n + (32 - s)) mod 32)"
    using assms by (simp add: bit_uint_iff bit_word_rotl_iff)
  show "bit (md4_rotl ?u s) n = bit (uint (word_rotl s v)) n"
  proof (cases "n < s")
    case True
    with assms have "(n + (32 - s)) mod 32 = 32 - s + n" "\<not> s \<le> n" by simp_all
    then show ?thesis unfolding l' r by simp
  next
    case False
    then have "\<not> bit v (32 - s + n)" using assms bit_imp_le_length [of v "32 - s + n"] by auto
    moreover have "(n + (32 - s)) mod 32 = n - s" if "n < 32"
    proof -
      have "n + (32 - s) = 32 + (n - s)" using False assms by simp
      then show ?thesis using that by (simp only: mod_add_self1) simp
    qed
    ultimately show ?thesis unfolding l' r using False by auto
  qed
qed

section \<open>The rounds agree\<close>

definition uints :: "md4_state \<Rightarrow> md4_ints" where
  "uints st = (case st of (a, b, c, d) \<Rightarrow> (uint a, uint b, uint c, uint d))"

text \<open>The source keeps the four variables in place; RFC 1320 rotates their roles.\<close>

definition arrange :: "nat \<Rightarrow> md4_state \<Rightarrow> md4_state" where
  "arrange j st =
     (case st of (a, b, c, d) \<Rightarrow>
        if j mod 4 = 0 then (a, b, c, d)
        else if j mod 4 = 1 then (d, a, b, c)
        else if j mod 4 = 2 then (c, d, a, b)
        else (b, c, d, a))"

lemma md4_round_word:
  assumes f: "\<And>x y z. f (uint x) (uint y) (uint z) = uint (g x y z)" and "0 < s" "s < 32"
  shows "\<exists>st'. md4_round f v s j (uints st) = uints st'
    \<and> arrange (Suc j) st' = rfc_round g (word_of_int v) s (arrange j st)"
proof -
  obtain a b c d where st: "st = (a, b, c, d)" by (cases st)
  have upd: "md4_rotl ((uint x + f (uint y) (uint z) (uint w) + v) AND MASK32) s =
      uint (word_rotl s (x + g y z w + word_of_int v))" for x y z w :: "32 word"
    by (simp add: f MASK32_and md4_rotl_uint assms(2,3))
  have "j mod 4 < 4" by simp
  then consider "j mod 4 = 0" | "j mod 4 = 1" | "j mod 4 = 2" | "j mod 4 = 3" by linarith
  then show ?thesis
  proof cases
    case 1
    then have "Suc j mod 4 = 1" by (simp add: mod_Suc)
    with 1 show ?thesis
      by (intro exI [of _ "(word_rotl s (a + g b c d + word_of_int v), b, c, d)"])
        (simp add: md4_round_def uints_def arrange_def rfc_round_def st upd)
  next
    case 2
    then have "Suc j mod 4 = 2" by (simp add: mod_Suc)
    with 2 show ?thesis
      by (intro exI [of _ "(a, b, c, word_rotl s (d + g a b c + word_of_int v))"])
        (simp add: md4_round_def uints_def arrange_def rfc_round_def st upd)
  next
    case 3
    then have "Suc j mod 4 = 3" by (simp add: mod_Suc)
    with 3 show ?thesis
      by (intro exI [of _ "(a, b, word_rotl s (c + g d a b + word_of_int v), d)"])
        (simp add: md4_round_def uints_def arrange_def rfc_round_def st upd)
  next
    case 4
    then have "Suc j mod 4 = 0" by (simp add: mod_Suc)
    with 4 show ?thesis
      by (intro exI [of _ "(a, word_rotl s (b + g c d a + word_of_int v), c, d)"])
        (simp add: md4_round_def uints_def arrange_def rfc_round_def st upd)
  qed
qed

lemma md4_rounds_word:
  assumes f: "\<And>x y z. f (uint x) (uint y) (uint z) = uint (g x y z)"
    and s: "\<And>j. 0 < s j \<and> s j < 32"
  shows "\<exists>st'. fold (\<lambda>j. md4_round f (v j) (s j) j) [0..<n] (uints st) = uints st'
    \<and> arrange n st' = fold (\<lambda>j. rfc_round g (word_of_int (v j)) (s j)) [0..<n] st"
proof (induction n)
  case 0
  show ?case by (intro exI [of _ st]) (simp add: arrange_def split: prod.split)
next
  case (Suc n)
  then obtain st' where "fold (\<lambda>j. md4_round f (v j) (s j) j) [0..<n] (uints st) = uints st'"
    and "arrange n st' = fold (\<lambda>j. rfc_round g (word_of_int (v j)) (s j)) [0..<n] st" by blast
  then show ?case
    using md4_round_word [of f g "s n" "v n" n st', OF f] s [of n] by auto
qed

lemma arrange_16 [simp]: "arrange 16 st = st"
  by (simp add: arrange_def split: prod.split)

lemma md4_round16_word:
  assumes "\<And>x y z. f (uint x) (uint y) (uint z) = uint (g x y z)"
    and "\<And>j. 0 < s j \<and> s j < 32"
  shows "fold (\<lambda>j. md4_round f (v j) (s j) j) [0..<16] (uints st) =
    uints (fold (\<lambda>j. rfc_round g (word_of_int (v j)) (s j)) [0..<16] st)"
  using md4_rounds_word [of f g s v 16 st, OF assms] by (metis arrange_16)

lemma round_shifts:
  "0 < ROUND1_S ! (j mod 4) \<and> ROUND1_S ! (j mod 4) < 32"
  "0 < ROUND2_S ! (j mod 4) \<and> ROUND2_S ! (j mod 4) < 32"
  "0 < ROUND3_S ! (j mod 4) \<and> ROUND3_S ! (j mod 4) < 32"
proof -
  have "j mod 4 \<in> {0, 1, 2, 3}" using mod_less_divisor [of 4 j] by (simp; linarith)
  then show
    "0 < ROUND1_S ! (j mod 4) \<and> ROUND1_S ! (j mod 4) < 32"
    "0 < ROUND2_S ! (j mod 4) \<and> ROUND2_S ! (j mod 4) < 32"
    "0 < ROUND3_S ! (j mod 4) \<and> ROUND3_S ! (j mod 4) < 32"
    by (auto simp: ROUND1_S_def ROUND2_S_def ROUND3_S_def)
qed

lemma permutations_less:
  "j < 16 \<Longrightarrow> ROUND2_K ! j < 16" "j < 16 \<Longrightarrow> ROUND3_K ! j < 16"
proof -
  have "list_all (\<lambda>k. k < 16) ROUND2_K" "length ROUND2_K = 16"
    "list_all (\<lambda>k. k < 16) ROUND3_K" "length ROUND3_K = 16"
    by (simp_all add: ROUND2_K_def ROUND3_K_def)
  then show "j < 16 \<Longrightarrow> ROUND2_K ! j < 16" "j < 16 \<Longrightarrow> ROUND3_K ! j < 16"
    by (simp_all add: list_all_length)
qed

text \<open>The tables of \<^verbatim>\<open>_md4.py\<close> are those of the RFC.\<close>

lemma round_tables:
  "ROUND1_S ! (j mod 4) = rfc_shift 3 7 11 19 j"
  "ROUND2_S ! (j mod 4) = rfc_shift 3 5 9 13 j"
  "ROUND3_S ! (j mod 4) = rfc_shift 3 9 11 15 j"
  "j < 16 \<Longrightarrow> ROUND2_K ! j = rfc_order2 j"
  "j < 16 \<Longrightarrow> ROUND3_K ! j = rfc_order3 j"
proof -
  have "j mod 4 \<in> {0, 1, 2, 3}" using mod_less_divisor [of 4 j] by (simp; linarith)
  then show "ROUND1_S ! (j mod 4) = rfc_shift 3 7 11 19 j"
    "ROUND2_S ! (j mod 4) = rfc_shift 3 5 9 13 j"
    "ROUND3_S ! (j mod 4) = rfc_shift 3 9 11 15 j"
    by (auto simp: ROUND1_S_def ROUND2_S_def ROUND3_S_def rfc_shift_def numeral_2_eq_2 numeral_3_eq_3)
  have "list_all (\<lambda>j. ROUND2_K ! j = rfc_order2 j \<and> ROUND3_K ! j = rfc_order3 j) [0..<16]"
    by code_simp
  then show "j < 16 \<Longrightarrow> ROUND2_K ! j = rfc_order2 j" "j < 16 \<Longrightarrow> ROUND3_K ! j = rfc_order3 j"
    by (simp_all only: list_all_iff set_upt atLeastLessThan_iff) simp_all
qed

lemma length_chunks_64: "length blk = 64 \<Longrightarrow> length (chunks 4 blk) = 16"
  by (simp add: length_chunks_multiple)

lemma md4_block_word:
  assumes "length blk = 64"
  shows "md4_block blk (uints st) = uints (rfc_md4_block blk st)"
proof -
  let ?x = "map le_val (chunks 4 blk)"
  have x: "word_of_int (?x ! i) = rfc_words blk ! i" if "i < 16" for i
    using that length_chunks_64 [OF assms] by (simp add: rfc_words_def)
  have r1: "fold (\<lambda>j. md4_round md4_F (?x ! j) (ROUND1_S ! (j mod 4)) j) [0..<16] (uints t) =
      uints (fold (\<lambda>j. rfc_round rfc_F (rfc_words blk ! j) (rfc_shift 3 7 11 19 j)) [0..<16] t)" for t
    unfolding md4_round16_word [of md4_F rfc_F "\<lambda>j. ROUND1_S ! (j mod 4)", OF md4_F_uint round_shifts(1)]
    by (intro arg_cong [where f = uints] fold_cong) (simp_all add: x round_tables(1))
  have r2: "fold (\<lambda>j. md4_round md4_G (?x ! (ROUND2_K ! j) + 0x5A827999)
        (ROUND2_S ! (j mod 4)) j) [0..<16] (uints t) =
      uints (fold (\<lambda>j. rfc_round rfc_G (rfc_words blk ! rfc_order2 j + 0x5A827999)
        (rfc_shift 3 5 9 13 j)) [0..<16] t)" for t
    unfolding md4_round16_word [of md4_G rfc_G "\<lambda>j. ROUND2_S ! (j mod 4)", OF md4_G_uint round_shifts(2)]
    by (intro arg_cong [where f = uints] fold_cong)
      (use permutations_less(1) in \<open>simp_all add: x round_tables(2,4)\<close>)
  have r3: "fold (\<lambda>j. md4_round md4_H (?x ! (ROUND3_K ! j) + 0x6ED9EBA1)
        (ROUND3_S ! (j mod 4)) j) [0..<16] (uints t) =
      uints (fold (\<lambda>j. rfc_round rfc_H (rfc_words blk ! rfc_order3 j + 0x6ED9EBA1)
        (rfc_shift 3 9 11 15 j)) [0..<16] t)" for t
    unfolding md4_round16_word [of md4_H rfc_H "\<lambda>j. ROUND3_S ! (j mod 4)", OF md4_H_uint round_shifts(3)]
    by (intro arg_cong [where f = uints] fold_cong)
      (use permutations_less(2) in \<open>simp_all add: x round_tables(3,5)\<close>)
  show ?thesis
    unfolding md4_block_def rfc_md4_block_def Let_def r1 r2 r3
    by (simp add: uints_def MASK32_and split: prod.split)
qed

lemma md4_blocks_word:
  "list_all (\<lambda>blk. length blk = 64) blks \<Longrightarrow>
   fold md4_block blks (uints st) = uints (fold rfc_md4_block blks st)"
  by (induction blks arbitrary: st) (simp_all add: md4_block_word)

lemma md4_is_rfc:
  assumes "8 * int (length m) < 2 ^ 64"
  shows "md4 m = Inr (rfc_md4 m)"
proof -
  have "list_all (\<lambda>blk. length blk = 64) (chunks 64 (pad_le m))"
    using chunks_multiple [of 64 "pad_le m"] pad_le_aligned by (simp add: list_all_iff)
  from md4_blocks_word [OF this, of "(0x67452301, 0xEFCDAB89, 0x98BADCFE, 0x10325476)"]
  have "fold md4_block (chunks 64 (pad_le m))
        (0x67452301, 0xEFCDAB89, 0x98BADCFE, 0x10325476) =
      uints (fold rfc_md4_block (chunks 64 (pad_le m))
        (0x67452301, 0xEFCDAB89, 0x98BADCFE, 0x10325476))"
    by (simp add: uints_def)
  then show ?thesis
    using assms unfolding md4_def rfc_md4_def md4_pad_loop_enough
    by (simp add: pad_le_def uints_def rfc_out_def split: prod.splits)
qed

section \<open>Properties\<close>

text \<open>
  The digest of ``abc'' in the test suite of RFC 1320 (appendix A.5), computed by the code.
\<close>

lemma md4_test_abc:
  "md4 [0x61, 0x62, 0x63] = Inr [0xA4, 0x48, 0x01, 0x7A, 0xAF, 0x21, 0xD8, 0x52,
     0x5F, 0xC1, 0x0A, 0xE8, 0x7A, 0xA6, 0x72, 0x9D]"
  by code_simp

text \<open>
  C32 The package's MD4 on masked Python integers computes MD4 of RFC 1320 on 32-bit words, for
  every message whose bit length fits the 64-bit length field. The reference has its own word
  orders, shifts and rotating variables; it shares with the code only the reading of octets.
\<close>

theorem md4_correct:
  assumes "8 * int (length m) < 2 ^ 64"
  shows "md4 m = Inr (rfc_md4 m)"
  using assms by (rule md4_is_rfc)

lemma md4_correct_witness:
  "md4 [0x61, 0x62, 0x63] = Inr (rfc_md4 [0x61, 0x62, 0x63]) \<and>
   rfc_md4 [0x61, 0x62, 0x63] = [0xA4, 0x48, 0x01, 0x7A, 0xAF, 0x21, 0xD8, 0x52,
     0x5F, 0xC1, 0x0A, 0xE8, 0x7A, 0xA6, 0x72, 0x9D]"
  using md4_correct [of "[0x61, 0x62, 0x63]"] md4_test_abc by simp

end
