(* ===== verification/PyText.thy ===== *)
theory PyText
  imports Prelude
begin

text \<open>
  The Python text operations the package uses. A \<^verbatim>\<open>str\<close> is the list of its code points
  (\<open>ustr\<close>); \<open>u\<close> turns a literal into one. Defined here: the UTF-8 codec with the error
  handlers \<^verbatim>\<open>strict\<close> and \<^verbatim>\<open>ignore\<close> (as CPython does it: an invalid sequence is dropped up to
  the byte that breaks it), \<^verbatim>\<open>split\<close>, \<^verbatim>\<open>join\<close>, \<^verbatim>\<open>strip\<close>, \<^verbatim>\<open>isdecimal\<close>, \<^verbatim>\<open>int(text, base)\<close>,
  hexadecimal output and \<^verbatim>\<open>binascii.unhexlify\<close>.
\<close>

type_synonym ustr = "nat list"

definition u :: "string \<Rightarrow> ustr" where
  "u s = map of_char s"

lemma u_simps [simp]: "u [] = []" "u (c # s) = of_char c # u s"
  by (simp_all add: u_def)

lemma length_u [simp]: "length (u s) = length s"
  by (simp add: u_def)

section \<open>UTF-8\<close>

definition byte_of :: "nat \<Rightarrow> byte" where
  "byte_of n = word_of_nat n"

definition utf8_char :: "nat \<Rightarrow> bytes res" where
  "utf8_char c =
     (if c < 0x80 then Inr [byte_of c]
      else if c < 0x800 then Inr (map byte_of [0xC0 + c div 64, 0x80 + c mod 64])
      else if 0xD800 \<le> c \<and> c < 0xE000 then Inl UnicodeError
      else if c < 0x10000 then
        Inr (map byte_of [0xE0 + c div 4096, 0x80 + c div 64 mod 64, 0x80 + c mod 64])
      else Inr (map byte_of
        [0xF0 + c div 262144, 0x80 + c div 4096 mod 64, 0x80 + c div 64 mod 64, 0x80 + c mod 64]))"

text \<open>\<^verbatim>\<open>s.encode("utf-8")\<close>; lone surrogates raise \<^verbatim>\<open>UnicodeEncodeError\<close>.\<close>

definition utf8_encode :: "ustr \<Rightarrow> bytes res" where
  "utf8_encode s = bindE (mapE utf8_char s) (\<lambda>bss. Inr (concat bss))"

text \<open>
  The lead byte decides how many continuation bytes follow and the range of the first of them
  (no overlong forms, no surrogates, nothing above U+10FFFF).
\<close>

definition utf8_lead :: "nat \<Rightarrow> (nat \<times> nat \<times> nat \<times> nat) option" where
  "utf8_lead x =
     (if 0xC2 \<le> x \<and> x \<le> 0xDF then Some (1, 0x80, 0xBF, x - 0xC0)
      else if x = 0xE0 then Some (2, 0xA0, 0xBF, 0)
      else if x = 0xED then Some (2, 0x80, 0x9F, 0xD)
      else if 0xE1 \<le> x \<and> x \<le> 0xEF then Some (2, 0x80, 0xBF, x - 0xE0)
      else if x = 0xF0 then Some (3, 0x90, 0xBF, 0)
      else if 0xF1 \<le> x \<and> x \<le> 0xF3 then Some (3, 0x80, 0xBF, x - 0xF0)
      else if x = 0xF4 then Some (3, 0x80, 0x8F, 4)
      else None)"

text \<open>\<open>Inr (code point, bytes read)\<close>, or \<open>Inl n\<close>: an ill-formed prefix of \<open>n\<close> bytes.\<close>

fun utf8_tail :: "nat \<Rightarrow> nat \<Rightarrow> nat \<Rightarrow> nat \<Rightarrow> nat \<Rightarrow> bytes \<Rightarrow> nat + nat \<times> nat" where
  "utf8_tail 0 lo hi acc used r = Inr (acc, used)"
| "utf8_tail (Suc n) lo hi acc used [] = Inl used"
| "utf8_tail (Suc n) lo hi acc used (b # r) =
     (if lo \<le> unat b \<and> unat b \<le> hi
      then utf8_tail n 0x80 0xBF (acc * 64 + (unat b - 0x80)) (Suc used) r
      else Inl used)"

fun utf8_step :: "bytes \<Rightarrow> nat + nat \<times> nat" where
  "utf8_step [] = Inl 1"
| "utf8_step (b # r) =
     (if unat b < 0x80 then Inr (unat b, 1)
      else case utf8_lead (unat b) of
        None \<Rightarrow> Inl 1
      | Some (n, lo, hi, acc) \<Rightarrow> utf8_tail n lo hi acc 1 r)"

text \<open>\<^verbatim>\<open>bs.decode("utf-8")\<close>.\<close>

fun utf8_decode :: "bytes \<Rightarrow> ustr res" where
  "utf8_decode [] = Inr []"
| "utf8_decode (b # r) =
     (case utf8_step (b # r) of
        Inl n \<Rightarrow> Inl UnicodeError
      | Inr (c, n) \<Rightarrow> bindE (utf8_decode (drop (n - 1) r)) (\<lambda>s. Inr (c # s)))"

text \<open>\<^verbatim>\<open>bs.decode("utf-8", errors="ignore")\<close>.\<close>

fun utf8_decode_ignore :: "bytes \<Rightarrow> ustr" where
  "utf8_decode_ignore [] = []"
| "utf8_decode_ignore (b # r) =
     (case utf8_step (b # r) of
        Inl n \<Rightarrow> utf8_decode_ignore (drop (n - 1) r)
      | Inr (c, n) \<Rightarrow> c # utf8_decode_ignore (drop (n - 1) r))"

section \<open>Splitting, joining, stripping\<close>

text \<open>\<^verbatim>\<open>s.split(sep)\<close> for a separator of one character.\<close>

fun split_on :: "'a \<Rightarrow> 'a list \<Rightarrow> 'a list list" where
  "split_on d [] = [[]]"
| "split_on d (c # s) =
     (if c = d then [] # split_on d s
      else case split_on d s of [] \<Rightarrow> [[c]] | w # ws \<Rightarrow> (c # w) # ws)"

fun join_with :: "'a list \<Rightarrow> 'a list list \<Rightarrow> 'a list" where
  "join_with sep [] = []"
| "join_with sep [w] = w"
| "join_with sep (w # ws) = w @ sep @ join_with sep ws"

text \<open>\<^verbatim>\<open>c.isspace()\<close>; the ASCII characters are decided first.\<close>

definition isspace :: "nat \<Rightarrow> bool" where
  "isspace c \<longleftrightarrow>
     (if c < 128 then c = 32 \<or> 9 \<le> c \<and> c \<le> 13 \<or> 28 \<le> c \<and> c \<le> 31
      else c \<in> set
        [0x85, 0xa0, 0x1680, 0x2000, 0x2001, 0x2002, 0x2003, 0x2004, 0x2005, 0x2006, 0x2007,
         0x2008, 0x2009, 0x200a, 0x2028, 0x2029, 0x202f, 0x205f, 0x3000])"

definition py_strip :: "ustr \<Rightarrow> ustr" where
  "py_strip s = rev (dropWhile isspace (rev (dropWhile isspace s)))"

definition startswith :: "'a list \<Rightarrow> 'a list \<Rightarrow> bool" where
  "startswith s p \<longleftrightarrow> take (length p) s = p"

section \<open>Digits and numbers\<close>

text \<open>The zero of every block of ten decimal digits (Unicode category Nd) beyond ASCII.\<close>

definition ND_ZEROS :: "nat list" where
  "ND_ZEROS =
    [1632, 1776, 1984, 2406, 2534, 2662, 2790, 2918, 3046, 3174, 3302, 3430, 3558, 3664,
     3792, 3872, 4160, 4240, 6112, 6160, 6470, 6608, 6784, 6800, 6992, 7088, 7232, 7248, 42528,
     43216, 43264, 43472, 43504, 43600, 44016, 65296, 66720, 68912, 69734, 69872, 69942, 70096,
     70384, 70736, 70864, 71248, 71360, 71472, 71904, 72016, 72784, 73040, 73120, 73552, 92768,
     92864, 93008, 120782, 120792, 120802, 120812, 120822, 123200, 123632, 124144, 125264, 130032]"

definition decimal_digit :: "nat \<Rightarrow> nat option" where
  "decimal_digit c =
     (if c < 128 then (if 48 \<le> c \<and> c \<le> 57 then Some (c - 48) else None)
      else
        (case filter (\<lambda>z. z \<le> c \<and> c < z + 10) ND_ZEROS of [] \<Rightarrow> None | z # _ \<Rightarrow> Some (c - z)))"

definition isdecimal :: "ustr \<Rightarrow> bool" where
  "isdecimal s \<longleftrightarrow> s \<noteq> [] \<and> list_all (\<lambda>c. decimal_digit c \<noteq> None) s"

text \<open>\<^verbatim>\<open>int(text, base)\<close> first turns every decimal digit into its ASCII form.\<close>

definition ascii_fold :: "nat \<Rightarrow> nat" where
  "ascii_fold c = (case decimal_digit c of Some d \<Rightarrow> 48 + d | None \<Rightarrow> c)"

definition base_digit :: "nat \<Rightarrow> nat \<Rightarrow> nat option" where
  "base_digit base c =
     (case (if 48 \<le> c \<and> c \<le> 57 then Some (c - 48)
            else if 97 \<le> c \<and> c \<le> 122 then Some (c - 87)
            else if 65 \<le> c \<and> c \<le> 90 then Some (c - 55)
            else None) of
        Some d \<Rightarrow> if d < base then Some d else None
      | None \<Rightarrow> None)"

text \<open>Digits with single underscores between them; \<open>n\<close> counts digits.\<close>

fun int_digits :: "nat \<Rightarrow> int \<Rightarrow> nat \<Rightarrow> ustr \<Rightarrow> (int \<times> nat) option" where
  "int_digits base acc n [] = (if n = 0 then None else Some (acc, n))"
| "int_digits base acc n (c # s) =
     (case base_digit base c of
        Some d \<Rightarrow> int_digits base (acc * int base + int d) (Suc n) s
      | None \<Rightarrow>
          if c = of_char (CHR ''_'') \<and> n \<noteq> 0 then
            (case s of
               [] \<Rightarrow> None
             | c' # s' \<Rightarrow>
                 (case base_digit base c' of
                    None \<Rightarrow> None
                  | Some d \<Rightarrow> int_digits base (acc * int base + int d) (Suc n) s'))
          else None)"

definition has_prefix :: "ustr \<Rightarrow> string \<Rightarrow> string \<Rightarrow> bool" where
  "has_prefix s lo up \<longleftrightarrow> startswith s (u lo) \<or> startswith s (u up)"

text \<open>
  The base and the digits: the prefixes \<^verbatim>\<open>0x\<close>, \<^verbatim>\<open>0o\<close> and \<^verbatim>\<open>0b\<close> are taken when they match the
  base, and decide it when \<open>base = 0\<close>; one underscore may follow a prefix. The flag says that
  only zero is allowed (base 0 and a leading zero).
\<close>

definition int_prefix :: "nat \<Rightarrow> ustr \<Rightarrow> nat \<times> ustr \<times> bool" where
  "int_prefix base s =
     (let hex = has_prefix s ''0x'' ''0X''; oct = has_prefix s ''0o'' ''0O'';
          bin = has_prefix s ''0b'' ''0B'';
          b = (if base \<noteq> 0 then base else if hex then 16 else if oct then 8
               else if bin then 2 else 10);
          skip = (hex \<and> b = 16 \<or> oct \<and> b = 8 \<or> bin \<and> b = 2);
          r = (if skip then drop 2 s else s);
          r = (if skip \<and> startswith r (u ''_'') then drop 1 r else r)
      in (b, r, base = 0 \<and> \<not> skip \<and> startswith s (u ''0'')))"

text \<open>
  \<^verbatim>\<open>int(text, base)\<close>: surrounding whitespace, one sign, a prefix, underscores, any Unicode
  digits; a decimal text of more than 4300 digits is refused.
\<close>

definition py_int :: "nat \<Rightarrow> ustr \<Rightarrow> int res" where
  "py_int base s =
     (let t = map ascii_fold (py_strip s);
          neg = startswith t (u ''-'');
          t = (if neg \<or> startswith t (u ''+'') then drop 1 t else t)
      in case int_prefix base t of (b, r, zero_only) \<Rightarrow>
        (case int_digits b 0 0 r of
           None \<Rightarrow> Inl ValueError
         | Some (x, n) \<Rightarrow>
             if b = 10 \<and> n > 4300 \<or> zero_only \<and> x \<noteq> 0 then Inl ValueError
             else Inr (if neg then - x else x)))"

text \<open>\<^verbatim>\<open>s.split()\<close>: the runs of characters that are not whitespace.\<close>

fun py_words_aux :: "ustr \<Rightarrow> ustr \<Rightarrow> ustr list" where
  "py_words_aux w [] = (if w = [] then [] else [w])"
| "py_words_aux w (c # s) =
     (if isspace c then (if w = [] then [] else [w]) @ py_words_aux [] s
      else py_words_aux (w @ [c]) s)"

definition py_words :: "ustr \<Rightarrow> ustr list" where
  "py_words s = py_words_aux [] s"

text \<open>
  \<^verbatim>\<open>s.upper()\<close> as far as a comparison with an ASCII keyword without \<^verbatim>\<open>SS\<close>, \<^verbatim>\<open>FF\<close>, \<^verbatim>\<open>FI\<close>, \<^verbatim>\<open>FL\<close>
  and \<^verbatim>\<open>ST\<close> can see it: only the ASCII letters, the dotless i and the long s map to an ASCII
  letter.
\<close>

definition upper_char :: "nat \<Rightarrow> nat" where
  "upper_char c =
     (if c < 128 then (if 97 \<le> c \<and> c \<le> 122 then c - 32 else c)
      else if c = 0x131 then 73 else if c = 0x17F then 83 else c)"

definition hex_char :: "nat \<Rightarrow> nat" where
  "hex_char d = (if d < 10 then 48 + d else 87 + d)"

text \<open>\<^verbatim>\<open>bs.hex()\<close>.\<close>

definition hex_byte :: "byte \<Rightarrow> ustr" where
  "hex_byte b = [hex_char (unat b div 16), hex_char (unat b mod 16)]"

definition hex_of :: "bytes \<Rightarrow> ustr" where
  "hex_of bs = concat (map hex_byte bs)"

definition hex_val :: "nat \<Rightarrow> nat option" where
  "hex_val c =
     (if 48 \<le> c \<and> c \<le> 57 then Some (c - 48)
      else if 97 \<le> c \<and> c \<le> 102 then Some (c - 87)
      else if 65 \<le> c \<and> c \<le> 70 then Some (c - 55)
      else None)"

text \<open>
  \<^verbatim>\<open>binascii.unhexlify\<close>: a \<^verbatim>\<open>str\<close> argument has to be ASCII (\<^verbatim>\<open>ValueError\<close>), an odd number of
  digits and a character that is not a digit raise \<^verbatim>\<open>binascii.Error\<close>.
\<close>

fun unhex_pairs :: "nat list \<Rightarrow> bytes res" where
  "unhex_pairs [] = Inr []"
| "unhex_pairs [c] = Inl BinasciiError"
| "unhex_pairs (c # d # s) =
     (case (hex_val c, hex_val d) of
        (Some x, Some y) \<Rightarrow> bindE (unhex_pairs s) (\<lambda>bs. Inr (byte_of (16 * x + y) # bs))
      | _ \<Rightarrow> Inl BinasciiError)"

definition unhexlify_str :: "ustr \<Rightarrow> bytes res" where
  "unhexlify_str s =
     (if list_all (\<lambda>c. c < 128) s
      then (if odd (length s) then Inl BinasciiError else unhex_pairs s)
      else Inl ValueError)"

definition unhexlify_bytes :: "bytes \<Rightarrow> bytes res" where
  "unhexlify_bytes bs =
     (if odd (length bs) then Inl BinasciiError else unhex_pairs (map unat bs))"

text \<open>The decimal digits of a number, as \<^verbatim>\<open>str(n)\<close> prints them.\<close>

fun dec_of :: "nat \<Rightarrow> ustr" where
  "dec_of n = (if n < 10 then [48 + n] else dec_of (n div 10) @ [48 + n mod 10])"

declare dec_of.simps [simp del]

text \<open>The hexadecimal digits of a number, as \<^verbatim>\<open>'%x' % n\<close> prints them.\<close>

fun hexn_of :: "nat \<Rightarrow> ustr" where
  "hexn_of n = (if n < 16 then [hex_char n] else hexn_of (n div 16) @ [hex_char (n mod 16)])"

declare hexn_of.simps [simp del]

section \<open>Round trips\<close>

lemma unat_byte_of [simp]: "n < 256 \<Longrightarrow> unat (byte_of n) = n"
  by (simp add: byte_of_def unat_of_nat)

lemma byte_of_unat [simp]: "byte_of (unat b) = b"
  by (simp add: byte_of_def)

lemma unat_byte_less: "unat (b :: byte) < 256"
  using unsigned_less [of b, where 'a = nat] by simp

lemma hex_val_hex_char: "d < 16 \<Longrightarrow> hex_val (hex_char d) = Some d"
  by (simp add: hex_val_def hex_char_def)

lemma length_hex_of [simp]: "length (hex_of bs) = 2 * length bs"
  by (induction bs) (simp_all add: hex_of_def hex_byte_def)

lemma unhex_pairs_hex_of: "unhex_pairs (hex_of bs) = Inr bs"
proof (induction bs)
  case (Cons b bs)
  have "unat b div 16 < 16" "unat b mod 16 < 16" using unat_byte_less [of b] by simp_all
  with Cons show ?case
    by (simp add: hex_of_def hex_byte_def hex_val_hex_char)
qed (simp add: hex_of_def)

lemma hex_char_less: "d < 16 \<Longrightarrow> hex_char d < 128"
  by (simp add: hex_char_def)

lemma hex_of_ascii: "list_all (\<lambda>c. c < 128) (hex_of bs)"
proof (induction bs)
  case (Cons b bs)
  have "unat b div 16 < 16" "unat b mod 16 < 16" using unat_byte_less [of b] by simp_all
  with Cons show ?case by (simp add: hex_of_def hex_byte_def hex_char_less)
qed (simp add: hex_of_def)

lemma unhexlify_hex_of: "unhexlify_str (hex_of bs) = Inr bs"
  by (simp add: unhexlify_str_def hex_of_ascii unhex_pairs_hex_of)

lemma split_on_nonempty [simp]: "split_on d s \<noteq> []"
  by (induction s) (auto split: list.split)

lemma join_split: "join_with [d] (split_on d s) = s"
proof (induction s)
  case (Cons c s)
  obtain w ws where "split_on d s = w # ws" by (cases "split_on d s") auto
  with Cons show ?case by (cases ws) auto
qed simp

lemma split_on_absent: "d \<notin> set s \<Longrightarrow> split_on d s = [s]"
  by (induction s) auto

lemma split_on_append:
  "d \<notin> set w \<Longrightarrow> split_on d (w @ d # s) = w # split_on d s"
  by (induction w) auto

lemma split_join:
  "ws \<noteq> [] \<Longrightarrow> (\<And>w. w \<in> set ws \<Longrightarrow> d \<notin> set w) \<Longrightarrow> split_on d (join_with [d] ws) = ws"
proof (induction "[d]" ws rule: join_with.induct)
  case (3 w v ws)
  then show ?case by (simp add: split_on_append)
qed (simp_all add: split_on_absent)

text \<open>A Unicode scalar value: not a surrogate, at most U+10FFFF.\<close>

definition scalar :: "nat \<Rightarrow> bool" where
  "scalar c \<longleftrightarrow> c < 0x110000 \<and> \<not> (0xD800 \<le> c \<and> c < 0xE000)"

text \<open>The second byte of a well-formed sequence stays in the range its lead byte allows.\<close>

lemma utf8_three_ranges:
  fixes a b m c :: nat
  assumes "(a * 64 + b) * 64 + m = c" "m < 64" "b < 64"
  shows "a = 0 \<Longrightarrow> 0x800 \<le> c \<Longrightarrow> 32 \<le> b"
    and "a = 13 \<Longrightarrow> c < 0xD800 \<or> 0xE000 \<le> c \<Longrightarrow> b < 32"
proof -
  have c: "c = 4096 * a + 64 * b + m" using assms(1) by simp
  show "a = 0 \<Longrightarrow> 0x800 \<le> c \<Longrightarrow> 32 \<le> b" using assms(2,3) c by linarith
  show "a = 13 \<Longrightarrow> c < 0xD800 \<or> 0xE000 \<le> c \<Longrightarrow> b < 32" using assms(2,3) c by linarith
qed

lemma utf8_four_ranges:
  fixes z a b m c :: nat
  assumes "((z * 64 + a) * 64 + b) * 64 + m = c" "m < 64" "b < 64" "a < 64"
  shows "z = 0 \<Longrightarrow> 0x10000 \<le> c \<Longrightarrow> 16 \<le> a" and "z = 4 \<Longrightarrow> c < 0x110000 \<Longrightarrow> a < 16"
proof -
  have c: "c = 262144 * z + 4096 * a + 64 * b + m" using assms(1) by simp
  show "z = 0 \<Longrightarrow> 0x10000 \<le> c \<Longrightarrow> 16 \<le> a" using assms(2-4) c by linarith
  show "z = 4 \<Longrightarrow> c < 0x110000 \<Longrightarrow> a < 16" using assms(2-4) c by linarith
qed

lemma utf8_step_two:
  assumes "2 \<le> a" "a < 32" "m < 64"
  shows "utf8_step (byte_of (0xC0 + a) # byte_of (0x80 + m) # r) = Inr (a * 64 + m, 2)"
  using assms by (auto simp: utf8_lead_def)

lemma utf8_step_three:
  assumes "a < 16" "b < 64" "m < 64" "a = 0 \<Longrightarrow> 32 \<le> b" "a = 13 \<Longrightarrow> b < 32"
  shows "utf8_step (byte_of (0xE0 + a) # byte_of (0x80 + b) # byte_of (0x80 + m) # r) =
    Inr ((a * 64 + b) * 64 + m, 3)"
  using assms by (auto simp: utf8_lead_def numeral_2_eq_2)

lemma utf8_step_four:
  assumes "z < 5" "a < 64" "b < 64" "m < 64" "z = 0 \<Longrightarrow> 16 \<le> a" "z = 4 \<Longrightarrow> a < 16"
  shows "utf8_step (byte_of (0xF0 + z) # byte_of (0x80 + a) # byte_of (0x80 + b)
      # byte_of (0x80 + m) # r) = Inr (((z * 64 + a) * 64 + b) * 64 + m, 4)"
proof -
  obtain lo hi where "utf8_lead (0xF0 + z) = Some (3, lo, hi, z)" "lo \<le> 0x80 + a" "0x80 + a \<le> hi"
  proof -
    consider "z = 0" | "1 \<le> z" "z \<le> 3" | "z = 4" using assms(1) by linarith
    then show thesis
      using that assms(2,5,6) by cases (simp_all add: utf8_lead_def)
  qed
  then show ?thesis using assms(1-4) by (simp add: numeral_3_eq_3)
qed

lemma utf8_step_char:
  assumes "scalar c"
  obtains bs where "utf8_char c = Inr bs" "bs \<noteq> []" "length bs \<le> 4"
    "\<And>r. utf8_step (bs @ r) = Inr (c, length bs)"
proof -
  consider (a) "c < 0x80" | (b) "0x80 \<le> c" "c < 0x800"
    | (c) "0x800 \<le> c" "c < 0x10000" "c < 0xD800 \<or> 0xE000 \<le> c"
    | (d) "0x10000 \<le> c" "c < 0x110000"
    using assms unfolding scalar_def by linarith
  then show thesis
  proof cases
    case a
    then show thesis by (intro that [of "[byte_of c]"]) (simp_all add: utf8_char_def)
  next
    case b
    then have q: "2 \<le> c div 64" "c div 64 < 32" by (simp_all add: div_less_iff_less_mult
        less_eq_div_iff_mult_less_eq)
    show thesis
    proof (rule that [of "map byte_of [0xC0 + c div 64, 0x80 + c mod 64]"])
      show "utf8_step (map byte_of [0xC0 + c div 64, 0x80 + c mod 64] @ r) =
          Inr (c, length (map byte_of [0xC0 + c div 64, 0x80 + c mod 64]))" for r
        using utf8_step_two [OF q, of "c mod 64" r] by (simp del: utf8_step.simps)
    qed (use b in \<open>auto simp: utf8_char_def\<close>)
  next
    case c
    let ?a = "c div 4096" and ?b = "c div 64 mod 64" and ?m = "c mod 64"
    have q: "?a < 16" using c by (simp add: div_less_iff_less_mult)
    have "c div 64 div 64 = ?a" by (simp add: div_mult2_eq [symmetric])
    then have "?a * 64 + ?b = c div 64" by (metis div_mult_mod_eq)
    then have eq: "(?a * 64 + ?b) * 64 + ?m = c" by (simp add: div_mult_mod_eq)
    note range = utf8_three_ranges [OF eq mod_less_divisor mod_less_divisor, simplified]
    have lo: "32 \<le> ?b" if "?a = 0" using range(1) c that by simp
    have hi: "?b < 32" if "?a = 13" using range(2) c that by simp
    show thesis
    proof (rule that [of "map byte_of [0xE0 + ?a, 0x80 + ?b, 0x80 + ?m]"])
      show "utf8_step (map byte_of [0xE0 + ?a, 0x80 + ?b, 0x80 + ?m] @ r) =
          Inr (c, length (map byte_of [0xE0 + ?a, 0x80 + ?b, 0x80 + ?m]))" for r
        using utf8_step_three [OF q _ _ lo hi, of ?m r] eq by (simp del: utf8_step.simps)
    qed (use c in \<open>auto simp: utf8_char_def\<close>)
  next
    case d
    let ?z = "c div 262144" and ?a = "c div 4096 mod 64" and ?b = "c div 64 mod 64"
      and ?m = "c mod 64"
    have q: "?z < 5" using d by (simp add: div_less_iff_less_mult)
    have "c div 4096 div 64 = ?z" "c div 64 div 64 = c div 4096"
      by (simp_all add: div_mult2_eq [symmetric])
    then have "?z * 64 + ?a = c div 4096" "c div 4096 * 64 + ?b = c div 64"
      by (metis div_mult_mod_eq)+
    then have eq: "((?z * 64 + ?a) * 64 + ?b) * 64 + ?m = c" by (simp add: div_mult_mod_eq)
    note range = utf8_four_ranges
      [OF eq mod_less_divisor mod_less_divisor mod_less_divisor, simplified]
    have lo: "16 \<le> ?a" if "?z = 0" using range(1) d that by simp
    have hi: "?a < 16" if "?z = 4" using range(2) d that by simp
    show thesis
    proof (rule that [of "map byte_of [0xF0 + ?z, 0x80 + ?a, 0x80 + ?b, 0x80 + ?m]"])
      show "utf8_step (map byte_of [0xF0 + ?z, 0x80 + ?a, 0x80 + ?b, 0x80 + ?m] @ r) =
          Inr (c, length (map byte_of [0xF0 + ?z, 0x80 + ?a, 0x80 + ?b, 0x80 + ?m]))" for r
        using utf8_step_four [OF q _ _ _ lo hi, of ?b ?m r] eq by (simp del: utf8_step.simps)
    qed (use d in \<open>auto simp: utf8_char_def\<close>)
  qed
qed

lemma utf8_decode_encode: "list_all scalar s \<Longrightarrow> \<exists>bs. utf8_encode s = Inr bs \<and> utf8_decode bs = Inr s"
proof (induction s)
  case (Cons c s)
  obtain bs where bs: "utf8_char c = Inr bs" "bs \<noteq> []"
    "\<And>r. utf8_step (bs @ r) = Inr (c, length bs)"
    using Cons.prems by (auto elim: utf8_step_char)
  from Cons obtain r where r: "utf8_encode s = Inr r" "utf8_decode r = Inr s" by auto
  from r(1) have "utf8_encode (c # s) = Inr (bs @ r)"
    using bs(1) by (auto simp: utf8_encode_def bindE_eq_Inr)
  moreover obtain b t where bt: "bs = b # t" using bs(2) by (cases bs) auto
  have "utf8_decode (bs @ r) = Inr (c # s)"
    using bs(3) [of r] r(2) by (simp add: bt)
  ultimately show ?case by blast
qed (simp add: utf8_encode_def)

text \<open>Conversely, what the decoder accepts is the one encoding of what it returns.\<close>

lemma utf8_tail_eq:
  "utf8_tail (Suc n) lo hi acc used r = Inr (c, k) \<longleftrightarrow>
   (\<exists>b r'. r = b # r' \<and> lo \<le> unat b \<and> unat b \<le> hi
      \<and> utf8_tail n 0x80 0xBF (acc * 64 + (unat b - 0x80)) (Suc used) r' = Inr (c, k))"
  by (cases r) auto

lemma div_mod_64: "m < 64 \<Longrightarrow> (a * 64 + m) div 64 = a \<and> (a * 64 + m) mod 64 = (m :: nat)"
  by simp

lemma cont_range: "0x80 \<le> x \<Longrightarrow> x \<le> 0xBF \<Longrightarrow> \<exists>m < 64. x = 0x80 + (m :: nat)"
  by (rule exI [of _ "x - 0x80"]) auto

lemma byte_eq: "unat b = n \<Longrightarrow> byte_of n = b"
  by auto

lemma utf8_char_two:
  assumes "2 \<le> a" "a < 32" "m < 64"
  shows "utf8_char (a * 64 + m) = Inr [byte_of (0xC0 + a), byte_of (0x80 + m)]"
  using assms div_mod_64 [of m a] by (simp add: utf8_char_def)

lemma utf8_char_three:
  assumes "a < 16" "b < 64" "m < 64" "a = 0 \<Longrightarrow> 32 \<le> b" "a = 13 \<Longrightarrow> b < 32"
  shows "utf8_char ((a * 64 + b) * 64 + m) = Inr [byte_of (0xE0 + a), byte_of (0x80 + b), byte_of (0x80 + m)]"
proof -
  define c where "c = (a * 64 + b) * 64 + m"
  have d: "c div 64 = a * 64 + b" "c mod 64 = m" using div_mod_64 [OF assms(3), of "a * 64 + b"] by (simp_all add: c_def)
  have "c div 4096 = c div 64 div 64" by (simp add: div_mult2_eq [symmetric])
  then have "c div 4096 = a" using d div_mod_64 [OF assms(2), of a] by simp
  moreover have "c div 64 mod 64 = b" using d div_mod_64 [OF assms(2), of a] by simp
  moreover have "0x800 \<le> c" using assms(4) by (cases "a = 0") (simp_all add: c_def)
  moreover have "c < 0x10000" using assms(1-3) by (simp add: c_def)
  moreover have "\<not> (0xD800 \<le> c \<and> c < 0xE000)"
  proof (cases "a = 13")
    case True
    then show ?thesis using assms(3,5) by (simp add: c_def)
  next
    case False
    then consider "a \<le> 12" | "14 \<le> a" by linarith
    then show ?thesis using assms(2,3) by cases (auto simp: c_def)
  qed
  ultimately have "utf8_char c = Inr [byte_of (0xE0 + a), byte_of (0x80 + b), byte_of (0x80 + m)]"
    using d(2) by (simp add: utf8_char_def)
  then show ?thesis by (simp only: c_def)
qed

lemma utf8_char_four:
  assumes "z < 5" "a < 64" "b < 64" "m < 64" "z = 0 \<Longrightarrow> 16 \<le> a"
  shows "utf8_char (((z * 64 + a) * 64 + b) * 64 + m) =
    Inr [byte_of (0xF0 + z), byte_of (0x80 + a), byte_of (0x80 + b), byte_of (0x80 + m)]"
proof -
  define c where "c = ((z * 64 + a) * 64 + b) * 64 + m"
  have d: "c div 64 = (z * 64 + a) * 64 + b" "c mod 64 = m"
    using div_mod_64 [OF assms(4), of "(z * 64 + a) * 64 + b"] by (simp_all add: c_def)
  have e: "c div 64 div 64 = z * 64 + a" "c div 64 mod 64 = b"
    using d div_mod_64 [OF assms(3), of "z * 64 + a"] by simp_all
  have "c div 4096 = c div 64 div 64" "c div 262144 = c div 64 div 64 div 64"
    by (simp_all add: div_mult2_eq [symmetric])
  then have "c div 262144 = z" "c div 4096 mod 64 = a" using e div_mod_64 [OF assms(2), of z] by simp_all
  moreover have "0x10000 \<le> c" using assms(5) by (cases "z = 0") (simp_all add: c_def)
  ultimately have "utf8_char c = Inr [byte_of (0xF0 + z), byte_of (0x80 + a), byte_of (0x80 + b), byte_of (0x80 + m)]"
    using d(2) e(2) by (simp add: utf8_char_def)
  then show ?thesis by (simp only: c_def)
qed

lemma utf8_step_sound:
  assumes "utf8_step bs = Inr (c, n)"
  shows "0 < n \<and> n \<le> length bs \<and> utf8_char c = Inr (take n bs)"
proof -
  obtain x r where bs: "bs = x # r" using assms by (cases bs) auto
  show ?thesis
  proof (cases "unat x < 0x80")
    case True
    then show ?thesis using assms by (auto simp: bs utf8_char_def)
  next
    case False
    then obtain k lo hi acc where l: "utf8_lead (unat x) = Some (k, lo, hi, acc)"
        "utf8_tail k lo hi acc 1 r = Inr (c, n)"
      using assms by (auto simp: bs split: option.splits)
    consider (two) a where "k = 1" "lo = 0x80" "hi = 0xBF" "acc = a" "unat x = 0xC0 + a" "2 \<le> a" "a < 32"
      | (three) a where "k = 2" "acc = a" "unat x = 0xE0 + a" "a < 16" "a = 0 \<Longrightarrow> lo = 0xA0" "0x80 \<le> lo"
          "hi \<le> 0xBF" "a = 13 \<Longrightarrow> hi = 0x9F"
      | (four) a where "k = 3" "acc = a" "unat x = 0xF0 + a" "a < 5" "a = 0 \<Longrightarrow> lo = 0x90" "0x80 \<le> lo"
          "hi \<le> 0xBF"
      using l(1) that(1) [of "unat x - 0xC0"] that(2) [of "unat x - 0xE0"] that(3) [of "unat x - 0xF0"]
      by (auto simp: utf8_lead_def split: if_splits)
    then show ?thesis
    proof cases
      case (two a)
      obtain b r' where b: "r = b # r'" "0x80 \<le> unat b" "unat b \<le> 0xBF" "c = a * 64 + (unat b - 0x80)" "n = 2"
        using l(2) two by (auto simp: utf8_tail_eq numeral_2_eq_2 One_nat_def simp del: utf8_tail.simps(2,3))
      obtain m where m: "m < 64" "unat b = 0x80 + m" using cont_range [OF b(2,3)] by blast
      show ?thesis using utf8_char_two [OF two(6,7) m(1)] byte_eq [OF two(5)] byte_eq [OF m(2)] b m(2) by (simp add: bs)
    next
      case (three a)
      obtain b1 b2 r' where b: "r = b1 # b2 # r'" "lo \<le> unat b1" "unat b1 \<le> hi" "0x80 \<le> unat b2" "unat b2 \<le> 0xBF"
          "c = (a * 64 + (unat b1 - 0x80)) * 64 + (unat b2 - 0x80)" "n = 3"
        using l(2) three by (auto simp: utf8_tail_eq numeral_2_eq_2 simp del: utf8_tail.simps(2,3))
      obtain m1 where m1: "m1 < 64" "unat b1 = 0x80 + m1" using cont_range [of "unat b1"] b(2,3) three(6,7) by auto
      obtain m2 where m2: "m2 < 64" "unat b2 = 0x80 + m2" using cont_range [OF b(4,5)] by blast
      have "a = 0 \<Longrightarrow> 32 \<le> m1" "a = 13 \<Longrightarrow> m1 < 32" using three(5,8) b(2,3) m1(2) by simp_all
      note ch = utf8_char_three [OF three(4) m1(1) m2(1) this]
      show ?thesis using ch byte_eq [OF three(3)] byte_eq [OF m1(2)] byte_eq [OF m2(2)] b(1,6,7) m1(2) m2(2)
        by (simp add: bs)
    next
      case (four a)
      obtain b1 b2 b3 r' where b: "r = b1 # b2 # b3 # r'" "lo \<le> unat b1" "unat b1 \<le> hi" "0x80 \<le> unat b2"
          "unat b2 \<le> 0xBF" "0x80 \<le> unat b3" "unat b3 \<le> 0xBF" "n = 4"
          "c = ((a * 64 + (unat b1 - 0x80)) * 64 + (unat b2 - 0x80)) * 64 + (unat b3 - 0x80)"
        using l(2) four by (auto simp: utf8_tail_eq numeral_3_eq_3 simp del: utf8_tail.simps(2,3))
      obtain m1 where m1: "m1 < 64" "unat b1 = 0x80 + m1" using cont_range [of "unat b1"] b(2,3) four(6,7) by auto
      obtain m2 where m2: "m2 < 64" "unat b2 = 0x80 + m2" using cont_range [OF b(4,5)] by blast
      obtain m3 where m3: "m3 < 64" "unat b3 = 0x80 + m3" using cont_range [OF b(6,7)] by blast
      have "a = 0 \<Longrightarrow> 16 \<le> m1" using four(5) b(2,3) m1(2) by simp
      note ch = utf8_char_four [OF four(4) m1(1) m2(1) m3(1) this]
      show ?thesis using ch byte_eq [OF four(3)] byte_eq [OF m1(2)] byte_eq [OF m2(2)] byte_eq [OF m3(2)] b(1,8,9)
          m1(2) m2(2) m3(2)
        by (simp add: bs)
    qed
  qed
qed

lemma utf8_encode_decode:
  "utf8_decode bs = Inr s \<Longrightarrow> utf8_encode s = Inr bs"
proof (induction bs arbitrary: s rule: utf8_decode.induct)
  case (2 b r)
  obtain c n t where st: "utf8_step (b # r) = Inr (c, n)" "utf8_decode (drop (n - 1) r) = Inr t" "s = c # t"
    using "2.prems" by (auto simp: bindE_eq_Inr simp del: utf8_step.simps split: sum.splits)
  note snd = utf8_step_sound [OF st(1)]
  have e: "utf8_encode t = Inr (drop (n - 1) r)" by (rule "2.IH" [OF st(1) refl st(2)])
  have "take n (b # r) @ drop (n - 1) r = b # r" using snd by (cases n) auto
  then show ?case using snd e by (auto simp: st(3) utf8_encode_def bindE_eq_Inr)
qed (simp add: utf8_encode_def)

end
