(* ===== verification/IpAddress.thy ===== *)
theory IpAddress
  imports PyText
begin

text \<open>
  The part of Python's \<^verbatim>\<open>ipaddress\<close> module that \<^verbatim>\<open>pyrad2/tools.py\<close> relies on: parsing and
  printing of IPv4 and IPv6 addresses and of networks with a prefix length, an address being
  its integer value. The printed form of an IPv6 address is the one of Python 3.12. Every
  error of the module is a \<^verbatim>\<open>ValueError\<close>.
\<close>

section \<open>IPv4\<close>

definition ascii_digits :: "ustr \<Rightarrow> bool" where
  "ascii_digits s \<longleftrightarrow> s \<noteq> [] \<and> list_all (\<lambda>c. 48 \<le> c \<and> c \<le> 57) s"

definition ascii_int :: "ustr \<Rightarrow> int" where
  "ascii_int s = foldl (\<lambda>a c. a * 10 + (int c - 48)) 0 s"

definition ip4_octet :: "ustr \<Rightarrow> int res" where
  "ip4_octet s =
     (if \<not> ascii_digits s \<or> length s > 3 \<or> (s \<noteq> u ''0'' \<and> hd s = 48) \<or> ascii_int s > 255
      then Inl ValueError else Inr (ascii_int s))"

definition ip4_parse :: "ustr \<Rightarrow> int res" where
  "ip4_parse s =
     (let octets = split_on (of_char (CHR ''.'')) s
      in if of_char (CHR ''/'') \<in> set s \<or> length octets \<noteq> 4 then Inl ValueError
         else bindE (mapE ip4_octet octets) (\<lambda>os. Inr (foldl (\<lambda>a x. a * 256 + x) 0 os)))"

definition ip4_str :: "int \<Rightarrow> ustr" where
  "ip4_str x = join_with (u ''.'')
     (map (\<lambda>b. dec_of (unat b)) (be_bytes 4 x))"

section \<open>IPv6\<close>

definition ip6_hextet :: "ustr \<Rightarrow> int res" where
  "ip6_hextet s =
     (if s = [] \<or> length s > 4 \<or> \<not> list_all (\<lambda>c. hex_val c \<noteq> None) s then Inl ValueError
      else Inr (foldl (\<lambda>a c. a * 16 + (case hex_val c of Some d \<Rightarrow> int d | None \<Rightarrow> 0)) 0 s))"

definition hextets_val :: "int \<Rightarrow> ustr list \<Rightarrow> int res" where
  "hextets_val acc hs =
     bindE (mapE ip6_hextet hs) (\<lambda>xs. Inr (foldl (\<lambda>a x. a * 65536 + x) acc xs))"

text \<open>An IPv4-style suffix becomes two hextets.\<close>

definition ip6_parts :: "ustr \<Rightarrow> ustr list res" where
  "ip6_parts s =
     (let parts = split_on (of_char (CHR '':'')) s
      in if length parts < 3 then Inl ValueError
         else if of_char (CHR ''.'') \<in> set (last parts) then
           bindE (ip4_parse (last parts)) (\<lambda>v.
           Inr (butlast parts @ [hexn_of (nat (v div 65536)), hexn_of (nat (v mod 65536))]))
         else Inr parts)"

definition ip6_val :: "ustr list \<Rightarrow> int res" where
  "ip6_val parts =
     (let n = length parts
      in if n > 9 then Inl ValueError
         else
           (case filter (\<lambda>i. parts ! i = []) [1..<n - 1] of
              [] \<Rightarrow>
                if n \<noteq> 8 \<or> hd parts = [] \<or> last parts = [] then Inl ValueError
                else hextets_val 0 parts
            | [skip] \<Rightarrow>
                (let hi = (if hd parts = [] then skip - 1 else skip);
                     lo = (if last parts = [] then n - skip - 2 else n - skip - 1)
                 in if (hd parts = [] \<and> hi \<noteq> 0) \<or> (last parts = [] \<and> lo \<noteq> 0) \<or> hi + lo > 7
                    then Inl ValueError
                    else
                      bindE (hextets_val 0 (take hi parts)) (\<lambda>x.
                      hextets_val (x * 65536 ^ (8 - (hi + lo))) (drop (n - lo) parts)))
            | _ \<Rightarrow> Inl ValueError))"

text \<open>A scope id (\<^verbatim>\<open>%eth0\<close>) is accepted and does not affect the address value.\<close>

definition ip6_parse :: "ustr \<Rightarrow> int res" where
  "ip6_parse s =
     (if of_char (CHR ''/'') \<in> set s then Inl ValueError
      else
        (case split_on (of_char (CHR ''%'')) s of
           [a] \<Rightarrow> bindE (ip6_parts a) ip6_val
         | [a, scope] \<Rightarrow>
             if scope = [] then Inl ValueError else bindE (ip6_parts a) ip6_val
         | _ \<Rightarrow> Inl ValueError))"

text \<open>\<^verbatim>\<open>_compress_hextets\<close>: the first longest run of zero hextets.\<close>

record zero_scan =
  best_start :: nat
  best_len :: nat
  run_start :: "nat option"
  run_len :: nat

definition zero_scan_step :: "nat \<times> int \<Rightarrow> zero_scan \<Rightarrow> zero_scan" where
  "zero_scan_step ix z =
     (case ix of (index, hextet) \<Rightarrow>
        if hextet = 0 then
          (let len = run_len z + 1;
               start = (case run_start z of None \<Rightarrow> index | Some i \<Rightarrow> i);
               z' = z\<lparr>run_len := len, run_start := Some start\<rparr>
           in if len > best_len z' then z'\<lparr>best_len := len, best_start := start\<rparr> else z')
        else z\<lparr>run_len := 0, run_start := None\<rparr>)"

definition ip6_hextets :: "int \<Rightarrow> int list" where
  "ip6_hextets x = map be_val (chunks 2 (be_bytes 16 x))"

definition ip6_str :: "int \<Rightarrow> ustr" where
  "ip6_str x =
     (let hs = ip6_hextets x;
          z = fold zero_scan_step (enumerate 0 hs)
                \<lparr>best_start = 0, best_len = 0, run_start = None, run_len = 0\<rparr>;
          ws = map (\<lambda>h. hexn_of (nat h)) hs;
          b = best_start z; e = best_start z + best_len z
      in join_with (u '':'')
           (if best_len z > 1
            then (if b = 0 then [[]] else []) @ take b ws @ [[]] @ drop e ws
                 @ (if e = length hs then [[]] else [])
            else ws))"

section \<open>Networks\<close>

definition prefix_mask :: "nat \<Rightarrow> nat \<Rightarrow> int" where
  "prefix_mask width p = (2 ^ width - 1) XOR drop_bit p (2 ^ width - 1)"

fun trailing_zeros :: "nat \<Rightarrow> int \<Rightarrow> nat" where
  "trailing_zeros 0 x = 0"
| "trailing_zeros (Suc n) x = (if odd x then 0 else Suc (trailing_zeros n (x div 2)))"

definition netmask_prefix :: "int \<Rightarrow> nat option" where
  "netmask_prefix x =
     (let tz = (if x = 0 then 32 else trailing_zeros 32 x); p = 32 - tz
      in if drop_bit tz x = 2 ^ p - 1 then Some p else None)"

definition prefix_string :: "nat \<Rightarrow> ustr \<Rightarrow> nat option" where
  "prefix_string width s =
     (if ascii_digits s \<and> ascii_int s \<le> int width then Some (nat (ascii_int s)) else None)"

definition ip4_prefix :: "ustr \<Rightarrow> nat res" where
  "ip4_prefix s =
     (case prefix_string 32 s of
        Some p \<Rightarrow> Inr p
      | None \<Rightarrow>
          bindE (ip4_parse s) (\<lambda>x.
          (case netmask_prefix x of
             Some p \<Rightarrow> Inr p
           | None \<Rightarrow>
               (case netmask_prefix (x XOR (2 ^ 32 - 1)) of
                  Some p \<Rightarrow> Inr p | None \<Rightarrow> Inl ValueError))))"

definition ip6_prefix :: "ustr \<Rightarrow> nat res" where
  "ip6_prefix s = (case prefix_string 128 s of Some p \<Rightarrow> Inr p | None \<Rightarrow> Inl ValueError)"

text \<open>
  A network is its address and prefix length; \<^verbatim>\<open>strict=False\<close> clears the host bits, a strict
  network refuses them.
\<close>

definition ip_net :: "nat \<Rightarrow> bool \<Rightarrow> int \<Rightarrow> int \<Rightarrow> (int \<times> nat) res" where
  "ip_net width strict x p =
     (if p < 0 \<or> p > int width then Inl ValueError
      else
        (let a = x AND prefix_mask width (nat p)
         in if strict \<and> a \<noteq> x then Inl ValueError else Inr (a, nat p)))"

definition ip4_network :: "bool \<Rightarrow> ustr \<Rightarrow> (int \<times> nat) res" where
  "ip4_network strict s =
     (case split_on (of_char (CHR ''/'')) s of
        [a] \<Rightarrow> bindE (ip4_parse a) (\<lambda>x. ip_net 32 strict x 32)
      | [a, m] \<Rightarrow>
          bindE (ip4_parse a) (\<lambda>x. bindE (ip4_prefix m) (\<lambda>p. ip_net 32 strict x (int p)))
      | _ \<Rightarrow> Inl ValueError)"

definition ip6_network :: "bool \<Rightarrow> ustr \<Rightarrow> (int \<times> nat) res" where
  "ip6_network strict s =
     (case split_on (of_char (CHR ''/'')) s of
        [a] \<Rightarrow> bindE (ip6_parse a) (\<lambda>x. ip_net 128 strict x 128)
      | [a, m] \<Rightarrow>
          bindE (ip6_parse a) (\<lambda>x. bindE (ip6_prefix m) (\<lambda>p. ip_net 128 strict x (int p)))
      | _ \<Rightarrow> Inl ValueError)"

definition net_str :: "(int \<Rightarrow> ustr) \<Rightarrow> int \<times> nat \<Rightarrow> ustr" where
  "net_str addr n = addr (fst n) @ u ''/'' @ dec_of (snd n)"

section \<open>Printing then parsing an IPv4 address\<close>

lemma dec_of_less_256:
  assumes "n < 256"
  shows "ip4_octet (dec_of n) = Inr (int n)" "of_char (CHR ''.'') \<notin> set (dec_of n)"
    "of_char (CHR ''/'') \<notin> set (dec_of n)"
proof -
  consider (a) "n < 10" | (b) "10 \<le> n" "n < 100" | (c) "100 \<le> n" using assms by linarith
  then have "ip4_octet (dec_of n) = Inr (int n) \<and> of_char (CHR ''.'') \<notin> set (dec_of n)
      \<and> of_char (CHR ''/'') \<notin> set (dec_of n)"
  proof cases
    case a
    then show ?thesis
      by (auto simp: dec_of.simps [of n] ip4_octet_def ascii_digits_def ascii_int_def)
  next
    case b
    define p q where "p = n div 10" and "q = n mod 10"
    with b have n: "n = 10 * p + q" "1 \<le> p" "p < 10" "q < 10" by simp_all
    have "dec_of n = dec_of p @ [48 + q]"
      using b by (simp add: dec_of.simps [of n] p_def q_def)
    also have "dec_of p = [48 + p]" using n by (simp add: dec_of.simps [of p])
    finally show ?thesis using n b
      by (auto simp: ip4_octet_def ascii_digits_def ascii_int_def)
  next
    case c
    define m where "m = n div 10"
    define p q r where "p = m div 10" and "q = m mod 10" and "r = n mod 10"
    have q': "n div 10 = 10 * p + q" unfolding p_def q_def m_def by simp
    have n: "n = 100 * p + 10 * q + r" using q' div_mult_mod_eq [of n 10] unfolding r_def by simp
    have b: "q < 10" "r < 10" unfolding q_def r_def by simp_all
    have p: "1 \<le> p" "p < 10" using c assms n b by linarith+
    have "dec_of n = dec_of m @ [48 + r]"
      using c by (simp add: dec_of.simps [of n] m_def r_def)
    also have "dec_of m = dec_of p @ [48 + q]"
    proof -
      have "10 \<le> m" using q' p unfolding m_def [symmetric] by linarith
      then show ?thesis by (simp add: dec_of.simps [of m] q_def p_def)
    qed
    also have "dec_of p = [48 + p]" using p by (simp add: dec_of.simps [of p])
    finally show ?thesis using n b p assms
      by (auto simp: ip4_octet_def ascii_digits_def ascii_int_def)
  qed
  then show "ip4_octet (dec_of n) = Inr (int n)" "of_char (CHR ''.'') \<notin> set (dec_of n)"
    "of_char (CHR ''/'') \<notin> set (dec_of n)" by blast+
qed

lemma set_join_with: "set (join_with sep ws) \<subseteq> \<Union> (set ` set ws) \<union> set sep"
  by (induction sep ws rule: join_with.induct) auto

lemma ip4_parse_str:
  assumes "0 \<le> x" "x < 2 ^ 32"
  shows "ip4_parse (ip4_str x) = Inr x"
proof -
  let ?bs = "be_bytes 4 x" and ?d = "\<lambda>b :: byte. dec_of (unat b)"
  have "of_char (CHR ''.'') \<notin> set w" if "w \<in> set (map ?d ?bs)" for w
    using that dec_of_less_256(2) [OF unat_byte_less] by auto
  then have split: "split_on (of_char (CHR ''.'')) (ip4_str x) = map ?d ?bs"
    unfolding ip4_str_def u_simps
    by (intro split_join) (auto simp: length_0_conv [symmetric] simp del: length_0_conv)
  have "set (ip4_str x) \<subseteq> \<Union> (set ` set (map ?d ?bs)) \<union> {46}"
    using set_join_with [of "u ''.''" "map ?d ?bs"] by (simp add: ip4_str_def)
  then have slash: "of_char (CHR ''/'') \<notin> set (ip4_str x)"
    using dec_of_less_256(3) [OF unat_byte_less] by fastforce
  have "mapE ip4_octet (map ?d ?bs) = Inr (map (\<lambda>b. int (unat b)) ?bs)" (is "_ = Inr (map ?i _)")
    unfolding mapE_map by (rule mapE_total) (rule dec_of_less_256(1) [OF unat_byte_less])
  moreover have "foldl (\<lambda>a y. a * 256 + y) c (map ?i bs) = foldl (\<lambda>a b. a * 256 + uint b) c bs"
    for c and bs :: bytes by (induction bs arbitrary: c) simp_all
  moreover have "be_val ?bs = x"
    using assms by (intro be_val_be_bytes_id) simp_all
  ultimately show ?thesis
    using slash unfolding ip4_parse_def split by (simp add: be_val_def)
qed

end
