(* ===== verification/OrderedDict.thy ===== *)
theory OrderedDict
  imports Prelude
begin

text \<open>
  Python dictionaries. \<^verbatim>\<open>dict\<close> and \<^verbatim>\<open>OrderedDict\<close> keep insertion order, and pyrad2 relies on it
  (attribute order on the wire, LRU order of the response cache), so a dictionary is an
  association list in insertion order whose keys are distinct (\<open>od_wf\<close>). Assigning to a key
  that is present keeps its position.

  The locale \<open>dict_like\<close> states what the clients use of a dictionary; \<open>recency_dict\<close> adds
  the two order operations of \<^verbatim>\<open>OrderedDict\<close>. Both are interpreted on the operations below.
\<close>

section \<open>Operations\<close>

type_synonym ('k, 'v) od = "('k \<times> 'v) list"

definition od_get :: "('k, 'v) od \<Rightarrow> 'k \<Rightarrow> 'v option" where
  "od_get d k = map_of d k"

definition od_mem :: "('k, 'v) od \<Rightarrow> 'k \<Rightarrow> bool" where
  "od_mem d k \<longleftrightarrow> od_get d k \<noteq> None"

fun od_set :: "'k \<Rightarrow> 'v \<Rightarrow> ('k, 'v) od \<Rightarrow> ('k, 'v) od" where
  "od_set k v [] = [(k, v)]"
| "od_set k v ((k', v') # d) = (if k = k' then (k, v) # d else (k', v') # od_set k v d)"

definition od_del :: "'k \<Rightarrow> ('k, 'v) od \<Rightarrow> ('k, 'v) od" where
  "od_del k d = filter (\<lambda>kv. fst kv \<noteq> k) d"

definition od_keys :: "('k, 'v) od \<Rightarrow> 'k list" where
  "od_keys d = map fst d"

definition od_wf :: "('k, 'v) od \<Rightarrow> bool" where
  "od_wf d \<longleftrightarrow> distinct (od_keys d)"

text \<open>\<^verbatim>\<open>d.setdefault(k, v)\<close>: the value under \<open>k\<close> and the dictionary.\<close>

definition od_setdefault :: "'k \<Rightarrow> 'v \<Rightarrow> ('k, 'v) od \<Rightarrow> 'v \<times> ('k, 'v) od" where
  "od_setdefault k v d = (case od_get d k of Some w \<Rightarrow> (w, d) | None \<Rightarrow> (v, d @ [(k, v)]))"

definition od_move_to_end :: "'k \<Rightarrow> ('k, 'v) od \<Rightarrow> ('k, 'v) od" where
  "od_move_to_end k d = (case od_get d k of None \<Rightarrow> d | Some v \<Rightarrow> od_del k d @ [(k, v)])"

definition od_pop_first :: "('k, 'v) od \<Rightarrow> ('k, 'v) od" where
  "od_pop_first d = tl d"

section \<open>Interfaces\<close>

lemma length_filter_neq:
  "distinct xs \<Longrightarrow> k \<in> set xs \<Longrightarrow> Suc (length (filter (\<lambda>j. j \<noteq> k) xs)) = length xs"
proof (induction xs)
  case (Cons x xs)
  then show ?case
    by (cases "x = k") (auto intro!: arg_cong [where f = length] simp: filter_id_conv)
qed simp

locale dict_like =
  fixes get :: "'d \<Rightarrow> 'k \<Rightarrow> 'v option"
    and set_item :: "'k \<Rightarrow> 'v \<Rightarrow> 'd \<Rightarrow> 'd"
    and del_item :: "'k \<Rightarrow> 'd \<Rightarrow> 'd"
    and keys :: "'d \<Rightarrow> 'k list"
    and wf :: "'d \<Rightarrow> bool"
  assumes get_set: "get (set_item k v d) = (get d)(k \<mapsto> v)"
    and get_del: "get (del_item k d) = (get d)(k := None)"
    and keys_dom: "set (keys d) = dom (get d)"
    and keys_set: "keys (set_item k v d) = (if get d k = None then keys d @ [k] else keys d)"
    and keys_del: "keys (del_item k d) = filter (\<lambda>j. j \<noteq> k) (keys d)"
    and wf_keys: "wf d \<longleftrightarrow> distinct (keys d)"
begin

lemma wf_set: "wf d \<Longrightarrow> wf (set_item k v d)"
  using keys_dom [of d] by (auto simp: wf_keys keys_set)

lemma wf_del: "wf d \<Longrightarrow> wf (del_item k d)"
  by (simp add: wf_keys keys_del)

lemma get_set_same: "get (set_item k v d) k = Some v"
  by (simp add: get_set)

lemma get_set_other: "j \<noteq> k \<Longrightarrow> get (set_item k v d) j = get d j"
  by (simp add: get_set)

lemma get_del_same: "get (del_item k d) k = None"
  by (simp add: get_del)

lemma get_del_other: "j \<noteq> k \<Longrightarrow> get (del_item k d) j = get d j"
  by (simp add: get_del)

lemma get_None_keys: "get d k = None \<longleftrightarrow> k \<notin> set (keys d)"
  using keys_dom [of d] by auto

lemma length_keys_set:
  "length (keys (set_item k v d)) \<le> Suc (length (keys d))"
  by (simp add: keys_set)

lemma length_keys_del_mem:
  assumes "wf d" "get d k \<noteq> None"
  shows "Suc (length (keys (del_item k d))) = length (keys d)"
proof -
  from assms have "distinct (keys d)" "k \<in> set (keys d)"
    by (simp_all add: wf_keys get_None_keys)
  then show ?thesis
    by (simp add: keys_del length_filter_neq)
qed

end

text \<open>The operations that use the order: oldest first.\<close>

locale recency_dict = dict_like get set_item del_item keys wf
  for get :: "'d \<Rightarrow> 'k \<Rightarrow> 'v option"
    and set_item del_item keys wf +
  fixes to_end :: "'k \<Rightarrow> 'd \<Rightarrow> 'd"
    and pop_first :: "'d \<Rightarrow> 'd"
  assumes get_to_end: "get (to_end k d) = get d"
    and keys_to_end:
      "get d k \<noteq> None \<Longrightarrow> keys (to_end k d) = filter (\<lambda>j. j \<noteq> k) (keys d) @ [k]"
    and to_end_absent: "get d k = None \<Longrightarrow> to_end k d = d"
    and keys_pop: "keys (pop_first d) = tl (keys d)"
    and get_pop: "wf d \<Longrightarrow> k \<in> set (tl (keys d)) \<Longrightarrow> get (pop_first d) k = get d k"
begin

lemma wf_to_end: "wf d \<Longrightarrow> wf (to_end k d)"
  by (cases "get d k = None") (auto simp: wf_keys keys_to_end to_end_absent)

lemma wf_pop: "wf d \<Longrightarrow> wf (pop_first d)"
  by (simp add: wf_keys keys_pop distinct_tl)

lemma last_to_end: "get d k \<noteq> None \<Longrightarrow> last (keys (to_end k d)) = k"
  by (simp add: keys_to_end)

lemma set_keys_to_end: "set (keys (to_end k d)) = set (keys d)"
  by (simp add: keys_dom get_to_end)

lemma length_to_end:
  assumes "wf d"
  shows "length (keys (to_end k d)) = length (keys d)"
  using assms wf_to_end [OF assms, of k] set_keys_to_end [of k d]
  by (metis distinct_card wf_keys)

text \<open>The key just stored and moved to the end survives any pop that leaves an entry.\<close>

lemma newest_survives_pop:
  assumes "wf d" "get d k \<noteq> None" "last (keys d) = k" "1 < length (keys d)"
  shows "get (pop_first d) k = get d k" "last (keys (pop_first d)) = k"
proof -
  from assms(4) obtain a b ks where ks: "keys d = a # b # ks"
    by (cases "keys d" rule: list.exhaust; cases "tl (keys d)") auto
  then have "last (tl (keys d)) = k" using assms(3) by simp
  moreover from ks have "k \<in> set (tl (keys d))"
    using assms(3) by (metis last_ConsR last_in_set list.distinct(1) list.sel(3))
  ultimately show "get (pop_first d) k = get d k" "last (keys (pop_first d)) = k"
    using get_pop [OF assms(1)] by (simp_all add: keys_pop)
qed

end

section \<open>The association lists provide them\<close>

lemma od_get_Nil [simp]: "od_get [] k = None"
  by (simp add: od_get_def)

lemma od_get_Cons [simp]: "od_get ((k', v) # d) k = (if k = k' then Some v else od_get d k)"
  by (simp add: od_get_def)

lemma od_keys_simps [simp]: "od_keys [] = []" "od_keys (kv # d) = fst kv # od_keys d"
  "od_keys (d @ e) = od_keys d @ od_keys e"
  by (simp_all add: od_keys_def)

lemma od_get_set: "od_get (od_set k v d) = (od_get d)(k \<mapsto> v)"
  by (induction k v d rule: od_set.induct) (auto simp: fun_eq_iff)

lemma od_get_append:
  "od_get (d @ e) k = (case od_get d k of Some v \<Rightarrow> Some v | None \<Rightarrow> od_get e k)"
  by (induction d) auto

lemma od_get_filter:
  "od_get (filter (\<lambda>kv. P (fst kv)) d) k = (if P k then od_get d k else None)"
  by (induction d) auto

lemma od_keys_dom: "set (od_keys d) = dom (od_get d)"
  by (induction d) (auto simp: dom_def)

lemma od_keys_filter: "od_keys (filter (\<lambda>kv. P (fst kv)) d) = filter P (od_keys d)"
  by (induction d) auto

lemma od_get_eq_None_iff: "od_get d k = None \<longleftrightarrow> k \<notin> set (od_keys d)"
  using od_keys_dom [of d] by auto

lemma od_keys_set:
  "od_keys (od_set k v d) = (if od_get d k = None then od_keys d @ [k] else od_keys d)"
  by (induction k v d rule: od_set.induct) auto

lemma od_set_absent: "od_get d k = None \<Longrightarrow> od_set k v d = d @ [(k, v)]"
  by (induction k v d rule: od_set.induct) (auto split: if_splits)

lemma od_get_tl: "distinct (od_keys d) \<Longrightarrow> k \<in> set (tl (od_keys d)) \<Longrightarrow> od_get (tl d) k = od_get d k"
  by (cases d) auto

lemma od_get_del: "od_get (od_del k d) = (od_get d)(k := None)"
  unfolding od_del_def by (induction d) (auto simp: fun_eq_iff)

lemma od_keys_del: "od_keys (od_del k d) = filter (\<lambda>j. j \<noteq> k) (od_keys d)"
  unfolding od_del_def by (induction d) auto

interpretation od: dict_like od_get od_set od_del od_keys od_wf
  by unfold_locales
    (auto simp: od_get_set od_keys_dom od_keys_set od_wf_def od_get_del od_keys_del)

interpretation odr: recency_dict od_get od_set od_del od_keys od_wf od_move_to_end od_pop_first
proof unfold_locales
  fix k :: 'k and d :: "('k, 'v) od"
  show "od_get (od_move_to_end k d) = od_get d"
    by (auto simp: od_move_to_end_def od_get_append od_get_del fun_eq_iff split: option.splits)
next
  fix k :: 'k and d :: "('k, 'v) od"
  show "od_keys (od_pop_first d) = tl (od_keys d)"
    by (simp add: od_pop_first_def od_keys_def map_tl)
next
  fix k :: 'k and d :: "('k, 'v) od"
  assume "od_wf d" "k \<in> set (tl (od_keys d))"
  then show "od_get (od_pop_first d) k = od_get d k"
    by (simp add: od_wf_def od_pop_first_def od_get_tl)
qed (auto simp: od_move_to_end_def od_keys_del split: option.splits)

lemmas od_lookup_simps = od.get_set_same od.get_set_other od.get_del_same od.get_del_other

lemma od_mem_iff: "od_mem d k \<longleftrightarrow> k \<in> set (od_keys d)"
  by (simp add: od_mem_def od_get_eq_None_iff)

lemma od_get_setdefault:
  "od_get (snd (od_setdefault k v d)) j =
     (if j = k \<and> od_get d k = None then Some v else od_get d j)"
  by (auto simp: od_setdefault_def od_get_append split: option.splits)

lemma od_wf_append: "od_wf d \<Longrightarrow> od_get d k = None \<Longrightarrow> od_wf (d @ [(k, v)])"
  by (simp add: od_wf_def od_get_eq_None_iff)

lemma od_wf_Nil [simp]: "od_wf []"
  by (simp add: od_wf_def)

lemma od_del_absent: "od_get d k = None \<Longrightarrow> od_del k d = d"
  by (induction d) (auto simp: od_del_def split: if_splits)

lemma length_od_keys [simp]: "length (od_keys d) = length d"
  by (simp add: od_keys_def)

end
