(* ===== verification/Tools.thy ===== *)
theory Tools
  imports IpAddress OrderedDict
begin

text \<open>
  \<^verbatim>\<open>pyrad2/tools.py\<close>: the codecs between Python values and attribute octets. \<open>pyval\<close> is the
  union of the value types the codecs distinguish (\<^verbatim>\<open>None\<close>, \<^verbatim>\<open>int\<close>, \<^verbatim>\<open>str\<close>, \<^verbatim>\<open>bytes\<close>, and the
  address and network objects of \<^verbatim>\<open>ipaddress\<close>; the netaddr objects are not modelled). A
  \<^verbatim>\<open>struct\<close> format is its signedness and width.
\<close>

datatype pyval =
    PNone
  | PInt int
  | PStr ustr
  | PBytes bytes
  | PIPv4 int
  | PIPv6 int
  | PNet4 "int \<times> nat"
  | PNet6 "int \<times> nat"

section \<open>Encoding\<close>

definition encode_string :: "pyval \<Rightarrow> pyval res" where
  "encode_string v =
     (case v of
        PNone \<Rightarrow> Inr (PBytes [])
      | PStr s \<Rightarrow>
          if length s > 253 then Inl ValueError
          else bindE (utf8_encode s) (\<lambda>bs. Inr (PBytes bs))
      | PBytes bs \<Rightarrow> if length bs > 253 then Inl ValueError else Inr v
      | _ \<Rightarrow> Inl TypeError)"

text \<open>\<open>before_sub p s\<close>: the part of \<open>s\<close> before the first occurrence of \<open>p\<close>.\<close>

fun before_sub :: "'a list \<Rightarrow> 'a list \<Rightarrow> 'a list" where
  "before_sub p [] = []"
| "before_sub p (x # s) = (if startswith (x # s) p then [] else x # before_sub p s)"

definition hex_capped :: "bytes \<Rightarrow> pyval res" where
  "hex_capped bs = (if length bs > 253 then Inl ValueError else Inr (PBytes bs))"

definition hex_prefix :: "bytes" where
  "hex_prefix = [0x30, 0x78]"

definition encode_octets :: "pyval \<Rightarrow> pyval res" where
  "encode_octets v =
     (case v of
        PNone \<Rightarrow> Inr (PBytes [])
      | PBytes bs \<Rightarrow>
          if startswith bs hex_prefix
          then bindE (unhexlify_bytes (before_sub hex_prefix (drop 2 bs))) hex_capped
          else Inr v
      | PStr s \<Rightarrow>
          if startswith s (u ''0x'')
          then bindE (unhexlify_str (before_sub (u ''0x'') (drop 2 s))) hex_capped
          else if isdecimal s then
            bindE (py_int 10 s) (\<lambda>n.
            bindE (pack_uint 4 n) (\<lambda>bs. Inr (PBytes (dropWhile (\<lambda>b. b = 0) bs))))
          else Inr v
      | _ \<Rightarrow> Inr v)"

definition encode_address :: "pyval \<Rightarrow> pyval res" where
  "encode_address v =
     (case v of
        PStr s \<Rightarrow> bindE (ip4_parse s) (\<lambda>x. Inr (PBytes (be_bytes 4 x)))
      | _ \<Rightarrow> Inl TypeError)"

text \<open>\<^verbatim>\<open>ip_network(addr, strict=False)\<close>: IPv4 is tried first; \<open>Inl\<close> is an IPv4 network.\<close>

definition ip_network :: "ustr \<Rightarrow> ((int \<times> nat) + (int \<times> nat)) res" where
  "ip_network s =
     (case ip4_network False s of
        Inr n \<Rightarrow> Inr (Inl n)
      | Inl _ \<Rightarrow> bindE (ip6_network False s) (\<lambda>n. Inr (Inr n)))"

definition pack_prefix :: "nat \<Rightarrow> int \<times> nat \<Rightarrow> pyval res" where
  "pack_prefix w n =
     bindE (pack_uint 1 (int (snd n))) (\<lambda>l. Inr (PBytes ([0] @ l @ be_bytes w (fst n))))"

definition encode_ipv6_prefix :: "pyval \<Rightarrow> pyval res" where
  "encode_ipv6_prefix v =
     bindE
       (case v of
          PNet6 n \<Rightarrow> Inr (Inr n)
        | PIPv6 x \<Rightarrow> bindE (ip_net 128 False x 128) (\<lambda>n. Inr (Inr n))
        | PStr s \<Rightarrow>
            if of_char (CHR ''/'') \<in> set s then ip_network s
            else bindE (ip6_parse s) (\<lambda>x.
                 bindE (ip_net 128 False x 128) (\<lambda>n. Inr (Inr n)))
        | _ \<Rightarrow> Inl TypeError)
       (\<lambda>net. case net of Inl _ \<Rightarrow> Inl ValueError | Inr n \<Rightarrow> pack_prefix 16 n)"

definition encode_ipv4_prefix :: "pyval \<Rightarrow> pyval res" where
  "encode_ipv4_prefix v =
     bindE
       (case v of
          PNet4 n \<Rightarrow> Inr (Inl n)
        | PIPv4 x \<Rightarrow> bindE (ip_net 32 False x 32) (\<lambda>n. Inr (Inl n))
        | PStr s \<Rightarrow>
            if of_char (CHR ''/'') \<in> set s then ip_network s
            else bindE (ip4_parse s) (\<lambda>x.
                 bindE (ip_net 32 False x 32) (\<lambda>n. Inr (Inl n)))
        | _ \<Rightarrow> Inl TypeError)
       (\<lambda>net. case net of Inr _ \<Rightarrow> Inl ValueError | Inl n \<Rightarrow> pack_prefix 4 n)"

definition encode_ipv6_address :: "pyval \<Rightarrow> pyval res" where
  "encode_ipv6_address v =
     (case v of
        PIPv6 x \<Rightarrow> Inr (PBytes (be_bytes 16 x))
      | PStr s \<Rightarrow> bindE (ip6_parse s) (\<lambda>x. Inr (PBytes (be_bytes 16 x)))
      | _ \<Rightarrow> Inl TypeError)"

text \<open>\<^verbatim>\<open>ip_address(text)\<close>: IPv4 is tried first.\<close>

definition ip_address_packed :: "ustr \<Rightarrow> bytes res" where
  "ip_address_packed s =
     (case ip4_parse s of
        Inr x \<Rightarrow> Inr (be_bytes 4 x)
      | Inl _ \<Rightarrow> bindE (ip6_parse s) (\<lambda>x. Inr (be_bytes 16 x)))"

definition encode_combo_ip :: "pyval \<Rightarrow> pyval res" where
  "encode_combo_ip v =
     (case v of
        PIPv4 x \<Rightarrow> Inr (PBytes (be_bytes 4 x))
      | PIPv6 x \<Rightarrow> Inr (PBytes (be_bytes 16 x))
      | PStr s \<Rightarrow> bindE (ip_address_packed s) (\<lambda>bs. Inr (PBytes bs))
      | _ \<Rightarrow> Inl TypeError)"

text \<open>\<^verbatim>\<open>try: ... except (ValueError, OverflowError): raise ValueError\<close>.\<close>

definition value_error :: "'a res \<Rightarrow> 'a res" where
  "value_error r =
     (case r of Inl e \<Rightarrow> Inl (if e = OverflowError then ValueError else e) | Inr x \<Rightarrow> Inr x)"

definition encode_ifid :: "pyval \<Rightarrow> pyval res" where
  "encode_ifid v =
     (case v of
        PBytes bs \<Rightarrow> if length bs \<noteq> 8 then Inl ValueError else Inr v
      | PStr s \<Rightarrow>
          (let groups = split_on (of_char (CHR '':'')) s
           in if length groups \<noteq> 4 then Inl ValueError
              else bindE (value_error (mapE (\<lambda>g. bindE (py_int 16 g) (int_to_bytes 2)) groups))
                     (\<lambda>bss. Inr (PBytes (concat bss))))
      | _ \<Rightarrow> Inl TypeError)"

definition encode_ether :: "pyval \<Rightarrow> pyval res" where
  "encode_ether v =
     (case v of
        PBytes bs \<Rightarrow> if length bs \<noteq> 6 then Inl ValueError else Inr v
      | PStr s \<Rightarrow>
          (let colon = of_char (CHR '':'');
               parts = split_on colon (map (\<lambda>c. if c = of_char (CHR ''-'') then colon else c) s)
           in if length parts \<noteq> 6 then Inl ValueError
              else bindE (mapE (\<lambda>b. bindE (py_int 16 b)
                       (\<lambda>x. if 0 \<le> x \<and> x < 256 then Inr (word_of_int x) else Inl ValueError)) parts)
                     (\<lambda>bs. Inr (PBytes bs)))
      | _ \<Rightarrow> Inl TypeError)"

text \<open>\<^verbatim>\<open>int(num)\<close>; a \<^verbatim>\<open>bytes\<close> argument is parsed as ASCII text.\<close>

definition py_int_of :: "pyval \<Rightarrow> int res" where
  "py_int_of v =
     (case v of
        PInt x \<Rightarrow> Inr x
      | PStr s \<Rightarrow> py_int 10 s
      | PBytes bs \<Rightarrow>
          (let s = map unat bs
           in if list_all (\<lambda>c. c < 128 \<and> \<not> (0x1c \<le> c \<and> c \<le> 0x1f)) s then py_int 10 s
              else Inl ValueError)
      | PIPv4 x \<Rightarrow> Inr x
      | PIPv6 x \<Rightarrow> Inr x
      | _ \<Rightarrow> Inl TypeError)"

definition pack_int :: "bool \<Rightarrow> nat \<Rightarrow> int \<Rightarrow> bytes res" where
  "pack_int sg n x = (if sg then pack_sint n x else pack_uint n x)"

definition encode_integer :: "bool \<Rightarrow> nat \<Rightarrow> pyval \<Rightarrow> pyval res" where
  "encode_integer sg n v =
     (case py_int_of v of
        Inl _ \<Rightarrow> Inl TypeError
      | Inr x \<Rightarrow> bindE (pack_int sg n x) (\<lambda>bs. Inr (PBytes bs)))"

definition encode_date :: "pyval \<Rightarrow> pyval res" where
  "encode_date v =
     (case v of
        PInt x \<Rightarrow> bindE (pack_uint 4 x) (\<lambda>bs. Inr (PBytes bs))
      | _ \<Rightarrow> Inl TypeError)"

section \<open>Ascend binary filters\<close>

definition abinary_defaults :: "(ustr, bytes) od" where
  "abinary_defaults =
    [(u ''family'', [1]), (u ''action'', [0]), (u ''direction'', [1]), (u ''src'', [0, 0, 0, 0]),
     (u ''dst'', [0, 0, 0, 0]), (u ''srcl'', [0]), (u ''dstl'', [0]), (u ''proto'', [0]),
     (u ''sport'', [0, 0]), (u ''dport'', [0, 0]), (u ''sportq'', [0]), (u ''dportq'', [0])]"

definition widen :: "ustr \<Rightarrow> (ustr, bytes) od \<Rightarrow> (ustr, bytes) od" where
  "widen k terms =
     (if od_get terms k = Some [0, 0, 0, 0] then od_set k (replicate 16 0) terms else terms)"

text \<open>One pass of the loop; the state is the family seen so far (\<open>True\<close>: IPv6) and the terms.\<close>

definition abinary_term ::
    "ustr \<Rightarrow> bool \<times> (ustr, bytes) od \<Rightarrow> (bool \<times> (ustr, bytes) od) res" where
  "abinary_term t st =
     (case st of (v6, terms) \<Rightarrow>
      case split_on (of_char (CHR ''='')) t of
        [key, value] \<Rightarrow>
          if key = u ''family'' \<and> value = u ''ipv6'' then
            Inr (True, widen (u ''dst'') (widen (u ''src'') (od_set key [3] terms)))
          else if key = u ''action'' \<and> value = u ''accept'' then Inr (v6, od_set key [1] terms)
          else if key = u ''action'' \<and> value = u ''redirect'' then Inr (v6, od_set key [0x20] terms)
          else if key = u ''direction'' \<and> value = u ''out'' then Inr (v6, od_set key [0] terms)
          else if key = u ''src'' \<or> key = u ''dst'' then
            bindE (if v6 then ip6_network True value else ip4_network True value) (\<lambda>net.
            bindE (pack_uint 1 (int (snd net))) (\<lambda>l.
            Inr (v6, od_set (key @ u ''l'') l
                       (od_set key (be_bytes (if v6 then 16 else 4) (fst net)) terms))))
          else if key = u ''sport'' \<or> key = u ''dport'' then
            bindE (py_int 10 value) (\<lambda>x. bindE (pack_uint 2 x) (\<lambda>bs. Inr (v6, od_set key bs terms)))
          else if key = u ''sportq'' \<or> key = u ''dportq'' \<or> key = u ''proto'' then
            bindE (py_int 10 value) (\<lambda>x. bindE (pack_uint 1 x) (\<lambda>bs. Inr (v6, od_set key bs terms)))
          else Inr (v6, terms)
      | _ \<Rightarrow> Inl ValueError)"

definition abinary_get :: "(ustr, bytes) od \<Rightarrow> string \<Rightarrow> bytes" where
  "abinary_get terms k = (case od_get terms (u k) of Some bs \<Rightarrow> bs | None \<Rightarrow> [])"

definition encode_ascend_binary :: "pyval \<Rightarrow> pyval res" where
  "encode_ascend_binary v =
     (case v of
        PStr s \<Rightarrow>
          if py_strip s = u ''delete'' then Inr (PBytes (replicate 8 0))
          else
            bindE (foldE abinary_term (split_on (of_char (CHR '' '')) s) (False, abinary_defaults))
              (\<lambda>(v6, terms).
               let g = abinary_get terms
               in Inr (PBytes
                    (g ''family'' @ g ''action'' @ g ''direction'' @ [0] @ g ''src'' @ g ''dst''
                     @ g ''srcl'' @ g ''dstl'' @ g ''proto'' @ [0] @ g ''sport'' @ g ''dport''
                     @ g ''sportq'' @ g ''dportq'' @ [0, 0] @ replicate 8 0)))
      | PBytes _ \<Rightarrow> Inl TypeError
      | _ \<Rightarrow> Inl AttributeError)"

section \<open>Decoding\<close>

definition decode_string :: "bytes \<Rightarrow> pyval" where
  "decode_string bs = PStr (case utf8_decode bs of Inr s \<Rightarrow> s | Inl _ \<Rightarrow> hex_of bs)"

definition decode_octets :: "bytes \<Rightarrow> pyval" where
  "decode_octets bs = PBytes bs"

definition decode_ascend_binary :: "bytes \<Rightarrow> pyval" where
  "decode_ascend_binary bs = PBytes bs"

definition decode_address :: "bytes \<Rightarrow> pyval res" where
  "decode_address bs =
     (if length bs = 4 then Inr (PStr (ip4_str (be_val bs)))
      else if length bs = 16 then Inr (PStr (ip6_str (be_val bs)))
      else Inl ValueError)"

definition decode_ipv6_prefix :: "bytes \<Rightarrow> pyval res" where
  "decode_ipv6_prefix bs =
     (let addr = bs @ replicate (18 - length bs) 0
      in bindE (ip_net 128 False (be_val (py_slice addr 2 18)) (uint (addr ! 1))) (\<lambda>n.
         Inr (PStr (net_str ip6_str n))))"

definition decode_ipv4_prefix :: "bytes \<Rightarrow> pyval res" where
  "decode_ipv4_prefix bs =
     (if length bs < 2 then Inl ValueError
      else
        (let addr = bs @ replicate (6 - length bs) 0
         in bindE (ip_net 32 False (be_val (py_slice addr 2 6)) (uint (addr ! 1))) (\<lambda>n.
            Inr (PStr (net_str ip4_str n)))))"

definition decode_ipv6_address :: "bytes \<Rightarrow> pyval res" where
  "decode_ipv6_address bs =
     (let addr = bs @ replicate (16 - length bs) 0
      in if length addr \<noteq> 16 then Inl ValueError else Inr (PStr (ip6_str (be_val addr))))"

definition decode_combo_ip :: "bytes \<Rightarrow> pyval res" where
  "decode_combo_ip bs =
     (if length bs = 4 then Inr (PStr (ip4_str (be_val bs)))
      else if length bs = 16 then Inr (PStr (ip6_str (be_val bs)))
      else Inl ValueError)"

definition unpack_int :: "bool \<Rightarrow> nat \<Rightarrow> bytes \<Rightarrow> int res" where
  "unpack_int sg n bs = (if sg then unpack_sint n bs else unpack_uint n bs)"

definition decode_integer :: "bool \<Rightarrow> nat \<Rightarrow> bytes \<Rightarrow> pyval res" where
  "decode_integer sg n bs = bindE (unpack_int sg n bs) (\<lambda>x. Inr (PInt x))"

definition decode_ifid :: "bytes \<Rightarrow> pyval res" where
  "decode_ifid bs =
     (if length bs \<noteq> 8 then Inl ValueError
      else Inr (PStr (join_with (u '':'') (map hex_of (chunks 2 bs)))))"

definition decode_ether :: "bytes \<Rightarrow> pyval res" where
  "decode_ether bs =
     (if length bs \<noteq> 6 then Inl ValueError
      else Inr (PStr (join_with (u '':'') (map hex_byte bs))))"

section \<open>Dispatch on the data type\<close>

definition encode_attr :: "string \<Rightarrow> pyval \<Rightarrow> pyval res" where
  "encode_attr datatype v =
     (if datatype = ''string'' then encode_string v
      else if datatype = ''octets'' then encode_octets v
      else if datatype = ''integer'' then encode_integer False 4 v
      else if datatype = ''ipaddr'' then encode_address v
      else if datatype = ''ipv6prefix'' then encode_ipv6_prefix v
      else if datatype = ''ipv4prefix'' then encode_ipv4_prefix v
      else if datatype = ''ipv6addr'' then encode_ipv6_address v
      else if datatype = ''combo-ip'' then encode_combo_ip v
      else if datatype = ''abinary'' then encode_ascend_binary v
      else if datatype = ''signed'' then encode_integer True 4 v
      else if datatype = ''short'' then encode_integer False 2 v
      else if datatype = ''byte'' then encode_integer False 1 v
      else if datatype = ''date'' then encode_date v
      else if datatype = ''integer64'' then encode_integer False 8 v
      else if datatype = ''ifid'' then encode_ifid v
      else if datatype = ''ether'' then encode_ether v
      else Inl ValueError)"

definition decode_bytes :: "string \<Rightarrow> bytes \<Rightarrow> pyval res" where
  "decode_bytes datatype bs =
     (if datatype = ''string'' then Inr (decode_string bs)
      else if datatype = ''octets'' then Inr (decode_octets bs)
      else if datatype = ''integer'' then decode_integer False 4 bs
      else if datatype = ''ipaddr'' then decode_address bs
      else if datatype = ''ipv6prefix'' then decode_ipv6_prefix bs
      else if datatype = ''ipv4prefix'' then decode_ipv4_prefix bs
      else if datatype = ''ipv6addr'' then decode_ipv6_address bs
      else if datatype = ''combo-ip'' then decode_combo_ip bs
      else if datatype = ''abinary'' then Inr (decode_ascend_binary bs)
      else if datatype = ''signed'' then decode_integer True 4 bs
      else if datatype = ''short'' then decode_integer False 2 bs
      else if datatype = ''byte'' then decode_integer False 1 bs
      else if datatype = ''date'' then decode_integer False 4 bs
      else if datatype = ''integer64'' then decode_integer False 8 bs
      else if datatype = ''ifid'' then decode_ifid bs
      else if datatype = ''ether'' then decode_ether bs
      else Inl ValueError)"

text \<open>
  A value that is not \<^verbatim>\<open>bytes\<close> can only be decoded where a caller stored it raw; every codec
  then fails in its own way, but for the pass-through types and \<^verbatim>\<open>ip_address\<close>, which also takes
  text, integers and addresses.
\<close>

definition decode_address_any :: "pyval \<Rightarrow> pyval res" where
  "decode_address_any v =
     (case v of
        PBytes bs \<Rightarrow> decode_address bs
      | PStr s \<Rightarrow>
          (case ip4_parse s of
             Inr x \<Rightarrow> Inr (PStr (ip4_str x))
           | Inl _ \<Rightarrow> bindE (ip6_parse s) (\<lambda>x. Inr (PStr (ip6_str x))))
      | PInt x \<Rightarrow>
          if 0 \<le> x \<and> x < 2 ^ 32 then Inr (PStr (ip4_str x))
          else if 0 \<le> x \<and> x < 2 ^ 128 then Inr (PStr (ip6_str x))
          else Inl ValueError
      | PIPv4 x \<Rightarrow> Inr (PStr (ip4_str x))
      | PIPv6 x \<Rightarrow> Inr (PStr (ip6_str x))
      | _ \<Rightarrow> Inl ValueError)"

definition text_length :: "pyval \<Rightarrow> nat option" where
  "text_length v = (case v of PStr s \<Rightarrow> Some (length s) | _ \<Rightarrow> None)"

definition decode_attr :: "string \<Rightarrow> pyval \<Rightarrow> pyval res" where
  "decode_attr datatype v =
     (case v of
        PBytes bs \<Rightarrow> decode_bytes datatype bs
      | _ \<Rightarrow>
          if datatype = ''string'' then Inl AttributeError
          else if datatype = ''octets'' \<or> datatype = ''abinary'' then Inr v
          else if datatype = ''ipaddr'' then decode_address_any v
          else if datatype \<in> set [''integer'', ''signed'', ''short'', ''byte'', ''date'',
                                  ''integer64'', ''ipv6prefix'', ''ipv6addr''] then Inl TypeError
          else if datatype = ''ipv4prefix'' then
            Inl (if (\<exists>n \<in> set_option (text_length v). n < 2) then ValueError else TypeError)
          else if datatype = ''combo-ip'' then
            Inl (if (\<exists>n \<in> set_option (text_length v). n \<noteq> 4 \<and> n \<noteq> 16) then ValueError
                 else TypeError)
          else if datatype = ''ifid'' then
            Inl (if (\<exists>n \<in> set_option (text_length v). n \<noteq> 8) then ValueError else TypeError)
          else if datatype = ''ether'' then
            Inl (if text_length v \<noteq> None then ValueError else TypeError)
          else Inl ValueError)"

section \<open>Round trips\<close>

lemma decode_encode_unsigned:
  "0 \<le> x \<Longrightarrow> x < 256 ^ n \<Longrightarrow>
   \<exists>bs. encode_integer False n (PInt x) = Inr (PBytes bs) \<and> length bs = n
     \<and> decode_integer False n bs = Inr (PInt x)"
  by (simp add: encode_integer_def py_int_of_def pack_int_def decode_integer_def unpack_int_def
      unpack_uint_def be_val_be_bytes)

lemma decode_encode_signed:
  assumes "0 < n" "- (2 ^ (8 * n - 1)) \<le> x" "x < 2 ^ (8 * n - 1)"
  shows "\<exists>bs. encode_integer True n (PInt x) = Inr (PBytes bs) \<and> length bs = n
     \<and> decode_integer True n bs = Inr (PInt x)"
proof -
  obtain bs where "pack_sint n x = Inr bs" "length bs = n"
    using assms(2,3) by (simp add: pack_sint_def)
  then show ?thesis
    using unpack_pack_sint [OF assms(1)]
    by (auto simp: encode_integer_def py_int_of_def pack_int_def decode_integer_def unpack_int_def)
qed

lemma decode_encode_string:
  assumes "length s \<le> 253" "list_all scalar s"
  shows "\<exists>bs. encode_string (PStr s) = Inr (PBytes bs) \<and> decode_string bs = PStr s"
  using utf8_decode_encode [OF assms(2)] assms(1)
  by (auto simp: encode_string_def decode_string_def)

lemma decode_encode_address:
  "0 \<le> x \<Longrightarrow> x < 2 ^ 32 \<Longrightarrow>
   \<exists>bs. encode_address (PStr (ip4_str x)) = Inr (PBytes bs) \<and> length bs = 4
     \<and> decode_address bs = Inr (PStr (ip4_str x))"
  by (simp add: encode_address_def ip4_parse_str decode_address_def be_val_be_bytes)

end
