(* ===== verification/BiDict.thy ===== *)
theory BiDict
  imports OrderedDict
begin

text \<open>
  \<^verbatim>\<open>pyrad2/bidict.py\<close>: a pair of dictionaries meant to be inverse to each other.
  The laws the dictionary module relies on hold while every \<^verbatim>\<open>add\<close> brings a fresh key and a
  fresh value (\<open>bd_inv_add\<close>); \<^verbatim>\<open>add\<close> itself does not enforce that.
\<close>

record ('a, 'b) bidict =
  forward :: "('a, 'b) od"
  backward :: "('b, 'a) od"

definition bd_empty :: "('a, 'b) bidict" where
  "bd_empty = \<lparr>forward = [], backward = []\<rparr>"

definition bd_len :: "('a, 'b) bidict \<Rightarrow> nat" where
  "bd_len d = length (forward d)"

definition bd_add :: "'a \<Rightarrow> 'b \<Rightarrow> ('a, 'b) bidict \<Rightarrow> ('a, 'b) bidict" where
  "bd_add one two d =
     d\<lparr>forward := od_set one two (forward d), backward := od_set two one (backward d)\<rparr>"

definition bd_get_forward :: "('a, 'b) bidict \<Rightarrow> 'a \<Rightarrow> 'b res" where
  "bd_get_forward d k = (case od_get (forward d) k of Some v \<Rightarrow> Inr v | None \<Rightarrow> Inl KeyError)"

definition bd_has_forward :: "('a, 'b) bidict \<Rightarrow> 'a \<Rightarrow> bool" where
  "bd_has_forward d k = od_mem (forward d) k"

definition bd_get_backward :: "('a, 'b) bidict \<Rightarrow> 'b \<Rightarrow> 'a res" where
  "bd_get_backward d k = (case od_get (backward d) k of Some v \<Rightarrow> Inr v | None \<Rightarrow> Inl KeyError)"

definition bd_has_backward :: "('a, 'b) bidict \<Rightarrow> 'b \<Rightarrow> bool" where
  "bd_has_backward d k = od_mem (backward d) k"

text \<open>
  \<^verbatim>\<open>__delitem__\<close> takes a key of either side. It is modelled for a dictionary whose two
  sides have one type, as \<^verbatim>\<open>key in self.forward\<close> needs; \<^verbatim>\<open>del\<close> of an absent key is a
  \<^verbatim>\<open>KeyError\<close>.
\<close>

definition od_delE :: "'k \<Rightarrow> ('k, 'v) od \<Rightarrow> ('k, 'v) od res" where
  "od_delE k d = (if od_mem d k then Inr (od_del k d) else Inl KeyError)"

definition bd_delitem :: "'a \<Rightarrow> ('a, 'a) bidict \<Rightarrow> ('a, 'a) bidict res" where
  "bd_delitem key d =
     (case od_get (forward d) key of
        Some v \<Rightarrow>
          bindE (od_delE v (backward d)) (\<lambda>b.
          Inr (d\<lparr>backward := b, forward := od_del key (forward d)\<rparr>))
      | None \<Rightarrow>
          (case od_get (backward d) key of
             None \<Rightarrow> Inl KeyError
           | Some k \<Rightarrow>
               bindE (od_delE k (forward d)) (\<lambda>f.
               Inr (d\<lparr>forward := f, backward := od_del key (backward d)\<rparr>))))"

section \<open>One-to-one\<close>

definition bd_inv :: "('a, 'b) bidict \<Rightarrow> bool" where
  "bd_inv d \<longleftrightarrow> od_wf (forward d) \<and> od_wf (backward d) \<and>
     (\<forall>a b. od_get (forward d) a = Some b \<longleftrightarrow> od_get (backward d) b = Some a)"

lemma bd_inv_empty: "bd_inv bd_empty"
  by (simp add: bd_inv_def bd_empty_def)

lemma bd_inv_add:
  assumes "bd_inv d" "\<not> bd_has_forward d a" "\<not> bd_has_backward d b"
  shows "bd_inv (bd_add a b d)"
proof -
  have wf: "od_wf (od_set a b (forward d))" "od_wf (od_set b a (backward d))"
    using assms(1) by (auto simp: bd_inv_def intro: od.wf_set)
  have n: "od_get (forward d) a = None" "od_get (backward d) b = None"
    using assms(2,3) by (auto simp: bd_has_forward_def bd_has_backward_def od_mem_def)
  have eq: "od_get (forward d) x = Some y \<longleftrightarrow> od_get (backward d) y = Some x" for x y
    using assms(1) by (simp add: bd_inv_def)
  have "od_get (od_set a b (forward d)) x = Some y \<longleftrightarrow> od_get (od_set b a (backward d)) y = Some x"
    for x y
    using n eq by (cases "x = a"; cases "y = b") (auto simp: od_get_set, metis option.distinct(1))+
  with wf show ?thesis by (simp add: bd_inv_def bd_add_def)
qed

lemma bd_forward_backward:
  "bd_inv d \<Longrightarrow> bd_get_forward d a = Inr b \<longleftrightarrow> bd_get_backward d b = Inr a"
proof -
  have "bd_get_forward d a = Inr b \<longleftrightarrow> od_get (forward d) a = Some b"
    by (simp add: bd_get_forward_def split: option.split)
  moreover have "bd_get_backward d b = Inr a \<longleftrightarrow> od_get (backward d) b = Some a"
    by (simp add: bd_get_backward_def split: option.split)
  moreover assume "bd_inv d"
  ultimately show ?thesis by (simp add: bd_inv_def)
qed

lemma bd_inv_delitem:
  assumes "bd_inv d" "bd_delitem key d = Inr d'"
  shows "bd_inv d'"
proof -
  have eq: "od_get (forward d) x = Some y \<longleftrightarrow> od_get (backward d) y = Some x" for x y
    using assms(1) by (simp add: bd_inv_def)
  have wf: "od_wf (forward d)" "od_wf (backward d)"
    using assms(1) by (simp_all add: bd_inv_def)
  have del: "bd_inv (d\<lparr>forward := od_del a (forward d), backward := od_del b (backward d)\<rparr>)"
    if "od_get (forward d) a = Some b" for a b
    using that eq wf by (auto simp: bd_inv_def od_get_del od.wf_del) (metis option.inject)+
  show ?thesis
  proof (cases "od_get (forward d) key")
    case (Some v)
    then have "d' = d\<lparr>forward := od_del key (forward d), backward := od_del v (backward d)\<rparr>"
      using assms(2) by (auto simp: bd_delitem_def od_delE_def split: if_splits)
    then show ?thesis using del [OF Some] by simp
  next
    case None
    with assms(2) obtain k where k: "od_get (backward d) key = Some k"
      by (auto simp: bd_delitem_def split: option.splits)
    with None have "d' = d\<lparr>forward := od_del k (forward d), backward := od_del key (backward d)\<rparr>"
      using assms(2) by (auto simp: bd_delitem_def od_delE_def split: if_splits)
    then show ?thesis using del k eq by simp
  qed
qed

lemma bd_get_backward_add: "bd_get_backward (bd_add a b d) b = Inr a"
  by (simp add: bd_get_backward_def bd_add_def od_get_set)

lemma bd_get_forward_add: "bd_get_forward (bd_add a b d) a = Inr b"
  by (simp add: bd_get_forward_def bd_add_def od_get_set)

lemma bd_get_backward_add_other:
  "b' \<noteq> b \<Longrightarrow> bd_get_backward (bd_add a b d) b' = bd_get_backward d b'"
  by (simp add: bd_get_backward_def bd_add_def od_get_set)

lemma bd_get_forward_add_other:
  "a' \<noteq> a \<Longrightarrow> bd_get_forward (bd_add a b d) a' = bd_get_forward d a'"
  by (simp add: bd_get_forward_def bd_add_def od_get_set)

text \<open>Adding a second value for a key leaves the old value pointing at that key.\<close>

lemma bd_add_not_one_to_one:
  assumes "bd_get_forward d a = Inr b" "bd_inv d" "b \<noteq> c"
  shows "bd_get_backward (bd_add a c d) b = Inr a \<and> bd_get_forward (bd_add a c d) a = Inr c
    \<and> \<not> bd_inv (bd_add a c d)"
  using assms bd_forward_backward [of d a b]
  by (auto simp: bd_get_backward_add_other bd_get_forward_add dest: bd_forward_backward
      [of "bd_add a c d" a b])

end
