(* ===== verification/Constants.thy ===== *)
theory Constants
  imports Prelude
begin

text \<open>
  \<^verbatim>\<open>pyrad2/constants.py\<close>: the packet codes, the RFC 6929 attribute codes and the set of
  attribute data types the dictionary parser accepts. Codes are Python integers
  (\<^verbatim>\<open>IntEnum\<close>), so the enumeration comes with its values and code comparisons are integer
  comparisons.
\<close>

datatype PacketType =
    AccessRequest
  | AccessAccept
  | AccessReject
  | AccountingRequest
  | AccountingResponse
  | AccessChallenge
  | StatusServer
  | StatusClient
  | DisconnectRequest
  | DisconnectACK
  | DisconnectNAK
  | CoARequest
  | CoAACK
  | CoANAK

fun pt :: "PacketType \<Rightarrow> int" where
  "pt AccessRequest = 1"
| "pt AccessAccept = 2"
| "pt AccessReject = 3"
| "pt AccountingRequest = 4"
| "pt AccountingResponse = 5"
| "pt AccessChallenge = 11"
| "pt StatusServer = 12"
| "pt StatusClient = 13"
| "pt DisconnectRequest = 40"
| "pt DisconnectACK = 41"
| "pt DisconnectNAK = 42"
| "pt CoARequest = 43"
| "pt CoAACK = 44"
| "pt CoANAK = 45"

lemma pt_inj: "pt a = pt b \<longleftrightarrow> a = b"
  by (cases a; cases b) simp_all

text \<open>RFC 6929 attribute codes: 241 to 244 are extended, 245 and 246 long-extended.\<close>

definition EXTENDED_ATTRIBUTE_TYPES :: "int list" where
  "EXTENDED_ATTRIBUTE_TYPES = [241, 242, 243, 244]"

definition LONG_EXTENDED_ATTRIBUTE_TYPES :: "int list" where
  "LONG_EXTENDED_ATTRIBUTE_TYPES = [245, 246]"

definition LONG_EXTENDED_MORE_FLAG :: int where
  "LONG_EXTENDED_MORE_FLAG = 0x80"

definition EVS_EXTENDED_TYPE :: int where
  "EVS_EXTENDED_TYPE = 26"

definition ErrorCause_UnsupportedExtension :: int where
  "ErrorCause_UnsupportedExtension = 406"

definition EAPPacketType_REQUEST :: int where
  "EAPPacketType_REQUEST = 1"

definition EAPPacketType_RESPONSE :: int where
  "EAPPacketType_RESPONSE = 2"

definition EAPType_IDENTITY :: int where
  "EAPType_IDENTITY = 1"

definition DATATYPES :: "string list" where
  "DATATYPES =
    [''string'', ''ipaddr'', ''integer'', ''date'', ''octets'', ''abinary'', ''ipv6addr'',
     ''ipv6prefix'', ''short'', ''byte'', ''signed'', ''ifid'', ''ether'', ''tlv'',
     ''integer64'', ''extended'', ''long-extended'', ''evs'', ''vsa'', ''ipv4prefix'',
     ''combo-ip'']"

lemmas extended_defs = EXTENDED_ATTRIBUTE_TYPES_def LONG_EXTENDED_ATTRIBUTE_TYPES_def
  LONG_EXTENDED_MORE_FLAG_def EVS_EXTENDED_TYPE_def

end
