(* ===== verification/Dictionary.thy ===== *)
theory Dictionary
  imports Tools BiDict Constants
begin

text \<open>
  \<^verbatim>\<open>pyrad2/dictionary.py\<close>: attribute definitions and the dictionary parser. Attribute objects
  are shared (a container is reachable under its name, from the table of code chains and as
  the parent of its members), so they live on a heap, a list that only grows, and are named
  by their position in it. \<open>pkey\<close> is the key an attribute has in a packet: its code, or a
  tuple of vendor and code chain.
\<close>

datatype pkey = KInt int | KTup "int list"

record attribute =
  a_name :: ustr
  a_code :: int
  a_type :: string
  a_vendor :: ustr
  a_encrypt :: int
  a_has_tag :: bool
  a_concat :: bool
  a_virtual :: bool
  a_array :: bool
  a_values :: "(ustr, pyval) bidict"
  a_subs :: "(int, ustr) od"
  a_parent :: "nat option"
  a_is_sub :: bool

definition VENDOR_FORMAT_DEFAULT :: "nat \<times> nat \<times> bool" where
  "VENDOR_FORMAT_DEFAULT = (1, 1, False)"

record dictionary =
  d_heap :: "attribute list"
  d_vendors :: "(ustr, int) bidict"
  d_attrindex :: "(ustr, pkey) bidict"
  d_attributes :: "(ustr, nat) od"
  d_formats :: "(int, nat \<times> nat \<times> bool) od"

definition dict_init :: dictionary where
  "dict_init =
    \<lparr>d_heap = [], d_vendors = bd_add (u '''') 0 bd_empty, d_attrindex = bd_empty,
     d_attributes = [], d_formats = []\<rparr>"

definition vendor_format :: "dictionary \<Rightarrow> int \<Rightarrow> nat \<times> nat \<times> bool" where
  "vendor_format d v =
     (case od_get (d_formats d) v of Some f \<Rightarrow> f | None \<Rightarrow> VENDOR_FORMAT_DEFAULT)"

definition dict_len :: "dictionary \<Rightarrow> nat" where
  "dict_len d = length (d_attributes d)"

definition dict_getitem :: "dictionary \<Rightarrow> ustr \<Rightarrow> attribute res" where
  "dict_getitem d name =
     (case od_get (d_attributes d) name of Some i \<Rightarrow> Inr (d_heap d ! i) | None \<Rightarrow> Inl KeyError)"

definition dict_contains :: "dictionary \<Rightarrow> ustr \<Rightarrow> bool" where
  "dict_contains d name = od_mem (d_attributes d) name"

section \<open>Container chains\<close>

definition container_types :: "string list" where
  "container_types = [''tlv'', ''extended'', ''long-extended'']"

text \<open>
  The loop \<^verbatim>\<open>while cur is not None: chain.append(cur.code); cur = cur.parent\<close>, root first.
  \<open>None\<close> is a walk that did not end within the fuel.
\<close>

fun code_chain :: "attribute list \<Rightarrow> nat \<Rightarrow> nat \<Rightarrow> int list option" where
  "code_chain h 0 i = None"
| "code_chain h (Suc fuel) i =
     (case a_parent (h ! i) of
        None \<Rightarrow> Some [a_code (h ! i)]
      | Some p \<Rightarrow>
          (case code_chain h fuel p of
             None \<Rightarrow> None
           | Some c \<Rightarrow> Some (c @ [a_code (h ! i)])))"

type_synonym chains = "(int list, nat) od"

fun chains_of :: "attribute list \<Rightarrow> nat list \<Rightarrow> chains \<Rightarrow> chains option" where
  "chains_of h [] cs = Some cs"
| "chains_of h (i # is) cs =
     (if a_type (h ! i) \<in> set container_types
      then (case code_chain h (length h) i of
              None \<Rightarrow> None
            | Some c \<Rightarrow> chains_of h is (od_set c i cs))
      else chains_of h is cs)"

definition existing_container_chains :: "dictionary \<Rightarrow> chains option" where
  "existing_container_chains d = chains_of (d_heap d) (map snd (d_attributes d)) []"

section \<open>Parsing one line\<close>

record pstate =
  s_vendor :: ustr
  s_evs_parent :: "ustr option"
  s_tlvs :: chains

record attr_options =
  o_has_tag :: bool
  o_encrypt :: int
  o_concat :: bool
  o_virtual :: bool
  o_array :: bool
  o_recognized :: bool

definition keyval :: "ustr \<Rightarrow> ustr \<times> ustr option" where
  "keyval o' =
     (case split_on (of_char (CHR ''='')) o' of
        [k, v] \<Rightarrow> (k, Some v) | k # _ \<Rightarrow> (k, None) | [] \<Rightarrow> ([], None))"

definition attr_option :: "ustr \<Rightarrow> attr_options \<Rightarrow> attr_options res" where
  "attr_option o' p =
     (case keyval o' of (key, val) \<Rightarrow>
        if key = u ''has_tag'' then Inr (p\<lparr>o_has_tag := True, o_recognized := True\<rparr>)
        else if key = u ''encrypt'' then
          (if val = Some (u ''1'') then Inr (p\<lparr>o_encrypt := 1, o_recognized := True\<rparr>)
           else if val = Some (u ''2'') then Inr (p\<lparr>o_encrypt := 2, o_recognized := True\<rparr>)
           else if val = Some (u ''3'') then Inr (p\<lparr>o_encrypt := 3, o_recognized := True\<rparr>)
           else Inl ParseError)
        else if key = u ''concat'' then Inr (p\<lparr>o_concat := True, o_recognized := True\<rparr>)
        else if key = u ''virtual'' then Inr (p\<lparr>o_virtual := True, o_recognized := True\<rparr>)
        else if key = u ''array'' then Inr (p\<lparr>o_array := True, o_recognized := True\<rparr>)
        else if key = u ''secret'' then Inr (p\<lparr>o_recognized := True\<rparr>)
        else Inr p)"

definition parse_code :: "ustr \<Rightarrow> int res" where
  "parse_code c =
     (if startswith c (u ''0x'') then py_int 16 c
      else if startswith c (u ''0o'') then py_int 8 c
      else py_int 10 c)"

definition TYPE_ALIASES :: "(ustr, string) od" where
  "TYPE_ALIASES =
    [(u ''uint8'', ''byte''), (u ''uint16'', ''short''), (u ''uint32'', ''integer''),
     (u ''uint64'', ''integer64''), (u ''int32'', ''signed'')]"

text \<open>The alias of a type token, or the token itself when it is one of \<open>DATATYPES\<close>.\<close>

definition datatype_of :: "ustr \<Rightarrow> string option" where
  "datatype_of tok =
     (case od_get TYPE_ALIASES tok of
        Some d \<Rightarrow> Some d
      | None \<Rightarrow> (case filter (\<lambda>d. u d = tok) DATATYPES of [] \<Rightarrow> None | d # _ \<Rightarrow> Some d))"

text \<open>
  \<^verbatim>\<open>__parse_attribute\<close> up to the key: the options decide the flags and whether the last column
  names a vendor; inside an EVS block the key is (wrapper, slot, vendor, type).
\<close>

definition attr_key ::
    "dictionary \<Rightarrow> pstate \<Rightarrow> ustr \<Rightarrow> int list \<Rightarrow> int \<Rightarrow> (pkey \<times> bool) res" where
  "attr_key d s vendor parent_chain code =
     (let is_sub = parent_chain \<noteq> []
      in case s_evs_parent s of
        Some evs \<Rightarrow>
          bindE (dict_getitem d evs) (\<lambda>marker.
          (case a_parent marker of
             None \<Rightarrow> Inl AttributeError
           | Some w \<Rightarrow>
               bindE (bd_get_forward (d_vendors d) vendor) (\<lambda>vid.
               Inr (KTup [a_code (d_heap d ! w), a_code marker, vid, code], True))))
      | None \<Rightarrow>
          if vendor \<noteq> [] then
            bindE (bd_get_forward (d_vendors d) vendor) (\<lambda>vid.
            Inr (KTup (vid # parent_chain @ [code]), is_sub))
          else Inr (if is_sub then KTup (parent_chain @ [code]) else KInt code, is_sub))"

definition parse_options :: "dictionary \<Rightarrow> pstate \<Rightarrow> ustr list \<Rightarrow> (attr_options \<times> ustr) res" where
  "parse_options d s tokens =
     (let none = \<lparr>o_has_tag = False, o_encrypt = 0, o_concat = False, o_virtual = False,
                  o_array = False, o_recognized = False\<rparr>
      in if length tokens < 5 then Inr (none, s_vendor s)
         else
           bindE (foldE attr_option (split_on (of_char (CHR '','')) (tokens ! 4)) none) (\<lambda>p.
           if o_recognized p then Inr (p, s_vendor s)
           else if \<not> bd_has_forward (d_vendors d) (tokens ! 4) then Inl ParseError
           else Inr (p, tokens ! 4)))"

text \<open>Registration of a new attribute object: index, name table, chain table, parent link.\<close>

definition set_heap :: "nat \<Rightarrow> (attribute \<Rightarrow> attribute) \<Rightarrow> dictionary \<Rightarrow> dictionary" where
  "set_heap i f d = d\<lparr>d_heap := (d_heap d)[i := f (d_heap d ! i)]\<rparr>"

definition register_attribute ::
    "attribute \<Rightarrow> pkey \<Rightarrow> dictionary \<Rightarrow> dictionary" where
  "register_attribute a key d =
     d\<lparr>d_attrindex := bd_add (a_name a) key (d_attrindex d),
       d_heap := d_heap d @ [a],
       d_attributes := od_set (a_name a) (length (d_heap d)) (d_attributes d)\<rparr>"

definition link_parent ::
    "nat \<Rightarrow> ustr \<Rightarrow> int list \<Rightarrow> int \<Rightarrow> bool \<Rightarrow> pstate \<Rightarrow> dictionary \<Rightarrow> dictionary res" where
  "link_parent i name parent_chain code is_sub s d =
     (case s_evs_parent s of
        Some evs \<Rightarrow>
          (case od_get (d_attributes d) evs of
             None \<Rightarrow> Inl KeyError
           | Some p \<Rightarrow> Inr (set_heap i (\<lambda>a. a\<lparr>a_parent := Some p\<rparr>) d))
      | None \<Rightarrow>
          if is_sub then
            (case od_get (s_tlvs s) parent_chain of
               None \<Rightarrow> Inl ParseError
             | Some p \<Rightarrow>
                 Inr (set_heap i (\<lambda>a. a\<lparr>a_parent := Some p\<rparr>)
                       (set_heap p (\<lambda>a. a\<lparr>a_subs := od_set code name (a_subs a)\<rparr>) d)))
          else Inr d)"

definition new_attribute ::
    "ustr \<Rightarrow> int \<Rightarrow> string \<Rightarrow> bool \<Rightarrow> ustr \<Rightarrow> attr_options \<Rightarrow> attribute" where
  "new_attribute name code dt is_sub vendor p =
     \<lparr>a_name = name, a_code = code, a_type = dt, a_vendor = vendor, a_encrypt = o_encrypt p,
      a_has_tag = o_has_tag p, a_concat = o_concat p, a_virtual = o_virtual p,
      a_array = o_array p, a_values = bd_empty, a_subs = [], a_parent = None,
      a_is_sub = is_sub\<rparr>"

definition note_container :: "string \<Rightarrow> int list \<Rightarrow> nat \<Rightarrow> pstate \<Rightarrow> pstate" where
  "note_container dt chain i s =
     (if dt \<in> set container_types then s\<lparr>s_tlvs := od_set chain i (s_tlvs s)\<rparr> else s)"

definition parse_attribute ::
    "ustr list \<Rightarrow> pstate \<times> dictionary \<Rightarrow> (pstate \<times> dictionary) res" where
  "parse_attribute tokens sd =
     (case sd of (s, d) \<Rightarrow>
      if length tokens \<noteq> 4 \<and> length tokens \<noteq> 5 then Inl ParseError
      else
        bindE (parse_options d s tokens) (\<lambda>(p, vendor).
        bindE (mapE parse_code (split_on (of_char (CHR ''.'')) (tokens ! 2))) (\<lambda>codes.
        let name = tokens ! 1; code = last codes; parent_chain = butlast codes in
        case datatype_of (takeWhile (\<lambda>c. c \<noteq> of_char (CHR ''['')) (tokens ! 3)) of
          None \<Rightarrow> Inl ParseError
        | Some dt \<Rightarrow>
            bindE (attr_key d s vendor parent_chain code) (\<lambda>(key, is_sub).
            let i = length (d_heap d); s' = note_container dt (parent_chain @ [code]) i s in
            bindE (link_parent i name parent_chain code is_sub s'
                    (register_attribute (new_attribute name code dt is_sub vendor p) key d)) (\<lambda>d'.
            Inr (s', d'))))))"

definition int_value_types :: "string list" where
  "int_value_types = [''integer'', ''signed'', ''short'', ''byte'', ''integer64'']"

text \<open>\<^verbatim>\<open>__parse_value\<close>; \<open>Inr None\<close> defers the line.\<close>

definition parse_value ::
    "ustr list \<Rightarrow> bool \<Rightarrow> dictionary \<Rightarrow> dictionary option res" where
  "parse_value tokens defer d =
     (if length tokens \<noteq> 4 then Inl ParseError
      else
        (case od_get (d_attributes d) (tokens ! 1) of
           None \<Rightarrow> if defer then Inr None else Inl ParseError
         | Some i \<Rightarrow>
             (let adef = d_heap d ! i in
              bindE (if a_type adef \<in> set int_value_types
                     then bindE (py_int 0 (tokens ! 3)) (\<lambda>x. Inr (PInt x))
                     else Inr (PStr (tokens ! 3))) (\<lambda>v.
              bindE (encode_attr (a_type adef) v) (\<lambda>v'.
              Inr (Some (set_heap i
                (\<lambda>a. a\<lparr>a_values := bd_add (tokens ! 2) v' (a_values a)\<rparr>) d)))))))"

definition parse_error :: "'a res \<Rightarrow> 'a res" where
  "parse_error r = (case r of Inl e \<Rightarrow> Inl (if e = ValueError then ParseError else e) | Inr x \<Rightarrow> Inr x)"

definition parse_format :: "ustr \<Rightarrow> (nat \<times> nat \<times> bool) res" where
  "parse_format tok =
     (let fmt = split_on (of_char (CHR ''='')) tok in
      if hd fmt \<noteq> u ''format'' then Inl ParseError
      else if length fmt < 2 then Inl IndexError
      else
        (let fields = split_on (of_char (CHR '','')) (fmt ! 1) in
         if length fields \<noteq> 2 \<and> length fields \<noteq> 3 then Inl ParseError
         else
           parse_error
             (bindE (py_int 10 (fields ! 0)) (\<lambda>t.
              bindE (py_int 10 (fields ! 1)) (\<lambda>l.
              if length fields = 3 \<and> fields ! 2 \<noteq> u ''c'' then Inl ValueError
              else if t \<notin> {1, 2, 4} \<or> l \<notin> {0, 1, 2} then Inl ParseError
              else Inr (nat t, nat l, length fields = 3))))))"

definition add_vendor :: "ustr \<Rightarrow> int \<Rightarrow> nat \<times> nat \<times> bool \<Rightarrow> dictionary \<Rightarrow> dictionary" where
  "add_vendor name vid fmt d =
     (let d' = d\<lparr>d_vendors := bd_add name vid (d_vendors d)\<rparr>
      in if fmt \<noteq> VENDOR_FORMAT_DEFAULT
         then d'\<lparr>d_formats := od_set vid fmt (d_formats d')\<rparr> else d')"

definition parse_vendor :: "ustr list \<Rightarrow> dictionary \<Rightarrow> dictionary res" where
  "parse_vendor tokens d =
     (if length tokens \<noteq> 3 \<and> length tokens \<noteq> 4 then Inl ParseError
      else
        bindE (if length tokens = 4 then parse_format (tokens ! 3) else Inr VENDOR_FORMAT_DEFAULT)
          (\<lambda>fmt.
        bindE (parse_error (py_int 0 (tokens ! 2))) (\<lambda>vid.
        if \<not> (0 \<le> vid \<and> vid \<le> 0xFFFFFF) then Inl ParseError
        else Inr (add_vendor (tokens ! 1) vid fmt d))))"

definition parse_begin_vendor :: "ustr list \<Rightarrow> dictionary \<Rightarrow> pstate \<Rightarrow> pstate res" where
  "parse_begin_vendor tokens d s =
     (if length tokens \<noteq> 2 \<and> length tokens \<noteq> 3 then Inl ParseError
      else if \<not> bd_has_forward (d_vendors d) (tokens ! 1) then Inl ParseError
      else
        bindE
          (if length tokens = 3 then
             (if \<not> startswith (tokens ! 2) (u ''parent='') then Inl ParseError
              else
                (let evs = drop 7 (tokens ! 2) in
                 case dict_getitem d evs of
                   Inl _ \<Rightarrow> Inl ParseError
                 | Inr marker \<Rightarrow>
                     if a_type marker \<noteq> ''evs'' then Inl ParseError else Inr (Some evs)))
           else Inr None)
          (\<lambda>evs. Inr (s\<lparr>s_vendor := tokens ! 1, s_evs_parent := evs\<rparr>)))"

definition parse_end_vendor :: "ustr list \<Rightarrow> pstate \<Rightarrow> pstate res" where
  "parse_end_vendor tokens s =
     (if length tokens \<noteq> 2 then Inl ParseError
      else if s_vendor s \<noteq> tokens ! 1 then Inl ParseError
      else Inr (s\<lparr>s_vendor := [], s_evs_parent := None\<rparr>))"

section \<open>Reading a file\<close>

record reader =
  r_state :: pstate
  r_dict :: dictionary
  r_deferred :: "ustr list list"

definition line_tokens :: "ustr \<Rightarrow> ustr list" where
  "line_tokens line = py_words (py_strip (takeWhile (\<lambda>c. c \<noteq> of_char (CHR ''#'')) line))"

definition read_line :: "ustr \<Rightarrow> reader \<Rightarrow> reader res" where
  "read_line line r =
     (let tokens = line_tokens line in
      if tokens = [] then Inr r
      else
        (let key = map upper_char (hd tokens) in
         if key = u ''ATTRIBUTE'' then
           bindE (parse_attribute tokens (r_state r, r_dict r)) (\<lambda>(s, d).
           Inr (r\<lparr>r_state := s, r_dict := d\<rparr>))
         else if key = u ''VALUE'' then
           bindE (parse_value tokens True (r_dict r)) (\<lambda>res.
           Inr (case res of
                  None \<Rightarrow> r\<lparr>r_deferred := r_deferred r @ [tokens]\<rparr>
                | Some d \<Rightarrow> r\<lparr>r_dict := d\<rparr>))
         else if key = u ''VENDOR'' then
           bindE (parse_vendor tokens (r_dict r)) (\<lambda>d. Inr (r\<lparr>r_dict := d\<rparr>))
         else if key = u ''BEGIN-VENDOR'' then
           bindE (parse_begin_vendor tokens (r_dict r) (r_state r)) (\<lambda>s. Inr (r\<lparr>r_state := s\<rparr>))
         else if key = u ''END-VENDOR'' then
           bindE (parse_end_vendor tokens (r_state r)) (\<lambda>s. Inr (r\<lparr>r_state := s\<rparr>))
         else Inr r))"

definition parse_deferred :: "ustr list \<Rightarrow> dictionary \<Rightarrow> dictionary res" where
  "parse_deferred tokens d =
     (if map upper_char (hd tokens) = u ''VALUE''
      then bindE (parse_value tokens False d) (\<lambda>res.
           Inr (case res of None \<Rightarrow> d | Some d' \<Rightarrow> d'))
      else Inr d)"

definition start_reading :: "dictionary \<Rightarrow> reader option" where
  "start_reading d =
     (case existing_container_chains d of
        None \<Rightarrow> None
      | Some cs \<Rightarrow>
          Some \<lparr>r_state = \<lparr>s_vendor = [], s_evs_parent = None, s_tlvs = cs\<rparr>,
                r_dict = d, r_deferred = []\<rparr>)"

definition finish_reading :: "reader \<Rightarrow> dictionary res" where
  "finish_reading r = foldE parse_deferred (r_deferred r) (r_dict r)"

text \<open>
  \<^verbatim>\<open>read_dictionary\<close> on the lines its \<^verbatim>\<open>DictFile\<close> yields (theory \<open>DictFile\<close> has the reader that
  also resolves includes while parsing). \<open>None\<close>: the walk over the parents does not end.
\<close>

definition read_lines :: "ustr list \<Rightarrow> dictionary \<Rightarrow> dictionary res option" where
  "read_lines lines d =
     map_option (\<lambda>r. bindE (foldE read_line lines r) finish_reading) (start_reading d)"

section \<open>Well-formed dictionaries\<close>

text \<open>
  A parent link never points to a younger object: containers exist before their members. It
  can point to the object itself, when an EVS block redefines its own marker.
\<close>

definition attr_ok :: "nat \<Rightarrow> attribute \<Rightarrow> bool" where
  "attr_ok i a \<longleftrightarrow> a_type a \<in> set DATATYPES \<and> a_encrypt a \<in> {0, 1, 2, 3}
     \<and> (case a_parent a of None \<Rightarrow> True | Some p \<Rightarrow> p \<le> i)"

definition heap_wf :: "attribute list \<Rightarrow> bool" where
  "heap_wf h \<longleftrightarrow> (\<forall>i < length h. attr_ok i (h ! i))"

definition names_wf :: "attribute list \<Rightarrow> (ustr, nat) od \<Rightarrow> bool" where
  "names_wf h names \<longleftrightarrow> od_wf names
     \<and> (\<forall>n i. od_get names n = Some i \<longrightarrow> i < length h \<and> a_name (h ! i) = n)"

definition vendors_wf :: "(ustr, int) bidict \<Rightarrow> bool" where
  "vendors_wf vs \<longleftrightarrow> (\<forall>n v. od_get (forward vs) n = Some v \<longrightarrow> 0 \<le> v \<and> v \<le> 0xFFFFFF)"

definition format_ok :: "nat \<times> nat \<times> bool \<Rightarrow> bool" where
  "format_ok f \<longleftrightarrow> fst f \<in> {1, 2, 4} \<and> fst (snd f) \<in> {0, 1, 2}"

definition formats_wf :: "(int, nat \<times> nat \<times> bool) od \<Rightarrow> bool" where
  "formats_wf fs \<longleftrightarrow> (\<forall>v f. od_get fs v = Some f \<longrightarrow> format_ok f)"

definition dict_wf :: "dictionary \<Rightarrow> bool" where
  "dict_wf d \<longleftrightarrow> heap_wf (d_heap d) \<and> names_wf (d_heap d) (d_attributes d)
     \<and> vendors_wf (d_vendors d) \<and> formats_wf (d_formats d)
     \<and> (\<forall>n. bd_has_forward (d_attrindex d) n \<longleftrightarrow> dict_contains d n)"

definition tlvs_wf :: "attribute list \<Rightarrow> chains \<Rightarrow> bool" where
  "tlvs_wf h cs \<longleftrightarrow> (\<forall>c i. od_get cs c = Some i \<longrightarrow> i < length h)"

lemma dict_wf_init: "dict_wf dict_init"
  by (simp add: dict_wf_def dict_init_def heap_wf_def names_wf_def vendors_wf_def formats_wf_def
      bd_add_def bd_empty_def bd_has_forward_def dict_contains_def od_mem_def)

lemma vendor_format_ok: "dict_wf d \<Longrightarrow> format_ok (vendor_format d v)"
  by (auto simp: dict_wf_def formats_wf_def vendor_format_def VENDOR_FORMAT_DEFAULT_def format_ok_def
      split: option.split)

text \<open>Updates of one object that keep its name, type, flags and a legal parent.\<close>

lemma dict_wf_set_heap:
  assumes "dict_wf d" "i < length (d_heap d)"
    and "attr_ok i (f (d_heap d ! i))" "a_name (f (d_heap d ! i)) = a_name (d_heap d ! i)"
  shows "dict_wf (set_heap i f d)"
  using assms
  by (auto simp: dict_wf_def set_heap_def heap_wf_def names_wf_def dict_contains_def nth_list_update)

lemma heap_length_set_heap [simp]: "length (d_heap (set_heap i f d)) = length (d_heap d)"
  by (simp add: set_heap_def)

lemma set_heap_nth:
  "j < length (d_heap d) \<Longrightarrow>
   d_heap (set_heap i f d) ! j = (if j = i then f (d_heap d ! i) else d_heap d ! j)"
  by (auto simp: set_heap_def nth_list_update)

lemma attributes_set_heap [simp]: "d_attributes (set_heap i f d) = d_attributes d"
  by (simp add: set_heap_def)

lemma dict_wf_register:
  assumes "dict_wf d" "attr_ok (length (d_heap d)) a"
  shows "dict_wf (register_attribute a key d)"
proof -
  let ?d = "register_attribute a key d"
  have h: "heap_wf (d_heap ?d)"
    using assms by (auto simp: dict_wf_def heap_wf_def register_attribute_def nth_append
        less_Suc_eq)
  have n: "names_wf (d_heap ?d) (d_attributes ?d)"
    using assms(1)
    by (auto simp: dict_wf_def names_wf_def register_attribute_def od_get_set nth_append
        intro: od.wf_set less_SucI split: if_splits)
  have "bd_has_forward (d_attrindex ?d) m \<longleftrightarrow> dict_contains ?d m" for m
    using assms(1)
    by (auto simp: dict_wf_def register_attribute_def bd_has_forward_def bd_add_def
        dict_contains_def od_mem_def od_get_set)
  with h n assms(1) show ?thesis
    by (simp add: dict_wf_def) (simp add: register_attribute_def)
qed

lemma datatype_of_ok: "datatype_of tok = Some dt \<Longrightarrow> dt \<in> set DATATYPES"
proof -
  assume a: "datatype_of tok = Some dt"
  show "dt \<in> set DATATYPES"
  proof (cases "od_get TYPE_ALIASES tok")
    case None
    then obtain ds where "filter (\<lambda>d. u d = tok) DATATYPES = dt # ds"
      using a by (auto simp: datatype_of_def split: list.splits)
    then have "dt \<in> set (filter (\<lambda>d. u d = tok) DATATYPES)" by simp
    then show ?thesis by simp
  next
    case (Some d)
    then have "dt \<in> set [''byte'', ''short'', ''integer'', ''integer64'', ''signed'']"
      using a by (auto simp: datatype_of_def TYPE_ALIASES_def split: if_splits)
    then show ?thesis by (auto simp: DATATYPES_def)
  qed
qed

lemma attr_option_encrypt:
  "attr_option o' p = Inr p' \<Longrightarrow> o_encrypt p \<in> {0, 1, 2, 3} \<Longrightarrow> o_encrypt p' \<in> {0, 1, 2, 3}"
  by (auto simp: attr_option_def split: prod.splits if_splits)

lemma attr_options_encrypt:
  "foldE attr_option os p = Inr p' \<Longrightarrow> o_encrypt p \<in> {0, 1, 2, 3} \<Longrightarrow> o_encrypt p' \<in> {0, 1, 2, 3}"
  by (erule foldE_invariant, assumption) (rule attr_option_encrypt)

lemma parse_options_encrypt:
  assumes "parse_options d s tokens = Inr (p, v)"
  shows "o_encrypt p \<in> {0, 1, 2, 3}"
proof (cases "length tokens < 5")
  case True
  with assms show ?thesis by (auto simp: parse_options_def)
next
  case False
  with assms obtain os p0 where "foldE attr_option os p0 = Inr p" "o_encrypt p0 = 0"
    by (auto simp: parse_options_def Let_def bindE_eq_Inr split: if_splits)
  then show ?thesis using attr_options_encrypt by simp
qed

lemma tlvs_wf_Nil: "tlvs_wf h []"
  by (simp add: tlvs_wf_def)

lemma tlvs_wf_set: "tlvs_wf h cs \<Longrightarrow> i < length h \<Longrightarrow> tlvs_wf h (od_set c i cs)"
  by (simp add: tlvs_wf_def od_get_set)

lemma tlvs_wf_grow: "tlvs_wf h cs \<Longrightarrow> length h \<le> length h' \<Longrightarrow> tlvs_wf h' cs"
  by (auto simp: tlvs_wf_def dest: less_le_trans)

lemma link_parent_wf:
  assumes "link_parent i name pc code sub s d = Inr d'" "dict_wf d" "tlvs_wf (d_heap d) (s_tlvs s)"
    and "Suc i = length (d_heap d)"
  shows "dict_wf d' \<and> length (d_heap d') = length (d_heap d)"
proof -
  have i: "i < length (d_heap d)" using assms(4) by simp
  have ok: "attr_ok j (d_heap d ! j)" if "j < length (d_heap d)" for j
    using assms(2) that by (simp add: dict_wf_def heap_wf_def)
  have set_parent: "dict_wf (set_heap i (\<lambda>a. a\<lparr>a_parent := Some p\<rparr>) e)"
    if "dict_wf e" "length (d_heap e) = length (d_heap d)" "p < length (d_heap d)" for p e
    using that i assms(4)
    by (intro dict_wf_set_heap) (auto simp: dict_wf_def heap_wf_def attr_ok_def)
  show ?thesis
  proof (cases "s_evs_parent s")
    case (Some evs)
    then obtain p where p: "od_get (d_attributes d) evs = Some p"
      and d': "d' = set_heap i (\<lambda>a. a\<lparr>a_parent := Some p\<rparr>) d"
      using assms(1) by (auto simp: link_parent_def split: option.splits)
    have "p < length (d_heap d)" using p assms(2) by (auto simp: dict_wf_def names_wf_def)
    then show ?thesis using set_parent [OF assms(2) refl] by (simp add: d')
  next
    case None
    show ?thesis
    proof (cases sub)
      case True
      with None obtain p where p: "od_get (s_tlvs s) pc = Some p"
        and d': "d' = set_heap i (\<lambda>a. a\<lparr>a_parent := Some p\<rparr>)
                   (set_heap p (\<lambda>a. a\<lparr>a_subs := od_set code name (a_subs a)\<rparr>) d)"
        using assms(1) by (auto simp: link_parent_def split: option.splits)
      have pl: "p < length (d_heap d)" using p assms(3) by (auto simp: tlvs_wf_def)
      have "dict_wf (set_heap p (\<lambda>a. a\<lparr>a_subs := od_set code name (a_subs a)\<rparr>) d)"
        using ok [OF pl] pl by (intro dict_wf_set_heap [OF assms(2)]) (auto simp: attr_ok_def)
      then show ?thesis using set_parent pl by (simp add: d')
    next
      case False
      with None assms(1,2) show ?thesis by (simp add: link_parent_def)
    qed
  qed
qed

lemma parse_attribute_wf:
  assumes "parse_attribute tokens (s, d) = Inr (s', d')"
    and "dict_wf d" "tlvs_wf (d_heap d) (s_tlvs s)"
  shows "dict_wf d' \<and> tlvs_wf (d_heap d') (s_tlvs s')"
proof -
  obtain p v codes dt key sub where
    p: "parse_options d s tokens = Inr (p, v)"
    and dt: "datatype_of (takeWhile (\<lambda>c. c \<noteq> of_char (CHR ''['')) (tokens ! 3)) = Some dt"
    and s': "s' = note_container dt (butlast codes @ [last codes]) (length (d_heap d)) s"
    and link: "link_parent (length (d_heap d)) (tokens ! 1) (butlast codes) (last codes) sub s'
       (register_attribute (new_attribute (tokens ! 1) (last codes) dt sub v p) key d) = Inr d'"
    using assms(1) unfolding parse_attribute_def
    by (auto elim!: bindE_InrE simp: Let_def split: if_splits option.splits)
  let ?d = "register_attribute (new_attribute (tokens ! 1) (last codes) dt sub v p) key d"
  have "attr_ok (length (d_heap d)) (new_attribute (tokens ! 1) (last codes) dt sub v p)"
    using parse_options_encrypt [OF p] datatype_of_ok [OF dt]
    by (simp add: new_attribute_def attr_ok_def)
  then have wf: "dict_wf ?d" by (rule dict_wf_register [OF assms(2)])
  have len: "length (d_heap ?d) = Suc (length (d_heap d))"
    by (simp add: register_attribute_def)
  have "tlvs_wf (d_heap ?d) (s_tlvs s)"
    using assms(3) len by (intro tlvs_wf_grow [OF assms(3)]) linarith
  then have tl: "tlvs_wf (d_heap ?d) (s_tlvs s')"
    using len unfolding s' note_container_def by (auto intro!: tlvs_wf_set)
  from link_parent_wf [OF link wf tl] len have "dict_wf d'" "length (d_heap d') = length (d_heap ?d)"
    by simp_all
  with tl show ?thesis using tlvs_wf_grow by auto
qed

lemma parse_value_wf:
  assumes "parse_value tokens defer d = Inr (Some d')" "dict_wf d"
  shows "dict_wf d' \<and> length (d_heap d') = length (d_heap d)"
proof -
  from assms(1) obtain i f where i: "od_get (d_attributes d) (tokens ! 1) = Some i"
    and d': "d' = set_heap i (\<lambda>a. a\<lparr>a_values := f (a_values a)\<rparr>) d"
    by (auto simp: parse_value_def bindE_eq_Inr Let_def split: if_splits option.splits)
  have il: "i < length (d_heap d)" using i assms(2) by (auto simp: dict_wf_def names_wf_def)
  have "attr_ok i (d_heap d ! i)" using il assms(2) by (simp add: dict_wf_def heap_wf_def)
  then show ?thesis unfolding d'
    by (auto simp: attr_ok_def intro!: dict_wf_set_heap [OF assms(2) il])
qed

lemma parse_format_ok: "parse_format tok = Inr f \<Longrightarrow> format_ok f"
  by (auto simp: parse_format_def format_ok_def Let_def parse_error_def bindE_eq_Inr
      split: if_splits sum.splits)

lemma parse_vendor_wf:
  assumes "parse_vendor tokens d = Inr d'" "dict_wf d"
  shows "dict_wf d' \<and> d_heap d' = d_heap d"
proof -
  obtain fmt vid where
    fmt: "(if length tokens = 4 then parse_format (tokens ! 3) else Inr VENDOR_FORMAT_DEFAULT)
        = Inr fmt"
    and vid: "0 \<le> vid \<and> vid \<le> 0xFFFFFF \<and> d' = add_vendor (tokens ! 1) vid fmt d"
  proof -
    have "bindE (if length tokens = 4 then parse_format (tokens ! 3) else Inr VENDOR_FORMAT_DEFAULT)
        (\<lambda>fmt. bindE (parse_error (py_int 0 (tokens ! 2))) (\<lambda>vid.
          if \<not> (0 \<le> vid \<and> vid \<le> 0xFFFFFF) then Inl ParseError
          else Inr (add_vendor (tokens ! 1) vid fmt d))) = Inr d'"
      using assms(1) unfolding parse_vendor_def by (simp split: if_split_asm)
    then obtain fmt vid where f: "(if length tokens = 4 then parse_format (tokens ! 3)
          else Inr VENDOR_FORMAT_DEFAULT) = Inr fmt"
      and "(if \<not> (0 \<le> vid \<and> vid \<le> 0xFFFFFF) then Inl ParseError
          else Inr (add_vendor (tokens ! 1) vid fmt d)) = Inr d'"
      by (elim bindE_InrE)
    then show thesis by (intro that [OF f, of vid]) (simp split: if_split_asm)
  qed
  have d': "d' = add_vendor (tokens ! 1) vid fmt d" using vid by blast
  have "format_ok fmt"
    using fmt parse_format_ok
    by (auto simp: VENDOR_FORMAT_DEFAULT_def format_ok_def split: if_splits)
  moreover have "vendors_wf (bd_add (tokens ! 1) vid (d_vendors d))"
    using assms(2) vid by (auto simp: dict_wf_def vendors_wf_def bd_add_def od_get_set)
  ultimately show ?thesis
    using assms(2)
    by (auto simp: d' add_vendor_def dict_wf_def dict_contains_def formats_wf_def od_get_set Let_def)
qed

definition reader_wf :: "reader \<Rightarrow> bool" where
  "reader_wf r \<longleftrightarrow> dict_wf (r_dict r) \<and> tlvs_wf (d_heap (r_dict r)) (s_tlvs (r_state r))"

lemma read_line_wf:
  assumes "read_line line r = Inr r'" "reader_wf r"
  shows "reader_wf r'"
proof -
  let ?t = "line_tokens line" and ?key = "map upper_char (hd (line_tokens line))"
  have d: "dict_wf (r_dict r)" and tl: "tlvs_wf (d_heap (r_dict r)) (s_tlvs (r_state r))"
    using assms(2) by (simp_all add: reader_wf_def)
  consider "?t = []" | "?t \<noteq> []" "?key = u ''ATTRIBUTE''" | "?t \<noteq> []" "?key = u ''VALUE''"
    | "?t \<noteq> []" "?key = u ''VENDOR''" | "?t \<noteq> []" "?key = u ''BEGIN-VENDOR''"
    | "?t \<noteq> []" "?key = u ''END-VENDOR''"
    | "?t \<noteq> []" "?key \<notin> {u ''ATTRIBUTE'', u ''VALUE'', u ''VENDOR'', u ''BEGIN-VENDOR'', u ''END-VENDOR''}"
    by blast
  then show ?thesis
  proof cases
    case 2
    then obtain s e where "parse_attribute ?t (r_state r, r_dict r) = Inr (s, e)"
      and r': "r' = r\<lparr>r_state := s, r_dict := e\<rparr>"
      using assms(1) unfolding read_line_def Let_def by (auto elim!: bindE_InrE)
    then show ?thesis using parse_attribute_wf [OF _ d tl] by (simp add: reader_wf_def)
  next
    case 3
    then obtain res where v: "parse_value ?t True (r_dict r) = Inr res"
      and r': "r' = (case res of None \<Rightarrow> r\<lparr>r_deferred := r_deferred r @ [?t]\<rparr>
                      | Some e \<Rightarrow> r\<lparr>r_dict := e\<rparr>)"
      using assms(1) unfolding read_line_def Let_def by (auto elim!: bindE_InrE)
    then show ?thesis
      using d tl parse_value_wf [of ?t True "r_dict r"]
      by (cases res) (auto simp: reader_wf_def intro: tlvs_wf_grow)
  next
    case 4
    then obtain e where "parse_vendor ?t (r_dict r) = Inr e" "r' = r\<lparr>r_dict := e\<rparr>"
      using assms(1) unfolding read_line_def Let_def by (auto elim!: bindE_InrE)
    then show ?thesis using parse_vendor_wf [of ?t "r_dict r"] d tl by (simp add: reader_wf_def)
  next
    case 5
    then obtain s where "parse_begin_vendor ?t (r_dict r) (r_state r) = Inr s"
      and r': "r' = r\<lparr>r_state := s\<rparr>"
      using assms(1) unfolding read_line_def Let_def by (auto elim!: bindE_InrE)
    then have "s_tlvs s = s_tlvs (r_state r)"
      by (auto simp: parse_begin_vendor_def bindE_eq_Inr split: if_splits)
    then show ?thesis using d tl by (simp add: r' reader_wf_def)
  next
    case 6
    then obtain s where "parse_end_vendor ?t (r_state r) = Inr s" and r': "r' = r\<lparr>r_state := s\<rparr>"
      using assms(1) unfolding read_line_def Let_def by (auto elim!: bindE_InrE)
    then have "s_tlvs s = s_tlvs (r_state r)"
      by (auto simp: parse_end_vendor_def split: if_splits)
    then show ?thesis using d tl by (simp add: r' reader_wf_def)
  qed (use assms in \<open>simp_all add: read_line_def Let_def\<close>)
qed

lemma parse_deferred_wf: "parse_deferred t e = Inr d' \<Longrightarrow> dict_wf e \<Longrightarrow> dict_wf d'"
  using parse_value_wf [of t False e]
  by (auto simp: parse_deferred_def elim!: bindE_InrE split: if_splits option.splits)

lemma finish_reading_wf: "finish_reading r = Inr d \<Longrightarrow> reader_wf r \<Longrightarrow> dict_wf d"
  unfolding finish_reading_def reader_wf_def
  by (erule foldE_invariant, erule conjunct1) (rule parse_deferred_wf)

lemma chains_of_wf:
  "chains_of h is cs = Some cs' \<Longrightarrow> \<forall>i \<in> set is. i < length h \<Longrightarrow> tlvs_wf h cs \<Longrightarrow> tlvs_wf h cs'"
proof (induction h "is" cs rule: chains_of.induct)
  case (2 h i "is" cs)
  then show ?case by (auto intro: tlvs_wf_set split: if_splits option.splits)
qed simp

lemma od_get_in_values: "od_wf d \<Longrightarrow> v \<in> snd ` set d \<Longrightarrow> \<exists>k. od_get d k = Some v"
  by (metis od_get_def od_keys_def od_wf_def imageE map_of_is_SomeI prod.collapse)

lemma start_reading_wf:
  assumes "start_reading d = Some r" "dict_wf d"
  shows "reader_wf r"
proof -
  from assms(1) obtain cs where cs: "existing_container_chains d = Some cs"
    and r: "r_dict r = d" "s_tlvs (r_state r) = cs"
    by (auto simp: start_reading_def split: option.splits)
  have "\<forall>i \<in> set (map snd (d_attributes d)). i < length (d_heap d)"
    using assms(2) od_get_in_values [of "d_attributes d"]
    by (fastforce simp: dict_wf_def names_wf_def)
  then have "tlvs_wf (d_heap d) cs"
    using chains_of_wf [OF cs [unfolded existing_container_chains_def]] tlvs_wf_Nil by blast
  then show ?thesis using assms(2) r by (simp add: reader_wf_def)
qed

lemma read_lines_wf:
  assumes "read_lines lines d = Some (Inr d')" "dict_wf d"
  shows "dict_wf d'"
proof -
  from assms(1) obtain r r' where r: "start_reading d = Some r"
    and r': "foldE read_line lines r = Inr r'" and fin: "finish_reading r' = Inr d'"
    by (auto simp: read_lines_def bindE_eq_Inr)
  have "reader_wf r'"
    by (rule foldE_invariant [where P = reader_wf, OF r' start_reading_wf [OF r assms(2)]])
      (rule read_line_wf)
  then show ?thesis using fin finish_reading_wf by blast
qed

section \<open>The walk over the parents ends\<close>

text \<open>It ends when no attribute is its own parent.\<close>

definition no_self_parent :: "attribute list \<Rightarrow> bool" where
  "no_self_parent h \<longleftrightarrow> (\<forall>i < length h. a_parent (h ! i) \<noteq> Some i)"

lemma code_chain_ends:
  "heap_wf h \<Longrightarrow> no_self_parent h \<Longrightarrow> i < length h \<Longrightarrow> i < fuel \<Longrightarrow> \<exists>c. code_chain h fuel i = Some c"
proof (induction fuel arbitrary: i)
  case (Suc fuel)
  show ?case
  proof (cases "a_parent (h ! i)")
    case (Some p)
    then have "p \<le> i" "p \<noteq> i" using Suc.prems by (auto simp: heap_wf_def attr_ok_def no_self_parent_def
        split: option.splits)
    then have "\<exists>c. code_chain h fuel p = Some c" using Suc.prems by (intro Suc.IH) auto
    then show ?thesis using Some by auto
  qed simp
qed simp

lemma chains_of_ends:
  "heap_wf h \<Longrightarrow> no_self_parent h \<Longrightarrow> \<forall>i \<in> set is. i < length h \<Longrightarrow> \<exists>cs'. chains_of h is cs = Some cs'"
proof (induction h "is" cs rule: chains_of.induct)
  case (2 h i "is" cs)
  then show ?case using code_chain_ends [of h i "length h"] by (auto split: option.splits)
qed simp

text \<open>A self-parent is never left, however much fuel there is.\<close>

lemma code_chain_loops: "a_parent (h ! i) = Some i \<Longrightarrow> code_chain h fuel i = None"
  by (induction fuel) simp_all

section \<open>Properties\<close>

text \<open>A read that never ends meets an attribute that is its own parent.\<close>

lemma read_lines_None:
  assumes "read_lines lines d = None" "dict_wf d"
  shows "\<exists>i < length (d_heap d). a_parent (d_heap d ! i) = Some i"
proof -
  have "\<forall>i \<in> set (map snd (d_attributes d)). i < length (d_heap d)"
    using assms(2) od_get_in_values [of "d_attributes d"]
    by (fastforce simp: dict_wf_def names_wf_def)
  moreover have "existing_container_chains d = None"
    using assms(1) by (auto simp: read_lines_def start_reading_def split: option.splits)
  ultimately have "\<not> no_self_parent (d_heap d)"
    using chains_of_ends [of "d_heap d" "map snd (d_attributes d)" "[]"] assms(2)
    by (auto simp: existing_container_chains_def dict_wf_def)
  then show ?thesis by (auto simp: no_self_parent_def)
qed

text \<open>
  C33 Whatever lines a dictionary file holds, reading it into a well-formed dictionary ends in one
  of three ways. It fails with an exception; or it gives a well-formed dictionary: every name
  leads to the object of that name, parents are never younger than their members, types,
  encryption kinds, vendor ids and vendor formats are in range, and exactly the defined names
  have a packet key; or it never returns (\<open>None\<close>: the walk over the parents of the containers
  that are already there does not end), and then the dictionary it was read into has an attribute
  that is its own parent. \<open>evs_self_parent_hangs\<close> shows that the last case is real.
\<close>

theorem read_dictionary_wf:
  assumes "dict_wf d"
  shows "case read_lines lines d of
      None \<Rightarrow> \<exists>i < length (d_heap d). a_parent (d_heap d ! i) = Some i
    | Some (Inl e) \<Rightarrow> True
    | Some (Inr d') \<Rightarrow> dict_wf d'"
  using read_lines_None [OF _ assms] read_lines_wf [OF _ assms]
  by (auto split: option.split sum.split)

definition sample_lines :: "ustr list" where
  "sample_lines =
    [u ''VENDOR Acme 99'', u ''ATTRIBUTE User-Name 1 string  # comment'',
     u ''BEGIN-VENDOR Acme'', u ''ATTRIBUTE Acme-Opt 7 tlv'',
     u ''ATTRIBUTE Acme-Sub 7.1 integer'', u ''END-VENDOR Acme'']"

lemma read_dictionary_wf_witness:
  "\<exists>d. read_lines sample_lines dict_init = Some (Inr d) \<and> length (d_heap d) = 3 \<and> dict_wf d"
proof -
  have "ok_opt (read_lines sample_lines dict_init) (\<lambda>d. length (d_heap d) = 3)"
    by code_simp
  then obtain d where d: "read_lines sample_lines dict_init = Some (Inr d)" "length (d_heap d) = 3"
    by (auto dest: ok_opt_Some)
  from read_dictionary_wf [OF dict_wf_init, of sample_lines] d show ?thesis by simp
qed

definition evs_loop_lines :: "ustr list" where
  "evs_loop_lines =
    [u ''VENDOR Acme 99'', u ''ATTRIBUTE Ext 241 extended'', u ''ATTRIBUTE Evs 241.26 evs'',
     u ''BEGIN-VENDOR Acme parent=Evs'', u ''ATTRIBUTE Evs 1 tlv'', u ''END-VENDOR Acme'']"

lemma chains_of_loop:
  "i \<in> set is \<Longrightarrow> a_parent (h ! i) = Some i \<Longrightarrow> a_type (h ! i) \<in> set container_types \<Longrightarrow>
   chains_of h is cs = None"
  by (induction h "is" cs rule: chains_of.induct) (auto simp: code_chain_loops split: option.split)

text \<open>
  An EVS block that redefines the very attribute it names as parent makes that attribute its
  own parent: if the new definition is a container, the next dictionary file loaded into the
  same instance never gets past the table of containers.
\<close>

theorem evs_self_parent_hangs:
  "\<exists>d. read_lines evs_loop_lines dict_init = Some (Inr d) \<and> dict_wf d
    \<and> (\<forall>lines. read_lines lines d = None)"
proof -
  have "ok_opt (read_lines evs_loop_lines dict_init)
      (\<lambda>d. 2 \<in> set (map snd (d_attributes d)) \<and> a_parent (d_heap d ! 2) = Some 2
         \<and> a_type (d_heap d ! 2) \<in> set container_types)"
    by code_simp
  from ok_opt_Some [OF this] obtain d where d: "read_lines evs_loop_lines dict_init = Some (Inr d)"
    and i: "2 \<in> set (map snd (d_attributes d))" "a_parent (d_heap d ! 2) = Some 2"
      "a_type (d_heap d ! 2) \<in> set container_types"
    by blast
  have "existing_container_chains d = None"
    unfolding existing_container_chains_def by (rule chains_of_loop [OF i])
  then have "read_lines lines d = None" for lines
    by (simp add: read_lines_def start_reading_def)
  then show ?thesis using d read_lines_wf [OF d dict_wf_init] by blast
qed

end
