(* ===== verification/Dedup.thy ===== *)
theory Dedup
  imports OrderedDict Constants
begin

text \<open>
  \<^verbatim>\<open>pyrad2/dedup.py\<close>: RFC 5080 duplicate detection. \<open>cache\<close> is a \<^verbatim>\<open>ResponseCache\<close>: the set
  of requests whose handler is running and the replies already sent, ordered by recency, each
  with its expiry time. Each operation of the cache runs under its lock and is one atomic step;
  \<open>consult_cache\<close> is two of them, and both servers call it from one thread. Every reading of
  \<^verbatim>\<open>self._clock()\<close> is an argument.
\<close>

type_synonym time = rat

record DedupKey =
  src_ip :: string
  src_port :: int
  dk_code :: int
  dk_identifier :: int
  dk_request_authenticator :: bytes

record cache =
  ttl :: time
  max_entries :: int
  in_flight :: "DedupKey set"
  cached :: "(DedupKey, bytes \<times> time) od"

datatype lookup_result = NoEntry | IN_FLIGHT | Reply bytes

datatype DispatchAction = PROCESS | DROP | RESENT

definition DEDUPABLE_CODES :: "int list" where
  "DEDUPABLE_CODES = [pt AccessRequest, pt AccountingRequest, pt CoARequest, pt DisconnectRequest]"

definition cache_init :: "time \<Rightarrow> int \<Rightarrow> cache res" where
  "cache_init t m =
     (if t \<le> 0 then Inl ValueError
      else if m \<le> 0 then Inl ValueError
      else Inr \<lparr>ttl = t, max_entries = m, in_flight = {}, cached = []\<rparr>)"

definition lookup :: "time \<Rightarrow> DedupKey \<Rightarrow> cache \<Rightarrow> lookup_result \<times> cache" where
  "lookup now key c =
     (case od_get (cached c) key of
        Some (raw, expires_at) \<Rightarrow>
          if now < expires_at
          then (Reply raw, c\<lparr>cached := od_move_to_end key (cached c)\<rparr>)
          else
            (let c' = c\<lparr>cached := od_del key (cached c)\<rparr>
             in (if key \<in> in_flight c' then IN_FLIGHT else NoEntry, c'))
      | None \<Rightarrow> (if key \<in> in_flight c then IN_FLIGHT else NoEntry, c))"

definition mark_in_flight :: "DedupKey \<Rightarrow> cache \<Rightarrow> cache" where
  "mark_in_flight key c = c\<lparr>in_flight := insert key (in_flight c)\<rparr>"

definition drop_in_flight :: "DedupKey \<Rightarrow> cache \<Rightarrow> cache" where
  "drop_in_flight key c = c\<lparr>in_flight := in_flight c - {key}\<rparr>"

text \<open>The two loops of \<^verbatim>\<open>_evict_locked\<close>.\<close>

fun drop_expired :: "time \<Rightarrow> (DedupKey, bytes \<times> time) od \<Rightarrow> (DedupKey, bytes \<times> time) od" where
  "drop_expired now [] = []"
| "drop_expired now ((k, raw, expires_at) # d) =
     (if expires_at > now then (k, raw, expires_at) # d else drop_expired now d)"

fun enforce_cap :: "int \<Rightarrow> (DedupKey, bytes \<times> time) od \<Rightarrow> (DedupKey, bytes \<times> time) od" where
  "enforce_cap m [] = []"
| "enforce_cap m (e # d) = (if int (length (e # d)) > m then enforce_cap m d else e # d)"

definition evict_locked :: "time \<Rightarrow> cache \<Rightarrow> cache" where
  "evict_locked now c = c\<lparr>cached := enforce_cap (max_entries c) (drop_expired now (cached c))\<rparr>"

definition record_reply ::
    "time \<Rightarrow> time \<Rightarrow> DedupKey \<Rightarrow> bytes \<Rightarrow> time option \<Rightarrow> cache \<Rightarrow> cache" where
  "record_reply now1 now2 key raw ttl' c =
     (let expires_at = now1 + (case ttl' of None \<Rightarrow> ttl c | Some t \<Rightarrow> t);
          c1 = drop_in_flight key c;
          c2 = c1\<lparr>cached := od_set key (raw, expires_at) (cached c1)\<rparr>;
          c3 = c2\<lparr>cached := od_move_to_end key (cached c2)\<rparr>
      in evict_locked now2 c3)"

definition cache_clear :: "cache \<Rightarrow> cache" where
  "cache_clear c = c\<lparr>cached := [], in_flight := {}\<rparr>"

definition cache_len :: "cache \<Rightarrow> nat" where
  "cache_len c = length (cached c)"

text \<open>
  \<^verbatim>\<open>consult_cache\<close> returns the action, the datagrams passed to \<open>resend\<close> and the cache. A
  missing cache or key (\<open>None\<close>) always means \<open>PROCESS\<close>.
\<close>

definition consult_cache ::
    "time \<Rightarrow> cache option \<Rightarrow> DedupKey option \<Rightarrow> DispatchAction \<times> bytes list \<times> cache option" where
  "consult_cache now c key =
     (case (c, key) of
        (Some c, Some key) \<Rightarrow>
          (case lookup now key c of
             (IN_FLIGHT, c') \<Rightarrow> (DROP, [], Some c')
           | (Reply raw, c') \<Rightarrow> (RESENT, [raw], Some c')
           | (NoEntry, c') \<Rightarrow> (PROCESS, [], Some (mark_in_flight key c')))
      | _ \<Rightarrow> (PROCESS, [], c))"

definition record_if_keyed ::
    "time \<Rightarrow> time \<Rightarrow> cache option \<Rightarrow> DedupKey option \<Rightarrow> bytes \<Rightarrow> cache option" where
  "record_if_keyed now1 now2 c key raw =
     (case (c, key) of
        (Some c, Some key) \<Rightarrow> Some (record_reply now1 now2 key raw None c)
      | _ \<Rightarrow> c)"

section \<open>Invariant\<close>

definition cache_wf :: "cache \<Rightarrow> bool" where
  "cache_wf c \<longleftrightarrow> 0 < ttl c \<and> 0 < max_entries c \<and> od_wf (cached c)
     \<and> int (length (cached c)) \<le> max_entries c"

lemma drop_expired_suffix: "\<exists>pre. d = pre @ drop_expired now d"
proof (induction now d rule: drop_expired.induct)
  case (2 now k raw e d)
  then show ?case by simp (metis append_Cons append_Nil)
qed simp

lemma enforce_cap_suffix: "\<exists>pre. d = pre @ enforce_cap m d"
proof (induction m d rule: enforce_cap.induct)
  case (2 m e d)
  then show ?case by simp (metis append_Cons append_Nil)
qed simp

lemma enforce_cap_bound: "0 \<le> m \<Longrightarrow> int (length (enforce_cap m d)) \<le> m"
  by (induction m d rule: enforce_cap.induct) auto

lemma enforce_cap_id: "int (length d) \<le> m \<Longrightarrow> enforce_cap m d = d"
  by (cases d) auto

lemma evict_suffix:
  "\<exists>pre. cached c = pre @ cached (evict_locked now c)"
proof -
  obtain p1 where 1: "cached c = p1 @ drop_expired now (cached c)"
    using drop_expired_suffix by blast
  obtain p2 where "drop_expired now (cached c) =
      p2 @ enforce_cap (max_entries c) (drop_expired now (cached c))"
    using enforce_cap_suffix by blast
  with 1 have "cached c = (p1 @ p2) @ cached (evict_locked now c)"
    by (simp add: evict_locked_def)
  then show ?thesis ..
qed

lemma drop_expired_keeps_last:
  "now < e \<Longrightarrow> \<exists>d'. drop_expired now (d @ [(k, raw, e)]) = d' @ [(k, raw, e)]"
  by (induction now d rule: drop_expired.induct) auto

lemma enforce_cap_keeps_last: "0 < m \<Longrightarrow> \<exists>d'. enforce_cap m (d @ [x]) = d' @ [x]"
proof (induction m d rule: enforce_cap.induct)
  case (2 m e d)
  then show ?case
    by (cases "int (length (d @ [x])) \<le> m") (auto simp: enforce_cap_id)
qed simp

lemma od_wf_suffix: "od_wf (d @ e) \<Longrightarrow> od_wf e"
  by (simp add: od_wf_def)

lemma length_od_set_le: "length (od_set k v d) \<le> Suc (length d)"
  using od.length_keys_set [of k v d] by simp

lemma evict_wf:
  assumes "0 < ttl c" "0 < max_entries c" "od_wf (cached c)"
  shows "cache_wf (evict_locked now c)"
proof -
  obtain pre where "cached c = pre @ cached (evict_locked now c)"
    using evict_suffix by blast
  then have "od_wf (cached (evict_locked now c))"
    using assms(3) od_wf_suffix by metis
  then show ?thesis
    using assms(1,2) enforce_cap_bound [of "max_entries c" "drop_expired now (cached c)"]
    by (simp add: cache_wf_def evict_locked_def)
qed

lemma cache_init_wf: "cache_init t m = Inr c \<Longrightarrow> cache_wf c"
  by (auto simp: cache_init_def cache_wf_def split: if_splits)

lemma length_od_move: "od_wf d \<Longrightarrow> length (od_move_to_end k d) = length d"
  using odr.length_to_end [of d k] by simp

lemma length_od_del_le: "length (od_del k d) \<le> length d"
  by (simp add: od_del_def)

lemma lookup_wf: "cache_wf c \<Longrightarrow> cache_wf (snd (lookup now key c))"
  using length_od_del_le [of key "cached c"]
  by (auto simp: lookup_def cache_wf_def Let_def length_od_move
      intro: odr.wf_to_end od.wf_del split: option.splits)

lemma mark_wf: "cache_wf c \<Longrightarrow> cache_wf (mark_in_flight key c)"
  by (simp add: cache_wf_def mark_in_flight_def)

lemma drop_wf: "cache_wf c \<Longrightarrow> cache_wf (drop_in_flight key c)"
  by (simp add: cache_wf_def drop_in_flight_def)

lemma record_wf: "cache_wf c \<Longrightarrow> cache_wf (record_reply now1 now2 key raw t c)"
  unfolding record_reply_def Let_def
  by (rule evict_wf) (auto simp: cache_wf_def drop_in_flight_def intro!: odr.wf_to_end od.wf_set)

lemma clear_wf: "cache_wf c \<Longrightarrow> cache_wf (cache_clear c)"
  by (simp add: cache_wf_def cache_clear_def)

lemma in_flight_lookup [simp]: "in_flight (snd (lookup now key c)) = in_flight c"
  by (simp add: lookup_def Let_def split: option.split)

lemma in_flight_record [simp]:
  "in_flight (record_reply now1 now2 key raw t c) = in_flight c - {key}"
  by (simp add: record_reply_def Let_def evict_locked_def drop_in_flight_def)

lemma consult_cache_cases:
  "consult_cache now (Some c) (Some key) =
     (case lookup now key c of
        (IN_FLIGHT, c') \<Rightarrow> (DROP, [], Some c')
      | (Reply raw, c') \<Rightarrow> (RESENT, [raw], Some c')
      | (NoEntry, c') \<Rightarrow> (PROCESS, [], Some (mark_in_flight key c')))"
  by (simp add: consult_cache_def)

section \<open>What a duplicate gets\<close>

lemma record_get:
  assumes "cache_wf c" and e: "e = now1 + (case t of None \<Rightarrow> ttl c | Some t \<Rightarrow> t)" and "now2 < e"
  shows "od_get (cached (record_reply now1 now2 key raw t c)) key = Some (raw, e)"
proof -
  let ?d = "od_move_to_end key (od_set key (raw, e) (cached c))"
  have wf: "od_wf ?d"
    using assms(1) by (auto simp: cache_wf_def intro: odr.wf_to_end od.wf_set)
  have eq: "cached (record_reply now1 now2 key raw t c) =
      enforce_cap (max_entries c) (drop_expired now2 ?d)"
    by (simp add: record_reply_def Let_def evict_locked_def drop_in_flight_def e)
  have d: "?d = od_del key (od_set key (raw, e) (cached c)) @ [(key, raw, e)]"
    by (simp add: od_move_to_end_def od_get_set)
  obtain d1 where d1: "drop_expired now2 ?d = d1 @ [(key, raw, e)]"
    using drop_expired_keeps_last [OF \<open>now2 < e\<close>] unfolding d by blast
  obtain d2 where d2: "enforce_cap (max_entries c) (d1 @ [(key, raw, e)]) = d2 @ [(key, raw, e)]"
    using enforce_cap_keeps_last assms(1) unfolding cache_wf_def by blast
  have "od_wf (d2 @ [(key, raw, e)])"
    using record_wf [OF assms(1), of now1 now2 key raw t] eq d1 d2
    by (simp add: cache_wf_def)
  then have "od_get d2 key = None"
    by (auto simp: od_wf_def od_get_eq_None_iff)
  then show ?thesis by (simp add: eq d1 d2 od_get_append)
qed

lemma duplicate_gets_cached_reply:
  assumes "cache_wf c" and "now2 < now1 + ttl c" and "now3 < now1 + ttl c"
  shows "\<exists>c'. consult_cache now3 (record_if_keyed now1 now2 (Some c) (Some key) raw) (Some key) =
    (RESENT, [raw], Some c')"
proof -
  have "od_get (cached (record_reply now1 now2 key raw None c)) key = Some (raw, now1 + ttl c)"
    by (rule record_get) (use assms in simp_all)
  then show ?thesis
    using assms(3) by (simp add: consult_cache_cases record_if_keyed_def lookup_def)
qed

lemma duplicate_in_flight_dropped:
  assumes "key \<in> in_flight c" and "\<And>raw e. od_get (cached c) key = Some (raw, e) \<Longrightarrow> e \<le> now"
  shows "\<exists>c'. consult_cache now (Some c) (Some key) = (DROP, [], Some c')"
  using assms by (auto simp: consult_cache_cases lookup_def Let_def split: option.split)

lemma lookup_NoEntry: "lookup now key c = (NoEntry, c') \<Longrightarrow> key \<notin> in_flight c"
  by (auto simp: lookup_def Let_def split: option.splits if_splits)

lemma consult_PROCESS:
  "consult_cache now (Some c) (Some k) = (PROCESS, sent, Some c') \<Longrightarrow>
   k \<notin> in_flight c \<and> sent = [] \<and> c' = mark_in_flight k (snd (lookup now k c))"
  by (auto simp: consult_cache_cases split: prod.splits lookup_result.splits dest: lookup_NoEntry)

lemma consult_other:
  "consult_cache now (Some c) (Some k) = (act, sent, Some c') \<Longrightarrow> act \<noteq> PROCESS \<Longrightarrow>
   c' = snd (lookup now k c)"
  by (auto simp: consult_cache_cases split: prod.splits lookup_result.splits)

section \<open>Properties\<close>

text \<open>
  A retransmission gets the reply of the original and the handler is not run again: once the
  reply was recorded, a request with the same key is answered with the recorded octets at
  every time before the reply expires, and while the handler still runs it is dropped.
\<close>

theorem duplicates_replayed:
  assumes "cache_wf c" "k \<notin> set (od_keys (cached c))"
    and t: "t2 < t1 + ttl c" "t3 < t1 + ttl c"
  shows "consult_cache t0 (Some (mark_in_flight k c)) (Some k) = (DROP, [], Some (mark_in_flight k c))
    \<and> (\<exists>c'. consult_cache t3 (record_if_keyed t1 t2 (Some (mark_in_flight k c)) (Some k) raw) (Some k)
        = (RESENT, [raw], Some c') \<and> k \<notin> in_flight c')"
proof
  have none: "od_get (cached (mark_in_flight k c)) k = None"
    using assms(2) by (simp add: od_get_eq_None_iff mark_in_flight_def)
  then show "consult_cache t0 (Some (mark_in_flight k c)) (Some k) = (DROP, [], Some (mark_in_flight k c))"
    by (simp add: consult_cache_cases lookup_def) (simp add: mark_in_flight_def)
  let ?c = "record_reply t1 t2 k raw None (mark_in_flight k c)"
  have "od_get (cached ?c) k = Some (raw, t1 + ttl c)"
    by (rule record_get) (use mark_wf [OF assms(1)] t in \<open>auto simp: mark_in_flight_def\<close>)
  then show "\<exists>c'. consult_cache t3 (record_if_keyed t1 t2 (Some (mark_in_flight k c)) (Some k) raw)
      (Some k) = (RESENT, [raw], Some c') \<and> k \<notin> in_flight c'"
    using t by (simp add: record_if_keyed_def consult_cache_cases lookup_def)
qed

lemma duplicates_replayed_witness:
  fixes k :: DedupKey
  defines "k \<equiv> \<lparr>src_ip = ''10.0.0.1'', src_port = 1812, dk_code = 1, dk_identifier = 7,
    dk_request_authenticator = [1, 2, 3]\<rparr>"
  defines "c \<equiv> \<lparr>ttl = 30, max_entries = 1, in_flight = {}, cached = []\<rparr>"
  shows "\<exists>c'. consult_cache 9 (record_if_keyed 1 2 (Some (mark_in_flight k c)) (Some k) [7, 8]) (Some k)
    = (RESENT, [[7, 8]], Some c') \<and> k \<notin> in_flight c'"
  using duplicates_replayed [of c k 2 1 9 0 "[7, 8]"] by (simp add: c_def cache_wf_def)

end
