(* ===== verification/PacketModel.thy ===== *)
theory PacketModel
  imports Dictionary Hashes RadiusV11 Dedup
begin

text \<open>
  The state of \<^verbatim>\<open>pyrad2.packet.Packet\<close> and its mapping interface. A packet is a Python
  dictionary of stored attributes with further fields beside it. Under a key (\<open>pkey\<close>) it
  stores a list of values or, for container attributes, a dictionary from sub-attribute code
  to such a store. A caller names an attribute by its dictionary name (\<open>KName\<close>, the values are
  then en- and decoded) or by its raw key (\<open>KRaw\<close>).

  Methods that may raise and change the packet return \<open>exn + ('a \<times> packet)\<close>. When a method
  raises, the changes it has made by then are not modelled. \<^verbatim>\<open>secrets.SystemRandom\<close> is a
  stream of integers (\<open>p_rng\<close>) with the position of the next draw (\<open>p_pos\<close>). A missing
  \<^verbatim>\<open>dict\<close> attribute and \<^verbatim>\<open>dict=None\<close> are both \<open>p_dict = None\<close>.
\<close>

datatype store = Vals "pyval list" | Sub "(int \<times> store) list"

type_synonym submap = "(int \<times> store) list"

datatype akey = KName ustr | KRaw pkey

datatype item = IList "pyval list" | IMap "(ustr \<times> item) list"

datatype pclass = PacketC | AuthC | AcctC | CoAC | StatusC

record packet =
  p_class :: pclass
  p_code :: int
  p_id :: "int option"
  p_secret :: bytes
  p_auth :: "bytes option"
  p_token :: "bytes option"
  p_req_auth :: "bytes option"
  p_orig_code :: "int option"
  p_ma :: "bool option"
  p_raw :: "bytes option"
  p_version :: RadiusVersion
  p_deferred :: "(ustr, pyval list) od"
  p_attrs :: "(pkey, store) od"
  p_dict :: "dictionary option"
  p_lbuf :: "(int list, bytes) od"
  p_vbuf :: "(int \<times> int, bytes) od"
  p_auth_type :: string
  p_source :: "(string \<times> int) option"
  p_dedup :: "DedupKey option"
  p_rng :: "nat \<Rightarrow> int"
  p_pos :: nat

type_synonym 'a pm = "('a \<times> packet) res"

section \<open>Random numbers and identifiers\<close>

text \<open>\<^verbatim>\<open>random_generator.randrange(a, b)\<close>.\<close>

definition randrange :: "int \<Rightarrow> int \<Rightarrow> packet \<Rightarrow> int \<times> packet" where
  "randrange a b p = (a + p_rng p (p_pos p) mod (b - a), p\<lparr>p_pos := Suc (p_pos p)\<rparr>)"

fun rand_bytes :: "nat \<Rightarrow> packet \<Rightarrow> bytes \<times> packet" where
  "rand_bytes 0 p = ([], p)"
| "rand_bytes (Suc n) p =
     (let (x, p1) = randrange 0 256 p; (bs, p2) = rand_bytes n p1
      in (word_of_int x # bs, p2))"

definition create_authenticator :: "packet \<Rightarrow> bytes \<times> packet" where
  "create_authenticator p = rand_bytes 16 p"

text \<open>The static method; the constructor uses the module's counter (\<open>next_id\<close>) instead.\<close>

definition create_id :: "packet \<Rightarrow> int \<times> packet" where
  "create_id p = randrange 0 256 p"

definition next_id :: "int \<Rightarrow> int" where
  "next_id current = (current + 1) mod 256"

definition is_v11 :: "packet \<Rightarrow> bool" where
  "is_v11 p \<longleftrightarrow> p_version p = V1_1"

section \<open>Keys\<close>

definition with_dict :: "packet \<Rightarrow> (dictionary \<Rightarrow> 'a res) \<Rightarrow> 'a res" where
  "with_dict p f = (case p_dict p of None \<Rightarrow> Inl AttributeError | Some d \<Rightarrow> f d)"

definition attr_named :: "dictionary \<Rightarrow> ustr \<Rightarrow> attribute option" where
  "attr_named d n = map_option (\<lambda>i. d_heap d ! i) (od_get (d_attributes d) n)"

definition parent_attr :: "dictionary \<Rightarrow> attribute \<Rightarrow> attribute option" where
  "parent_attr d a = map_option (\<lambda>i. d_heap d ! i) (a_parent a)"

definition under_evs :: "dictionary \<Rightarrow> attribute \<Rightarrow> bool" where
  "under_evs d a =
     (case parent_attr d a of None \<Rightarrow> False | Some q \<Rightarrow> a_type q = ''evs'')"

text \<open>\<^verbatim>\<open>_encode_key\<close> for a name.\<close>

definition encode_name :: "dictionary \<Rightarrow> ustr \<Rightarrow> pkey res" where
  "encode_name d n =
     bindE (dict_getitem d n) (\<lambda>a.
     if a_is_sub a \<and> under_evs d a then bd_get_forward (d_attrindex d) n
     else if a_vendor a \<noteq> [] \<and> \<not> a_is_sub a then
       bindE (bd_get_forward (d_vendors d) (a_vendor a)) (\<lambda>v. Inr (KTup [v, a_code a]))
     else Inr (KInt (a_code a)))"

definition encode_key :: "packet \<Rightarrow> akey \<Rightarrow> pkey res" where
  "encode_key p k =
     (case k of KRaw r \<Rightarrow> Inr r | KName n \<Rightarrow> with_dict p (\<lambda>d. encode_name d n))"

text \<open>\<^verbatim>\<open>_decode_key\<close>, and \<^verbatim>\<open>dictionary.attributes.get(self._decode_key(key))\<close>.\<close>

definition decode_key :: "dictionary \<Rightarrow> pkey \<Rightarrow> akey" where
  "decode_key d k =
     (case od_get (backward (d_attrindex d)) k of Some n \<Rightarrow> KName n | None \<Rightarrow> KRaw k)"

definition attr_of_key :: "dictionary \<Rightarrow> pkey \<Rightarrow> attribute option" where
  "attr_of_key d k =
     (case decode_key d k of KName n \<Rightarrow> attr_named d n | KRaw _ \<Rightarrow> None)"

definition dict_attr :: "dictionary option \<Rightarrow> pkey \<Rightarrow> attribute option" where
  "dict_attr d k = (case d of None \<Rightarrow> None | Some d \<Rightarrow> attr_of_key d k)"

definition is_concat_attribute :: "dictionary option \<Rightarrow> pkey \<Rightarrow> bool" where
  "is_concat_attribute d k = (case dict_attr d k of None \<Rightarrow> False | Some a \<Rightarrow> a_concat a)"

definition is_virtual_attribute :: "dictionary option \<Rightarrow> pkey \<Rightarrow> bool" where
  "is_virtual_attribute d k = (case dict_attr d k of None \<Rightarrow> False | Some a \<Rightarrow> a_virtual a)"

definition is_array_attribute :: "dictionary option \<Rightarrow> pkey \<Rightarrow> bool" where
  "is_array_attribute d k = (case dict_attr d k of None \<Rightarrow> False | Some a \<Rightarrow> a_array a)"

definition container_type :: "dictionary option \<Rightarrow> pkey \<Rightarrow> string option" where
  "container_type d k =
     (case dict_attr d k of
        None \<Rightarrow> None
      | Some a \<Rightarrow> if a_type a \<in> set container_types then Some (a_type a) else None)"

definition packet_vendor_format :: "dictionary option \<Rightarrow> int \<Rightarrow> nat \<times> nat \<times> bool" where
  "packet_vendor_format d v = (case d of None \<Rightarrow> (1, 1, False) | Some d \<Rightarrow> vendor_format d v)"

text \<open>\<^verbatim>\<open>key.partition(":")\<close>: the name and the tag, empty when there is none.\<close>

definition split_tag :: "ustr \<Rightarrow> ustr \<times> ustr" where
  "split_tag s =
     (let colon = of_char (CHR '':'')
      in (takeWhile (\<lambda>c. c \<noteq> colon) s, drop 1 (dropWhile (\<lambda>c. c \<noteq> colon) s)))"

section \<open>Keystreams\<close>

text \<open>\<^verbatim>\<open>_md5_keystream_xor\<close>: the result is always 16 octets; the block is at most 16.\<close>

definition md5_keystream_xor :: "bytes \<Rightarrow> bytes \<Rightarrow> bytes \<Rightarrow> bytes" where
  "md5_keystream_xor secret prev block =
     be_bytes 16 (be_val (md5 (secret @ prev)) XOR be_val block)"

text \<open>Chaining on the previous output, and on the previous input.\<close>

fun chain_output :: "bytes \<Rightarrow> bytes \<Rightarrow> bytes list \<Rightarrow> bytes" where
  "chain_output secret prev [] = []"
| "chain_output secret prev (b # bs) =
     (let c = md5_keystream_xor secret prev b in c @ chain_output secret c bs)"

fun chain_input :: "bytes \<Rightarrow> bytes \<Rightarrow> bytes list \<Rightarrow> bytes" where
  "chain_input secret prev [] = []"
| "chain_input secret prev (b # bs) =
     md5_keystream_xor secret prev b @ chain_input secret b bs"

text \<open>Zero padding to a multiple of 16, as \<^verbatim>\<open>pw_crypt\<close> and \<^verbatim>\<open>salt_crypt\<close> do it.\<close>

definition pad16 :: "bytes \<Rightarrow> bytes" where
  "pad16 bs =
     (if length bs mod 16 \<noteq> 0 then bs @ replicate (16 - length bs mod 16) 0 else bs)"

text \<open>\<^verbatim>\<open>_salt_en_decrypt\<close>: \<^verbatim>\<open>None + salt\<close> is a \<^verbatim>\<open>TypeError\<close>.\<close>

definition salt_en_decrypt :: "packet \<Rightarrow> bytes \<Rightarrow> bytes \<Rightarrow> bytes res" where
  "salt_en_decrypt p data salt =
     (case (case p_req_auth p of Some a \<Rightarrow> Some a | None \<Rightarrow> p_auth p) of
        None \<Rightarrow> Inl TypeError
      | Some a \<Rightarrow> Inr (chain_output (p_secret p) (a @ salt) (chunks 16 data)))"

text \<open>Text is encoded; what is neither text nor octets has no length (\<^verbatim>\<open>TypeError\<close>).\<close>

definition plain_bytes :: "pyval \<Rightarrow> bytes res" where
  "plain_bytes v =
     (case v of PStr s \<Rightarrow> utf8_encode s | PBytes bs \<Rightarrow> Inr bs | _ \<Rightarrow> Inl TypeError)"

definition need_authenticator :: "packet \<Rightarrow> packet" where
  "need_authenticator p =
     (case p_auth p of
        Some _ \<Rightarrow> p
      | None \<Rightarrow> (let (a, p') = create_authenticator p in p'\<lparr>p_auth := Some a\<rparr>))"

definition salt_crypt :: "pyval \<Rightarrow> packet \<Rightarrow> bytes pm" where
  "salt_crypt v p =
     (let q = need_authenticator p; (r, q') = randrange 0 32767 q;
          salt = be_bytes 2 (32768 + r)
      in bindE (plain_bytes v) (\<lambda>bs.
         bindE (pack_uint 1 (int (length bs))) (\<lambda>l.
         bindE (salt_en_decrypt q' (pad16 (l @ bs)) salt) (\<lambda>c.
         Inr (salt @ c, q')))))"

definition salt_decrypt :: "packet \<Rightarrow> bytes \<Rightarrow> bytes res" where
  "salt_decrypt p value =
     (let salt = take 2 value
      in bindE (salt_en_decrypt p (drop 2 value) salt) (\<lambda>out.
         case out of [] \<Rightarrow> Inl IndexError | l # r \<Rightarrow> Inr (take (unat l) r)))"

section \<open>Values\<close>

definition decode_value :: "packet \<Rightarrow> attribute \<Rightarrow> pyval \<Rightarrow> pyval res" where
  "decode_value p a v =
     bindE
       (if a_encrypt a = 2 \<and> p_version p \<noteq> V1_1 then
          (case v of PBytes bs \<Rightarrow> bindE (salt_decrypt p bs) (\<lambda>x. Inr (PBytes x)) | _ \<Rightarrow> Inl TypeError)
        else Inr v)
       (\<lambda>v. case od_get (backward (a_values a)) v of
              Some name \<Rightarrow> Inr (PStr name)
            | None \<Rightarrow> decode_attr (a_type a) v)"

definition named_value :: "attribute \<Rightarrow> pyval \<Rightarrow> pyval option" where
  "named_value a v = (case v of PStr s \<Rightarrow> od_get (forward (a_values a)) s | _ \<Rightarrow> None)"

definition encode_value :: "attribute \<Rightarrow> pyval \<Rightarrow> packet \<Rightarrow> pyval pm" where
  "encode_value a v p =
     bindE (case named_value a v of Some x \<Rightarrow> Inr x | None \<Rightarrow> encode_attr (a_type a) v) (\<lambda>r.
     if a_encrypt a = 2 \<and> p_version p \<noteq> V1_1 then
       bindE (salt_crypt r p) (\<lambda>(c, p'). Inr (PBytes c, p'))
     else Inr (r, p))"

definition as_bytes :: "pyval \<Rightarrow> bytes res" where
  "as_bytes v = (case v of PBytes bs \<Rightarrow> Inr bs | _ \<Rightarrow> Inl TypeError)"

text \<open>The tag octet in front; an integer gives up its first octet for it.\<close>

definition tag_value :: "attribute \<Rightarrow> bytes \<Rightarrow> pyval \<Rightarrow> pyval res" where
  "tag_value a tag v =
     bindE (as_bytes v) (\<lambda>bs.
     Inr (PBytes (tag @ (if a_type a = ''integer'' then drop 1 bs else bs))))"

fun encode_values :: "attribute \<Rightarrow> bytes option \<Rightarrow> pyval list \<Rightarrow> packet \<Rightarrow> pyval list pm" where
  "encode_values a tag [] p = Inr ([], p)"
| "encode_values a tag (v # vs) p =
     bindE (encode_value a v p) (\<lambda>(x, p1).
     bindE (case tag of None \<Rightarrow> Inr x | Some t \<Rightarrow> tag_value a t x) (\<lambda>y.
     bindE (encode_values a tag vs p1) (\<lambda>(ys, p2). Inr (y # ys, p2))))"

definition tag_bytes :: "ustr \<Rightarrow> bytes option res" where
  "tag_bytes tag =
     (if tag = [] then Inr None
      else bindE (py_int 10 tag) (\<lambda>n. bindE (pack_uint 1 n) (\<lambda>t. Inr (Some t))))"

text \<open>\<^verbatim>\<open>_encode_key_values\<close> for a name; a value that is not a list is passed as \<open>[v]\<close>.\<close>

definition encode_key_values :: "ustr \<Rightarrow> pyval list \<Rightarrow> packet \<Rightarrow> (pkey \<times> pyval list) pm" where
  "encode_key_values key values p =
     with_dict p (\<lambda>d.
       let (name, tag) = split_tag key in
       bindE (dict_getitem d name) (\<lambda>a.
       bindE (encode_name d name) (\<lambda>k.
       bindE (tag_bytes tag) (\<lambda>t.
       bindE (encode_values a t values p) (\<lambda>(vs, p').
       Inr ((k, vs), p'))))))"

section \<open>The mapping interface\<close>

text \<open>Iterating over a stored dictionary yields its codes.\<close>

definition store_iter :: "store \<Rightarrow> pyval list" where
  "store_iter s = (case s of Vals vs \<Rightarrow> vs | Sub m \<Rightarrow> map (\<lambda>kv. PInt (fst kv)) m)"

definition contains :: "akey \<Rightarrow> packet \<Rightarrow> bool res" where
  "contains k p =
     (case encode_key p k of
        Inr r \<Rightarrow> Inr (od_mem (p_attrs p) r)
      | Inl e \<Rightarrow> if e = KeyError then Inr False else Inl e)"

definition has_attribute :: "ustr \<Rightarrow> int \<Rightarrow> packet \<Rightarrow> bool" where
  "has_attribute name code p \<longleftrightarrow>
     (case contains (KName name) p of Inr b \<Rightarrow> b | Inl _ \<Rightarrow> False)
     \<or> od_mem (p_attrs p) (KInt code)"

definition raw_getitem :: "pkey \<Rightarrow> packet \<Rightarrow> store res" where
  "raw_getitem k p =
     (case od_get (p_attrs p) k of Some s \<Rightarrow> Inr s | None \<Rightarrow> Inl KeyError)"

definition add_item :: "ustr \<Rightarrow> pyval \<Rightarrow> (ustr, item) od \<Rightarrow> (ustr, item) od res" where
  "add_item n v r =
     (case od_get r n of
        None \<Rightarrow> Inr (r @ [(n, IList [v])])
      | Some (IList vs) \<Rightarrow> Inr (od_set n (IList (vs @ [v])) r)
      | Some (IMap _) \<Rightarrow> Inl AttributeError)"

fun decode_container ::
    "packet \<Rightarrow> dictionary \<Rightarrow> attribute \<Rightarrow> submap \<Rightarrow> (ustr, item) od \<Rightarrow> (ustr, item) od res" where
  "decode_container p d a [] r = Inr r"
| "decode_container p d a ((c, s) # m) r =
     (case od_get (a_subs a) c of
        None \<Rightarrow> Inl KeyError
      | Some n \<Rightarrow>
          bindE (dict_getitem d n) (\<lambda>b.
          bindE
            (case s of
               Sub m' \<Rightarrow>
                 bindE (decode_container p d b m' []) (\<lambda>sub. Inr (od_set n (IMap sub) r))
             | Vals vs \<Rightarrow>
                 foldE (\<lambda>v r. bindE (decode_value p b v) (\<lambda>x. add_item n x r)) vs r)
            (\<lambda>r'. decode_container p d a m r')))"

text \<open>\<^verbatim>\<open>packet[name]\<close>.\<close>

definition getitem :: "ustr \<Rightarrow> packet \<Rightarrow> item res" where
  "getitem n p =
     with_dict p (\<lambda>d.
       bindE (encode_name d n) (\<lambda>k.
       bindE (raw_getitem k p) (\<lambda>s.
       bindE (dict_getitem d n) (\<lambda>a.
       if a_type a \<in> set container_types then
         (case s of
            Vals _ \<Rightarrow> Inl AttributeError
          | Sub m \<Rightarrow> bindE (decode_container p d a m []) (\<lambda>r. Inr (IMap r)))
       else bindE (mapE (decode_value p a) (store_iter s)) (\<lambda>vs. Inr (IList vs))))))"

definition raw_setitem :: "pkey \<Rightarrow> store \<Rightarrow> packet \<Rightarrow> packet" where
  "raw_setitem k s p = p\<lparr>p_attrs := od_set k s (p_attrs p)\<rparr>"

text \<open>\<^verbatim>\<open>packet[name] = values\<close>.\<close>

definition setitem :: "ustr \<Rightarrow> pyval list \<Rightarrow> packet \<Rightarrow> packet res" where
  "setitem key values p =
     bindE (encode_key_values key values p) (\<lambda>((k, vs), p').
     Inr (raw_setitem k (Vals vs) p'))"

definition delitem :: "akey \<Rightarrow> packet \<Rightarrow> packet res" where
  "delitem key p =
     bindE (encode_key p key) (\<lambda>k.
     bindE (od_delE k (p_attrs p)) (\<lambda>st. Inr (p\<lparr>p_attrs := st\<rparr>)))"

definition packet_keys :: "packet \<Rightarrow> akey list res" where
  "packet_keys p = with_dict p (\<lambda>d. Inr (map (decode_key d) (od_keys (p_attrs p))))"

text \<open>\<^verbatim>\<open>self.setdefault(key, []).extend(vs)\<close>.\<close>

definition extend_store :: "store option \<Rightarrow> pyval list \<Rightarrow> store res" where
  "extend_store s vs =
     (case s of
        None \<Rightarrow> Inr (Vals vs)
      | Some (Vals ws) \<Rightarrow> Inr (Vals (ws @ vs))
      | Some (Sub _) \<Rightarrow> Inl AttributeError)"

definition raw_extend :: "pkey \<Rightarrow> pyval list \<Rightarrow> (pkey, store) od \<Rightarrow> (pkey, store) od res" where
  "raw_extend k vs d = bindE (extend_store (od_get d k) vs) (\<lambda>s. Inr (od_set k s d))"

text \<open>Descend along the codes of a parent chain, then extend the leaf.\<close>

fun sub_extend :: "int list \<Rightarrow> int \<Rightarrow> pyval list \<Rightarrow> submap \<Rightarrow> submap res" where
  "sub_extend [] k vs m = bindE (extend_store (od_get m k) vs) (\<lambda>s. Inr (od_set k s m))"
| "sub_extend (c # cs) k vs m =
     bindE (case od_get m c of
              None \<Rightarrow> Inr [] | Some (Sub m') \<Rightarrow> Inr m' | Some (Vals _) \<Rightarrow> Inl PacketError) (\<lambda>m1.
     bindE (sub_extend cs k vs m1) (\<lambda>m2. Inr (od_set c (Sub m2) m)))"

text \<open>
  The parents of \<^verbatim>\<open>_tlv_storage_for\<close>, outermost first: a parent that is no sub-attribute ends
  the walk. \<open>None\<close>: the walk did not end within the fuel.
\<close>

fun parent_chain :: "dictionary \<Rightarrow> nat \<Rightarrow> nat option \<Rightarrow> attribute list option" where
  "parent_chain d fuel None = Some []"
| "parent_chain d 0 (Some i) = None"
| "parent_chain d (Suc fuel) (Some i) =
     (let a = d_heap d ! i in
      map_option (\<lambda>c. c @ [a]) (parent_chain d fuel (if a_is_sub a then a_parent a else None)))"

definition tlv_extend ::
    "dictionary \<Rightarrow> attribute \<Rightarrow> pkey \<Rightarrow> pyval list \<Rightarrow> (pkey, store) od \<Rightarrow> (pkey, store) od res option" where
  "tlv_extend d a k vs st =
     map_option (\<lambda>chain.
       case chain of
         [] \<Rightarrow> raw_extend k vs st
       | outer # parents \<Rightarrow>
           bindE (encode_name d (a_name outer)) (\<lambda>tk.
           bindE (case od_get st tk of
                    None \<Rightarrow> Inr [] | Some (Sub m) \<Rightarrow> Inr m | Some (Vals _) \<Rightarrow> Inl PacketError) (\<lambda>m.
           bindE (sub_extend (map a_code parents) (a_code a) vs m) (\<lambda>m'.
           Inr (od_set tk (Sub m') st)))))
       (parent_chain d (Suc (length (d_heap d))) (a_parent a))"

definition is_tlv_sub_attribute :: "dictionary \<Rightarrow> attribute \<Rightarrow> bool" where
  "is_tlv_sub_attribute d a \<longleftrightarrow> a_is_sub a \<and> \<not> under_evs d a"

text \<open>\<^verbatim>\<open>add_attribute\<close>; \<open>None\<close>: the walk over the parents does not end.\<close>

definition add_attribute :: "ustr \<Rightarrow> pyval list \<Rightarrow> packet \<Rightarrow> packet res option" where
  "add_attribute key values p =
     (case p_dict p of
        None \<Rightarrow> Some (Inl AttributeError)
      | Some d \<Rightarrow>
          (case dict_getitem d (fst (split_tag key)) of
             Inl e \<Rightarrow> Some (Inl e)
           | Inr a \<Rightarrow>
               (case encode_key_values key values p of
                  Inl e \<Rightarrow> Some (Inl e)
                | Inr ((k, vs), p') \<Rightarrow>
                    map_option (\<lambda>r. bindE r (\<lambda>st. Inr (p'\<lparr>p_attrs := st\<rparr>)))
                      (if is_tlv_sub_attribute d a then tlv_extend d a k vs (p_attrs p')
                       else Some (raw_extend k vs (p_attrs p'))))))"

definition set_obfuscated :: "ustr \<Rightarrow> pyval \<Rightarrow> packet \<Rightarrow> packet" where
  "set_obfuscated name v p =
     p\<lparr>p_deferred := od_set name
         ((case od_get (p_deferred p) name of None \<Rightarrow> [] | Some vs \<Rightarrow> vs) @ [v]) (p_deferred p)\<rparr>"

end
