(* ===== verification/PacketWire.thy ===== *)
theory PacketWire
  imports PacketModel
begin

text \<open>
  Serialisation of a packet's attributes (\<^verbatim>\<open>_pkt_encode_attributes\<close> and what it calls in
  \<^verbatim>\<open>pyrad2/packet.py\<close>): plain and vendor-specific attributes, RFC 5904 continuation, TLV
  containers, RFC 6929 extended, long-extended and extended-vendor-specific attributes, packed
  arrays, values split over several attributes, and the attributes whose obfuscation is
  deferred to the moment of sending.

  A stored value that is not \<^verbatim>\<open>bytes\<close> fails with \<open>TypeError\<close> where Python would first find its
  length in some cases.
\<close>

section \<open>Vendor-specific attributes\<close>

definition pack2 :: "int \<Rightarrow> int \<Rightarrow> bytes res" where
  "pack2 a b = bindE (pack_uint 1 a) (\<lambda>x. bindE (pack_uint 1 b) (\<lambda>y. Inr (x @ y)))"

definition vsa_type_width :: "nat \<Rightarrow> nat res" where
  "vsa_type_width n = (if n \<in> {1, 2, 4} then Inr n else Inl KeyError)"

definition vsa_len_width :: "nat \<Rightarrow> nat res" where
  "vsa_len_width n = (if n \<in> {1, 2} then Inr n else Inl KeyError)"

definition pack_vsa_inner :: "int \<Rightarrow> bytes \<Rightarrow> nat \<Rightarrow> nat \<Rightarrow> int option \<Rightarrow> bytes res" where
  "pack_vsa_inner vsa_type val tw lw continuation =
     bindE (bindE (vsa_type_width tw) (\<lambda>w. pack_uint w vsa_type)) (\<lambda>t.
     bindE (if lw = 0 then Inr []
            else bindE (vsa_len_width lw) (\<lambda>w.
                 pack_uint w (int tw + int lw + (if continuation = None then 0 else 1)
                   + int (length val)))) (\<lambda>l.
     bindE (case continuation of None \<Rightarrow> Inr [] | Some c \<Rightarrow> pack_uint 1 c) (\<lambda>c.
     Inr (t @ l @ c @ val))))"

text \<open>\<^verbatim>\<open>_split_into_chunks\<close>: empty data gives one empty chunk.\<close>

definition split_into_chunks :: "bytes \<Rightarrow> nat \<Rightarrow> bytes list" where
  "split_into_chunks data n = (if data = [] then [[]] else chunks n data)"

definition VSA_CONTINUATION_MORE :: int where
  "VSA_CONTINUATION_MORE = 0x80"

text \<open>Every chunk but the last is emitted with the flag set.\<close>

fun emit_fragments :: "(int \<Rightarrow> bytes \<Rightarrow> bytes res) \<Rightarrow> int \<Rightarrow> bytes list \<Rightarrow> bytes res" where
  "emit_fragments emit flag [] = Inr []"
| "emit_fragments emit flag [c] = emit 0 c"
| "emit_fragments emit flag (c # cs) =
     bindE (emit flag c) (\<lambda>x. bindE (emit_fragments emit flag cs) (\<lambda>y. Inr (x @ y)))"

definition vendor_avp :: "int \<Rightarrow> bytes \<Rightarrow> bytes res" where
  "vendor_avp vendor inner =
     bindE (pack_uint 4 vendor) (\<lambda>v.
     bindE (pack2 26 (int (length (v @ inner)) + 2)) (\<lambda>h. Inr (h @ v @ inner)))"

definition pkt_encode_continuation_vsa ::
    "int \<Rightarrow> int \<Rightarrow> bytes \<Rightarrow> nat \<Rightarrow> nat \<Rightarrow> bytes res" where
  "pkt_encode_continuation_vsa vendor vsa_type val tw lw =
     (let per_fragment_max = 255 - 2 - 4 - int tw - int lw - 1
      in if per_fragment_max < 1 then Inl ValueError
         else emit_fragments
           (\<lambda>flg chunk.
              bindE (pack_vsa_inner vsa_type chunk tw lw (Some flg)) (vendor_avp vendor))
           VSA_CONTINUATION_MORE (split_into_chunks val (nat per_fragment_max)))"

definition pkt_encode_attribute :: "dictionary option \<Rightarrow> pkey \<Rightarrow> pyval \<Rightarrow> bytes res" where
  "pkt_encode_attribute d key v =
     bindE (as_bytes v) (\<lambda>val.
     case key of
       KTup [vendor, vsa_type] \<Rightarrow>
         (case packet_vendor_format d vendor of (tw, lw, has_continuation) \<Rightarrow>
            if has_continuation then pkt_encode_continuation_vsa vendor vsa_type val tw lw
            else bindE (pack_vsa_inner vsa_type val tw lw None) (vendor_avp vendor))
     | KTup _ \<Rightarrow> Inl ValueError
     | KInt c \<Rightarrow> bindE (pack2 c (int (length val) + 2)) (\<lambda>h. Inr (h @ val)))"

section \<open>TLV containers\<close>

text \<open>One TLV element: code, length, value.\<close>

definition tlv_element :: "int \<Rightarrow> bytes \<Rightarrow> bytes res" where
  "tlv_element c val = bindE (pack2 c (int (length val) + 2)) (\<lambda>h. Inr (h @ val))"

text \<open>\<^verbatim>\<open>_encode_tlv_chain\<close>.\<close>

fun encode_tlv_chain :: "submap \<Rightarrow> bytes res" where
  "encode_tlv_chain [] = Inr []"
| "encode_tlv_chain ((c, Sub m) # rest) =
     bindE (encode_tlv_chain m) (\<lambda>inner.
     bindE (tlv_element c inner) (\<lambda>x.
     bindE (encode_tlv_chain rest) (\<lambda>y. Inr (x @ y))))"
| "encode_tlv_chain ((c, Vals vs) # rest) =
     bindE (mapE (\<lambda>v. bindE (as_bytes v) (tlv_element c)) vs) (\<lambda>xs.
     bindE (encode_tlv_chain rest) (\<lambda>y. Inr (concat xs @ y)))"

definition instances :: "store \<Rightarrow> nat" where
  "instances s = (case s of Vals vs \<Rightarrow> length vs | Sub _ \<Rightarrow> 1)"

text \<open>Pass \<open>i\<close> of \<^verbatim>\<open>_pkt_encode_tlv\<close> over the sub-attributes.\<close>

definition tlv_round :: "dictionary option \<Rightarrow> nat \<Rightarrow> submap \<Rightarrow> bytes res" where
  "tlv_round d i m =
     bindE (mapE (\<lambda>(c, s).
       case s of
         Sub m' \<Rightarrow> if i > 0 then Inr [] else bindE (encode_tlv_chain m') (tlv_element c)
       | Vals vs \<Rightarrow> if i < length vs then pkt_encode_attribute d (KInt c) (vs ! i) else Inr []) m)
       (\<lambda>xs. Inr (concat xs))"

text \<open>Collecting the passes into containers of less than 245 octets where possible.\<close>

fun gather_avps :: "bytes \<Rightarrow> bytes list \<Rightarrow> bytes list" where
  "gather_avps cur [] = [cur]"
| "gather_avps cur (x # xs) =
     (if length x + length cur < 245 then gather_avps (cur @ x) xs
      else cur # gather_avps x xs)"

definition pkt_encode_tlv :: "dictionary option \<Rightarrow> pkey \<Rightarrow> store \<Rightarrow> bytes res" where
  "pkt_encode_tlv dopt key s =
     (case dopt of None \<Rightarrow> Inl AttributeError | Some d \<Rightarrow>
      case attr_of_key d key of None \<Rightarrow> Inl KeyError | Some a \<Rightarrow>
      case s of Vals _ \<Rightarrow> Inl AttributeError | Sub m \<Rightarrow>
        if m = [] then Inl ValueError
        else
          bindE (mapE (\<lambda>i. tlv_round dopt i m) [0..<Max (set (map (\<lambda>kv. instances (snd kv)) m))]) (\<lambda>rounds.
          bindE (mapE (tlv_element (a_code a)) (gather_avps [] rounds)) (\<lambda>avps.
          if a_vendor a \<noteq> [] then
            bindE (mapE (\<lambda>avp.
              bindE (bd_get_forward (d_vendors d) (a_vendor a)) (\<lambda>v.
              bindE (pack2 26 (int (length avp) + 6)) (\<lambda>h.
              bindE (pack_uint 4 v) (\<lambda>vb. Inr (h @ vb @ avp))))) avps)
              (\<lambda>xs. Inr (concat xs))
          else Inr (concat avps))))"

section \<open>Extended attributes\<close>

definition pack3 :: "int \<Rightarrow> int \<Rightarrow> int \<Rightarrow> bytes res" where
  "pack3 a b c = bindE (pack2 a b) (\<lambda>x. bindE (pack_uint 1 c) (\<lambda>y. Inr (x @ y)))"

definition pack4 :: "int \<Rightarrow> int \<Rightarrow> int \<Rightarrow> int \<Rightarrow> bytes res" where
  "pack4 a b c e = bindE (pack2 a b) (\<lambda>x. bindE (pack2 c e) (\<lambda>y. Inr (x @ y)))"

definition extended_avp :: "int \<Rightarrow> int \<Rightarrow> bytes \<Rightarrow> bytes res" where
  "extended_avp parent ext val =
     (if length val > 252 then Inl ValueError
      else bindE (pack3 parent (3 + int (length val)) ext) (\<lambda>h. Inr (h @ val)))"

definition slot_values :: "store \<Rightarrow> bytes list res" where
  "slot_values s =
     (case s of Sub m \<Rightarrow> bindE (encode_tlv_chain m) (\<lambda>c. Inr [c]) | Vals vs \<Rightarrow> mapE as_bytes vs)"

definition sub_items :: "store \<Rightarrow> submap res" where
  "sub_items s = (case s of Sub m \<Rightarrow> Inr m | Vals _ \<Rightarrow> Inl AttributeError)"

text \<open>The loop over the slots of a container, and over the values of each slot.\<close>

definition slots_loop :: "(int \<Rightarrow> bytes \<Rightarrow> bytes res) \<Rightarrow> store \<Rightarrow> bytes res" where
  "slots_loop emit s =
     bindE (sub_items s) (\<lambda>m.
     bindE (mapE (\<lambda>(ext, vals).
       bindE (slot_values vals) (\<lambda>bss. bindE (mapE (emit ext) bss) (\<lambda>xs. Inr (concat xs)))) m)
       (\<lambda>xs. Inr (concat xs)))"

definition pkt_encode_extended :: "int \<Rightarrow> store \<Rightarrow> bytes res" where
  "pkt_encode_extended parent s = slots_loop (extended_avp parent) s"

definition long_extended_fragment :: "int \<Rightarrow> int \<Rightarrow> int \<Rightarrow> bytes \<Rightarrow> bytes res" where
  "long_extended_fragment parent ext flg chunk =
     bindE (pack4 parent (4 + int (length chunk)) ext flg) (\<lambda>h. Inr (h @ chunk))"

definition long_extended_avps :: "int \<Rightarrow> int \<Rightarrow> bytes \<Rightarrow> bytes res" where
  "long_extended_avps parent ext val =
     emit_fragments (long_extended_fragment parent ext) LONG_EXTENDED_MORE_FLAG
       (split_into_chunks val 251)"

definition pkt_encode_long_extended :: "int \<Rightarrow> store \<Rightarrow> bytes res" where
  "pkt_encode_long_extended parent s = slots_loop (long_extended_avps parent) s"

definition evs_fragment :: "int \<Rightarrow> int \<Rightarrow> bytes \<Rightarrow> int \<Rightarrow> bytes \<Rightarrow> bytes res" where
  "evs_fragment parent ext evs_header flg chunk =
     bindE (pack4 parent (9 + int (length chunk)) ext flg) (\<lambda>h. Inr (h @ evs_header @ chunk))"

definition pkt_encode_evs :: "int \<Rightarrow> int \<Rightarrow> int \<Rightarrow> int \<Rightarrow> bytes \<Rightarrow> bytes res" where
  "pkt_encode_evs parent ext vendor vsa_type val =
     bindE (bindE (pack_uint 4 vendor) (\<lambda>v. bindE (pack_uint 1 vsa_type) (\<lambda>t. Inr (v @ t)))) (\<lambda>evs_header.
     if parent \<in> set LONG_EXTENDED_ATTRIBUTE_TYPES then
       emit_fragments (evs_fragment parent ext evs_header) LONG_EXTENDED_MORE_FLAG
         (split_into_chunks val 246)
     else if length val > 247 then Inl ValueError
     else bindE (pack3 parent (8 + int (length val)) ext) (\<lambda>h. Inr (h @ evs_header @ val)))"

section \<open>Dispatch\<close>

definition concat_values :: "pyval list \<Rightarrow> pyval res" where
  "concat_values vs = bindE (mapE as_bytes vs) (\<lambda>bss. Inr (PBytes (concat bss)))"

definition encode_plain_group :: "dictionary option \<Rightarrow> pkey \<Rightarrow> pyval list \<Rightarrow> bytes res" where
  "encode_plain_group d key vs =
     (if is_array_attribute d key \<and> length vs > 1
      then bindE (concat_values vs) (pkt_encode_attribute d key)
      else
        bindE (mapE (\<lambda>v.
          bindE (as_bytes v) (\<lambda>bs.
          if is_concat_attribute d key \<and> length bs > 253
          then bindE (mapE (\<lambda>c. pkt_encode_attribute d key (PBytes c)) (split_into_chunks bs 253))
                 (\<lambda>xs. Inr (concat xs))
          else pkt_encode_attribute d key v)) vs)
          (\<lambda>xs. Inr (concat xs)))"

text \<open>
  \<^verbatim>\<open>_encode_avp_group\<close>. A container key that is a tuple reaches the header packing of the
  extended forms as a tuple: \<^verbatim>\<open>struct.error\<close>.
\<close>

definition encode_avp_group :: "dictionary option \<Rightarrow> pkey \<Rightarrow> store \<Rightarrow> bytes res" where
  "encode_avp_group d key s =
     (case key of
        KTup [parent, ext, vendor, vsa_type] \<Rightarrow>
          bindE (mapE (\<lambda>v. bindE (as_bytes v) (pkt_encode_evs parent ext vendor vsa_type))
                   (store_iter s)) (\<lambda>xs. Inr (concat xs))
      | _ \<Rightarrow>
          (case container_type d key of
             Some t \<Rightarrow>
               if t = ''tlv'' then pkt_encode_tlv d key s
               else
                 (case key of
                    KInt c \<Rightarrow>
                      if t = ''extended'' then pkt_encode_extended c s
                      else pkt_encode_long_extended c s
                  | KTup _ \<Rightarrow> slots_loop (\<lambda>_ _. Inl StructError) s)
           | None \<Rightarrow> encode_plain_group d key (store_iter s)))"

section \<open>Deferred obfuscation\<close>

definition pw_crypt :: "pyval \<Rightarrow> packet \<Rightarrow> bytes pm" where
  "pw_crypt v p =
     (if p_version p = V1_1 then bindE (plain_bytes v) (\<lambda>bs. Inr (bs, p))
      else
        (let q = need_authenticator p
         in bindE (plain_bytes v) (\<lambda>bs.
            case p_auth q of
              None \<Rightarrow> Inl TypeError
            | Some a \<Rightarrow> Inr (chain_output (p_secret q) a (chunks 16 (pad16 bs)), q))))"

definition needs_pw_crypt :: "attribute \<Rightarrow> packet \<Rightarrow> bool" where
  "needs_pw_crypt a p \<longleftrightarrow> (a_code a = 2 \<or> a_encrypt a = 1) \<and> p_version p \<noteq> V1_1"

fun encode_deferred_value_list :: "attribute \<Rightarrow> ustr \<Rightarrow> pyval list \<Rightarrow> packet \<Rightarrow> pyval list pm" where
  "encode_deferred_value_list a tag [] p = Inr ([], p)"
| "encode_deferred_value_list a tag (v # vs) p =
     bindE (if needs_pw_crypt a p then
              (if p_class p = AuthC then bindE (pw_crypt v p) (\<lambda>(bs, p'). Inr (PBytes bs, p'))
               else Inl PacketError)
            else encode_value a v p) (\<lambda>(x, p1).
     bindE (bindE (tag_bytes tag) (\<lambda>t. case t of None \<Rightarrow> Inr x | Some t \<Rightarrow> tag_value a t x)) (\<lambda>y.
     bindE (encode_deferred_value_list a tag vs p1) (\<lambda>(ys, p2). Inr (y # ys, p2))))"

text \<open>The key a deferred attribute's container or slot has in the store.\<close>

definition parent_key :: "dictionary \<Rightarrow> attribute \<Rightarrow> pkey res" where
  "parent_key d a =
     (case parent_attr d a of None \<Rightarrow> Inl AttributeError | Some q \<Rightarrow> encode_name d (a_name q))"

definition deferred_storage_key :: "dictionary \<Rightarrow> ustr \<Rightarrow> pkey res" where
  "deferred_storage_key d base =
     bindE (dict_getitem d base) (\<lambda>a.
     if is_tlv_sub_attribute d a then parent_key d a else encode_name d base)"

definition deferred_attribute_codes :: "packet \<Rightarrow> pkey list res" where
  "deferred_attribute_codes p =
     mapE (\<lambda>name. with_dict p (\<lambda>d. deferred_storage_key d (fst (split_tag name))))
       (od_keys (p_deferred p))"

definition seed_parent_from_stored_siblings ::
    "(pkey, store) od \<Rightarrow> pkey \<Rightarrow> int list \<Rightarrow> submap" where
  "seed_parent_from_stored_siblings st key owned =
     (case od_get st key of
        Some (Sub m) \<Rightarrow>
          map (\<lambda>(c, s). (c, Vals (store_iter s))) (filter (\<lambda>(c, s). c \<notin> set owned) m)
      | _ \<Rightarrow> [])"

type_synonym owned = "(pkey, int list) od"

definition own_code :: "dictionary \<Rightarrow> ustr \<Rightarrow> owned \<Rightarrow> owned res" where
  "own_code d name w =
     bindE (dict_getitem d (fst (split_tag name))) (\<lambda>a.
     if is_tlv_sub_attribute d a then
       bindE (parent_key d a) (\<lambda>k.
       Inr (od_set k ((case od_get w k of None \<Rightarrow> [] | Some cs \<Rightarrow> cs) @ [a_code a]) w))
     else Inr w)"

definition add_deferred ::
    "dictionary \<Rightarrow> ustr \<times> pyval list \<Rightarrow> (pkey, store) od \<times> packet \<Rightarrow> ((pkey, store) od \<times> packet) res" where
  "add_deferred d nv st =
     (case nv of (name, values) \<Rightarrow> case st of (pending, p) \<Rightarrow> case split_tag name of (base, tag) \<Rightarrow>
        bindE (dict_getitem d base) (\<lambda>a.
        bindE (encode_deferred_value_list a tag values p) (\<lambda>(vs, p').
        if is_tlv_sub_attribute d a then
          bindE (parent_key d a) (\<lambda>k.
          case od_get pending k of
            None \<Rightarrow> Inl KeyError
          | Some (Vals _) \<Rightarrow> Inl AttributeError
          | Some (Sub m) \<Rightarrow>
              bindE (extend_store (od_get m (a_code a)) vs) (\<lambda>s.
              Inr (od_set k (Sub (od_set (a_code a) s m)) pending, p')))
        else
          bindE (encode_name d base) (\<lambda>k.
          bindE (raw_extend k vs pending) (\<lambda>pending'. Inr (pending', p'))))))"

definition encode_deferred_obfuscated :: "packet \<Rightarrow> bytes pm" where
  "encode_deferred_obfuscated p =
     (if p_deferred p = [] then Inr ([], p)
      else
        with_dict p (\<lambda>d.
          bindE (foldE (own_code d) (od_keys (p_deferred p)) []) (\<lambda>owned.
          let seeded = map (\<lambda>(k, cs). (k, Sub (seed_parent_from_stored_siblings (p_attrs p) k cs))) owned in
          bindE (foldE (add_deferred d) (p_deferred p) (seeded, p)) (\<lambda>(pending, p').
          bindE (mapE (\<lambda>(k, s). encode_avp_group (p_dict p) k s) pending) (\<lambda>xs.
          Inr (concat xs, p'))))))"

definition encode_stored :: "packet \<Rightarrow> pkey list \<Rightarrow> bytes res" where
  "encode_stored p skip =
     bindE (mapE (\<lambda>(k, s).
       if k \<in> set skip then Inr []
       else if is_virtual_attribute (p_dict p) k then Inr []
       else encode_avp_group (p_dict p) k s) (p_attrs p)) (\<lambda>xs. Inr (concat xs))"

definition pkt_encode_attributes :: "packet \<Rightarrow> bytes pm" where
  "pkt_encode_attributes p =
     bindE (deferred_attribute_codes p) (\<lambda>skip.
     bindE (encode_stored p skip) (\<lambda>result.
     bindE (encode_deferred_obfuscated p) (\<lambda>(tail, p'). Inr (result @ tail, p'))))"

end
