(* ===== verification/Samples.thy ===== *)
theory Samples
  imports Dictionary
begin

text \<open>
  A small dictionary with one attribute of every kind, on which the properties of the packet
  theories are evaluated: standard attributes, an array, a long-extended attribute with a
  vendor-specific slot, a tree of TLVs, a salted attribute and two vendors with their own
  header formats.
\<close>

definition sample_attribute :: "string \<Rightarrow> int \<Rightarrow> string \<Rightarrow> attribute" where
  "sample_attribute name code ty =
    \<lparr>a_name = u name, a_code = code, a_type = ty, a_vendor = [], a_encrypt = 0,
     a_has_tag = False, a_concat = False, a_virtual = False, a_array = False,
     a_values = bd_empty, a_subs = [], a_parent = None, a_is_sub = False\<rparr>"

definition sample_dict0 :: dictionary where
  "sample_dict0 = dict_init\<lparr>d_vendors := bd_add (u ''W'') 24757 (bd_add (u ''A'') 99 (bd_add [] 0 bd_empty)),
     d_formats := [(99, (2, 1, False)), (24757, (1, 1, True))]\<rparr>"

definition sample_attributes :: "(attribute \<times> pkey) list" where
  "sample_attributes =
    [(sample_attribute ''User-Name'' 1 ''string'', KInt 1),
     ((sample_attribute ''EAP-Message'' 79 ''octets'')\<lparr>a_concat := True\<rparr>, KInt 79),
     (sample_attribute ''Message-Authenticator'' 80 ''octets'', KInt 80),
     ((sample_attribute ''P'' 5 ''integer'')\<lparr>a_array := True\<rparr>, KInt 5),
     ((sample_attribute ''L'' 245 ''long-extended'')\<lparr>a_subs := [(26, u ''V'')]\<rparr>, KInt 245),
     ((sample_attribute ''V'' 26 ''evs'')\<lparr>a_parent := Some 4, a_is_sub := True\<rparr>, KTup [245, 26]),
     ((sample_attribute ''T'' 7 ''tlv'')\<lparr>a_subs := [(1, u ''X''), (2, u ''Y'')]\<rparr>, KInt 7),
     ((sample_attribute ''X'' 1 ''octets'')\<lparr>a_parent := Some 6, a_is_sub := True\<rparr>, KTup [7, 1]),
     ((sample_attribute ''Y'' 2 ''tlv'')
        \<lparr>a_subs := [(3, u ''Z'')], a_parent := Some 6, a_is_sub := True\<rparr>, KTup [7, 2]),
     ((sample_attribute ''Z'' 3 ''octets'')\<lparr>a_parent := Some 8, a_is_sub := True\<rparr>, KTup [7, 2, 3]),
     ((sample_attribute ''S'' 69 ''octets'')\<lparr>a_encrypt := 2\<rparr>, KInt 69)]"

definition sample_dict :: dictionary where
  "sample_dict = foldl (\<lambda>d (a, k). register_attribute a k d) sample_dict0 sample_attributes"

lemma dict_wf_registers:
  "dict_wf d \<Longrightarrow> \<forall>i < length as. attr_ok (length (d_heap d) + i) (fst (as ! i)) \<Longrightarrow>
   dict_wf (foldl (\<lambda>d (a, k). register_attribute a k d) d as)"
proof (induction as arbitrary: d)
  case (Cons ak as)
  obtain a k where ak: "ak = (a, k)" by (cases ak)
  have "attr_ok (length (d_heap d)) a" using Cons.prems(2) [rule_format, of 0] by (simp add: ak)
  moreover have "length (d_heap (register_attribute a k d)) = Suc (length (d_heap d))"
    by (simp add: register_attribute_def)
  ultimately show ?case
    using Cons.prems by (auto simp: ak intro!: Cons.IH dict_wf_register)
qed simp

lemma sample_dict_wf: "dict_wf sample_dict"
  unfolding sample_dict_def
proof (rule dict_wf_registers)
  show "dict_wf sample_dict0"
    by (simp add: dict_wf_def sample_dict0_def dict_init_def heap_wf_def names_wf_def vendors_wf_def
        formats_wf_def format_ok_def bd_add_def bd_empty_def bd_has_forward_def dict_contains_def
        od_mem_def)
  have "list_all (\<lambda>i. attr_ok i (fst (sample_attributes ! i))) [0..<length sample_attributes]"
    by code_simp
  then show "\<forall>i < length sample_attributes.
      attr_ok (length (d_heap sample_dict0) + i) (fst (sample_attributes ! i))"
    by (simp add: list_all_iff sample_dict0_def dict_init_def)
qed

end
