(* ===== verification/PacketDecode.thy ===== *)
theory PacketDecode
  imports PacketWire Samples
begin

text \<open>
  Parsing a packet (\<^verbatim>\<open>decode_packet\<close> of \<^verbatim>\<open>pyrad2/packet.py\<close> and what it calls): the loop over
  the attributes, vendor-specific attributes in the vendor's own header format, RFC 5904 and
  RFC 6929 reassembly through the two buffers of the packet, TLV chains, and the passes that
  join and split values afterwards. The theorem states that the parser of arbitrary octets
  raises nothing but \<open>PacketError\<close>; its invariant is that the value stored under a key has
  the shape its dictionary attribute asks for.
\<close>

section \<open>TLV chains\<close>

definition tlv_child_attr :: "dictionary \<Rightarrow> attribute option \<Rightarrow> int \<Rightarrow> attribute option" where
  "tlv_child_attr d parent child_code =
     (case parent of
        None \<Rightarrow> None
      | Some a \<Rightarrow>
          (case od_get (a_subs a) child_code of None \<Rightarrow> None | Some n \<Rightarrow> attr_named d n))"

definition is_tlv :: "attribute option \<Rightarrow> bool" where
  "is_tlv a = (case a of None \<Rightarrow> False | Some a \<Rightarrow> a_type a = ''tlv'')"

text \<open>The dictionary under a sub-code; anything else there is replaced by a fresh one.\<close>

definition nested_map :: "submap \<Rightarrow> int \<Rightarrow> submap" where
  "nested_map m c = (case od_get m c of Some (Sub m') \<Rightarrow> m' | _ \<Rightarrow> [])"

text \<open>
  \<^verbatim>\<open>_decode_tlv_chain_into\<close>. The caller may catch the exception, so the target as it was
  changed by then is returned beside it. A declared length beyond the data is cut short.
\<close>

function tlv_into ::
    "dictionary \<Rightarrow> attribute option \<Rightarrow> bytes \<Rightarrow> submap \<Rightarrow> submap \<times> exn option" where
  "tlv_into d a [] m = (m, None)"
| "tlv_into d a [t] m = (m, None)"
| "tlv_into d a (t # l # rest) m =
     (if unat l < 2 then (m, None)
      else
        let c = uint t; inner = take (unat l - 2) rest; child = tlv_child_attr d a c;
            (m1, e) =
              (if is_tlv child then
                 let (m', e) = tlv_into d child inner (nested_map m c) in (od_set c (Sub m') m, e)
               else
                 case extend_store (od_get m c) [PBytes inner] of
                   Inr s \<Rightarrow> (od_set c s m, None)
                 | Inl e \<Rightarrow> (m, Some e))
        in case e of
             Some e \<Rightarrow> (m1, Some e)
           | None \<Rightarrow> tlv_into d a (drop (unat l - 2) rest) m1)"
  by pat_completeness auto

termination
  by (relation "measure (\<lambda>(d, a, bs, m). length bs)") auto

text \<open>
  \<^verbatim>\<open>_pkt_decode_tlv_attribute\<close>: a list under the key has no \<^verbatim>\<open>setdefault\<close>, which is noticed
  when the chain has an element.
\<close>

definition chain_starts :: "bytes \<Rightarrow> bool" where
  "chain_starts data = (case data of t # l # _ \<Rightarrow> 2 \<le> unat l | _ \<Rightarrow> False)"

definition pkt_decode_tlv_attribute ::
    "dictionary \<Rightarrow> pkey \<Rightarrow> bytes \<Rightarrow> packet \<Rightarrow> packet \<times> exn option" where
  "pkt_decode_tlv_attribute d code data p =
     (case od_get (p_attrs p) code of
        Some (Vals _) \<Rightarrow> (p, if chain_starts data then Some AttributeError else None)
      | s \<Rightarrow>
          (let (m, e) = tlv_into d (attr_of_key d code) data
                          (case s of Some (Sub m) \<Rightarrow> m | _ \<Rightarrow> [])
           in (raw_setitem code (Sub m) p, e)))"

definition or_raise :: "packet \<times> exn option \<Rightarrow> packet res" where
  "or_raise r = (case r of (p, None) \<Rightarrow> Inr p | (p, Some e) \<Rightarrow> Inl e)"

text \<open>\<^verbatim>\<open>self.setdefault(key, []).append(value)\<close>.\<close>

definition append_value :: "pkey \<Rightarrow> bytes \<Rightarrow> packet \<Rightarrow> packet res" where
  "append_value k v p =
     bindE (raw_extend k [PBytes v] (p_attrs p)) (\<lambda>st. Inr (p\<lparr>p_attrs := st\<rparr>))"

section \<open>Vendor-specific attributes\<close>

text \<open>
  Where the element at the start of \<open>rest\<close> ends; \<open>None\<close>: the attribute is kept unparsed.
\<close>

definition vsa_element_end :: "nat \<Rightarrow> nat \<Rightarrow> bytes \<Rightarrow> nat option res" where
  "vsa_element_end tw lw rest =
     (if lw = 0 then Inr (Some (length rest))
      else
        bindE (vsa_len_width lw) (\<lambda>w.
        let n = nat (be_val (take w (drop tw rest)))
        in Inr (if n < tw + lw \<or> length rest < n then None else Some n)))"

datatype vsa_payload = Unparsed | Fragment | Payload bytes

text \<open>RFC 5904: one octet before the value tells whether more fragments follow.\<close>

definition vsa_continue ::
    "bool \<Rightarrow> int \<Rightarrow> int \<Rightarrow> bytes \<Rightarrow> packet \<Rightarrow> packet \<times> vsa_payload" where
  "vsa_continue has_continuation vendor atype body p =
     (if \<not> has_continuation then (p, Payload body)
      else
        case body of
          [] \<Rightarrow> (p, Unparsed)
        | c # payload \<Rightarrow>
            (let k = (vendor, atype);
                 buf = (case od_get (p_vbuf p) k of None \<Rightarrow> [] | Some b \<Rightarrow> b) @ payload
             in if uint c AND VSA_CONTINUATION_MORE \<noteq> 0
                then (p\<lparr>p_vbuf := od_set k buf (p_vbuf p)\<rparr>, Fragment)
                else (p\<lparr>p_vbuf := od_del k (p_vbuf p)\<rparr>, Payload buf)))"

text \<open>
  A TLV container is decoded in place, any other value is returned; \<open>None\<close> stands for an
  exception, after which the attribute is kept unparsed.
\<close>

definition vsa_store ::
    "int \<Rightarrow> int \<Rightarrow> bytes \<Rightarrow> packet \<Rightarrow> packet \<times> (pkey \<times> bytes) list option" where
  "vsa_store vendor atype payload p =
     (let k = KTup [vendor, atype]
      in case p_dict p of
           None \<Rightarrow> (p, None)
         | Some d \<Rightarrow>
             if is_tlv (attr_of_key d k) then
               (let (p', e) = pkt_decode_tlv_attribute d k payload p
                in (p', if e = None then Some [] else None))
             else (p, Some [(k, payload)]))"

function vsa_loop ::
    "nat \<Rightarrow> nat \<Rightarrow> bool \<Rightarrow> int \<Rightarrow> bytes \<Rightarrow> (pkey \<times> bytes) list \<Rightarrow> packet
     \<Rightarrow> (packet \<times> (pkey \<times> bytes) list option) res" where
  "vsa_loop tw lw cont vendor rest tlvs p =
     (if length rest < tw + lw then Inr (p, if rest = [] then Some tlvs else None)
      else
        bindE (vsa_type_width tw) (\<lambda>_.
        bindE (vsa_element_end tw lw rest) (\<lambda>end_at.
        let atype = be_val (take tw rest)
        in case end_at of
             None \<Rightarrow> Inr (p, None)
           | Some n \<Rightarrow>
               (case vsa_continue cont vendor atype (drop (tw + lw) (take n rest)) p of
                  (p1, Unparsed) \<Rightarrow> Inr (p1, None)
                | (p1, Fragment) \<Rightarrow> vsa_loop tw lw cont vendor (drop n rest) tlvs p1
                | (p1, Payload v) \<Rightarrow>
                    (case vsa_store vendor atype v p1 of
                       (p2, None) \<Rightarrow> Inr (p2, None)
                     | (p2, Some new) \<Rightarrow>
                         if lw = 0 then Inr (p2, if drop n rest = [] then Some (tlvs @ new) else None)
                         else vsa_loop tw lw cont vendor (drop n rest) (tlvs @ new) p2)))))"
  by pat_completeness auto

lemma vsa_element_end_bounds:
  "vsa_element_end tw lw rest = Inr (Some n) \<Longrightarrow> n \<le> length rest \<and> (lw \<noteq> 0 \<longrightarrow> tw + lw \<le> n)"
  by (auto simp: vsa_element_end_def bindE_eq_Inr Let_def split: if_splits)

lemma vsa_type_width_pos: "vsa_type_width tw = Inr w \<Longrightarrow> 0 < tw"
  by (auto simp: vsa_type_width_def split: if_splits)

lemma vsa_element_progress:
  assumes "vsa_type_width tw = Inr w" "vsa_element_end tw lw rest = Inr (Some n)"
    "\<not> length rest < tw + lw"
  shows "length (drop n rest) < length rest"
proof (cases "lw = 0")
  case True
  then show ?thesis
    using assms vsa_type_width_pos [OF assms(1)] by (simp add: vsa_element_end_def)
next
  case False
  then have "0 < n" "n \<le> length rest"
    using vsa_element_end_bounds [OF assms(2)] vsa_type_width_pos [OF assms(1)] by simp_all
  then show ?thesis by simp
qed

termination vsa_loop
  by (relation "measure (\<lambda>(tw, lw, cont, vendor, rest, tlvs, p). length rest)")
    (auto dest: vsa_element_progress simp del: length_drop)

declare vsa_loop.simps [simp del]

text \<open>\<^verbatim>\<open>_pkt_decode_vendor_attribute\<close>.\<close>

definition pkt_decode_vendor_attribute :: "bytes \<Rightarrow> packet \<Rightarrow> (pkey \<times> bytes) list pm" where
  "pkt_decode_vendor_attribute data p =
     (if length data < 4 then Inr ([(KInt 26, data)], p)
      else
        let vendor = be_val (take 4 data) in
        case packet_vendor_format (p_dict p) vendor of (tw, lw, cont) \<Rightarrow>
        if length (drop 4 data) < tw + lw then Inr ([(KInt 26, data)], p)
        else
          bindE (vsa_loop tw lw cont vendor (drop 4 data) [] p) (\<lambda>(p', r).
          Inr (case r of None \<Rightarrow> [(KInt 26, data)] | Some tlvs \<Rightarrow> tlvs, p')))"

section \<open>Extended attributes\<close>

definition slot_attr :: "dictionary option \<Rightarrow> int \<Rightarrow> int \<Rightarrow> attribute option" where
  "slot_attr dopt parent ext =
     (case dopt of None \<Rightarrow> None | Some d \<Rightarrow> tlv_child_attr d (attr_of_key d (KInt parent)) ext)"

definition is_tlv_extended_slot :: "dictionary option \<Rightarrow> int \<Rightarrow> int \<Rightarrow> bool" where
  "is_tlv_extended_slot d parent ext = is_tlv (slot_attr d parent ext)"

definition is_evs_slot :: "dictionary option \<Rightarrow> int \<Rightarrow> int \<Rightarrow> bool" where
  "is_evs_slot d parent ext =
     (case slot_attr d parent ext of None \<Rightarrow> False | Some a \<Rightarrow> a_type a = ''evs'')"

text \<open>The key of an extended-vendor-specific value, when the slot and the length admit one.\<close>

definition evs_key :: "dictionary option \<Rightarrow> int \<Rightarrow> int \<Rightarrow> bytes \<Rightarrow> int list option" where
  "evs_key d parent ext payload =
     (if 5 \<le> length payload \<and> is_evs_slot d parent ext
      then Some [parent, ext, be_val (take 4 payload), uint (payload ! 4)] else None)"

text \<open>Storing a value under \<^verbatim>\<open>self[parent][ext_type]\<close>.\<close>

definition store_slot :: "int \<Rightarrow> int \<Rightarrow> bytes \<Rightarrow> packet \<Rightarrow> packet res" where
  "store_slot parent ext payload p =
     (case od_get (p_attrs p) (KInt parent) of
        Some (Vals _) \<Rightarrow> Inl AttributeError
      | s \<Rightarrow>
          (let m = (case s of Some (Sub m) \<Rightarrow> m | _ \<Rightarrow> [])
           in bindE
                (case p_dict p of
                   Some d \<Rightarrow>
                     if is_tlv_extended_slot (Some d) parent ext then
                       (case tlv_into d (slot_attr (Some d) parent ext) payload (nested_map m ext) of
                          (m', None) \<Rightarrow> Inr (Sub m')
                        | (m', Some e) \<Rightarrow> Inl e)
                     else extend_store (od_get m ext) [PBytes payload]
                 | None \<Rightarrow> extend_store (od_get m ext) [PBytes payload])
                (\<lambda>x. Inr (raw_setitem (KInt parent) (Sub (od_set ext x m)) p))))"

definition pkt_decode_extended :: "int \<Rightarrow> bytes \<Rightarrow> packet \<Rightarrow> packet res" where
  "pkt_decode_extended parent v p =
     (case v of
        [] \<Rightarrow> Inr p
      | t # payload \<Rightarrow>
          (case evs_key (p_dict p) parent (uint t) payload of
             Some k \<Rightarrow> append_value (KTup k) (drop 5 payload) p
           | None \<Rightarrow> store_slot parent (uint t) payload p))"

text \<open>Extending a reassembly buffer.\<close>

definition buffer_add :: "'k \<Rightarrow> bytes \<Rightarrow> ('k, bytes) od \<Rightarrow> bytes" where
  "buffer_add k chunk bufs = (case od_get bufs k of None \<Rightarrow> [] | Some b \<Rightarrow> b) @ chunk"

definition pkt_decode_long_extended_fragment :: "int \<Rightarrow> bytes \<Rightarrow> packet \<Rightarrow> packet res" where
  "pkt_decode_long_extended_fragment parent v p =
     (case v of
        t # flags \<comment> \<open>the More flag and reserved bits\<close> # payload \<Rightarrow>
          (case evs_key (p_dict p) parent (uint t) payload of
             Some k \<Rightarrow>
               (let buf = buffer_add k (drop 5 payload) (p_lbuf p)
                in if uint flags AND LONG_EXTENDED_MORE_FLAG = 0
                   then append_value (KTup k) buf (p\<lparr>p_lbuf := od_del k (p_lbuf p)\<rparr>)
                   else Inr (p\<lparr>p_lbuf := od_set k buf (p_lbuf p)\<rparr>))
           | None \<Rightarrow>
               (let k = [parent, uint t]; buf = buffer_add k payload (p_lbuf p)
                in if uint flags AND LONG_EXTENDED_MORE_FLAG = 0
                   then store_slot parent (uint t) buf (p\<lparr>p_lbuf := od_del k (p_lbuf p)\<rparr>)
                   else Inr (p\<lparr>p_lbuf := od_set k buf (p_lbuf p)\<rparr>)))
      | _ \<Rightarrow> Inr p)"

section \<open>The attribute loop\<close>

definition append_values :: "(pkey \<times> bytes) list \<Rightarrow> packet \<Rightarrow> packet res" where
  "append_values kvs = foldE (\<lambda>(k, v). append_value k v) kvs"

text \<open>One attribute. RADIUS/1.1 drops a Message-Authenticator.\<close>

definition decode_avp :: "int \<Rightarrow> bytes \<Rightarrow> packet \<Rightarrow> packet res" where
  "decode_avp key v p =
     (if key = 26 then
        bindE (pkt_decode_vendor_attribute v p) (\<lambda>(kvs, p'). append_values kvs p')
      else if key = 80 then
        (if p_version p \<noteq> V1_1 then append_value (KInt 80) v (p\<lparr>p_ma := Some True\<rparr>) else Inr p)
      else
        case container_type (p_dict p) (KInt key) of
          Some t \<Rightarrow>
            if t = ''tlv'' then
              with_dict p (\<lambda>d. or_raise (pkt_decode_tlv_attribute d (KInt key) v p))
            else if t = ''extended'' then pkt_decode_extended key v p
            else pkt_decode_long_extended_fragment key v p
        | None \<Rightarrow> append_value (KInt key) v p)"

fun decode_loop :: "bytes \<Rightarrow> packet \<Rightarrow> packet res" where
  "decode_loop [] p = Inr p"
| "decode_loop [k] p = Inl PacketError"
| "decode_loop (k # l # rest) p =
     (if unat l < 2 then Inl PacketError
      else bindE (decode_avp (uint k) (take (unat l - 2) rest) p) (decode_loop (drop (unat l - 2) rest)))"

section \<open>Joining and splitting values\<close>

definition merge_concat_attributes :: "packet \<Rightarrow> packet res" where
  "merge_concat_attributes p =
     (case p_dict p of
        None \<Rightarrow> Inr p
      | Some d \<Rightarrow>
          bindE (mapE (\<lambda>(k, s).
            case s of
              Vals vs \<Rightarrow>
                if is_concat_attribute (Some d) k \<and> length vs > 1
                then bindE (concat_values vs) (\<lambda>v. Inr (k, Vals [v])) else Inr (k, s)
            | Sub _ \<Rightarrow> Inr (k, s)) (p_attrs p)) (\<lambda>st. Inr (p\<lparr>p_attrs := st\<rparr>)))"

definition ARRAY_TYPE_SIZE :: "(string, nat) od" where
  "ARRAY_TYPE_SIZE =
    [(''byte'', 1), (''short'', 2), (''integer'', 4), (''integer64'', 8), (''signed'', 4),
     (''date'', 4), (''ipaddr'', 4), (''ipv6addr'', 16), (''ifid'', 8), (''ether'', 6)]"

definition split_packed :: "nat \<Rightarrow> pyval \<Rightarrow> pyval list" where
  "split_packed n v =
     (case v of
        PBytes bs \<Rightarrow> if bs = [] \<or> length bs mod n \<noteq> 0 then [v] else map PBytes (chunks n bs)
      | _ \<Rightarrow> [v])"

definition split_array_entry :: "dictionary \<Rightarrow> pkey \<times> store \<Rightarrow> pkey \<times> store" where
  "split_array_entry d e =
     (case e of (k, s) \<Rightarrow>
      case attr_of_key d k of
        None \<Rightarrow> (k, s)
      | Some a \<Rightarrow>
          if \<not> a_array a then (k, s)
          else (case (od_get ARRAY_TYPE_SIZE (a_type a), s) of
                  (Some n, Vals vs) \<Rightarrow> (k, Vals (concat (map (split_packed n) vs)))
                | _ \<Rightarrow> (k, s)))"

definition split_array_attributes :: "packet \<Rightarrow> packet" where
  "split_array_attributes p =
     (case p_dict p of
        None \<Rightarrow> p
      | Some d \<Rightarrow> p\<lparr>p_attrs := map (split_array_entry d) (p_attrs p)\<rparr>)"

text \<open>\<^verbatim>\<open>decode_packet\<close>. In RADIUS/1.1 the header field of the authenticator carries the token.\<close>

definition decode_header :: "bytes \<Rightarrow> packet \<Rightarrow> packet res" where
  "decode_header w p =
     (if length w < 20 then Inl PacketError
      else
        let auth = py_slice w 4 20; len = be_val (py_slice w 2 4);
            q = p\<lparr>p_code := uint (w ! 0), p_id := Some (uint (w ! 1)), p_auth := Some auth\<rparr>;
            q' = (if p_version p = V1_1
                  then q\<lparr>p_token := Some (take 4 auth), p_auth := None, p_id := Some 0\<rparr> else q)
        in if int (length w) \<noteq> len then Inl PacketError
           else if len > 8192 then Inl PacketError else Inr q')"

definition decode_packet :: "bytes \<Rightarrow> packet \<Rightarrow> packet res" where
  "decode_packet w p =
     bindE (decode_header w p) (\<lambda>q.
     bindE (decode_loop (drop 20 w) (q\<lparr>p_attrs := [], p_lbuf := [], p_vbuf := []\<rparr>)) (\<lambda>q1.
     bindE (merge_concat_attributes q1) (\<lambda>q2.
     Inr (split_array_attributes q2))))"

section \<open>The shape of what is stored\<close>

definition byte_values :: "pyval list \<Rightarrow> bool" where
  "byte_values vs \<longleftrightarrow> list_all (\<lambda>v. case v of PBytes _ \<Rightarrow> True | _ \<Rightarrow> False) vs"

lemma byte_values_iff: "byte_values vs \<longleftrightarrow> (\<forall>v \<in> set vs. \<exists>bs. v = PBytes bs)"
proof -
  have "(case v of PBytes _ \<Rightarrow> True | _ \<Rightarrow> False) \<longleftrightarrow> (\<exists>bs. v = PBytes bs)" for v
    by (cases v) auto
  then show ?thesis by (simp add: byte_values_def list_all_iff)
qed

text \<open>Below a container: dictionaries exactly under the codes that name a \<^verbatim>\<open>tlv\<close>.\<close>

fun sub_shape :: "dictionary \<Rightarrow> attribute option \<Rightarrow> submap \<Rightarrow> bool" where
  "sub_shape d a [] \<longleftrightarrow> True"
| "sub_shape d a ((c, Sub m) # rest) \<longleftrightarrow>
     is_tlv (tlv_child_attr d a c) \<and> sub_shape d (tlv_child_attr d a c) m \<and> sub_shape d a rest"
| "sub_shape d a ((c, Vals vs) # rest) \<longleftrightarrow>
     \<not> is_tlv (tlv_child_attr d a c) \<and> byte_values vs \<and> sub_shape d a rest"

text \<open>Whether the parser keeps a dictionary under a key.\<close>

definition nested_key :: "dictionary option \<Rightarrow> pkey \<Rightarrow> bool" where
  "nested_key d k =
     (case k of
        KInt c \<Rightarrow> c \<noteq> 26 \<and> c \<noteq> 80 \<and> container_type d k \<noteq> None
      | KTup xs \<Rightarrow> length xs = 2 \<and> is_tlv (dict_attr d k))"

definition store_shape :: "dictionary option \<Rightarrow> pkey \<Rightarrow> store \<Rightarrow> bool" where
  "store_shape dopt k s =
     (case s of
        Vals vs \<Rightarrow> \<not> nested_key dopt k \<and> byte_values vs
      | Sub m \<Rightarrow>
          nested_key dopt k
          \<and> (case dopt of None \<Rightarrow> False | Some d \<Rightarrow> sub_shape d (attr_of_key d k) m))"

definition attrs_shape :: "dictionary option \<Rightarrow> (pkey, store) od \<Rightarrow> bool" where
  "attrs_shape d st \<longleftrightarrow> (\<forall>(k, s) \<in> set st. store_shape d k s)"

definition dict_fine :: "dictionary option \<Rightarrow> bool" where
  "dict_fine d = (case d of None \<Rightarrow> True | Some d \<Rightarrow> dict_wf d)"

text \<open>A run that keeps the shape and the dictionary, or raises \<open>PacketError\<close>.\<close>

definition keeps_shape :: "packet \<Rightarrow> packet res \<Rightarrow> bool" where
  "keeps_shape p r =
     (case r of
        Inl e \<Rightarrow> e = PacketError
      | Inr q \<Rightarrow> p_dict q = p_dict p \<and> attrs_shape (p_dict q) (p_attrs q))"

named_theorems shape_intros

lemma byte_values_simps [simp]: "byte_values []" "byte_values [PBytes bs]"
  "byte_values (vs @ ws) \<longleftrightarrow> byte_values vs \<and> byte_values ws"
  by (auto simp: byte_values_iff)

lemma sub_shape_get:
  "sub_shape d a m \<Longrightarrow> od_get m c = Some s \<Longrightarrow>
   (case s of Sub m' \<Rightarrow> is_tlv (tlv_child_attr d a c) \<and> sub_shape d (tlv_child_attr d a c) m'
    | Vals vs \<Rightarrow> \<not> is_tlv (tlv_child_attr d a c) \<and> byte_values vs)"
  by (induction d a m rule: sub_shape.induct) (auto split: if_splits)

lemma sub_shape_set:
  "sub_shape d a m \<Longrightarrow> sub_shape d a [(c, s)] \<Longrightarrow> sub_shape d a (od_set c s m)"
proof (induction m)
  case Nil
  then show ?case by simp
next
  case (Cons e m)
  obtain c' s' where e: "e = (c', s')" by (cases e)
  show ?case using Cons by (cases s; cases s') (auto simp: e)
qed

lemma sub_shape_nested:
  "sub_shape d a m \<Longrightarrow> sub_shape d (tlv_child_attr d a c) (nested_map m c)"
  using sub_shape_get [of d a m c]
  by (auto simp: nested_map_def split: option.splits store.splits)

lemma sub_shape_extend:
  assumes "sub_shape d a m" "\<not> is_tlv (tlv_child_attr d a c)"
  obtains s where "extend_store (od_get m c) [PBytes bs] = Inr s" "sub_shape d a [(c, s)]"
proof (cases "od_get m c")
  case None
  then show ?thesis using assms by (intro that [of "Vals [PBytes bs]"]) (auto simp: extend_store_def)
next
  case (Some s)
  then obtain vs where "s = Vals vs" "byte_values vs"
    using sub_shape_get [OF assms(1) Some] assms(2) by (cases s) auto
  then show ?thesis
    using assms Some by (intro that [of "Vals (vs @ [PBytes bs])"]) (auto simp: extend_store_def)
qed

lemma tlv_into_shape:
  "sub_shape d a m \<Longrightarrow> snd (tlv_into d a bs m) = None \<and> sub_shape d a (fst (tlv_into d a bs m))"
proof (induction d a bs m rule: tlv_into.induct)
  case (3 d a t l rest m)
  show ?case
  proof (cases "unat l < 2")
    case True
    then show ?thesis using 3 by simp
  next
    case False
    show ?thesis
    proof (cases "is_tlv (tlv_child_attr d a (uint t))")
      case True
      let ?r = "tlv_into d (tlv_child_attr d a (uint t)) (take (unat l - 2) rest) (nested_map m (uint t))"
      have n: "snd ?r = None \<and> sub_shape d (tlv_child_attr d a (uint t)) (fst ?r)"
        using 3(1) [OF False refl refl refl True] sub_shape_nested [OF 3(3)] by simp
      then have "sub_shape d a (od_set (uint t) (Sub (fst ?r)) m)"
        using True by (intro sub_shape_set 3(3)) simp
      then show ?thesis
        using n True False 3(2) [OF False refl refl refl]
        by (cases ?r) simp
    next
      case nt: False
      obtain s where s: "extend_store (od_get m (uint t)) [PBytes (take (unat l - 2) rest)] = Inr s"
          "sub_shape d a [(uint t, s)]"
        using sub_shape_extend [OF 3(3) nt] .
      then have "sub_shape d a (od_set (uint t) s m)" by (intro sub_shape_set 3(3))
      then show ?thesis
        using nt s False 3(2) [OF False refl refl refl] by simp
    qed
  qed
qed auto

lemma attrs_shape_Nil [simp]: "attrs_shape d []"
  by (simp add: attrs_shape_def)

lemma attrs_shape_set:
  "attrs_shape d st \<Longrightarrow> store_shape d k s \<Longrightarrow> attrs_shape d (od_set k s st)"
  by (induction st) (auto simp: attrs_shape_def split: if_splits)

lemma attrs_shape_get: "attrs_shape d st \<Longrightarrow> od_get st k = Some s \<Longrightarrow> store_shape d k s"
  by (auto simp: attrs_shape_def od_get_def dest: map_of_SomeD)

lemma store_shape_simps [simp]:
  "store_shape d k (Vals vs) \<longleftrightarrow> \<not> nested_key d k \<and> byte_values vs"
  "store_shape (Some e) k (Sub m) \<longleftrightarrow> nested_key (Some e) k \<and> sub_shape e (attr_of_key e k) m"
  "store_shape None k (Sub m) \<longleftrightarrow> False"
  by (auto simp: store_shape_def)

lemma append_value_shape [shape_intros]:
  assumes "attrs_shape (p_dict p) (p_attrs p)" "\<not> nested_key (p_dict p) k"
  shows "keeps_shape p (append_value k v p)"
proof (cases "od_get (p_attrs p) k")
  case None
  then show ?thesis using assms
    by (auto simp: append_value_def raw_extend_def extend_store_def keeps_shape_def
        intro!: attrs_shape_set)
next
  case (Some s)
  then obtain vs where "s = Vals vs" "byte_values vs"
    using assms attrs_shape_get [OF assms(1) Some]
    by (cases s) (auto simp: store_shape_def)
  then show ?thesis using assms Some
    by (auto simp: append_value_def raw_extend_def extend_store_def keeps_shape_def
        intro!: attrs_shape_set)
qed

lemma tlv_attribute_shape:
  assumes "attrs_shape (p_dict p) (p_attrs p)" "nested_key (p_dict p) k" "p_dict p = Some d"
  shows "snd (pkt_decode_tlv_attribute d k bs p) = None
    \<and> p_dict (fst (pkt_decode_tlv_attribute d k bs p)) = p_dict p
    \<and> attrs_shape (p_dict p) (p_attrs (fst (pkt_decode_tlv_attribute d k bs p)))"
proof -
  define m where "m = (case od_get (p_attrs p) k of Some (Sub m) \<Rightarrow> m | _ \<Rightarrow> [])"
  have nv: "od_get (p_attrs p) k \<noteq> Some (Vals vs)" for vs
    using attrs_shape_get [OF assms(1), of k] assms(2) by auto
  have "sub_shape d (attr_of_key d k) m"
    using attrs_shape_get [OF assms(1), of k] assms(3)
    by (auto simp: m_def split: option.splits store.splits)
  from tlv_into_shape [OF this, of bs] obtain m' where m':
    "tlv_into d (attr_of_key d k) bs m = (m', None)" "sub_shape d (attr_of_key d k) m'"
    by (cases "tlv_into d (attr_of_key d k) bs m") simp
  have "pkt_decode_tlv_attribute d k bs p = (raw_setitem k (Sub m') p, None)"
    using m'(1) nv
    by (auto simp: pkt_decode_tlv_attribute_def m_def split: option.splits store.splits)
  moreover have "attrs_shape (p_dict p) (od_set k (Sub m') (p_attrs p))"
    using assms m'(2) by (intro attrs_shape_set) auto
  ultimately show ?thesis by (simp add: raw_setitem_def)
qed

lemma vsa_store_shape:
  assumes "attrs_shape (p_dict p) (p_attrs p)" "vsa_store vendor atype v p = (q, r)"
  shows "p_dict q = p_dict p \<and> attrs_shape (p_dict q) (p_attrs q)
    \<and> (\<forall>new. r = Some new \<longrightarrow> (\<forall>(k, v) \<in> set new. \<not> nested_key (p_dict p) k))"
proof (cases "p_dict p")
  case None
  then show ?thesis using assms by (auto simp: vsa_store_def)
next
  case (Some d)
  let ?k = "KTup [vendor, atype]"
  show ?thesis
  proof (cases "is_tlv (attr_of_key d ?k)")
    case True
    then have "nested_key (p_dict p) ?k"
      by (simp add: nested_key_def Some dict_attr_def)
    from tlv_attribute_shape [OF assms(1) this Some, of v] show ?thesis
      using assms(2) Some True
      by (cases "pkt_decode_tlv_attribute d ?k v p") (auto simp: vsa_store_def)
  next
    case False
    then show ?thesis
      using assms Some by (auto simp: vsa_store_def nested_key_def dict_attr_def)
  qed
qed

lemma vsa_continue_keeps:
  "vsa_continue c vendor atype body p = (q, r) \<Longrightarrow> p_dict q = p_dict p \<and> p_attrs q = p_attrs p"
  by (auto simp: vsa_continue_def Let_def split: list.splits if_splits)

lemma vsa_len_width_total: "lw \<in> {0, 1, 2} \<Longrightarrow> \<exists>e. vsa_element_end tw lw rest = Inr e"
  by (auto simp: vsa_element_end_def vsa_len_width_def Let_def)

lemma vsa_loop_shape:
  assumes "attrs_shape (p_dict p) (p_attrs p)" "tw \<in> {1, 2, 4}" "lw \<in> {0, 1, 2}"
    and "\<forall>(k, v) \<in> set tlvs. \<not> nested_key (p_dict p) k"
  shows "\<exists>q r. vsa_loop tw lw cont vendor rest tlvs p = Inr (q, r)
    \<and> p_dict q = p_dict p \<and> attrs_shape (p_dict q) (p_attrs q)
    \<and> (\<forall>out. r = Some out \<longrightarrow> (\<forall>(k, v) \<in> set out. \<not> nested_key (p_dict p) k))"
  using assms
proof (induction tw lw cont vendor rest tlvs p rule: vsa_loop.induct)
  case (1 tw lw cont vendor rest tlvs p)
  have w: "vsa_type_width tw = Inr tw" using 1(4) by (simp add: vsa_type_width_def)
  from vsa_len_width_total [OF 1(5)] obtain e where e: "vsa_element_end tw lw rest = Inr e"
    by blast
  note step = vsa_loop.simps [of tw lw cont vendor rest tlvs p]
  show ?case
  proof (cases "length rest < tw + lw")
    case True
    then show ?thesis using 1(3,6) by (simp add: step)
  next
    case False
    show ?thesis
    proof (cases e)
      case None
      then show ?thesis using 1(3) False w e by (simp add: step)
    next
      case (Some n)
      let ?body = "drop (tw + lw) (take n rest)" and ?t = "be_val (take tw rest)"
      obtain p1 c where c: "vsa_continue cont vendor ?t ?body p = (p1, c)"
        by (cases "vsa_continue cont vendor ?t ?body p")
      note k = vsa_continue_keeps [OF c]
      show ?thesis
      proof (cases c)
        case Unparsed
        then show ?thesis using 1(3) k False w e Some c by (simp add: step)
      next
        case Fragment
        then show ?thesis
          using 1(1) [OF False w e refl Some c [symmetric] Fragment] 1(3-6) k False w e Some c
          by (simp add: step)
      next
        case (Payload v)
        obtain p2 r where s: "vsa_store vendor ?t v p1 = (p2, r)"
          by (cases "vsa_store vendor ?t v p1")
        have sh: "attrs_shape (p_dict p1) (p_attrs p1)" using k 1(3) by simp
        note st = vsa_store_shape [OF sh s]
        show ?thesis
        proof (cases r)
          case None
          then show ?thesis
            using st k False w e Some c s Payload by (auto simp: step)
        next
          case r: (Some new)
          show ?thesis
          proof (cases "lw = 0")
            case True
            have "\<forall>(k, v) \<in> set (tlvs @ new). \<not> nested_key (p_dict p) k"
              using st k r 1(6) by auto
            moreover have "vsa_loop tw lw cont vendor rest tlvs p
                = Inr (p2, if drop n rest = [] then Some (tlvs @ new) else None)"
              unfolding step using False w e Some c s Payload r True by simp
            ultimately show ?thesis using st k by auto
          next
            case nz: False
            show ?thesis
              using 1(2) [OF False w e refl Some c [symmetric] Payload s [symmetric] r nz]
                1(3-6) st k r False w e Some c s Payload nz
              by (simp add: step) (metis UnE)
          qed
        qed
      qed
    qed
  qed
qed

lemma nested_key_26 [simp]: "\<not> nested_key d (KInt 26)" "\<not> nested_key d (KInt 80)"
  by (simp_all add: nested_key_def)

lemma vendor_attribute_shape:
  assumes "attrs_shape (p_dict p) (p_attrs p)" "dict_fine (p_dict p)"
  shows "\<exists>kvs q. pkt_decode_vendor_attribute data p = Inr (kvs, q)
    \<and> p_dict q = p_dict p \<and> attrs_shape (p_dict q) (p_attrs q)
    \<and> (\<forall>(k, v) \<in> set kvs. \<not> nested_key (p_dict p) k)"
proof -
  obtain tw lw cont where f: "packet_vendor_format (p_dict p) (be_val (take 4 data)) = (tw, lw, cont)"
    by (cases "packet_vendor_format (p_dict p) (be_val (take 4 data))")
  have fmt: "tw \<in> {1, 2, 4}" "lw \<in> {0, 1, 2}"
  proof -
    have "format_ok (tw, lw, cont)"
    proof (cases "p_dict p")
      case None
      then show ?thesis using f by (auto simp: packet_vendor_format_def format_ok_def)
    next
      case (Some d)
      then show ?thesis
        using f assms(2) vendor_format_ok [of d "be_val (take 4 data)"]
        by (simp add: packet_vendor_format_def dict_fine_def)
    qed
    then show "tw \<in> {1, 2, 4}" "lw \<in> {0, 1, 2}" by (simp_all add: format_ok_def)
  qed
  from vsa_loop_shape [OF assms(1) fmt, of "[]" cont "be_val (take 4 data)" "drop 4 data"]
  obtain q r where "vsa_loop tw lw cont (be_val (take 4 data)) (drop 4 data) [] p = Inr (q, r)"
    "p_dict q = p_dict p" "attrs_shape (p_dict q) (p_attrs q)"
    "\<forall>out. r = Some out \<longrightarrow> (\<forall>(k, v) \<in> set out. \<not> nested_key (p_dict p) k)"
    by auto
  then show ?thesis
    using assms f
    by (cases r) (auto simp: pkt_decode_vendor_attribute_def Let_def)
qed

lemma keeps_shape_bind:
  assumes "keeps_shape p r"
    and "\<And>q. r = Inr q \<Longrightarrow> p_dict q = p_dict p \<Longrightarrow> attrs_shape (p_dict q) (p_attrs q) \<Longrightarrow> keeps_shape q (f q)"
  shows "keeps_shape p (bindE r f)"
proof (cases r)
  case (Inl e)
  then show ?thesis using assms(1) by (simp add: keeps_shape_def)
next
  case (Inr q)
  then have q: "p_dict q = p_dict p" "attrs_shape (p_dict q) (p_attrs q)"
    using assms(1) by (auto simp: keeps_shape_def)
  from assms(2) [OF Inr this] show ?thesis
    using q(1) Inr by (cases "f q") (auto simp: keeps_shape_def)
qed

lemma append_values_shape:
  "attrs_shape (p_dict p) (p_attrs p) \<Longrightarrow> \<forall>(k, v) \<in> set kvs. \<not> nested_key (p_dict p) k \<Longrightarrow>
   keeps_shape p (append_values kvs p)"
proof (induction kvs arbitrary: p)
  case Nil
  then show ?case by (simp add: append_values_def keeps_shape_def)
next
  case (Cons kv kvs)
  obtain k v where kv: "kv = (k, v)" by (cases kv)
  have "keeps_shape p (bindE (append_value k v p) (append_values kvs))"
    using Cons.prems by (intro keeps_shape_bind append_value_shape Cons.IH) (auto simp: kv)
  then show ?case by (simp add: append_values_def kv cong: foldE_cong)
qed

lemma store_slot_shape:
  assumes "attrs_shape (p_dict p) (p_attrs p)" "nested_key (p_dict p) (KInt parent)"
  shows "keeps_shape p (store_slot parent ext bs p)"
proof -
  obtain d where d: "p_dict p = Some d"
    using assms(2) by (cases "p_dict p") (auto simp: nested_key_def container_type_def dict_attr_def)
  define m where "m = (case od_get (p_attrs p) (KInt parent) of Some (Sub m) \<Rightarrow> m | _ \<Rightarrow> [])"
  let ?a = "attr_of_key d (KInt parent)"
  have nv: "od_get (p_attrs p) (KInt parent) \<noteq> Some (Vals vs)" for vs
    using attrs_shape_get [OF assms(1)] assms(2) by force
  have m: "sub_shape d ?a m"
    using attrs_shape_get [OF assms(1)] d
    by (force simp: m_def split: option.splits store.splits)
  have sl: "slot_attr (Some d) parent ext = tlv_child_attr d ?a ext"
    by (simp add: slot_attr_def)
  have "\<exists>x. store_slot parent ext bs p = Inr (raw_setitem (KInt parent) (Sub (od_set ext x m)) p)
      \<and> sub_shape d ?a [(ext, x)]"
  proof (cases "is_tlv (tlv_child_attr d ?a ext)")
    case True
    from tlv_into_shape [OF sub_shape_nested [OF m], of ext bs] obtain m' where
      "tlv_into d (tlv_child_attr d ?a ext) bs (nested_map m ext) = (m', None)"
      "sub_shape d (tlv_child_attr d ?a ext) m'"
      by (cases "tlv_into d (tlv_child_attr d ?a ext) bs (nested_map m ext)") simp
    then show ?thesis
      using True nv d
      by (intro exI [of _ "Sub m'"])
        (auto simp: store_slot_def m_def is_tlv_extended_slot_def sl split: option.splits store.splits)
  next
    case False
    from sub_shape_extend [OF m False, of bs] obtain x where
      "extend_store (od_get m ext) [PBytes bs] = Inr x" "sub_shape d ?a [(ext, x)]" .
    then show ?thesis
      using False nv d
      by (intro exI [of _ x])
        (auto simp: store_slot_def m_def is_tlv_extended_slot_def sl split: option.splits store.splits)
  qed
  then obtain x where x: "store_slot parent ext bs p
      = Inr (raw_setitem (KInt parent) (Sub (od_set ext x m)) p)" "sub_shape d ?a [(ext, x)]"
    by blast
  have "sub_shape d ?a (od_set ext x m)" by (intro sub_shape_set m x)
  then have "attrs_shape (p_dict p) (od_set (KInt parent) (Sub (od_set ext x m)) (p_attrs p))"
    using assms d by (intro attrs_shape_set) auto
  then show ?thesis by (simp add: x keeps_shape_def raw_setitem_def)
qed

lemma keeps_shape_dict:
  "p_dict q = p_dict p \<Longrightarrow> keeps_shape q r \<Longrightarrow> keeps_shape p r"
  by (cases r) (auto simp: keeps_shape_def)

lemma evs_key_not_nested: "evs_key d parent ext bs = Some k \<Longrightarrow> \<not> nested_key d' (KTup k)"
  by (auto simp: evs_key_def nested_key_def split: if_splits)

lemma extended_shape:
  assumes "attrs_shape (p_dict p) (p_attrs p)" "nested_key (p_dict p) (KInt parent)"
  shows "keeps_shape p (pkt_decode_extended parent v p)"
  using assms append_value_shape [OF assms(1) evs_key_not_nested]
  by (auto simp: pkt_decode_extended_def keeps_shape_def [of p "Inr p"]
      intro: store_slot_shape split: list.splits option.splits)

lemma long_extended_shape:
  assumes "attrs_shape (p_dict p) (p_attrs p)" "nested_key (p_dict p) (KInt parent)"
  shows "keeps_shape p (pkt_decode_long_extended_fragment parent v p)"
proof -
  have b: "keeps_shape p (Inr (p\<lparr>p_lbuf := b\<rparr>))" for b
    using assms by (simp add: keeps_shape_def)
  have a: "keeps_shape p (append_value (KTup k) w (p\<lparr>p_lbuf := b\<rparr>))"
    if "evs_key (p_dict p) parent ext pl = Some k" for k w b ext pl
    using assms evs_key_not_nested [OF that]
    by (intro keeps_shape_dict [OF _ append_value_shape]) auto
  have s: "keeps_shape p (store_slot parent ext w (p\<lparr>p_lbuf := b\<rparr>))" for ext w b
    using assms by (intro keeps_shape_dict [OF _ store_slot_shape]) auto
  have n: "keeps_shape p (Inr p)" using assms by (simp add: keeps_shape_def)
  show ?thesis
    using a b s n
    by (auto simp: pkt_decode_long_extended_fragment_def Let_def
        split: list.splits option.splits)
qed

lemma decode_avp_shape:
  assumes "attrs_shape (p_dict p) (p_attrs p)" "dict_fine (p_dict p)"
  shows "keeps_shape p (decode_avp key v p)"
proof -
  consider "key = 26" | "key = 80" | "key \<noteq> 26" "key \<noteq> 80" by blast
  then show ?thesis
  proof cases
    case 1
    from vendor_attribute_shape [OF assms, of v] obtain kvs q where
      "pkt_decode_vendor_attribute v p = Inr (kvs, q)" "p_dict q = p_dict p"
      "attrs_shape (p_dict q) (p_attrs q)" "\<forall>(k, v) \<in> set kvs. \<not> nested_key (p_dict p) k"
      by blast
    then show ?thesis
      using keeps_shape_dict [OF _ append_values_shape] 1 by (simp add: decode_avp_def)
  next
    case 2
    have "keeps_shape p (append_value (KInt 80) v (p\<lparr>p_ma := Some True\<rparr>))"
      using assms by (intro keeps_shape_dict [OF _ append_value_shape]) auto
    then show ?thesis
      using assms 2 by (simp add: decode_avp_def keeps_shape_def [of p "Inr p"])
  next
    case 3
    show ?thesis
    proof (cases "container_type (p_dict p) (KInt key)")
      case None
      then have "\<not> nested_key (p_dict p) (KInt key)" by (simp add: nested_key_def)
      then show ?thesis
        using 3 None append_value_shape [OF assms(1)] by (simp add: decode_avp_def)
    next
      case (Some t)
      then have n: "nested_key (p_dict p) (KInt key)" using 3 by (simp add: nested_key_def)
      obtain d where d: "p_dict p = Some d"
        using Some by (cases "p_dict p") (auto simp: container_type_def dict_attr_def)
      have "keeps_shape p (or_raise (pkt_decode_tlv_attribute d (KInt key) v p))"
        using tlv_attribute_shape [OF assms(1) n d, of v]
        by (cases "pkt_decode_tlv_attribute d (KInt key) v p")
          (simp add: or_raise_def keeps_shape_def)
      then show ?thesis
        using 3 Some d extended_shape [OF assms(1) n] long_extended_shape [OF assms(1) n]
        by (simp add: decode_avp_def with_dict_def)
    qed
  qed
qed

lemma decode_loop_shape:
  "attrs_shape (p_dict p) (p_attrs p) \<Longrightarrow> dict_fine (p_dict p) \<Longrightarrow> keeps_shape p (decode_loop bs p)"
proof (induction bs p rule: decode_loop.induct)
  case (3 k l rest p)
  show ?case
  proof (cases "unat l < 2")
    case False
    then show ?thesis
      using 3 by (auto intro!: keeps_shape_bind decode_avp_shape)
  qed (simp add: keeps_shape_def)
qed (simp_all add: keeps_shape_def)

lemma concat_values_bytes: "byte_values vs \<Longrightarrow> \<exists>bs. concat_values vs = Inr (PBytes bs)"
proof -
  assume "byte_values vs"
  then have "\<exists>bss. mapE as_bytes vs = Inr bss"
    by (induction vs) (auto simp: byte_values_iff as_bytes_def)
  then show ?thesis by (auto simp: concat_values_def)
qed

lemma merge_concat_shape:
  assumes "attrs_shape (p_dict p) (p_attrs p)"
  shows "\<exists>q. merge_concat_attributes p = Inr q"
proof (cases "p_dict p")
  case None
  then show ?thesis by (simp add: merge_concat_attributes_def)
next
  case (Some d)
  have v: "byte_values vs" if "(k, Vals vs) \<in> set (p_attrs p)" for k vs
    using that assms by (fastforce simp: attrs_shape_def)
  define g where "g = (\<lambda>(k, s).
      case s of
        Vals vs \<Rightarrow>
          if is_concat_attribute (Some d) k \<and> length vs > 1
          then bindE (concat_values vs) (\<lambda>v. Inr (k, Vals [v])) else Inr (k, s)
      | Sub _ \<Rightarrow> Inr (k, s))"
  have "\<exists>out. mapE g es = Inr out" if "set es \<subseteq> set (p_attrs p)" for es
    using that
  proof (induction es)
    case (Cons e es)
    obtain k s where e: "e = (k, s)" by (cases e)
    have "\<exists>y. g e = Inr y"
      using Cons.prems concat_values_bytes v
      by (cases s) (fastforce simp: g_def e)+
    then show ?case using Cons by auto
  qed simp
  then obtain out where "mapE g (p_attrs p) = Inr out" by blast
  then show ?thesis by (simp add: merge_concat_attributes_def Some g_def)
qed

lemma decode_packet_PacketError:
  assumes "dict_fine (p_dict p)" "decode_packet w p = Inl e"
  shows "e = PacketError"
proof (cases "decode_header w p")
  case (Inl e')
  then show ?thesis
    using assms(2)
    by (auto simp: decode_packet_def decode_header_def Let_def split: if_splits)
next
  case (Inr q)
  let ?q = "q\<lparr>p_attrs := [], p_lbuf := [], p_vbuf := []\<rparr>"
  have "p_dict ?q = p_dict p"
    using Inr by (auto simp: decode_header_def Let_def split: if_splits)
  then have k: "keeps_shape ?q (decode_loop (drop 20 w) ?q)"
    using assms(1) by (intro decode_loop_shape) auto
  show ?thesis
  proof (cases "decode_loop (drop 20 w) ?q")
    case (Inl e')
    then show ?thesis
      using k assms(2) Inr by (simp add: keeps_shape_def decode_packet_def)
  next
    case q1: (Inr q1)
    then obtain q2 where "merge_concat_attributes q1 = Inr q2"
      using k merge_concat_shape [of q1] by (auto simp: keeps_shape_def)
    then show ?thesis using assms(2) Inr q1 by (simp add: decode_packet_def)
  qed
qed

text \<open>
  C20 Parsing arbitrary octets as a packet, with any well-formed dictionary or with none, raises
  no exception other than \<open>PacketError\<close>: no value is ever stored under a key whose
  container type it does not have, every vendor's header widths can be unpacked, and the passes
  that join and split values afterwards cannot fail.
\<close>

theorem decode_raises_only_PacketError:
  assumes "dict_fine (p_dict p)" "decode_packet w p = Inl e"
  shows "e = PacketError"
  using assms by (rule decode_packet_PacketError)

definition blank_packet :: "dictionary option \<Rightarrow> packet" where
  "blank_packet d =
    \<lparr>p_class = PacketC, p_code = 0, p_id = Some 0, p_secret = [], p_auth = None, p_token = None,
     p_req_auth = None, p_orig_code = None, p_ma = None, p_raw = None, p_version = V1_0,
     p_deferred = [], p_attrs = [], p_dict = d, p_lbuf = [], p_vbuf = [], p_auth_type = ''pap'',
     p_source = None, p_dedup = None, p_rng = (\<lambda>_. 0), p_pos = 0\<rparr>"

lemma decode_raises_only_PacketError_witness:
  "decode_packet ([1, 2, 0, 22] @ replicate 16 7 @ [1, 1]) (blank_packet (Some sample_dict))
     = Inl PacketError"
proof -
  let ?r = "decode_packet ([1, 2, 0, 22] @ replicate 16 7 @ [1, 1]) (blank_packet (Some sample_dict))"
  have "\<not> okE ?r (\<lambda>_. True)"
    by code_simp
  then obtain e where e: "?r = Inl e" by (cases ?r) (auto simp: okE_def)
  have "dict_fine (p_dict (blank_packet (Some sample_dict)))"
    by (simp add: dict_fine_def blank_packet_def sample_dict_wf)
  from decode_raises_only_PacketError [OF this e] e show ?thesis by simp
qed

end
