(* ===== verification/PacketAuth.thy ===== *)
theory PacketAuth
  imports PacketDecode
begin

text \<open>
  Authentication of packets (\<^verbatim>\<open>pyrad2/packet.py\<close>): construction of packets and of replies, the
  Message-Authenticator and its policies, the three ways of serialising a request, replies and
  their verification, password hiding, CHAP and the dispatch of \<^verbatim>\<open>parse_packet\<close>.

  The module's identifier counter is passed in and out as \<open>cur\<close>. Operations whose callers use
  only the verdict return it without the packet: the packets they leave behind after an
  exception are not modelled.
\<close>

section \<open>Headers\<close>

definition MA_NAME :: ustr where
  "MA_NAME = u ''Message-Authenticator''"

definition EAP_NAME :: ustr where
  "EAP_NAME = u ''EAP-Message''"

definition zero_octets :: "nat \<Rightarrow> bytes" where
  "zero_octets n = replicate n 0"

text \<open>\<^verbatim>\<open>struct.pack("!BBH", code, id, n)\<close>.\<close>

definition pack_header :: "packet \<Rightarrow> nat \<Rightarrow> bytes res" where
  "pack_header p n =
     bindE (pack_uint 1 (p_code p)) (\<lambda>c.
     bindE (case p_id p of None \<Rightarrow> Inl StructError | Some i \<Rightarrow> pack_uint 1 i) (\<lambda>i.
     bindE (pack_uint 2 (int n)) (\<lambda>l. Inr (c @ i @ l))))"

text \<open>\<^verbatim>\<open>struct.pack("16s", bs)\<close> pads with zeros or cuts off.\<close>

definition pack_s :: "nat \<Rightarrow> bytes \<Rightarrow> bytes" where
  "pack_s n bs = take n bs @ replicate (n - length bs) 0"

definition pack_v11_header :: "int \<Rightarrow> nat \<Rightarrow> bytes option \<Rightarrow> bool \<Rightarrow> bytes res" where
  "pack_v11_header code n token zero_token =
     bindE (if zero_token then
              (if token \<in> {None, Some (zero_octets 4)} then Inr (Some (zero_octets 4)) else Inl PacketError)
            else Inr token) (\<lambda>token.
     case token of
       None \<Rightarrow> Inl PacketError
     | Some t \<Rightarrow>
         if length t \<noteq> 4 then Inl PacketError
         else
           bindE (pack_uint 1 code) (\<lambda>c.
           bindE (pack_uint 2 (int n)) (\<lambda>l. Inr (c @ [0] @ l @ t @ zero_octets 12))))"

section \<open>Construction\<close>

definition new_packet ::
    "pclass \<Rightarrow> int \<Rightarrow> int option \<Rightarrow> bytes \<Rightarrow> bytes option \<Rightarrow> RadiusVersion \<Rightarrow> dictionary option
     \<Rightarrow> (nat \<Rightarrow> int) \<Rightarrow> nat \<Rightarrow> int \<Rightarrow> packet \<times> int" where
  "new_packet cls code i secret auth version d rng pos cur =
     (let cur' = (if i = None then next_id cur else cur)
      in (\<lparr>p_class = cls, p_code = code, p_id = Some (case i of None \<Rightarrow> cur' | Some i \<Rightarrow> i),
           p_secret = secret, p_auth = auth, p_token = None, p_req_auth = None,
           p_orig_code = None, p_ma = None, p_raw = None, p_version = version,
           p_deferred = [], p_attrs = [], p_dict = d, p_lbuf = [], p_vbuf = [],
           p_auth_type = ''pap'', p_source = None, p_dedup = None, p_rng = rng, p_pos = pos\<rparr>, cur'))"

text \<open>\<^verbatim>\<open>key.replace("_", "-")\<close>.\<close>

definition dash_name :: "ustr \<Rightarrow> ustr" where
  "dash_name s = map (\<lambda>c. if c = of_char (CHR ''_'') then of_char (CHR ''-'') else c) s"

fun add_attributes :: "(ustr \<times> pyval list) list \<Rightarrow> packet \<Rightarrow> packet res option" where
  "add_attributes [] p = Some (Inr p)"
| "add_attributes ((k, vs) # kvs) p =
     (case add_attribute (dash_name k) vs p of
        None \<Rightarrow> None
      | Some (Inl e) \<Rightarrow> Some (Inl e)
      | Some (Inr p') \<Rightarrow> add_attributes kvs p')"

text \<open>The rest of \<^verbatim>\<open>Packet.__init__\<close>: a raw packet, the flag, and attributes by name.\<close>

definition init_contents ::
    "bytes option \<Rightarrow> bool option \<Rightarrow> (ustr \<times> pyval list) list \<Rightarrow> packet \<Rightarrow> packet res option" where
  "init_contents raw ma attrs p =
     (case (case raw of None \<Rightarrow> Inr p | Some w \<Rightarrow> decode_packet w (p\<lparr>p_raw := Some w\<rparr>)) of
        Inl e \<Rightarrow> Some (Inl e)
      | Inr q \<Rightarrow> add_attributes attrs (case ma of None \<Rightarrow> q | Some b \<Rightarrow> q\<lparr>p_ma := Some b\<rparr>))"

section \<open>Message-Authenticator\<close>

definition has_message_authenticator :: "packet \<Rightarrow> bool" where
  "has_message_authenticator p \<longleftrightarrow> p_ma p = Some True \<or> has_attribute MA_NAME 80 p"

definition has_eap_message :: "packet \<Rightarrow> bool" where
  "has_eap_message p \<longleftrightarrow> has_attribute EAP_NAME 79 p"

definition set_ma :: "bytes \<Rightarrow> packet \<Rightarrow> packet res" where
  "set_ma bs p = setitem MA_NAME [PBytes bs] p"

text \<open>What is hashed in the place of the authenticator.\<close>

definition body_md5_codes :: "int list" where
  "body_md5_codes = [pt AccountingRequest, pt DisconnectRequest, pt CoARequest]"

definition ma_authenticator :: "packet \<Rightarrow> bytes res" where
  "ma_authenticator p =
     (if p_code p \<in> set body_md5_codes
        \<or> p_code p = pt AccountingResponse \<and> p_orig_code p \<noteq> Some (pt StatusServer)
      then Inr (zero_octets 16)
      else (case p_auth p of None \<Rightarrow> Inl GenericException | Some a \<Rightarrow> Inr a))"

definition refresh_message_authenticator :: "packet \<Rightarrow> packet res" where
  "refresh_message_authenticator p =
     bindE (set_ma (zero_octets 16) p) (\<lambda>p1.
     bindE (pkt_encode_attributes p1) (\<lambda>(attr, p2).
     bindE (pack_header p2 (20 + length attr)) (\<lambda>h.
     bindE (ma_authenticator p2) (\<lambda>a.
     set_ma (hmac_md5 (p_secret p2) (h @ a @ attr)) p2))))"

definition ensure_id :: "packet \<Rightarrow> packet" where
  "ensure_id p =
     (if p_id p = None then (let (i, q) = create_id p in q\<lparr>p_id := Some i\<rparr>) else p)"

definition add_message_authenticator :: "packet \<Rightarrow> packet res" where
  "add_message_authenticator p =
     (if p_version p = V1_1 then Inr p
      else
        bindE (set_ma (zero_octets 16) (p\<lparr>p_ma := Some True\<rparr>)) (\<lambda>p1.
        let p2 = ensure_id p1
        in if p_auth p2 = None \<and> p_code p2 \<in> {pt AccessRequest, pt StatusServer}
           then refresh_message_authenticator (need_authenticator p2)
           else Inr p2))"

definition ensure_message_authenticator :: "packet \<Rightarrow> packet res" where
  "ensure_message_authenticator p =
     (if p_version p = V1_1 then Inr p
      else if \<not> has_attribute MA_NAME 80 p then add_message_authenticator p
      else Inr (p\<lparr>p_ma := Some True\<rparr>))"

definition get_message_authenticator :: "packet \<Rightarrow> bool option pm" where
  "get_message_authenticator p =
     bindE (refresh_message_authenticator p) (\<lambda>q. Inr (p_ma q, q))"

definition prepare_request_message_authenticator :: "bool \<Rightarrow> packet \<Rightarrow> packet res" where
  "prepare_request_message_authenticator require p =
     (if p_version p = V1_1 then Inr p
      else if p_code p \<notin> {pt AccessRequest, pt StatusServer} then Inr p
      else if p_code p = pt StatusServer \<or> require \<or> has_eap_message p
      then ensure_message_authenticator p
      else Inr p)"

definition prepare_reply_message_authenticator ::
    "packet \<Rightarrow> bool \<Rightarrow> bool \<Rightarrow> packet \<Rightarrow> packet res" where
  "prepare_reply_message_authenticator request require require_eap reply =
     (if p_version request = V1_1 \<or> p_version reply = V1_1 then Inr reply
      else if require \<and> p_code request = pt AccessRequest
        \<or> has_message_authenticator request
        \<or> require_eap \<and> (has_eap_message request \<or> has_eap_message reply)
      then ensure_message_authenticator reply
      else Inr reply)"

text \<open>
  \<^verbatim>\<open>_zero_message_authenticator\<close>: the attributes with the value of the one
  Message-Authenticator replaced by zeros; \<open>found\<close> counts them.
\<close>

fun zero_ma_loop :: "nat \<Rightarrow> bytes \<Rightarrow> (bytes \<times> nat) res" where
  "zero_ma_loop found [] = Inr ([], found)"
| "zero_ma_loop found [b] = Inl PacketError"
| "zero_ma_loop found (k # l # rest) =
     (if unat l < 2 then Inl PacketError
      else if length rest + 2 < unat l then Inl PacketError
      else if uint k = 80 \<and> unat l \<noteq> 18 then Inl PacketError
      else
        let v = take (unat l - 2) rest; w = (if uint k = 80 then zero_octets 16 else v)
        in bindE (zero_ma_loop (if uint k = 80 then Suc found else found) (drop (unat l - 2) rest))
             (\<lambda>(out, n). Inr (k # l # w @ out, n)))"

definition zero_message_authenticator :: "bytes \<Rightarrow> bytes res" where
  "zero_message_authenticator attr =
     bindE (zero_ma_loop 0 attr) (\<lambda>(out, found).
     if found \<noteq> 1 then Inl PacketError else Inr out)"

definition access_reply_codes :: "int list" where
  "access_reply_codes = [pt AccessAccept, pt AccessChallenge, pt AccessReject]"

text \<open>A Python value that counts as true: here, octets that are there and not empty.\<close>

definition truthy :: "bytes option \<Rightarrow> bool" where
  "truthy b \<longleftrightarrow> b \<noteq> None \<and> b \<noteq> Some []"

definition original_or_own :: "bytes option \<Rightarrow> packet \<Rightarrow> bytes res" where
  "original_or_own orig p =
     (case orig of
        Some a \<Rightarrow> Inr a
      | None \<Rightarrow>
          (case p_auth p of
             Some a \<Rightarrow> if a \<noteq> [] then Inr a else Inl GenericException
           | None \<Rightarrow> Inl GenericException))"

definition verify_authenticator :: "bytes option \<Rightarrow> int option \<Rightarrow> packet \<Rightarrow> bytes res" where
  "verify_authenticator orig_auth orig_code p =
     (if p_code p \<in> set body_md5_codes then Inr (zero_octets 16)
      else if p_code p = pt AccountingResponse then
        (if orig_code = Some (pt StatusServer) then original_or_own orig_auth p
         else Inr (zero_octets 16))
      else if p_code p \<in> set access_reply_codes then original_or_own orig_auth p
      else (case p_auth p of None \<Rightarrow> Inl TypeError | Some a \<Rightarrow> Inr a))"

text \<open>\<^verbatim>\<open>x[0]\<close> of what \<^verbatim>\<open>packet[name]\<close> returned.\<close>

definition first_item :: "item \<Rightarrow> pyval res" where
  "first_item x =
     (case x of
        IList (v # _) \<Rightarrow> Inr v
      | IList [] \<Rightarrow> Inl IndexError
      | IMap _ \<Rightarrow> Inl KeyError)"

definition ma_attributes :: "packet \<Rightarrow> bytes pm" where
  "ma_attributes p =
     (case p_raw p of
        Some w \<Rightarrow>
          if w \<noteq> [] then bindE (zero_message_authenticator (drop 20 w)) (\<lambda>a. Inr (a, p))
          else bindE (set_ma (zero_octets 16) p) pkt_encode_attributes
      | None \<Rightarrow> bindE (set_ma (zero_octets 16) p) pkt_encode_attributes)"

definition verify_message_authenticator ::
    "bytes option \<Rightarrow> bytes option \<Rightarrow> int option \<Rightarrow> packet \<Rightarrow> bool pm" where
  "verify_message_authenticator secret orig_auth orig_code p =
     (if p_ma p = None then Inl GenericException
      else
        bindE (getitem MA_NAME p) (\<lambda>prev.
        let key = (case secret of Some s \<Rightarrow> if s \<noteq> [] then s else p_secret p | None \<Rightarrow> p_secret p) in
        bindE (ma_attributes p) (\<lambda>(attr, p1).
        bindE (pack_header p1 (20 + length attr)) (\<lambda>h.
        bindE (verify_authenticator orig_auth orig_code p1) (\<lambda>a.
        bindE (first_item prev) (\<lambda>v.
        bindE (setitem MA_NAME [v] p1) (\<lambda>p2.
        bindE (as_bytes v) (\<lambda>mac. Inr (mac = hmac_md5 key (h @ a @ attr), p2)))))))))"

definition require_valid_message_authenticator ::
    "bytes option \<Rightarrow> bytes option \<Rightarrow> int option \<Rightarrow> packet \<Rightarrow> packet res" where
  "require_valid_message_authenticator secret orig_auth orig_code p =
     (case verify_message_authenticator secret orig_auth orig_code p of
        Inr (True, q) \<Rightarrow> Inr q
      | _ \<Rightarrow> Inl PacketError)"

definition validate_message_authenticator_policy :: "bool \<Rightarrow> bool \<Rightarrow> packet \<Rightarrow> packet res" where
  "validate_message_authenticator_policy require require_eap p =
     (if p_version p = V1_1 then Inr p
      else if \<not> has_message_authenticator p then
        (if p_code p = pt StatusServer then Inl PacketError
         else if require \<and> p_code p = pt AccessRequest then Inl PacketError
         else if require_eap \<and> has_eap_message p then Inl PacketError
         else Inr p)
      else require_valid_message_authenticator None None None p)"

section \<open>Replies\<close>

definition reply_shell :: "pclass \<Rightarrow> pclass \<times> int" where
  "reply_shell c =
     (case c of
        PacketC \<Rightarrow> (PacketC, 0)
      | AuthC \<Rightarrow> (AuthC, pt AccessAccept)
      | AcctC \<Rightarrow> (AcctC, pt AccountingResponse)
      | CoAC \<Rightarrow> (CoAC, pt CoAACK)
      | StatusC \<Rightarrow> (PacketC, pt AccessAccept))"

text \<open>
  \<^verbatim>\<open>create_reply\<close> of every class with attributes by name (\<^verbatim>\<open>_make_reply\<close>,
  \<^verbatim>\<open>_set_reply_context\<close>); \<open>code\<close> is given for Status-Server requests only.
\<close>

definition create_reply ::
    "int option \<Rightarrow> bool option \<Rightarrow> (ustr \<times> pyval list) list \<Rightarrow> int \<Rightarrow> packet
     \<Rightarrow> (packet \<times> int) res option" where
  "create_reply code ma attrs cur p =
     (case reply_shell (p_class p) of (cls, c0) \<Rightarrow>
      case new_packet cls (if p_class p = StatusC then (case code of None \<Rightarrow> c0 | Some c \<Rightarrow> c) else c0)
             (p_id p) (p_secret p) (p_auth p) (p_version p) (p_dict p) (p_rng p) (p_pos p) cur of (r, cur') \<Rightarrow>
        map_option (\<lambda>x. bindE x (\<lambda>q.
            Inr (q\<lparr>p_orig_code := Some (p_code p), p_token := p_token p,
                   p_auth_type := (if p_class p = AuthC then p_auth_type p else ''pap'')\<rparr>, cur')))
          (init_contents None ma attrs r))"

definition serialize_v11 :: "packet \<Rightarrow> bytes pm" where
  "serialize_v11 p =
     bindE (pkt_encode_attributes p) (\<lambda>(attr, q).
     bindE (pack_v11_header (p_code q) (20 + length attr) (p_token q) False) (\<lambda>h.
     Inr (h @ attr, q)))"

definition refresh_if_set :: "packet \<Rightarrow> packet res" where
  "refresh_if_set p = (if p_ma p = Some True then refresh_message_authenticator p else Inr p)"

definition encode_v10_random :: "packet \<Rightarrow> bytes pm" where
  "encode_v10_random p =
     bindE (refresh_if_set (need_authenticator p)) (\<lambda>p1.
     bindE (pkt_encode_attributes p1) (\<lambda>(attr, p2).
     bindE (pack_header p2 (20 + length attr)) (\<lambda>h.
     case p_auth p2 of
       None \<Rightarrow> Inl StructError
     | Some a \<Rightarrow> Inr (h @ pack_s 16 a @ attr, p2))))"

definition encode_v10_body_md5 :: "packet \<Rightarrow> bytes pm" where
  "encode_v10_body_md5 p =
     bindE (refresh_if_set p) (\<lambda>p1.
     bindE (pkt_encode_attributes p1) (\<lambda>(attr, p2).
     bindE (pack_header p2 (20 + length attr)) (\<lambda>h.
     let a = md5 (h @ zero_octets 16 @ attr @ p_secret p2)
     in Inr (h @ a @ attr, p2\<lparr>p_auth := Some a\<rparr>))))"

text \<open>\<^verbatim>\<open>request_packet\<close> of the four classes that have it.\<close>

definition request_packet :: "packet \<Rightarrow> bytes pm" where
  "request_packet p =
     (if p_class p = PacketC then Inl AttributeError
      else
        let q = ensure_id p in
        if p_version q = V1_1 then serialize_v11 q
        else
          case p_class q of
            AuthC \<Rightarrow> encode_v10_random q
          | StatusC \<Rightarrow>
              bindE (prepare_request_message_authenticator False (need_authenticator q)) encode_v10_random
          | _ \<Rightarrow> encode_v10_body_md5 q)"

definition reply_packet :: "packet \<Rightarrow> bytes pm" where
  "reply_packet p =
     (if p_version p = V1_1 then serialize_v11 p
      else if \<not> truthy (p_auth p) then Inl AssertionError
      else
        bindE (refresh_if_set p) (\<lambda>p1.
        bindE (pkt_encode_attributes p1) (\<lambda>(attr, p2).
        bindE (pack_header p2 (20 + length attr)) (\<lambda>h.
        case p_auth p2 of
          None \<Rightarrow> Inl TypeError
        | Some a \<Rightarrow> Inr (h @ md5 (h @ a @ attr @ p_secret p2) @ attr, p2)))))"

text \<open>\<^verbatim>\<open>verify_reply(reply, rawreply, enforce_ma)\<close> of the request \<open>p\<close>.\<close>

definition verify_reply :: "packet \<Rightarrow> packet \<Rightarrow> bytes option \<Rightarrow> bool \<Rightarrow> bool res" where
  "verify_reply p reply rawreply enforce_ma =
     (if p_version p = V1_1 then
        Inr (p_token p \<noteq> None \<and> p_token reply \<noteq> None \<and> p_token reply = p_token p)
      else if p_id reply \<noteq> p_id p then Inr False
      else
        bindE (case rawreply of None \<Rightarrow> reply_packet reply | Some w \<Rightarrow> Inr (w, reply)) (\<lambda>(w, r1).
        bindE (pkt_encode_attributes r1) (\<lambda>(_, r2).
        case p_auth p of
          None \<Rightarrow> Inl TypeError
        | Some a \<Rightarrow>
            if md5 (take 4 w @ a @ drop 20 w @ p_secret p) \<noteq> py_slice w 4 20 then Inr False
            else if has_message_authenticator r2 then
              Inr (case require_valid_message_authenticator (Some (p_secret p)) (Some a)
                          (Some (p_code p)) r2 of
                     Inl e \<Rightarrow> False | Inr _ \<Rightarrow> True)
            else Inr (\<not> (enforce_ma \<and> p_code p = pt AccessRequest)))))"

section \<open>Verification of requests\<close>

text \<open>\<^verbatim>\<open>verify_packet\<close>, which \<^verbatim>\<open>verify_acct_request\<close> and \<^verbatim>\<open>verify_coa_request\<close> call.\<close>

definition verify_packet :: "packet \<Rightarrow> bool res" where
  "verify_packet p =
     (if p_version p = V1_1 then Inr True
      else case (p_raw p, p_auth p) of
        (Some w, Some a) \<Rightarrow>
          if w = [] then Inl AssertionError
          else Inr (md5 (take 4 w @ zero_octets 16 @ drop 20 w @ p_secret p) = a)
      | _ \<Rightarrow> Inl AssertionError)"

definition verify_auth_request :: "packet \<Rightarrow> bool res" where
  "verify_auth_request p =
     (case p_raw p of
        None \<Rightarrow> Inl ValueError
      | Some [] \<Rightarrow> Inl ValueError
      | Some (c # _) \<Rightarrow>
          Inr (uint c = pt AccessRequest
            \<and> (p_version p = V1_1 \<or> truthy (p_auth p) \<and> p_auth p \<noteq> Some (zero_octets 16))))"

definition verify_status_request :: "packet \<Rightarrow> bool" where
  "verify_status_request p \<longleftrightarrow>
     p_version p = V1_1
     \<or> (case verify_message_authenticator None None None p of Inr (b, _) \<Rightarrow> b | Inl _ \<Rightarrow> False)"

section \<open>Passwords\<close>

text \<open>\<^verbatim>\<open>bs.rstrip(b"\x00")\<close>.\<close>

definition rstrip_zeros :: "bytes \<Rightarrow> bytes" where
  "rstrip_zeros bs = rev (dropWhile (\<lambda>b. b = 0) (rev bs))"

definition pw_decrypt :: "bytes \<Rightarrow> packet \<Rightarrow> ustr res" where
  "pw_decrypt password p =
     (if p_version p = V1_1 then Inr (utf8_decode_ignore password)
      else if password = [] then Inr []
      else case p_auth p of
        None \<Rightarrow> Inl TypeError
      | Some a \<Rightarrow>
          (let pw = rstrip_zeros (chain_input (p_secret p) a (chunks 16 password))
           in Inr (case utf8_decode pw of Inr s \<Rightarrow> s | Inl _ \<Rightarrow> utf8_decode_ignore pw)))"

definition CHAP_NAME :: ustr where
  "CHAP_NAME = u ''CHAP-Challenge''"

definition chap_challenge :: "packet \<Rightarrow> pyval res" where
  "chap_challenge p = bindE (getitem CHAP_NAME p) first_item"

definition chap_password :: "packet \<Rightarrow> bytes res" where
  "chap_password p =
     (case od_get (p_attrs p) (KInt 3) of
        None \<Rightarrow> Inl TypeError
      | Some (Vals []) \<Rightarrow> Inl IndexError
      | Some (Vals (v # _)) \<Rightarrow> as_bytes v
      | Some (Sub _) \<Rightarrow> Inl KeyError)"

definition userpwd_bytes :: "pyval \<Rightarrow> bytes res" where
  "userpwd_bytes v = plain_bytes (case v of PStr s \<Rightarrow> PStr (py_strip s) | _ \<Rightarrow> v)"

definition verify_chap_passwd :: "pyval \<Rightarrow> packet \<Rightarrow> bool pm" where
  "verify_chap_passwd userpwd p =
     bindE (userpwd_bytes userpwd) (\<lambda>pw.
     bindE (chap_password p) (\<lambda>cp.
     if length cp \<noteq> 17 then Inr (False, p)
     else
       bindE (if p_version p = V1_1 then
                bindE (contains (KName CHAP_NAME) p) (\<lambda>b.
                if \<not> b then Inl PacketError else bindE (chap_challenge p) (\<lambda>c. Inr (c, p)))
              else
                let q = (if truthy (p_auth p) then p
                         else (let (a, p') = create_authenticator p in p'\<lparr>p_auth := Some a\<rparr>)) in
                bindE (contains (KName CHAP_NAME) q) (\<lambda>b.
                bindE (if b then chap_challenge q
                       else Inr (case p_auth q of Some a \<Rightarrow> PBytes a | None \<Rightarrow> PNone)) (\<lambda>c. Inr (c, q))))
         (\<lambda>(c, q).
       bindE (as_bytes c) (\<lambda>challenge.
       Inr (drop 1 cp = md5 (take 1 cp @ pw @ challenge), q)))))"

section \<open>Parsing\<close>

definition packet_class_of :: "int \<Rightarrow> pclass" where
  "packet_class_of code =
     (if code = pt AccessRequest then AuthC
      else if code = pt StatusServer then StatusC
      else if code \<in> {pt AccountingRequest, pt AccountingResponse} then AcctC
      else if code \<in> {pt CoARequest, pt DisconnectRequest} then CoAC
      else PacketC)"

definition default_code :: "pclass \<Rightarrow> int" where
  "default_code c =
     (case c of PacketC \<Rightarrow> 0 | AuthC \<Rightarrow> pt AccessRequest | AcctC \<Rightarrow> pt AccountingRequest
      | CoAC \<Rightarrow> pt CoARequest | StatusC \<Rightarrow> pt StatusServer)"

text \<open>The constructor draws an identifier, which decoding then overwrites.\<close>

definition parse_packet ::
    "bytes \<Rightarrow> bytes \<Rightarrow> dictionary option \<Rightarrow> RadiusVersion \<Rightarrow> (nat \<Rightarrow> int) \<Rightarrow> nat \<Rightarrow> int
     \<Rightarrow> (packet \<times> int) res" where
  "parse_packet data secret d version rng pos cur =
     (case data of
        [] \<Rightarrow> Inl IndexError
      | c # _ \<Rightarrow>
          (let cls = packet_class_of (uint c);
               (p, cur') = new_packet cls (default_code cls) None secret None version d rng pos cur
           in bindE (decode_packet data (p\<lparr>p_raw := Some data\<rparr>)) (\<lambda>q. Inr (q, cur'))))"

end
