(* ===== verification/Effects.thy ===== *)
theory Effects
  imports Prelude
begin

text \<open>
  Code that changes a state and may raise: \<open>('s, 'a) sm\<close> takes the state and returns the
  result or the exception together with the state reached, as Python keeps the changes made
  before an exception. \<open>bindS\<close> is the sequence of statements, \<open>catchS\<close> is
  \<^verbatim>\<open>try: ... except\<close>, \<open>finallyS\<close> is \<^verbatim>\<open>try: ... finally\<close>.

  \<open>preserves I m\<close> says that \<open>m\<close> keeps the state invariant \<open>I\<close>, \<open>raises_only E m\<close> that from a
  state with the invariant it raises nothing but the exceptions in \<open>E\<close>.
\<close>

named_theorems keeps_intros "invariants through the statements"

type_synonym ('s, 'a) sm = "'s \<Rightarrow> 'a res \<times> 's"

definition retS :: "'a \<Rightarrow> ('s, 'a) sm" where
  "retS x s = (Inr x, s)"

definition failS :: "exn \<Rightarrow> ('s, 'a) sm" where
  "failS e s = (Inl e, s)"

definition bindS :: "('s, 'a) sm \<Rightarrow> ('a \<Rightarrow> ('s, 'b) sm) \<Rightarrow> ('s, 'b) sm" where
  "bindS m f s = (case m s of (Inl e, s') \<Rightarrow> (Inl e, s') | (Inr x, s') \<Rightarrow> f x s')"

definition liftE :: "'a res \<Rightarrow> ('s, 'a) sm" where
  "liftE r s = (r, s)"

definition modifyS :: "('s \<Rightarrow> 's) \<Rightarrow> ('s, unit) sm" where
  "modifyS f s = (Inr (), f s)"

definition catchS :: "('s, 'a) sm \<Rightarrow> (exn \<Rightarrow> ('s, 'a) sm) \<Rightarrow> ('s, 'a) sm" where
  "catchS m h s = (case m s of (Inl e, s') \<Rightarrow> h e s' | (Inr x, s') \<Rightarrow> (Inr x, s'))"

text \<open>The state changes of the last part of \<^verbatim>\<open>finally\<close> happen either way; here it does not raise.\<close>

definition finallyS :: "('s, 'a) sm \<Rightarrow> ('s \<Rightarrow> 's) \<Rightarrow> ('s, 'a) sm" where
  "finallyS m f s = (case m s of (r, s') \<Rightarrow> (r, f s'))"

lemma bindS_ret [simp]: "bindS (retS x) f = f x" "bindS m retS = m"
  by (simp_all add: bindS_def retS_def fun_eq_iff split: prod.split sum.split)

lemma bindS_lift [simp]: "bindS (liftE (Inr x)) f = f x" "bindS (liftE (Inl e)) f = failS e"
  "bindS (failS e) f = failS e"
  by (simp_all add: bindS_def liftE_def failS_def fun_eq_iff)

lemma bindS_assoc: "bindS (bindS m f) g = bindS m (\<lambda>x. bindS (f x) g)"
  by (simp add: bindS_def fun_eq_iff split: prod.split sum.split)

lemma bindS_result:
  "fst (bindS m (\<lambda>x. retS (g x)) s) = Inr y \<longleftrightarrow> (\<exists>x. fst (m s) = Inr x \<and> y = g x)"
  by (auto simp: bindS_def retS_def split: prod.split sum.split)

lemma bindS_InrE:
  assumes "bindS m f s = (Inr y, s')"
  obtains x s1 where "m s = (Inr x, s1)" "f x s1 = (Inr y, s')"
  using assms by (cases "m s") (auto simp: bindS_def split: sum.splits)

text \<open>Any outcome: the first statement raised, or the second had it.\<close>

lemma bindS_cases:
  assumes "bindS m f s = (r, s')"
  obtains (raised) e where "m s = (Inl e, s')" "r = Inl e"
  | (went) x s1 where "m s = (Inr x, s1)" "f x s1 = (r, s')"
  using assms by (cases "m s") (auto simp: bindS_def split: sum.splits)

lemma bindS_ok: "m s = (Inr x, s1) \<Longrightarrow> bindS m f s = f x s1"
  by (simp add: bindS_def)

text \<open>\<^verbatim>\<open>finally\<close> with code that can raise: its exception replaces the outcome.\<close>

definition finallyE :: "('s, 'a) sm \<Rightarrow> ('s, unit) sm \<Rightarrow> ('s, 'a) sm" where
  "finallyE m f s =
     (case m s of (r, s1) \<Rightarrow> case f s1 of (Inl e, s2) \<Rightarrow> (Inl e, s2) | (Inr _, s2) \<Rightarrow> (r, s2))"

section \<open>Invariants\<close>

definition preserves :: "('s \<Rightarrow> bool) \<Rightarrow> ('s, 'a) sm \<Rightarrow> bool" where
  "preserves I m \<longleftrightarrow> (\<forall>s. I s \<longrightarrow> I (snd (m s)))"

lemma preservesI: "(\<And>s. I s \<Longrightarrow> I (snd (m s))) \<Longrightarrow> preserves I m"
  by (simp add: preserves_def)

lemma preservesD: "preserves I m \<Longrightarrow> I s \<Longrightarrow> I (snd (m s))"
  by (simp add: preserves_def)

lemma preserves_simple [keeps_intros, simp]:
  "preserves I (retS x)" "preserves I (failS e)" "preserves I (liftE r)"
  by (simp_all add: preserves_def retS_def failS_def liftE_def)

lemma preserves_modify [keeps_intros]: "(\<And>s. I s \<Longrightarrow> I (f s)) \<Longrightarrow> preserves I (modifyS f)"
  by (simp add: preserves_def modifyS_def)

lemma preserves_bind [keeps_intros]:
  "preserves I m \<Longrightarrow> (\<And>x. preserves I (f x)) \<Longrightarrow> preserves I (bindS m f)"
  by (fastforce simp: preserves_def bindS_def split: prod.split sum.split)

lemma preserves_catch [keeps_intros]:
  "preserves I m \<Longrightarrow> (\<And>e. preserves I (h e)) \<Longrightarrow> preserves I (catchS m h)"
  by (fastforce simp: preserves_def catchS_def split: prod.split sum.split)

lemma preserves_finally [keeps_intros]:
  "preserves I m \<Longrightarrow> (\<And>s. I s \<Longrightarrow> I (f s)) \<Longrightarrow> preserves I (finallyS m f)"
  by (fastforce simp: preserves_def finallyS_def split: prod.split)

text \<open>The second statement is only reached with results the first one has.\<close>

lemma preserves_bind_result:
  "preserves I m \<Longrightarrow> (\<And>s x. fst (m s) = Inr x \<Longrightarrow> preserves I (f x)) \<Longrightarrow> preserves I (bindS m f)"
  by (auto simp: preserves_def bindS_def split: prod.split sum.split) (metis fst_conv snd_conv)+

text \<open>What a value that was lifted is known to be.\<close>

lemma preserves_bind_lift [keeps_intros]:
  "(\<And>x. r = Inr x \<Longrightarrow> preserves I (f x)) \<Longrightarrow> preserves I (bindS (liftE r) f)"
  by (cases r) simp_all

definition raises_only :: "('s \<Rightarrow> bool) \<Rightarrow> exn set \<Rightarrow> ('s, 'a) sm \<Rightarrow> bool" where
  "raises_only I E m \<longleftrightarrow> (\<forall>s e. I s \<longrightarrow> fst (m s) = Inl e \<longrightarrow> e \<in> E)"

lemma raises_only_simple [simp]:
  "raises_only I E (retS x)" "raises_only I E (failS e) \<longleftrightarrow> e \<in> E \<or> (\<forall>s. \<not> I s)"
  "raises_only I E (modifyS f)"
  by (auto simp: raises_only_def retS_def failS_def modifyS_def)

lemma raises_only_bind:
  "raises_only I E m \<Longrightarrow> preserves I m \<Longrightarrow> (\<And>x. raises_only I E (f x)) \<Longrightarrow> raises_only I E (bindS m f)"
  unfolding raises_only_def preserves_def bindS_def
  by (auto split: prod.splits sum.splits)

lemma raises_only_bind_result:
  "raises_only I E m \<Longrightarrow> preserves I m \<Longrightarrow> (\<And>s x. fst (m s) = Inr x \<Longrightarrow> raises_only I E (f x)) \<Longrightarrow>
   raises_only I E (bindS m f)"
  by (auto simp: raises_only_def preserves_def bindS_def split: prod.splits sum.splits)
    (metis fst_conv snd_conv)

lemma raises_only_lift: "(\<And>e. r = Inl e \<Longrightarrow> e \<in> E) \<Longrightarrow> raises_only I E (liftE r)"
  by (simp add: raises_only_def liftE_def)

lemma raises_only_bind_lift:
  "(\<And>e. r = Inl e \<Longrightarrow> e \<in> E) \<Longrightarrow> (\<And>x. r = Inr x \<Longrightarrow> raises_only I E (f x)) \<Longrightarrow>
   raises_only I E (bindS (liftE r) f)"
  by (cases r) simp_all

lemma raises_only_finally: "raises_only I E m \<Longrightarrow> raises_only I E (finallyS m f)"
  by (auto simp: raises_only_def finallyS_def split: prod.splits)

lemma raises_only_mono: "raises_only I E m \<Longrightarrow> E \<subseteq> E' \<Longrightarrow> raises_only I E' m"
  by (auto simp: raises_only_def)

end
