(* ===== verification/Router.thy ===== *)
theory Router
  imports PacketAuth Effects
begin

text \<open>
  \<^verbatim>\<open>pyrad2/router.py\<close> and \<^verbatim>\<open>key_for\<close> of \<^verbatim>\<open>pyrad2/dedup.py\<close>: the policy that the sync and
  the async server share. A \<open>router\<close> holds the settings (\<^verbatim>\<open>RequestRouter.__init__\<close>); what
  changes while a server runs is \<open>srv\<close>: the response cache, the datagrams sent, the counters and
  the state \<open>'u\<close> of the application's handlers.

  \<open>env\<close> is what the process reads from outside: \<open>env_clock n\<close> is the \<open>n\<close>-th reading of the
  monotonic clock, \<open>env_rng n\<close> the random numbers drawn for the \<open>n\<close>-th packet.
\<close>

record env =
  env_clock :: "nat \<Rightarrow> time"
  env_rng :: "nat \<Rightarrow> nat \<Rightarrow> int"

type_synonym source = "string \<times> int"

record 'u srv =
  sv_cache :: "cache option"
  sv_sent :: "(bytes \<times> source) list"
  sv_ticks :: nat
  sv_packets :: nat
  sv_cur :: int
  sv_user :: 'u

type_synonym ('u, 'a) srvm = "('u srv, 'a) sm"

record router =
  rt_hosts :: "(string, bytes) od"
  rt_dict :: "dictionary option"
  rt_verify :: bool
  rt_require_ma :: bool
  rt_require_eap :: bool

datatype ServerType = Auth | Acct | Coa

section \<open>Hosts, parsing, codes\<close>

definition lookup_secret :: "router \<Rightarrow> string \<Rightarrow> bytes res" where
  "lookup_secret rt addr =
     (case od_get (rt_hosts rt) addr of
        Some s \<Rightarrow> Inr s
      | None \<Rightarrow>
          (case od_get (rt_hosts rt) ''0.0.0.0'' of
             Some s \<Rightarrow> Inr s
           | None \<Rightarrow> Inl ServerPacketError))"

text \<open>\<^verbatim>\<open>parse\<close>. The packet's constructor advances the identifier counter also when decoding fails.\<close>

definition rt_parse :: "env \<Rightarrow> router \<Rightarrow> bytes \<Rightarrow> bytes \<Rightarrow> ('u, packet) srvm" where
  "rt_parse env rt data secret s =
     (if data = [] then (Inl ServerPacketError, s)
      else
        (bindE (parse_packet data secret (rt_dict rt) V1_0 (env_rng env (sv_packets s)) 0 (sv_cur s))
           (\<lambda>(p, _). Inr p),
         s\<lparr>sv_packets := Suc (sv_packets s), sv_cur := next_id (sv_cur s)\<rparr>))"

definition response_codes :: "int list" where
  "response_codes = [pt AccessAccept, pt AccessReject, pt AccountingResponse, pt CoAACK, pt CoANAK,
     pt DisconnectACK, pt DisconnectNAK]"

definition reject_response_codes :: "int \<Rightarrow> unit res" where
  "reject_response_codes code = checkE (code \<notin> set response_codes) ServerPacketError"

definition gate_code :: "int \<Rightarrow> ServerType \<Rightarrow> unit res" where
  "gate_code code ty =
     (case ty of
        Auth \<Rightarrow> checkE (code \<in> {pt AccessRequest, pt StatusServer}) ServerPacketError
      | Acct \<Rightarrow> checkE (code \<in> {pt AccountingRequest, pt StatusServer}) ServerPacketError
      | Coa \<Rightarrow>
          if code = pt StatusServer then Inl ServerPacketError
          else checkE (code \<in> {pt DisconnectRequest, pt CoARequest}) ServerPacketError)"

section \<open>Verification and policy\<close>

definition verify_request :: "router \<Rightarrow> packet \<Rightarrow> unit res" where
  "verify_request rt p =
     (if \<not> rt_verify rt then Inr ()
      else if p_code p = pt AccessRequest then
        (if p_class p \<noteq> AuthC then Inl PacketError
         else bindE (verify_auth_request p) (\<lambda>b. checkE b PacketError))
      else if p_code p \<in> {pt AccountingRequest, pt CoARequest, pt DisconnectRequest} then
        bindE (verify_packet p) (\<lambda>b. checkE b PacketError)
      else Inr ())"

text \<open>The packet is changed by the check: it stores the received digest again.\<close>

definition rt_validate_policy :: "router \<Rightarrow> packet \<Rightarrow> packet res" where
  "rt_validate_policy rt p =
     validate_message_authenticator_policy (rt_require_ma rt) (rt_require_eap rt) p"

definition prepare_reply :: "router \<Rightarrow> packet \<Rightarrow> packet \<Rightarrow> packet res" where
  "prepare_reply rt request reply =
     prepare_reply_message_authenticator request (rt_require_ma rt) (rt_require_eap rt) reply"

definition force_reply_ma :: "router \<Rightarrow> packet \<Rightarrow> packet res" where
  "force_reply_ma rt reply =
     (if rt_require_ma rt \<and> p_code reply \<in> set access_reply_codes
        \<or> rt_require_eap rt \<and> has_eap_message reply
      then ensure_message_authenticator reply
      else Inr reply)"

section \<open>Duplicates\<close>

text \<open>\<^verbatim>\<open>key_for(pkt, source)\<close>: the token of RADIUS/1.1 comes before the authenticator.\<close>

definition correlator :: "packet \<Rightarrow> bytes option" where
  "correlator p =
     (if truthy (p_token p) then p_token p else if truthy (p_auth p) then p_auth p else None)"

definition key_for :: "packet \<Rightarrow> source option \<Rightarrow> DedupKey option" where
  "key_for p source =
     (if p_code p \<notin> set DEDUPABLE_CODES then None
      else
        case (if source \<noteq> None then source else p_source p) of
          None \<Rightarrow> None
        | Some (ip, port) \<Rightarrow>
            (case (correlator p, p_id p) of
               (Some c, Some i) \<Rightarrow>
                 Some \<lparr>src_ip = ip, src_port = port, dk_code = p_code p, dk_identifier = i,
                   dk_request_authenticator = c\<rparr>
             | _ \<Rightarrow> None))"

definition dedup_key_for :: "packet \<Rightarrow> source option \<Rightarrow> ('u, DedupKey option) srvm" where
  "dedup_key_for p source s = (Inr (if sv_cache s = None then None else key_for p source), s)"

definition dedup_consult :: "env \<Rightarrow> DedupKey option \<Rightarrow> source option \<Rightarrow> ('u, DispatchAction) srvm" where
  "dedup_consult env key dest s =
     (case consult_cache (env_clock env (sv_ticks s)) (sv_cache s) key of
        (action, raws, c) \<Rightarrow>
          (Inr action, s\<lparr>sv_cache := c, sv_ticks := Suc (sv_ticks s),
             sv_sent := sv_sent s @ (case dest of None \<Rightarrow> [] | Some d \<Rightarrow> map (\<lambda>r. (r, d)) raws)\<rparr>))"

definition dedup_drop_in_flight :: "DedupKey option \<Rightarrow> 'u srv \<Rightarrow> 'u srv" where
  "dedup_drop_in_flight key s =
     (case (key, sv_cache s) of
        (Some k, Some c) \<Rightarrow> s\<lparr>sv_cache := Some (drop_in_flight k c)\<rparr>
      | _ \<Rightarrow> s)"

text \<open>\<^verbatim>\<open>record_reply\<close> reads the clock for the expiry and again when it evicts.\<close>

definition rt_record_reply :: "env \<Rightarrow> packet \<Rightarrow> bytes \<Rightarrow> ('u, unit) srvm" where
  "rt_record_reply env reply raw s =
     (Inr (), s\<lparr>sv_cache := record_if_keyed (env_clock env (sv_ticks s))
          (env_clock env (Suc (sv_ticks s))) (sv_cache s) (p_dedup reply) raw,
        sv_ticks := sv_ticks s + 2\<rparr>)"

definition attach_dedup_key :: "packet \<Rightarrow> packet \<Rightarrow> packet" where
  "attach_dedup_key request reply =
     (if p_dedup request \<noteq> None then reply\<lparr>p_dedup := p_dedup request\<rparr> else reply)"

text \<open>\<^verbatim>\<open>fd.sendto(raw, addr)\<close>.\<close>

definition sendto :: "bytes \<Rightarrow> source option \<Rightarrow> ('u, unit) srvm" where
  "sendto raw dest s =
     (case dest of
        None \<Rightarrow> (Inl TypeError, s)
      | Some d \<Rightarrow> (Inr (), s\<lparr>sv_sent := sv_sent s @ [(raw, d)]\<rparr>))"

text \<open>
  \<^verbatim>\<open>_dedup_dispatch\<close>, the same statements in both servers: consult the cache, run the handler
  for a new request and take the marker away whatever it did. \<open>source\<close> is given by the async
  server; the sync server reads the packet's.
\<close>

definition dedup_dispatch ::
    "env \<Rightarrow> (packet \<Rightarrow> ('u, unit) srvm) \<Rightarrow> source option \<Rightarrow> packet \<Rightarrow> ('u, unit) srvm" where
  "dedup_dispatch env handler source p =
     bindS (dedup_key_for p source) (\<lambda>key.
     bindS (dedup_consult env key (if source \<noteq> None then source else p_source p)) (\<lambda>action.
     case action of
       DROP \<Rightarrow> retS ()
     | RESENT \<Rightarrow> retS ()
     | PROCESS \<Rightarrow>
         finallyS (handler (if key \<noteq> None then p\<lparr>p_dedup := key\<rparr> else p)) (dedup_drop_in_flight key)))"

end
