(* ===== verification/Server.thy ===== *)
theory Server
  imports Router
begin

text \<open>
  \<^verbatim>\<open>pyrad2/server.py\<close> and \<^verbatim>\<open>pyrad2/proxy.py\<close>: the sync server. One turn of the main loop
  reads one datagram from the socket that polled ready; the application's handlers are
  functions on the server's state that may raise. Here a socket is
  known by the list it is in (\<open>fdkind\<close>) and the datagrams that arrive are the input; the sockets
  themselves are in \<open>Listeners\<close>.
\<close>

type_synonym 'u handler = "packet \<Rightarrow> ('u, unit) srvm"

record 'u handlers =
  h_auth :: "'u handler"
  h_acct :: "'u handler"
  h_coa :: "'u handler"
  h_disconnect :: "'u handler"

datatype fdkind = AuthFd | AcctFd | CoaFd

record server_conf =
  auth_enabled :: bool
  acct_enabled :: bool
  coa_enabled :: bool

section \<open>Replies\<close>

text \<open>\<^verbatim>\<open>create_reply_packet\<close>; \<open>None\<close>: the walk over an attribute's parents does not end.\<close>

definition finish_reply :: "router \<Rightarrow> packet \<Rightarrow> (packet \<times> int) res \<Rightarrow> packet res" where
  "finish_reply rt p r =
     bindE r (\<lambda>(q, _).
     bindE (prepare_reply rt p (q\<lparr>p_source := p_source p\<rparr>)) (\<lambda>q. Inr (attach_dedup_key p q)))"

definition create_reply_packet ::
    "router \<Rightarrow> int option \<Rightarrow> bool option \<Rightarrow> (ustr \<times> pyval list) list \<Rightarrow> packet \<Rightarrow> packet res option" where
  "create_reply_packet rt code ma attrs p = map_option (finish_reply rt p) (create_reply code ma attrs 0 p)"

text \<open>Without attributes the reply is always there.\<close>

definition plain_reply :: "router \<Rightarrow> int option \<Rightarrow> packet \<Rightarrow> packet res" where
  "plain_reply rt code p =
     (case create_reply_packet rt code None [] p of Some r \<Rightarrow> r | None \<Rightarrow> Inl RuntimeError)"

lemma plain_reply_total: "create_reply_packet rt code None [] p = Some (plain_reply rt code p)"
  by (simp add: plain_reply_def create_reply_packet_def create_reply_def init_contents_def
      split: prod.split)

text \<open>\<^verbatim>\<open>send_reply_packet\<close>: the octets are made once, sent and kept for replays.\<close>

definition send_reply_packet :: "env \<Rightarrow> router \<Rightarrow> packet \<Rightarrow> ('u, unit) srvm" where
  "send_reply_packet env rt reply =
     bindS (liftE (force_reply_ma rt reply)) (\<lambda>q.
     bindS (liftE (reply_packet q)) (\<lambda>(raw, q').
     bindS (sendto raw (p_source q')) (\<lambda>_.
     rt_record_reply env q' raw)))"

section \<open>Dispatch by port\<close>

definition handle_status_packet :: "env \<Rightarrow> router \<Rightarrow> packet \<Rightarrow> int \<Rightarrow> ('u, bool) srvm" where
  "handle_status_packet env rt p code =
     (if p_code p \<noteq> pt StatusServer then retS False
      else
        bindS (liftE (rt_validate_policy rt p)) (\<lambda>p1.
        bindS (liftE (plain_reply rt (Some code) p1)) (\<lambda>reply.
        bindS (send_reply_packet env rt reply) (\<lambda>_. retS True))))"

definition add_secret :: "router \<Rightarrow> packet \<Rightarrow> packet res" where
  "add_secret rt p =
     (case p_source p of
        None \<Rightarrow> Inl AttributeError
      | Some (ip, _) \<Rightarrow> bindE (lookup_secret rt ip) (\<lambda>s. Inr (p\<lparr>p_secret := s\<rparr>)))"

text \<open>The common tail of the three: verify, apply the policy, dispatch.\<close>

definition verified_dispatch :: "env \<Rightarrow> router \<Rightarrow> 'u handler \<Rightarrow> packet \<Rightarrow> ('u, unit) srvm" where
  "verified_dispatch env rt handler p =
     bindS (liftE (verify_request rt p)) (\<lambda>_.
     bindS (liftE (rt_validate_policy rt p)) (\<lambda>p1.
     dedup_dispatch env handler None p1))"

definition handle_auth :: "env \<Rightarrow> router \<Rightarrow> 'u handlers \<Rightarrow> packet \<Rightarrow> ('u, unit) srvm" where
  "handle_auth env rt hs p0 =
     bindS (liftE (add_secret rt p0)) (\<lambda>p.
     bindS (handle_status_packet env rt p (pt AccessAccept)) (\<lambda>done.
     if done then retS ()
     else if p_code p \<noteq> pt AccessRequest then failS ServerPacketError
     else verified_dispatch env rt (h_auth hs) p))"

definition handle_acct :: "env \<Rightarrow> router \<Rightarrow> 'u handlers \<Rightarrow> packet \<Rightarrow> ('u, unit) srvm" where
  "handle_acct env rt hs p0 =
     bindS (liftE (add_secret rt p0)) (\<lambda>p.
     bindS (handle_status_packet env rt p (pt AccountingResponse)) (\<lambda>done.
     if done then retS ()
     else if p_code p \<notin> {pt AccountingRequest, pt AccountingResponse} then failS ServerPacketError
     else verified_dispatch env rt (h_acct hs) p))"

definition handle_coa :: "env \<Rightarrow> router \<Rightarrow> 'u handlers \<Rightarrow> packet \<Rightarrow> ('u, unit) srvm" where
  "handle_coa env rt hs p0 =
     bindS (liftE (add_secret rt p0)) (\<lambda>p.
     if p_code p = pt CoARequest then verified_dispatch env rt (h_coa hs) p
     else if p_code p = pt DisconnectRequest then verified_dispatch env rt (h_disconnect hs) p
     else failS ServerPacketError)"

section \<open>The main loop\<close>

definition grab_packet :: "env \<Rightarrow> router \<Rightarrow> bytes \<Rightarrow> source \<Rightarrow> ('u, packet) srvm" where
  "grab_packet env rt data source =
     bindS (liftE (lookup_secret rt (fst source))) (\<lambda>secret.
     bindS (rt_parse env rt data secret) (\<lambda>p. retS (p\<lparr>p_source := Some source\<rparr>)))"

definition process_input ::
    "env \<Rightarrow> router \<Rightarrow> server_conf \<Rightarrow> 'u handlers \<Rightarrow> fdkind \<Rightarrow> bytes \<Rightarrow> source \<Rightarrow> ('u, unit) srvm" where
  "process_input env rt conf hs fd data source =
     (if auth_enabled conf \<and> fd = AuthFd then bindS (grab_packet env rt data source) (handle_auth env rt hs)
      else if acct_enabled conf \<and> fd = AcctFd then bindS (grab_packet env rt data source) (handle_acct env rt hs)
      else if coa_enabled conf then bindS (grab_packet env rt data source) (handle_coa env rt hs)
      else failS ServerPacketError)"

text \<open>The loop drops a packet on the two exceptions; any other leaves \<^verbatim>\<open>run\<close>.\<close>

definition dropped :: "exn set" where
  "dropped = {ServerPacketError, PacketError}"

definition turn ::
    "env \<Rightarrow> router \<Rightarrow> server_conf \<Rightarrow> 'u handlers \<Rightarrow> fdkind \<times> bytes \<times> source \<Rightarrow> ('u, unit) srvm" where
  "turn env rt conf hs ev =
     (case ev of (fd, data, source) \<Rightarrow>
        catchS (process_input env rt conf hs fd data source)
          (\<lambda>e. if e \<in> dropped then retS () else failS e))"

fun run ::
    "env \<Rightarrow> router \<Rightarrow> server_conf \<Rightarrow> 'u handlers \<Rightarrow> (fdkind \<times> bytes \<times> source) list \<Rightarrow> ('u, unit) srvm" where
  "run env rt conf hs [] = retS ()"
| "run env rt conf hs (ev # evs) = bindS (turn env rt conf hs ev) (\<lambda>_. run env rt conf hs evs)"

section \<open>The proxy\<close>

text \<open>
  \<^verbatim>\<open>Proxy._handle_proxy_packet\<close>: a reply from an upstream server; the base class does nothing
  further with it.
\<close>

definition handle_proxy_packet :: "router \<Rightarrow> packet \<Rightarrow> packet res" where
  "handle_proxy_packet rt p =
     (case p_source p of
        None \<Rightarrow> Inl AttributeError
      | Some (ip, _) \<Rightarrow>
          (case od_get (rt_hosts rt) ip of
             None \<Rightarrow> Inl ServerPacketError
           | Some s \<Rightarrow>
               if p_code p \<notin> {pt AccessAccept, pt AccessReject, pt AccountingResponse}
               then Inl ServerPacketError else Inr (p\<lparr>p_secret := s\<rparr>)))"

definition proxy_process_input ::
    "env \<Rightarrow> router \<Rightarrow> server_conf \<Rightarrow> 'u handlers \<Rightarrow> fdkind option \<Rightarrow> bytes \<Rightarrow> source \<Rightarrow> ('u, unit) srvm" where
  "proxy_process_input env rt conf hs fd data source =
     (case fd of
        None \<Rightarrow>
          bindS (grab_packet env rt data source) (\<lambda>p.
          bindS (liftE (handle_proxy_packet rt p)) (\<lambda>_. retS ()))
      | Some fd \<Rightarrow> process_input env rt conf hs fd data source)"

end
