(* ===== verification/ServerAsync.thy ===== *)
theory ServerAsync
  imports Router
begin

text \<open>
  \<^verbatim>\<open>pyrad2/server_async.py\<close>: the asyncio server. \<open>datagram_received\<close> is the callback of one
  listener; it runs to its end before the event loop delivers the next datagram, so a run of the
  server is a sequence of such calls. Handlers get the source address beside the packet.
  Starting and closing the transports is in \<open>Listeners\<close>.
\<close>

type_synonym 'u ahandler = "source \<Rightarrow> packet \<Rightarrow> ('u, unit) srvm"

record 'u ahandlers =
  ah_auth :: "'u ahandler"
  ah_acct :: "'u ahandler"
  ah_coa :: "'u ahandler"
  ah_disconnect :: "'u ahandler"

section \<open>Replies\<close>

definition as_finish_reply :: "router \<Rightarrow> packet \<Rightarrow> (packet \<times> int) res \<Rightarrow> packet res" where
  "as_finish_reply rt p r =
     bindE r (\<lambda>(q, _). bindE (prepare_reply rt p q) (\<lambda>q. Inr (attach_dedup_key p q)))"

definition as_create_reply_packet ::
    "router \<Rightarrow> int option \<Rightarrow> bool option \<Rightarrow> (ustr \<times> pyval list) list \<Rightarrow> packet option
     \<Rightarrow> packet res option" where
  "as_create_reply_packet rt code ma attrs p =
     (case p of
        None \<Rightarrow> Some (Inl ValueError)
      | Some p \<Rightarrow> map_option (as_finish_reply rt p) (create_reply code ma attrs 0 p))"

definition as_plain_reply :: "router \<Rightarrow> int option \<Rightarrow> packet \<Rightarrow> packet res" where
  "as_plain_reply rt code p =
     (case as_create_reply_packet rt code None [] (Some p) of
        Some r \<Rightarrow> r
      | None \<Rightarrow> Inl RuntimeError)"

lemma as_plain_reply_total:
  "as_create_reply_packet rt code None [] (Some p) = Some (as_plain_reply rt code p)"
  by (simp add: as_plain_reply_def as_create_reply_packet_def create_reply_def init_contents_def
      split: prod.split)

definition prepare_reply_packet :: "router \<Rightarrow> packet \<Rightarrow> packet res" where
  "prepare_reply_packet rt reply = force_reply_ma rt reply"

definition send_response :: "env \<Rightarrow> router \<Rightarrow> packet \<Rightarrow> source \<Rightarrow> ('u, unit) srvm" where
  "send_response env rt reply addr =
     bindS (liftE (prepare_reply_packet rt reply)) (\<lambda>q.
     bindS (liftE (reply_packet q)) (\<lambda>(raw, q').
     bindS (sendto raw (Some addr)) (\<lambda>_.
     rt_record_reply env q' raw)))"

section \<open>Status-Server\<close>

definition create_status_response :: "router \<Rightarrow> ServerType \<Rightarrow> packet \<Rightarrow> packet res" where
  "create_status_response rt ty p =
     as_plain_reply rt (Some (if ty = Acct then pt AccountingResponse else pt AccessAccept)) p"

text \<open>\<^verbatim>\<open>StatusPacket(secret=..., dict=..., packet=data)\<close>; the counter advances as in \<open>rt_parse\<close>.\<close>

definition new_status_packet :: "env \<Rightarrow> router \<Rightarrow> bytes \<Rightarrow> bytes \<Rightarrow> ('u, packet) srvm" where
  "new_status_packet env rt data secret s =
     (case new_packet StatusC (pt StatusServer) None secret None V1_0 (rt_dict rt)
             (env_rng env (sv_packets s)) 0 (sv_cur s) of
        (p, cur) \<Rightarrow>
          (decode_packet data (p\<lparr>p_raw := Some data\<rparr>),
           s\<lparr>sv_packets := Suc (sv_packets s), sv_cur := cur\<rparr>))"

definition handle_status_server ::
    "env \<Rightarrow> router \<Rightarrow> ServerType \<Rightarrow> bytes \<Rightarrow> bytes \<Rightarrow> source \<Rightarrow> ('u, unit) srvm" where
  "handle_status_server env rt ty data secret addr =
     bindS (new_status_packet env rt data secret) (\<lambda>req.
     bindS (liftE (rt_validate_policy rt req)) (\<lambda>req.
     bindS (liftE (create_status_response rt ty req)) (\<lambda>reply.
     send_response env rt reply addr)))"

section \<open>Requests\<close>

definition ERROR_CAUSE_ATTRIBUTE :: int where
  "ERROR_CAUSE_ATTRIBUTE = 101"

definition add_error_cause :: "int \<Rightarrow> packet \<Rightarrow> packet" where
  "add_error_cause cause reply =
     raw_setitem (KInt ERROR_CAUSE_ATTRIBUTE) (Vals [PBytes (be_bytes 4 cause)]) reply"

text \<open>The default CoA and Disconnect handlers answer with a NAK.\<close>

definition nak_handler :: "env \<Rightarrow> router \<Rightarrow> int \<Rightarrow> 'u ahandler" where
  "nak_handler env rt code addr p =
     bindS (liftE (as_plain_reply rt None p)) (\<lambda>reply.
     send_response env rt (add_error_cause ErrorCause_UnsupportedExtension (reply\<lparr>p_code := code\<rparr>)) addr)"

definition handle_coa_packet :: "env \<Rightarrow> router \<Rightarrow> 'u ahandler" where
  "handle_coa_packet env rt = nak_handler env rt (pt CoANAK)"

definition handle_disconnect_packet :: "env \<Rightarrow> router \<Rightarrow> 'u ahandler" where
  "handle_disconnect_packet env rt = nak_handler env rt (pt DisconnectNAK)"

definition select_handler :: "'u ahandlers \<Rightarrow> ServerType \<Rightarrow> packet \<Rightarrow> 'u ahandler res" where
  "select_handler hs ty p =
     (case ty of
        Acct \<Rightarrow> Inr (ah_acct hs)
      | Auth \<Rightarrow> Inr (ah_auth hs)
      | Coa \<Rightarrow>
          if p_code p = pt CoARequest then Inr (ah_coa hs)
          else if p_code p = pt DisconnectRequest then Inr (ah_disconnect hs)
          else Inl ServerPacketError)"

text \<open>Both callbacks log every exception and go on.\<close>

definition logged :: "('u, unit) srvm \<Rightarrow> ('u, unit) srvm" where
  "logged m = catchS m (\<lambda>_. retS ())"

definition request_handler ::
    "env \<Rightarrow> 'u ahandlers \<Rightarrow> ServerType \<Rightarrow> packet \<Rightarrow> source \<Rightarrow> ('u, unit) srvm" where
  "request_handler env hs ty p addr =
     logged (bindS (liftE (select_handler hs ty p)) (\<lambda>h. dedup_dispatch env (h addr) (Some addr) p))"

definition datagram_received ::
    "env \<Rightarrow> router \<Rightarrow> 'u ahandlers \<Rightarrow> ServerType \<Rightarrow> bytes \<Rightarrow> source \<Rightarrow> ('u, unit) srvm" where
  "datagram_received env rt hs ty data addr =
     (case lookup_secret rt (fst addr) of
        Inl _ \<Rightarrow> retS ()
      | Inr secret \<Rightarrow>
          logged
            (case data of
               [] \<Rightarrow> failS ServerPacketError
             | c # _ \<Rightarrow>
                 bindS (liftE (reject_response_codes (uint c))) (\<lambda>_.
                 if uint c = pt StatusServer then
                   bindS (liftE (gate_code (uint c) ty)) (\<lambda>_. handle_status_server env rt ty data secret addr)
                 else
                   bindS (liftE (gate_code (uint c) ty)) (\<lambda>_.
                   bindS (rt_parse env rt data secret) (\<lambda>req.
                   bindS (liftE (verify_request rt req)) (\<lambda>_.
                   bindS (liftE (rt_validate_policy rt req)) (\<lambda>req.
                   request_handler env hs ty req addr)))))))"

fun serve :: "env \<Rightarrow> router \<Rightarrow> 'u ahandlers \<Rightarrow> (ServerType \<times> bytes \<times> source) list \<Rightarrow> ('u, unit) srvm" where
  "serve env rt hs [] = retS ()"
| "serve env rt hs ((ty, data, addr) # evs) =
     bindS (datagram_received env rt hs ty data addr) (\<lambda>_. serve env rt hs evs)"

end
