(* ===== verification/PacketRoundTrip.thy ===== *)
theory PacketRoundTrip
  imports PacketDecode
begin

text \<open>
  What the serialiser writes the parser reads back. An attribute on the wire is a code, a
  length and a value; the parser of such a frame followed by others handles the value and
  goes on with the rest. Plain and vendor-specific attributes, and whole packets of them,
  are recovered exactly; values longer than one attribute holds are reassembled from their
  fragments (long-extended attributes, vendor continuation, concatenated attributes), and TLV
  chains and packed arrays are taken apart again.
\<close>

section \<open>Frames\<close>

lemma pack2_eq_Inr:
  "pack2 a b = Inr h \<longleftrightarrow>
   0 \<le> a \<and> a < 256 \<and> 0 \<le> b \<and> b < 256 \<and> h = [word_of_int a, word_of_int b]"
  by (auto simp: pack2_def bindE_eq_Inr pack_uint_eq_Inr)

lemma uint_word_of_byte [simp]: "0 \<le> a \<Longrightarrow> a < 256 \<Longrightarrow> uint (word_of_int a :: byte) = a"
  by (simp add: uint_word_of_int_byte)

lemma unat_word_of_byte [simp]: "0 \<le> a \<Longrightarrow> a < 256 \<Longrightarrow> unat (word_of_int a :: byte) = nat a"
  by (simp only: unat_eq_nat_uint uint_word_of_byte)

lemma pack2_frame:
  assumes "pack2 c (int n + 2) = Inr h"
  obtains k l where "h = [k, l]" "uint k = c" "unat l = n + 2"
proof -
  have "unat (word_of_int (int (n + 2)) :: byte) = nat (int (n + 2))"
    using assms by (intro unat_word_of_byte) (auto simp: pack2_eq_Inr)
  then show ?thesis
    using assms by (intro that [of "word_of_int c" "word_of_int (int (n + 2))"])
      (auto simp: pack2_eq_Inr)
qed

lemma decode_loop_frame:
  assumes "pack2 c (int (length v) + 2) = Inr h"
  shows "decode_loop (h @ v @ rest) q = bindE (decode_avp c v q) (decode_loop rest)"
proof -
  from pack2_frame [OF assms] obtain k l where "h = [k, l]" "uint k = c" "unat l = length v + 2" .
  then show ?thesis by simp
qed

lemma tlv_into_frame:
  assumes "tlv_element c v = Inr bs"
  shows "tlv_into d a (bs @ rest) m =
    (let child = tlv_child_attr d a c;
         (m1, e) =
           (if is_tlv child then
              let (m', e) = tlv_into d child v (nested_map m c) in (od_set c (Sub m') m, e)
            else
              case extend_store (od_get m c) [PBytes v] of
                Inr s \<Rightarrow> (od_set c s m, None)
              | Inl e \<Rightarrow> (m, Some e))
     in case e of Some e \<Rightarrow> (m1, Some e) | None \<Rightarrow> tlv_into d a rest m1)"
proof -
  from assms obtain h where h: "pack2 c (int (length v) + 2) = Inr h" "bs = h @ v"
    by (auto simp: tlv_element_def bindE_eq_Inr)
  from pack2_frame [OF h(1)] obtain k l where "h = [k, l]" "uint k = c" "unat l = length v + 2" .
  then show ?thesis by (simp add: h(2))
qed

section \<open>Plain and vendor-specific attributes\<close>

text \<open>Keys whose attributes are written and read without a container or a continuation octet.\<close>

definition flat_key :: "dictionary option \<Rightarrow> pkey \<Rightarrow> bool" where
  "flat_key d k \<longleftrightarrow> container_type d k = None \<and>
     (case k of
        KInt c \<Rightarrow> c \<noteq> 26 \<and> c \<noteq> 80
      | KTup [v, t] \<Rightarrow> d \<noteq> None \<and> \<not> snd (snd (packet_vendor_format d v))
      | KTup _ \<Rightarrow> False)"

lemma decode_plain:
  "flat_key (p_dict q) (KInt c) \<Longrightarrow> decode_avp c v q = append_value (KInt c) v q"
  by (simp add: flat_key_def decode_avp_def)

lemma not_tlv_key: "container_type (Some d) k = None \<Longrightarrow> \<not> is_tlv (attr_of_key d k)"
  by (auto simp: container_type_def dict_attr_def is_tlv_def container_types_def split: option.splits if_splits)

lemma take_be_bytes [simp]: "take n (be_bytes n x @ ys) = be_bytes n x"
  by simp

lemma drop_be_bytes [simp]: "drop n (be_bytes n x @ ys) = ys"
  by simp

lemma vsa_element_end_inner:
  assumes "pack_vsa_inner t v tw lw None = Inr inner"
  shows "vsa_element_end tw lw inner = Inr (Some (length inner))"
    "length inner = tw + lw + length v" "drop (tw + lw) inner = v" "take tw inner = be_bytes tw t"
    "vsa_type_width tw = Inr tw" "0 < tw" "0 \<le> t" "t < 256 ^ tw"
proof -
  from assms have w: "vsa_type_width tw = Inr tw" and t: "0 \<le> t" "t < 256 ^ tw"
    by (auto simp: pack_vsa_inner_def bindE_eq_Inr pack_uint_eq_Inr vsa_type_width_def split: if_splits)
  then have p: "0 < tw" by (rule_tac vsa_type_width_pos)
  show "vsa_type_width tw = Inr tw" "0 < tw" "0 \<le> t" "t < 256 ^ tw" by fact+
  define n where "n = int tw + int lw + int (length v)"
  have "inner = be_bytes tw t @ (if lw = 0 then [] else be_bytes lw n) @ v"
    and lw: "lw \<noteq> 0 \<Longrightarrow> vsa_len_width lw = Inr lw \<and> n < 256 ^ lw"
    using assms by (auto simp: pack_vsa_inner_def bindE_eq_Inr pack_uint_eq_Inr n_def
        vsa_type_width_def vsa_len_width_def split: if_splits)
  then have i: "inner = be_bytes tw t @ (if lw = 0 then [] else be_bytes lw n) @ v" by simp
  show l: "length inner = tw + lw + length v" by (simp add: i)
  show "take tw inner = be_bytes tw t" by (simp add: i)
  show "drop (tw + lw) inner = v" by (simp add: i)
  show "vsa_element_end tw lw inner = Inr (Some (length inner))"
  proof (cases "lw = 0")
    case False
    have "take lw (drop tw inner) = be_bytes lw n" using False by (simp add: i)
    moreover have "nat (be_val (be_bytes lw n)) = length inner"
      using False lw by (simp add: be_val_be_bytes_id l n_def)
    ultimately show ?thesis
      using False lw l by (simp add: vsa_element_end_def)
  qed (simp add: vsa_element_end_def)
qed

text \<open>The vendor's inner attribute, alone in its frame, is read back whole.\<close>

lemma vsa_loop_inner:
  assumes "pack_vsa_inner t v tw lw None = Inr inner" "p_dict q = Some d"
    and "\<not> is_tlv (attr_of_key d (KTup [vendor, t]))"
  shows "vsa_loop tw lw False vendor inner [] q = Inr (q, Some [(KTup [vendor, t], v)])"
proof -
  note i = vsa_element_end_inner [OF assms(1)]
  have "vsa_loop tw lw False vendor [] xs q = Inr (q, Some xs)" for xs
    using i(6) by (simp add: vsa_loop.simps)
  then show ?thesis
    using i assms(2,3)
    by (simp add: vsa_loop.simps [of tw lw False vendor inner] vsa_continue_def vsa_store_def
        be_val_be_bytes_id)
qed

lemma append_values_one: "append_values [(k, v)] p = append_value k v p"
  by (cases "append_value k v p") (simp_all add: append_values_def)

lemma decode_vendor:
  assumes "pack_vsa_inner t v tw lw None = Inr inner" "pack_uint 4 vendor = Inr vb"
    and "flat_key (p_dict q) (KTup [vendor, t])"
    and "packet_vendor_format (p_dict q) vendor = (tw, lw, c)"
  shows "decode_avp 26 (vb @ inner) q = append_value (KTup [vendor, t]) v q"
proof -
  obtain d where d: "p_dict q = Some d" and c: "\<not> c"
    and n: "container_type (Some d) (KTup [vendor, t]) = None"
    using assms(3,4) by (auto simp: flat_key_def)
  have vb: "length vb = 4" "be_val vb = vendor"
    using assms(2) by (auto simp: pack_uint_eq_Inr be_val_be_bytes_id)
  note i = vsa_element_end_inner [OF assms(1)]
  have "pkt_decode_vendor_attribute (vb @ inner) q = Inr ([(KTup [vendor, t], v)], q)"
    using vb i assms(4) c vsa_loop_inner [OF assms(1) d not_tlv_key [OF n]]
    by (simp add: pkt_decode_vendor_attribute_def)
  then show ?thesis by (simp add: decode_avp_def append_values_one)
qed

lemma decode_loop_flat:
  assumes "flat_key (p_dict q) k" "pkt_encode_attribute (p_dict q) k (PBytes v) = Inr bs"
  shows "decode_loop (bs @ rest) q = bindE (append_value k v q) (decode_loop rest)"
proof (cases k)
  case (KInt c)
  then obtain h where "pack2 c (int (length v) + 2) = Inr h" "bs = h @ v"
    using assms(2) by (auto simp: pkt_encode_attribute_def as_bytes_def bindE_eq_Inr)
  then show ?thesis
    using decode_loop_frame [of c v h] decode_plain [of q c] assms(1) KInt by simp
next
  case (KTup xs)
  then obtain vendor t where xs: "k = KTup [vendor, t]"
    using assms(1) by (auto simp: flat_key_def split: list.splits)
  obtain tw lw c where f: "packet_vendor_format (p_dict q) vendor = (tw, lw, c)"
    by (cases "packet_vendor_format (p_dict q) vendor")
  then have "\<not> c" using assms(1) by (simp add: flat_key_def xs)
  then obtain inner vb h where i: "pack_vsa_inner t v tw lw None = Inr inner"
      "pack_uint 4 vendor = Inr vb" "pack2 26 (int (length (vb @ inner)) + 2) = Inr h"
      "bs = h @ vb @ inner"
    using assms(2) f
    by (auto simp: pkt_encode_attribute_def as_bytes_def bindE_eq_Inr xs vendor_avp_def)
  show ?thesis
    using decode_loop_frame [OF i(3), of rest q] decode_vendor [OF i(1,2) _ f] assms(1)
    by (simp add: i(4) xs)
qed


section \<open>All attributes of a packet\<close>

text \<open>Values under a flat key: no splitting, no joining, nothing withheld from the wire.\<close>

definition flat_entry :: "dictionary option \<Rightarrow> pkey \<times> store \<Rightarrow> bool" where
  "flat_entry d e \<longleftrightarrow>
     (case e of
        (k, Vals vs) \<Rightarrow> flat_key d k \<and> \<not> is_concat_attribute d k \<and> \<not> is_array_attribute d k
          \<and> \<not> is_virtual_attribute d k \<and> vs \<noteq> [] \<and> byte_values vs
      | (k, Sub _) \<Rightarrow> False)"

lemma byte_values_Cons [simp]: "byte_values (v # vs) \<longleftrightarrow> (\<exists>bs. v = PBytes bs) \<and> byte_values vs"
  by (auto simp: byte_values_iff)

text \<open>Appending the values of one entry, of which some may have been appended already.\<close>

lemma decode_loop_values:
  assumes "flat_key (p_dict q) k" "byte_values vs"
    and "mapE (pkt_encode_attribute (p_dict q) k) vs = Inr xs"
    and "od_get st k = None"
  shows "decode_loop (concat xs @ rest) (q\<lparr>p_attrs := st @ [(k, Vals ws)]\<rparr>)
    = decode_loop rest (q\<lparr>p_attrs := st @ [(k, Vals (ws @ vs))]\<rparr>)"
  using assms(2,3)
proof (induction vs arbitrary: ws xs)
  case (Cons v vs)
  then obtain bs x ys where v: "v = PBytes bs" and x: "pkt_encode_attribute (p_dict q) k v = Inr x"
    and ys: "mapE (pkt_encode_attribute (p_dict q) k) vs = Inr ys" "xs = x # ys"
    by (auto simp: bindE_eq_Inr)
  have "od_get (st @ [(k, Vals ws)]) k = Some (Vals ws)"
    using assms(4) by (simp add: od_get_append)
  moreover have "od_set k s (st @ [(k, Vals ws)]) = st @ [(k, s)]" for s
    using assms(4) by (induction st) (auto split: if_splits)
  ultimately have "append_value k bs (q\<lparr>p_attrs := st @ [(k, Vals ws)]\<rparr>)
      = Inr (q\<lparr>p_attrs := st @ [(k, Vals (ws @ [v]))]\<rparr>)"
    by (simp add: append_value_def raw_extend_def extend_store_def v)
  then show ?case
    using decode_loop_flat [of "q\<lparr>p_attrs := st @ [(k, Vals ws)]\<rparr>" k bs x "concat ys @ rest"]
      assms(1) x Cons.IH [OF _ ys(1), of "ws @ [v]"] Cons.prems(1)
    by (simp add: v ys(2))
qed simp

lemma decode_loop_entry:
  assumes "flat_entry (p_dict q) (k, s)" "encode_avp_group (p_dict q) k s = Inr bs"
    and "od_get (p_attrs q) k = None"
  shows "decode_loop (bs @ rest) q = decode_loop rest (q\<lparr>p_attrs := p_attrs q @ [(k, s)]\<rparr>)"
proof -
  obtain v vs where s: "s = Vals (v # vs)" and f: "flat_key (p_dict q) k"
    and b: "byte_values (v # vs)"
    using assms(1) by (cases s) (auto simp: flat_entry_def neq_Nil_conv)
  have c: "container_type (p_dict q) k = None" using f by (simp add: flat_key_def)
  have nt: "\<not> (\<exists>a b c d. k = KTup [a, b, c, d])" using f by (auto simp: flat_key_def)
  have "encode_avp_group (p_dict q) k s = encode_plain_group (p_dict q) k (v # vs)"
    using c nt by (auto simp: encode_avp_group_def s store_iter_def split: pkey.splits list.splits)
  also have "\<dots> = bindE (mapE (pkt_encode_attribute (p_dict q) k) (v # vs)) (\<lambda>xs. Inr (concat xs))"
  proof -
    have "mapE (\<lambda>v. bindE (as_bytes v) (\<lambda>_. pkt_encode_attribute (p_dict q) k v)) (v # vs)
        = mapE (pkt_encode_attribute (p_dict q) k) (v # vs)"
      using b by (intro mapE_cong) (auto simp: byte_values_iff as_bytes_def)
    then show ?thesis
      using assms(1) by (simp add: encode_plain_group_def flat_entry_def s)
  qed
  finally have "bindE (mapE (pkt_encode_attribute (p_dict q) k) (v # vs)) (\<lambda>xs. Inr (concat xs))
      = Inr bs"
    using assms(2) by (simp only:)
  then obtain xs where xs: "mapE (pkt_encode_attribute (p_dict q) k) (v # vs) = Inr xs"
      "bs = concat xs"
    by (elim bindE_InrE) simp
  then obtain w x ys where w: "v = PBytes w" "pkt_encode_attribute (p_dict q) k v = Inr x"
      "mapE (pkt_encode_attribute (p_dict q) k) vs = Inr ys" "xs = x # ys"
    using b by (auto simp: bindE_eq_Inr)
  have "append_value k w q = Inr (q\<lparr>p_attrs := p_attrs q @ [(k, Vals [v])]\<rparr>)"
    using assms(3)
    by (simp add: append_value_def raw_extend_def extend_store_def od_set_absent w(1))
  then show ?thesis
    using decode_loop_flat [OF f, of w x "concat ys @ rest"] w b f
      decode_loop_values [OF f _ w(3) assms(3), of rest "[v]"]
    by (simp add: xs(2) s)
qed

lemma decode_loop_entries:
  assumes "\<forall>e \<in> set es. flat_entry (p_dict q) e" "od_wf (p_attrs q @ es)"
    and "mapE (\<lambda>(k, s). encode_avp_group (p_dict q) k s) es = Inr xs"
  shows "decode_loop (concat xs) q = Inr (q\<lparr>p_attrs := p_attrs q @ es\<rparr>)"
  using assms
proof (induction es arbitrary: q xs)
  case (Cons e es)
  obtain k s where e: "e = (k, s)" by (cases e)
  obtain x ys where x: "encode_avp_group (p_dict q) k s = Inr x" "xs = x # ys"
    and ys: "mapE (\<lambda>(k, s). encode_avp_group (p_dict q) k s) es = Inr ys"
    using Cons.prems(3) by (auto simp: e bindE_eq_Inr)
  have "od_get (p_attrs q) k = None"
    using Cons.prems(2) by (auto simp: od_wf_def od_get_eq_None_iff e)
  then show ?case
    using decode_loop_entry [of q k s x "concat ys"] x
      Cons.IH [of "q\<lparr>p_attrs := p_attrs q @ [e]\<rparr>" ys] Cons.prems(1,2) ys
    by (simp add: e)
qed simp

lemma merge_flat:
  assumes "\<forall>e \<in> set (p_attrs q). flat_entry (p_dict q) e"
  shows "merge_concat_attributes q = Inr q"
proof (cases "p_dict q")
  case (Some d)
  let ?g = "\<lambda>(k, s).
      case s of
        Vals vs \<Rightarrow>
          if is_concat_attribute (Some d) k \<and> length vs > 1
          then bindE (concat_values vs) (\<lambda>v. Inr (k, Vals [v])) else Inr (k, s)
      | Sub _ \<Rightarrow> Inr (k, s)"
  have "mapE ?g (p_attrs q) = Inr (map id (p_attrs q))"
    using assms Some by (intro mapE_total) (auto simp: flat_entry_def split: store.splits)
  then show ?thesis by (simp add: merge_concat_attributes_def Some)
qed (simp add: merge_concat_attributes_def)

lemma split_flat:
  assumes "\<forall>e \<in> set (p_attrs q). flat_entry (p_dict q) e"
  shows "split_array_attributes q = q"
proof (cases "p_dict q")
  case (Some d)
  have "split_array_entry d e = e" if "e \<in> set (p_attrs q)" for e
    using assms that Some
    by (cases e; cases "snd e")
      (auto simp: flat_entry_def split_array_entry_def is_array_attribute_def dict_attr_def
        split: option.splits)
  then have "map (split_array_entry d) (p_attrs q) = p_attrs q" by (simp add: map_idI)
  then show ?thesis by (simp add: split_array_attributes_def Some)
qed (simp add: split_array_attributes_def)

lemma encode_stored_flat:
  assumes "\<forall>e \<in> set (p_attrs p). flat_entry (p_dict p) e"
  shows "encode_stored p [] =
    bindE (mapE (\<lambda>(k, s). encode_avp_group (p_dict p) k s) (p_attrs p)) (\<lambda>xs. Inr (concat xs))"
proof -
  have "mapE (\<lambda>(k, s).
       if k \<in> set [] then Inr []
       else if is_virtual_attribute (p_dict p) k then Inr []
       else encode_avp_group (p_dict p) k s) (p_attrs p)
     = mapE (\<lambda>(k, s). encode_avp_group (p_dict p) k s) (p_attrs p)"
  proof (intro mapE_cong refl)
    fix e
    assume "e \<in> set (p_attrs p)"
    then have "flat_entry (p_dict p) e" using assms by blast
    then show "(case e of (k, s) \<Rightarrow>
       if k \<in> set [] then Inr []
       else if is_virtual_attribute (p_dict p) k then Inr []
       else encode_avp_group (p_dict p) k s) = (case e of (k, s) \<Rightarrow> encode_avp_group (p_dict p) k s)"
      by (cases e; cases "snd e") (auto simp: flat_entry_def)
  qed
  then show ?thesis by (simp add: encode_stored_def)
qed

text \<open>A complete datagram of such a packet.\<close>

definition datagram :: "int \<Rightarrow> int \<Rightarrow> bytes \<Rightarrow> bytes \<Rightarrow> bytes" where
  "datagram code i auth attrs =
     be_bytes 1 code @ be_bytes 1 i @ be_bytes 2 (20 + int (length attrs)) @ auth @ attrs"

lemma decode_datagram_header:
  assumes "0 \<le> code" "code < 256" "0 \<le> i" "i < 256" "length auth = 16"
    and "length attrs \<le> 8172" "p_version q = V1_0"
  shows "decode_header (datagram code i auth attrs) q =
    Inr (q\<lparr>p_code := code, p_id := Some i, p_auth := Some auth\<rparr>)"
proof -
  let ?n = "20 + int (length attrs)"
  have w: "datagram code i auth attrs
      = word_of_int code # word_of_int i # be_bytes 2 ?n @ auth @ attrs"
    by (simp add: datagram_def)
  have l: "py_slice (datagram code i auth attrs) 2 4 = be_bytes 2 ?n"
    by (simp add: w py_slice_def numeral_2_eq_2)
  have a: "py_slice (datagram code i auth attrs) 4 20 = auth"
    using assms(5) by (simp add: w py_slice_def numeral_eq_Suc)
  have v: "be_val (be_bytes 2 ?n) = ?n"
    using assms(6) by (intro be_val_be_bytes_id) simp_all
  have len: "int (length (datagram code i auth attrs)) = ?n"
    using assms(5) by (simp add: datagram_def)
  have "\<not> length (datagram code i auth attrs) < 20" using len by linarith
  then show ?thesis
    unfolding decode_header_def Let_def l a v len
    using assms by (simp add: w)
qed

lemma decode_datagram:
  assumes "\<forall>e \<in> set (p_attrs p). flat_entry (p_dict p) e" "od_wf (p_attrs p)"
    and "encode_stored p [] = Inr attrs" "length attrs \<le> 8172"
    and "0 \<le> code" "code < 256" "0 \<le> i" "i < 256" "length auth = 16"
    and "p_version q = V1_0" "p_dict q = p_dict p"
  shows "decode_packet (datagram code i auth attrs) q =
    Inr (q\<lparr>p_code := code, p_id := Some i, p_auth := Some auth, p_attrs := p_attrs p,
      p_lbuf := [], p_vbuf := []\<rparr>)"
proof -
  obtain xs where xs: "mapE (\<lambda>(k, s). encode_avp_group (p_dict p) k s) (p_attrs p) = Inr xs"
      "attrs = concat xs"
    using assms(3) by (auto simp: encode_stored_flat [OF assms(1)] bindE_eq_Inr)
  define q0 where "q0 = q\<lparr>p_code := code, p_id := Some i, p_auth := Some auth, p_attrs := [],
      p_lbuf := [], p_vbuf := []\<rparr>"
  have d: "drop 20 (datagram code i auth attrs) = concat xs"
    using assms(9) by (simp add: datagram_def xs(2) numeral_eq_Suc)
  have "decode_loop (concat xs) q0 = Inr (q0\<lparr>p_attrs := p_attrs q0 @ p_attrs p\<rparr>)"
    using assms(1,2,11) xs(1) by (intro decode_loop_entries) (simp_all add: q0_def)
  then have "decode_loop (drop 20 (datagram code i auth attrs)) q0 = Inr (q0\<lparr>p_attrs := p_attrs p\<rparr>)"
    by (simp add: d q0_def)
  then show ?thesis
    using assms(1,11) merge_flat [of "q0\<lparr>p_attrs := p_attrs p\<rparr>"]
      split_flat [of "q0\<lparr>p_attrs := p_attrs p\<rparr>"]
    unfolding decode_packet_def decode_datagram_header [OF assms(5-9) assms(4,10)]
    by (simp add: q0_def)
qed

section \<open>Reassembly of fragments\<close>

text \<open>
  A value that one attribute cannot hold is written as several: each but the last carries a
  flag. The parser collects them in a buffer of the packet. \<open>pend (Some b) q\<close> is the packet
  \<open>q\<close> with \<open>b\<close> collected so far and \<open>finish\<close> stores the complete value.
\<close>

definition collected :: "bytes option \<Rightarrow> bytes" where
  "collected b = (case b of None \<Rightarrow> [] | Some b \<Rightarrow> b)"

lemma collected_simps [simp]: "collected None = []" "collected (Some b) = b"
  by (simp_all add: collected_def)

locale reassembly =
  fixes emit :: "int \<Rightarrow> bytes \<Rightarrow> bytes res"
    and flag :: int
    and parse :: "bytes \<Rightarrow> packet \<Rightarrow> packet res"
    and ok :: "packet \<Rightarrow> bool"
    and pend :: "bytes option \<Rightarrow> packet \<Rightarrow> packet"
    and finish :: "bytes \<Rightarrow> packet \<Rightarrow> packet res"
  assumes idle: "pend None q = q"
    and fragment: "ok q \<Longrightarrow> emit flag c = Inr x \<Longrightarrow>
      parse (x @ rest) (pend b q) = parse rest (pend (Some (collected b @ c)) q)"
    and final: "ok q \<Longrightarrow> emit 0 c = Inr x \<Longrightarrow>
      parse (x @ rest) (pend b q) = bindE (finish (collected b @ c) q) (parse rest)"
begin

lemma fragments_pending:
  "ok q \<Longrightarrow> cs \<noteq> [] \<Longrightarrow> emit_fragments emit flag cs = Inr bs \<Longrightarrow>
   parse (bs @ rest) (pend b q) = bindE (finish (collected b @ concat cs) q) (parse rest)"
proof (induction cs arbitrary: b bs)
  case (Cons c cs)
  show ?case
  proof (cases cs)
    case Nil
    then show ?thesis using Cons.prems final by simp
  next
    case (Cons c' cs')
    then obtain x y where x: "emit flag c = Inr x" "emit_fragments emit flag cs = Inr y" "bs = x @ y"
      using Cons.prems by (auto simp: bindE_eq_Inr)
    have "parse (bs @ rest) (pend b q) = parse (y @ rest) (pend (Some (collected b @ c)) q)"
      using fragment [OF Cons.prems(1) x(1), of "y @ rest"] x by simp
    also have "\<dots> = bindE (finish (collected (Some (collected b @ c)) @ concat cs) q) (parse rest)"
      using Cons.IH Cons.prems(1) x(2) local.Cons by blast
    finally show ?thesis by simp
  qed
qed simp

lemma value_reassembled:
  assumes "ok q" "emit_fragments emit flag (split_into_chunks v n) = Inr bs"
  shows "parse (bs @ rest) q = bindE (finish v q) (parse rest)"
proof -
  have "split_into_chunks v n \<noteq> []" "concat (split_into_chunks v n) = v"
    by (simp_all add: split_into_chunks_def)
  then show ?thesis
    using fragments_pending [OF assms(1) _ assms(2), of rest None] by (simp add: idle)
qed

end

text \<open>The buffers of the packet.\<close>

lemma od_set_set [simp]: "od_set k v (od_set k w d) = od_set k v d"
  by (induction k w d rule: od_set.induct) auto

lemma od_del_set [simp]: "od_get d k = None \<Longrightarrow> od_del k (od_set k v d) = d"
  using od_del_absent [of d k] by (simp add: od_set_absent) (simp add: od_del_def)

definition lbuf_pend :: "int list \<Rightarrow> bytes option \<Rightarrow> packet \<Rightarrow> packet" where
  "lbuf_pend k b q = (case b of None \<Rightarrow> q | Some b \<Rightarrow> q\<lparr>p_lbuf := od_set k b (p_lbuf q)\<rparr>)"

definition vbuf_pend :: "int \<times> int \<Rightarrow> bytes option \<Rightarrow> packet \<Rightarrow> packet" where
  "vbuf_pend k b q = (case b of None \<Rightarrow> q | Some b \<Rightarrow> q\<lparr>p_vbuf := od_set k b (p_vbuf q)\<rparr>)"

lemma lbuf_pend_simps [simp]:
  "p_dict (lbuf_pend k b q) = p_dict q" "lbuf_pend k None q = q"
  "(lbuf_pend k b q)\<lparr>p_lbuf := l\<rparr> = q\<lparr>p_lbuf := l\<rparr>"
  "od_set k c (p_lbuf (lbuf_pend k b q)) = od_set k c (p_lbuf q)"
  "od_get (p_lbuf q) k = None \<Longrightarrow> od_del k (p_lbuf (lbuf_pend k b q)) = p_lbuf q"
  "od_get (p_lbuf q) k = None \<Longrightarrow> buffer_add k c (p_lbuf (lbuf_pend k b q)) = collected b @ c"
  by (auto simp: lbuf_pend_def buffer_add_def od_get_set od_del_absent split: option.splits)

text \<open>A long-extended attribute: the parent's container type and a slot of either kind.\<close>

definition long_parent :: "int \<Rightarrow> packet \<Rightarrow> bool" where
  "long_parent parent q \<longleftrightarrow> parent \<noteq> 26 \<and> parent \<noteq> 80
     \<and> container_type (p_dict q) (KInt parent) = Some ''long-extended''"

definition long_slot :: "int \<Rightarrow> int \<Rightarrow> packet \<Rightarrow> bool" where
  "long_slot parent ext q \<longleftrightarrow> long_parent parent q \<and> \<not> is_evs_slot (p_dict q) parent ext
     \<and> od_get (p_lbuf q) [parent, ext] = None"

definition evs_slot :: "int \<Rightarrow> int \<Rightarrow> int \<Rightarrow> int \<Rightarrow> packet \<Rightarrow> bool" where
  "evs_slot parent ext vendor t q \<longleftrightarrow> long_parent parent q \<and> is_evs_slot (p_dict q) parent ext
     \<and> od_get (p_lbuf q) [parent, ext, vendor, t] = None"

lemma decode_long_frame:
  assumes "pack4 parent (4 + int (length v)) ext flg = Inr h" "long_parent parent q"
  shows "decode_loop (h @ v @ rest) q =
      bindE (pkt_decode_long_extended_fragment parent (word_of_int ext # word_of_int flg # v) q)
        (decode_loop rest)"
    and "0 \<le> ext" "ext < 256" "0 \<le> flg" "flg < 256"
proof -
  let ?v = "(word_of_int ext :: byte) # word_of_int flg # v"
  from assms(1) obtain h1 where h: "pack2 parent (int (length ?v) + 2) = Inr h1"
      "h = h1 @ [word_of_int ext, word_of_int flg]"
    and r: "0 \<le> ext" "ext < 256" "0 \<le> flg" "flg < 256"
    by (auto simp: pack4_def bindE_eq_Inr pack2_eq_Inr add.commute)
  have "decode_avp parent ?v q = pkt_decode_long_extended_fragment parent ?v q"
    using assms(2) by (simp add: decode_avp_def long_parent_def)
  then show "decode_loop (h @ v @ rest) q =
      bindE (pkt_decode_long_extended_fragment parent ?v q) (decode_loop rest)"
    using decode_loop_frame [OF h(1), of rest q] by (simp add: h(2))
  show "0 \<le> ext" "ext < 256" "0 \<le> flg" "flg < 256" by fact+
qed

lemma more_flag_set: "LONG_EXTENDED_MORE_FLAG AND LONG_EXTENDED_MORE_FLAG \<noteq> 0"
  by (simp add: LONG_EXTENDED_MORE_FLAG_def)

interpretation long_ext: reassembly "long_extended_fragment parent ext" LONG_EXTENDED_MORE_FLAG
    decode_loop "long_slot parent ext" "lbuf_pend [parent, ext]" "store_slot parent ext"
  for parent ext :: int
proof unfold_locales
  fix q c x rest b
  assume ok: "long_slot parent ext q"
  then have p: "long_parent parent (lbuf_pend [parent, ext] b q)"
    and k: "evs_key (p_dict q) parent ext c = None"
    by (auto simp: long_slot_def long_parent_def evs_key_def)
  show "decode_loop (x @ rest) (lbuf_pend [parent, ext] b q)
      = decode_loop rest (lbuf_pend [parent, ext] (Some (collected b @ c)) q)"
    if "long_extended_fragment parent ext LONG_EXTENDED_MORE_FLAG c = Inr x"
  proof -
    from that obtain h where h: "x = h @ c"
        "pack4 parent (4 + int (length c)) ext LONG_EXTENDED_MORE_FLAG = Inr h"
      by (auto simp: long_extended_fragment_def bindE_eq_Inr)
    from decode_long_frame [OF h(2) p] ok k more_flag_set show ?thesis
      by (simp add: h(1) pkt_decode_long_extended_fragment_def long_slot_def lbuf_pend_def [of _ "Some _"])
  qed
  show "decode_loop (x @ rest) (lbuf_pend [parent, ext] b q)
      = bindE (store_slot parent ext (collected b @ c) q) (decode_loop rest)"
    if "long_extended_fragment parent ext 0 c = Inr x"
  proof -
    from that obtain h where h: "x = h @ c" "pack4 parent (4 + int (length c)) ext 0 = Inr h"
      by (auto simp: long_extended_fragment_def bindE_eq_Inr)
    from decode_long_frame [OF h(2) p] ok k show ?thesis
      by (simp add: h(1) pkt_decode_long_extended_fragment_def long_slot_def)
  qed
qed simp

text \<open>An extended-vendor-specific value in a long-extended attribute.\<close>

definition evs_header :: "int \<Rightarrow> int \<Rightarrow> bytes" where
  "evs_header vendor t = be_bytes 4 vendor @ [word_of_int t]"

lemma evs_key_header:
  assumes "0 \<le> vendor" "vendor < 256 ^ 4" "0 \<le> t" "t < 256" "is_evs_slot d parent ext"
  shows "evs_key d parent ext (evs_header vendor t @ c) = Some [parent, ext, vendor, t]"
    "drop 5 (evs_header vendor t @ c) = c"
  using assms
  by (simp_all add: evs_key_def evs_header_def nth_append be_val_be_bytes_id)

definition evs_ids :: "int \<Rightarrow> int \<Rightarrow> bool" where
  "evs_ids vendor t \<longleftrightarrow> 0 \<le> vendor \<and> vendor < 256 ^ 4 \<and> 0 \<le> t \<and> t < 256"

lemma evs_fragment_frame:
  assumes "evs_fragment parent ext (evs_header vendor t) flg c = Inr x"
  obtains h where "x = h @ (evs_header vendor t @ c)"
    "pack4 parent (4 + int (length (evs_header vendor t @ c))) ext flg = Inr h"
  using assms by (auto simp: evs_fragment_def bindE_eq_Inr evs_header_def)

interpretation long_evs: reassembly "evs_fragment parent ext (evs_header vendor t)"
    LONG_EXTENDED_MORE_FLAG decode_loop
    "\<lambda>q. evs_ids vendor t \<and> evs_slot parent ext vendor t q"
    "lbuf_pend [parent, ext, vendor, t]" "append_value (KTup [parent, ext, vendor, t])"
  for parent ext vendor t :: int
proof unfold_locales
  fix q c x rest b
  let ?k = "[parent, ext, vendor, t]"
  assume ok: "evs_ids vendor t \<and> evs_slot parent ext vendor t q"
  then have p: "long_parent parent (lbuf_pend ?k b q)" and n: "od_get (p_lbuf q) ?k = None"
    by (auto simp: evs_slot_def long_parent_def)
  have k: "evs_key (p_dict q) parent ext (evs_header vendor t @ c) = Some ?k"
      "drop 5 (evs_header vendor t @ c) = c"
    using ok evs_key_header [of vendor t "p_dict q" parent ext c] by (auto simp: evs_ids_def evs_slot_def)
  show "decode_loop (x @ rest) (lbuf_pend ?k b q)
      = decode_loop rest (lbuf_pend ?k (Some (collected b @ c)) q)"
    if "evs_fragment parent ext (evs_header vendor t) LONG_EXTENDED_MORE_FLAG c = Inr x"
  proof -
    from evs_fragment_frame [OF that] obtain h where h: "x = h @ (evs_header vendor t @ c)"
      "pack4 parent (4 + int (length (evs_header vendor t @ c))) ext LONG_EXTENDED_MORE_FLAG = Inr h" .
    from decode_long_frame [OF h(2) p] n k more_flag_set show ?thesis
      by (simp add: h(1) pkt_decode_long_extended_fragment_def lbuf_pend_def [of _ "Some _"])
  qed
  show "decode_loop (x @ rest) (lbuf_pend ?k b q)
      = bindE (append_value (KTup ?k) (collected b @ c) q) (decode_loop rest)"
    if "evs_fragment parent ext (evs_header vendor t) 0 c = Inr x"
  proof -
    from evs_fragment_frame [OF that] obtain h where h: "x = h @ (evs_header vendor t @ c)"
      "pack4 parent (4 + int (length (evs_header vendor t @ c))) ext 0 = Inr h" .
    from decode_long_frame [OF h(2) p] n k show ?thesis
      by (simp add: h(1) pkt_decode_long_extended_fragment_def)
  qed
qed simp

text \<open>RFC 5904 continuation in a vendor-specific attribute.\<close>

definition continued_key :: "int \<Rightarrow> int \<Rightarrow> nat \<Rightarrow> nat \<Rightarrow> packet \<Rightarrow> bool" where
  "continued_key vendor t tw lw q \<longleftrightarrow> p_dict q \<noteq> None
     \<and> container_type (p_dict q) (KTup [vendor, t]) = None
     \<and> packet_vendor_format (p_dict q) vendor = (tw, lw, True)
     \<and> od_get (p_vbuf q) (vendor, t) = None"

definition continuation_fragment :: "int \<Rightarrow> int \<Rightarrow> nat \<Rightarrow> nat \<Rightarrow> int \<Rightarrow> bytes \<Rightarrow> bytes res" where
  "continuation_fragment vendor t tw lw flg c =
     bindE (pack_vsa_inner t c tw lw (Some flg)) (vendor_avp vendor)"

lemma pack_vsa_inner_continuation:
  assumes "pack_vsa_inner t c tw lw (Some flg) = Inr inner"
  shows "pack_vsa_inner t (word_of_int flg # c) tw lw None = Inr inner" "0 \<le> flg" "flg < 256"
  using assms
  by (auto simp: pack_vsa_inner_def bindE_eq_Inr pack_uint_eq_Inr ac_simps split: if_splits)

lemma vbuf_pend_simps [simp]:
  "p_dict (vbuf_pend k b q) = p_dict q" "vbuf_pend k None q = q"
  "(vbuf_pend k b q)\<lparr>p_vbuf := l\<rparr> = q\<lparr>p_vbuf := l\<rparr>"
  "od_set k c (p_vbuf (vbuf_pend k b q)) = od_set k c (p_vbuf q)"
  "od_get (p_vbuf q) k = None \<Longrightarrow> od_del k (p_vbuf (vbuf_pend k b q)) = p_vbuf q"
  "od_get (p_vbuf q) k = None \<Longrightarrow>
   (case od_get (p_vbuf (vbuf_pend k b q)) k of None \<Rightarrow> [] | Some b \<Rightarrow> b) = collected b"
  by (auto simp: vbuf_pend_def od_get_set od_del_absent split: option.splits)

lemma continuation_decode:
  assumes "continuation_fragment vendor t tw lw flg c = Inr x" "continued_key vendor t tw lw q"
    and "p_dict q' = p_dict q"
  shows "decode_loop (x @ rest) q' =
     (case vsa_continue True vendor t (word_of_int flg # c) q' of
        (p1, Fragment) \<Rightarrow> decode_loop rest p1
      | (p1, Payload v) \<Rightarrow> bindE (append_value (KTup [vendor, t]) v p1) (decode_loop rest)
      | (p1, Unparsed) \<Rightarrow> Inl PacketError)"
proof -
  from assms(1) obtain inner where inner: "pack_vsa_inner t c tw lw (Some flg) = Inr inner"
      "vendor_avp vendor inner = Inr x"
    by (auto simp: continuation_fragment_def bindE_eq_Inr)
  then obtain vb h where h: "pack_uint 4 vendor = Inr vb"
      "pack2 26 (int (length (vb @ inner)) + 2) = Inr h" "x = h @ vb @ inner"
    by (auto simp: vendor_avp_def bindE_eq_Inr)
  note i = vsa_element_end_inner [OF pack_vsa_inner_continuation(1) [OF inner(1)]]
  obtain d where d: "p_dict q = Some d" "\<not> is_tlv (attr_of_key d (KTup [vendor, t]))"
      "packet_vendor_format (Some d) vendor = (tw, lw, True)"
    using assms(2) not_tlv_key by (auto simp: continued_key_def)
  have vb: "length vb = 4" "be_val vb = vendor"
    using h(1) by (auto simp: pack_uint_eq_Inr be_val_be_bytes_id)
  have nil: "vsa_loop tw lw True vendor [] xs p = Inr (p, Some xs)" for xs p
    using i(6) by (simp add: vsa_loop.simps)
  obtain p1 r where r: "vsa_continue True vendor t (word_of_int flg # c) q' = (p1, r)"
    by (cases "vsa_continue True vendor t (word_of_int flg # c) q'")
  have nu: "r \<noteq> Unparsed" and p1: "p_dict p1 = p_dict q"
    using r vsa_continue_keeps [OF r] assms(3)
    by (auto simp: vsa_continue_def Let_def split: if_splits)
  have loop: "vsa_loop tw lw True vendor inner [] q' =
      Inr (p1, Some (case r of Payload v \<Rightarrow> [(KTup [vendor, t], v)] | _ \<Rightarrow> []))"
    using i nil r nu p1 d assms(3)
    by (cases r) (simp_all add: vsa_loop.simps [of tw lw True vendor inner] vsa_store_def
        be_val_be_bytes_id)
  have avp: "decode_avp 26 (vb @ inner) q' =
      (case r of Payload v \<Rightarrow> append_value (KTup [vendor, t]) v p1 | _ \<Rightarrow> Inr p1)"
    using nu vb i(2) d assms(3) loop
    by (cases r) (simp_all add: decode_avp_def pkt_decode_vendor_attribute_def append_values_one
        append_values_def [of "[]"])
  show ?thesis
    using decode_loop_frame [OF h(2), of rest q'] nu avp r
    by (cases r) (simp_all add: h(3))
qed

interpretation continuation: reassembly "continuation_fragment vendor t tw lw"
    VSA_CONTINUATION_MORE decode_loop "continued_key vendor t tw lw"
    "vbuf_pend (vendor, t)" "append_value (KTup [vendor, t])"
  for vendor t :: int and tw lw :: nat
proof unfold_locales
  fix q c x rest b
  assume ok: "continued_key vendor t tw lw q"
  then have n: "od_get (p_vbuf q) (vendor, t) = None" by (simp add: continued_key_def)
  show "decode_loop (x @ rest) (vbuf_pend (vendor, t) b q)
      = decode_loop rest (vbuf_pend (vendor, t) (Some (collected b @ c)) q)"
    if "continuation_fragment vendor t tw lw VSA_CONTINUATION_MORE c = Inr x"
    using continuation_decode [OF that ok, of "vbuf_pend (vendor, t) b q" rest] n
    by (simp add: vsa_continue_def VSA_CONTINUATION_MORE_def vbuf_pend_def [of _ "Some _"])
  show "decode_loop (x @ rest) (vbuf_pend (vendor, t) b q)
      = bindE (append_value (KTup [vendor, t]) (collected b @ c) q) (decode_loop rest)"
    if "continuation_fragment vendor t tw lw 0 c = Inr x"
    using continuation_decode [OF that ok, of "vbuf_pend (vendor, t) b q" rest] n
    by (simp add: vsa_continue_def VSA_CONTINUATION_MORE_def)
qed simp

section \<open>Trees, concatenated attributes and arrays\<close>

text \<open>A container's contents as they are in a store: distinct codes, no empty lists.\<close>

fun tree_wf :: "submap \<Rightarrow> bool" where
  "tree_wf [] \<longleftrightarrow> True"
| "tree_wf ((c, Sub m) # rest) \<longleftrightarrow> c \<notin> fst ` set rest \<and> tree_wf m \<and> tree_wf rest"
| "tree_wf ((c, Vals vs) # rest) \<longleftrightarrow> c \<notin> fst ` set rest \<and> vs \<noteq> [] \<and> tree_wf rest"

lemma od_set_snoc: "od_get m c = None \<Longrightarrow> od_set c s (m @ [(c, s')]) = m @ [(c, s)]"
  by (induction m) (auto split: if_splits)

lemma od_get_snoc: "od_get m c = None \<Longrightarrow> od_get (m @ [(c, s)]) c = Some s"
  by (simp add: od_get_append)

lemma tlv_into_values:
  assumes "\<not> is_tlv (tlv_child_attr d a c)" "od_get acc c = None"
  shows "byte_values vs \<Longrightarrow> mapE (\<lambda>v. bindE (as_bytes v) (tlv_element c)) vs = Inr xs \<Longrightarrow>
    tlv_into d a (concat xs @ rest) (acc @ [(c, Vals ws)]) =
    tlv_into d a rest (acc @ [(c, Vals (ws @ vs))])"
proof (induction vs arbitrary: ws xs)
  case (Cons v vs)
  then obtain b x ys where v: "v = PBytes b" and x: "tlv_element c b = Inr x"
    and ys: "mapE (\<lambda>v. bindE (as_bytes v) (tlv_element c)) vs = Inr ys" "xs = x # ys"
    by (auto simp: bindE_eq_Inr as_bytes_def)
  show ?case
    using tlv_into_frame [OF x, of d a "concat ys @ rest"] assms Cons.IH [OF _ ys(1), of "ws @ [v]"]
      Cons.prems(1)
    by (simp add: v ys(2) od_get_snoc od_set_snoc extend_store_def)
qed simp

lemma tlv_chain_into:
  "encode_tlv_chain m = Inr bs \<Longrightarrow> sub_shape d a m \<Longrightarrow> tree_wf m \<Longrightarrow>
   fst ` set acc \<inter> fst ` set m = {} \<Longrightarrow> tlv_into d a (bs @ rest) acc = tlv_into d a rest (acc @ m)"
proof (induction m arbitrary: d a bs acc rest rule: encode_tlv_chain.induct)
  case (2 c m r)
  obtain inner x y where e: "encode_tlv_chain m = Inr inner" "tlv_element c inner = Inr x"
      "encode_tlv_chain r = Inr y" "bs = x @ y"
    using 2(3) by (auto simp: bindE_eq_Inr)
  have n: "od_get acc c = None"
    using 2(6) by (auto simp: od_get_eq_None_iff od_keys_def)
  have "tlv_into d (tlv_child_attr d a c) (inner @ []) [] = tlv_into d (tlv_child_attr d a c) [] ([] @ m)"
    using 2(4,5) by (intro 2(1) [OF e(1)]) auto
  then have "tlv_into d (tlv_child_attr d a c) inner (nested_map acc c) = (m, None)"
    by (simp add: nested_map_def n)
  then have "tlv_into d a (bs @ rest) acc = tlv_into d a (y @ rest) (acc @ [(c, Sub m)])"
    using tlv_into_frame [OF e(2), of d a "y @ rest" acc] 2(4) n
    by (simp add: e(4) od_set_absent)
  also have "\<dots> = tlv_into d a rest ((acc @ [(c, Sub m)]) @ r)"
    using 2(4,5,6) by (intro 2(2) [OF e(1,2,3)]) auto
  finally show ?case by simp
next
  case (3 c vs r)
  obtain xs y where e: "mapE (\<lambda>v. bindE (as_bytes v) (tlv_element c)) vs = Inr xs"
      "encode_tlv_chain r = Inr y" "bs = concat xs @ y"
    using 3(2) by (auto simp: bindE_eq_Inr)
  obtain v ws where vs: "vs = v # ws" using 3(4) by (cases vs) auto
  obtain b x ys where v: "v = PBytes b" and x: "tlv_element c b = Inr x"
    and ys: "mapE (\<lambda>v. bindE (as_bytes v) (tlv_element c)) ws = Inr ys" "xs = x # ys"
    using e(1) 3(3) by (auto simp: bindE_eq_Inr as_bytes_def vs)
  have n: "od_get acc c = None"
    using 3(5) by (auto simp: od_get_eq_None_iff od_keys_def)
  have "tlv_into d a (bs @ rest) acc = tlv_into d a (concat ys @ y @ rest) (acc @ [(c, Vals [v])])"
    using tlv_into_frame [OF x, of d a "concat ys @ y @ rest" acc] 3(3) n
    by (simp add: e(3) ys(2) od_set_absent extend_store_def v)
  also have "\<dots> = tlv_into d a (y @ rest) (acc @ [(c, Vals vs)])"
    using tlv_into_values [OF _ n _ ys(1), of d a "y @ rest" "[v]"] 3(3) by (simp add: vs)
  also have "\<dots> = tlv_into d a rest ((acc @ [(c, Vals vs)]) @ r)"
    using 3(3,4,5) by (intro 3(1) [OF e(1,2)]) auto
  finally show ?case by simp
qed simp

lemma chunks_concat: "0 < n \<Longrightarrow> \<forall>b \<in> set bss. length b = n \<Longrightarrow> chunks n (concat bss) = bss"
  by (induction bss) (auto simp: chunks_append)

lemma decode_loop_group:
  assumes "flat_key (p_dict q) k" "byte_values vs" "vs \<noteq> []"
    and "mapE (pkt_encode_attribute (p_dict q) k) vs = Inr xs" "p_attrs q = []"
  shows "decode_loop (concat xs) q = Inr (q\<lparr>p_attrs := [(k, Vals vs)]\<rparr>)"
proof -
  obtain v ws where vs: "vs = v # ws" using assms(3) by (cases vs) auto
  then obtain b x ys where v: "v = PBytes b" and x: "pkt_encode_attribute (p_dict q) k v = Inr x"
    and ys: "mapE (pkt_encode_attribute (p_dict q) k) ws = Inr ys" "xs = x # ys"
    using assms(2,4) by (auto simp: bindE_eq_Inr)
  have "append_value k b q = Inr (q\<lparr>p_attrs := [(k, Vals [v])]\<rparr>)"
    by (simp add: append_value_def raw_extend_def extend_store_def assms(5) v)
  then show ?thesis
    using decode_loop_flat [OF assms(1), of b x "concat ys"] x assms(1,2)
      decode_loop_values [OF assms(1) _ ys(1), of "[]" "[]" "[v]"]
    by (simp add: v ys(2) vs)
qed

lemma encode_group_flat:
  "flat_key d k \<Longrightarrow> encode_avp_group d k (Vals vs) = encode_plain_group d k vs"
  by (auto simp: encode_avp_group_def store_iter_def flat_key_def split: pkey.splits list.splits)

section \<open>The properties\<close>

text \<open>Sample values, for the dictionary of \<open>Samples\<close>.\<close>

definition long_value :: bytes where
  "long_value = replicate 300 7"

definition flat_attrs :: "(pkey, store) od" where
  "flat_attrs = [(KInt 1, Vals [PBytes [98, 111, 98]]), (KTup [99, 300], Vals [PBytes [1], PBytes []])]"

definition sample_tree :: submap where
  "sample_tree = [(1, Vals [PBytes [4], PBytes []]), (2, Sub [(3, Vals [PBytes [5, 6]])])]"

definition blank :: packet where
  "blank = blank_packet (Some sample_dict)"

lemma blank_simps [simp]:
  "p_dict blank = Some sample_dict" "p_attrs blank = []" "p_version blank = V1_0"
  by (simp_all add: blank_def blank_packet_def)

text \<open>
  C4 A datagram with the header fields and the serialised attributes of a packet decodes to
  that packet's code, identifier, authenticator and attributes, in the same order, whenever
  every attribute is a plain or a vendor-specific one, for every vendor header format without
  continuation octets. In particular every length octet written frames exactly its value.
\<close>

theorem decode_encode_datagram:
  assumes "\<forall>e \<in> set (p_attrs p). flat_entry (p_dict p) e" "od_wf (p_attrs p)"
    and "encode_stored p [] = Inr attrs" "length attrs \<le> 8172"
    and "0 \<le> code" "code < 256" "0 \<le> i" "i < 256" "length auth = 16"
    and "p_version q = V1_0" "p_dict q = p_dict p"
  shows "decode_packet (datagram code i auth attrs) q =
    Inr (q\<lparr>p_code := code, p_id := Some i, p_auth := Some auth, p_attrs := p_attrs p,
      p_lbuf := [], p_vbuf := []\<rparr>)"
  using assms by (rule decode_datagram)

lemma decode_encode_datagram_witness:
  "\<exists>attrs. encode_stored (blank\<lparr>p_attrs := flat_attrs\<rparr>) [] = Inr attrs
    \<and> decode_packet (datagram 1 9 (replicate 16 5) attrs) blank =
        Inr (blank\<lparr>p_code := 1, p_id := Some 9, p_auth := Some (replicate 16 5),
          p_attrs := flat_attrs, p_lbuf := [], p_vbuf := []\<rparr>)"
proof -
  have f: "list_all (flat_entry (Some sample_dict)) flat_attrs" by code_simp
  have "okE (encode_stored (blank\<lparr>p_attrs := flat_attrs\<rparr>) []) (\<lambda>attrs. length attrs < 100)"
    by code_simp
  then obtain attrs where attrs: "length attrs < 100"
      "encode_stored (blank\<lparr>p_attrs := flat_attrs\<rparr>) [] = Inr attrs"
    using okE_Inr by blast
  have "od_wf flat_attrs" by (simp add: flat_attrs_def od_wf_def)
  then show ?thesis
    using decode_encode_datagram [of "blank\<lparr>p_attrs := flat_attrs\<rparr>" attrs 1 9 "replicate 16 5" blank]
      f attrs by (auto simp: list_all_iff)
qed

text \<open>
  A value of any length for a slot of a long-extended attribute (RFC 6929) is reassembled
  from its fragments: parsing what the serialiser wrote and any attributes after it is storing
  the value under the slot and parsing those attributes. Nothing of it stays in the buffers.
\<close>

theorem long_extended_reassembled:
  assumes "long_slot parent ext q" "long_extended_avps parent ext v = Inr bs"
  shows "decode_loop (bs @ rest) q = bindE (store_slot parent ext v q) (decode_loop rest)"
  using long_ext.value_reassembled assms by (simp add: long_extended_avps_def)

lemma long_extended_reassembled_witness:
  "\<exists>bs. 255 < length bs \<and> long_extended_avps 245 1 long_value = Inr bs
    \<and> decode_loop (bs @ [1, 3, 4]) blank = bindE (store_slot 245 1 long_value blank) (decode_loop [1, 3, 4])"
proof -
  have s: "long_slot 245 1 blank" by code_simp
  have "okE (long_extended_avps 245 1 long_value) (\<lambda>bs. 255 < length bs)" by code_simp
  then obtain bs where bs: "long_extended_avps 245 1 long_value = Inr bs" "255 < length bs"
    using okE_Inr by blast
  show ?thesis using long_extended_reassembled [OF s bs(1)] bs by blast
qed

text \<open>
  The same for an extended-vendor-specific value in a long-extended attribute, which is
  stored under its own key of four codes.
\<close>

theorem evs_reassembled:
  assumes "evs_slot parent ext vendor t q" "parent \<in> set LONG_EXTENDED_ATTRIBUTE_TYPES"
    and "pkt_encode_evs parent ext vendor t v = Inr bs"
  shows "decode_loop (bs @ rest) q
    = bindE (append_value (KTup [parent, ext, vendor, t]) v q) (decode_loop rest)"
proof -
  have "evs_ids vendor t" "emit_fragments (evs_fragment parent ext (evs_header vendor t))
      LONG_EXTENDED_MORE_FLAG (split_into_chunks v 246) = Inr bs"
    using assms(2,3)
    by (auto simp: pkt_encode_evs_def bindE_eq_Inr pack_uint_eq_Inr evs_ids_def evs_header_def)
  then show ?thesis using assms(1) by (intro long_evs.value_reassembled) auto
qed

lemma evs_reassembled_witness:
  "\<exists>bs. 255 < length bs \<and> pkt_encode_evs 245 26 99 4 long_value = Inr bs
    \<and> decode_loop (bs @ [1, 3, 4]) blank = bindE (append_value (KTup [245, 26, 99, 4]) long_value blank) (decode_loop [1, 3, 4])"
proof -
  have s: "evs_slot 245 26 99 4 blank" by code_simp
  have "okE (pkt_encode_evs 245 26 99 4 long_value) (\<lambda>bs. 255 < length bs)" by code_simp
  then obtain bs where bs: "pkt_encode_evs 245 26 99 4 long_value = Inr bs" "255 < length bs"
    using okE_Inr by blast
  show ?thesis using evs_reassembled [OF s _ bs(1)] bs by (auto simp: LONG_EXTENDED_ATTRIBUTE_TYPES_def)
qed

text \<open>
  A value of any length for a vendor whose format has the continuation octet (RFC 5904) is
  reassembled from the attributes it was split over.
\<close>

theorem continuation_reassembled:
  assumes "continued_key vendor t tw lw q"
    and "pkt_encode_attribute (p_dict q) (KTup [vendor, t]) (PBytes v) = Inr bs"
  shows "decode_loop (bs @ rest) q
    = bindE (append_value (KTup [vendor, t]) v q) (decode_loop rest)"
proof -
  have "continuation_fragment vendor t tw lw =
      (\<lambda>flg chunk. bindE (pack_vsa_inner t chunk tw lw (Some flg)) (vendor_avp vendor))"
    by (simp add: continuation_fragment_def fun_eq_iff)
  then have "emit_fragments (continuation_fragment vendor t tw lw) VSA_CONTINUATION_MORE
      (split_into_chunks v (nat (255 - 2 - 4 - int tw - int lw - 1))) = Inr bs"
    using assms
    by (auto simp: pkt_encode_attribute_def as_bytes_def continued_key_def
        pkt_encode_continuation_vsa_def Let_def split: if_splits)
  then show ?thesis using assms(1) by (intro continuation.value_reassembled)
qed

lemma continuation_reassembled_witness:
  "\<exists>bs. 255 < length bs \<and> pkt_encode_attribute (Some sample_dict) (KTup [24757, 1]) (PBytes long_value) = Inr bs
    \<and> decode_loop (bs @ [1, 3, 4]) blank = bindE (append_value (KTup [24757, 1]) long_value blank) (decode_loop [1, 3, 4])"
proof -
  have s: "continued_key 24757 1 1 1 blank" by code_simp
  have "okE (pkt_encode_attribute (Some sample_dict) (KTup [24757, 1]) (PBytes long_value)) (\<lambda>bs. 255 < length bs)" by code_simp
  then obtain bs where bs: "pkt_encode_attribute (Some sample_dict) (KTup [24757, 1]) (PBytes long_value) = Inr bs" "255 < length bs"
    using okE_Inr by blast
  show ?thesis using continuation_reassembled [OF s, of long_value bs] bs by auto
qed

text \<open>
  A tree of TLVs (nested to any depth, several values per code) written as a chain is read
  back as the same tree, in the same order, wherever the dictionary declares exactly its inner
  nodes as containers.
\<close>

theorem tlv_chain_roundtrip:
  assumes "encode_tlv_chain m = Inr bs" "sub_shape d a m" "tree_wf m"
  shows "tlv_into d a bs [] = (m, None)"
  using tlv_chain_into [OF assms, of "[]" "[]"] by simp

lemma tlv_chain_roundtrip_witness:
  "tlv_into sample_dict (attr_of_key sample_dict (KInt 7)) [1, 3, 4, 1, 2, 2, 6, 3, 4, 5, 6] []
    = (sample_tree, None)"
proof (rule tlv_chain_roundtrip)
  show "encode_tlv_chain sample_tree = Inr [1, 3, 4, 1, 2, 2, 6, 3, 4, 5, 6]" by code_simp
  show "sub_shape sample_dict (attr_of_key sample_dict (KInt 7)) sample_tree" by code_simp
  show "tree_wf sample_tree" by (simp add: sample_tree_def)
qed

text \<open>
  A value of any length of an attribute declared \<^verbatim>\<open>concat\<close> is split over as many attributes
  as it takes, and the parser with its joining pass recovers the one value.
\<close>

theorem concat_attribute_roundtrip:
  assumes "flat_key (p_dict q) k" "is_concat_attribute (p_dict q) k" "p_attrs q = []"
    and "encode_avp_group (p_dict q) k (Vals [PBytes v]) = Inr bs"
  shows "bindE (decode_loop bs q) merge_concat_attributes = Inr (q\<lparr>p_attrs := [(k, Vals [PBytes v])]\<rparr>)"
proof -
  obtain d where d: "p_dict q = Some d"
    using assms(2) by (cases "p_dict q") (auto simp: is_concat_attribute_def dict_attr_def)
  define cs where "cs = (if length v > 253 then split_into_chunks v 253 else [v])"
  have cs: "cs \<noteq> []" "concat cs = v" by (auto simp: cs_def split_into_chunks_def)
  have "\<exists>xs. mapE (pkt_encode_attribute (p_dict q) k) (map PBytes cs) = Inr xs \<and> bs = concat xs"
    using assms(1,2,4)
    by (auto simp: encode_group_flat encode_plain_group_def as_bytes_def cs_def mapE_map bindE_eq_Inr
        split: if_splits)
  then obtain xs where xs: "mapE (pkt_encode_attribute (p_dict q) k) (map PBytes cs) = Inr xs"
      "bs = concat xs"
    by blast
  have l: "decode_loop bs q = Inr (q\<lparr>p_attrs := [(k, Vals (map PBytes cs))]\<rparr>)"
    using decode_loop_group [OF assms(1) _ _ xs(1) assms(3)] cs(1)
    by (auto simp: xs(2) byte_values_iff)
  have "mapE as_bytes (map PBytes cs) = Inr cs"
    by (induction cs) (simp_all add: as_bytes_def)
  then have "concat_values (map PBytes cs) = Inr (PBytes v)"
    by (simp add: concat_values_def cs(2))
  moreover have "cs = [v]" if "\<not> 1 < length cs"
    using that cs by (cases cs; cases "tl cs") auto
  ultimately show ?thesis
    using assms(2) by (auto simp: l merge_concat_attributes_def d)
qed

lemma concat_attribute_roundtrip_witness:
  "\<exists>bs. 255 < length bs \<and> bindE (decode_loop bs blank) merge_concat_attributes
        = Inr (blank\<lparr>p_attrs := [(KInt 79, Vals [PBytes long_value])]\<rparr>)"
proof -
  have f: "flat_key (Some sample_dict) (KInt 79) \<and> is_concat_attribute (Some sample_dict) (KInt 79)"
    by code_simp
  have "okE (encode_avp_group (Some sample_dict) (KInt 79) (Vals [PBytes long_value]))
      (\<lambda>bs. 255 < length bs)"
    by code_simp
  then obtain bs where "encode_avp_group (Some sample_dict) (KInt 79) (Vals [PBytes long_value]) = Inr bs"
      "255 < length bs"
    using okE_Inr by blast
  then show ?thesis
    using concat_attribute_roundtrip [of blank "KInt 79" long_value bs] f by auto
qed

text \<open>
  The values of an attribute declared \<^verbatim>\<open>array\<close> travel packed in one attribute, and the parser
  with its splitting pass recovers them one by one, for every type with a fixed width.
\<close>

theorem array_attribute_roundtrip:
  assumes "flat_key (Some d) k" "attr_of_key d k = Some a" "a_array a" "\<not> a_concat a"
    and "od_get ARRAY_TYPE_SIZE (a_type a) = Some n" "p_dict q = Some d" "p_attrs q = []"
    and "bss \<noteq> []" "\<forall>b \<in> set bss. length b = n"
    and "encode_avp_group (Some d) k (Vals (map PBytes bss)) = Inr bs"
  shows "map_sum id split_array_attributes (decode_loop bs q)
    = Inr (q\<lparr>p_attrs := [(k, Vals (map PBytes bss))]\<rparr>)"
proof -
  have n: "0 < n"
    using assms(5) by (auto simp: ARRAY_TYPE_SIZE_def split: if_splits)
  have ar: "is_array_attribute (Some d) k" "\<not> is_concat_attribute (Some d) k"
    using assms(2-4) by (simp_all add: is_array_attribute_def is_concat_attribute_def dict_attr_def)
  have cv: "concat_values (map PBytes bss) = Inr (PBytes (concat bss))"
  proof -
    have "mapE as_bytes (map PBytes bss) = Inr bss"
      by (induction bss) (simp_all add: as_bytes_def)
    then show ?thesis by (simp add: concat_values_def)
  qed
  have one: "bss = [concat bss]" if "\<not> 1 < length bss"
    using that assms(8) by (cases bss; cases "tl bss") auto
  have "encode_plain_group (Some d) k (map PBytes bss) = pkt_encode_attribute (Some d) k (PBytes (concat bss))"
  proof (cases "1 < length bss")
    case False
    then obtain b where "bss = [b]" using one by metis
    then show ?thesis using ar
      by (cases "pkt_encode_attribute (Some d) k (PBytes b)") (simp_all add: encode_plain_group_def as_bytes_def)
  qed (simp add: encode_plain_group_def ar cv)
  then have e: "pkt_encode_attribute (p_dict q) k (PBytes (concat bss)) = Inr bs"
    using assms(1,6,10) by (simp add: encode_group_flat)
  then have l: "decode_loop bs q = Inr (q\<lparr>p_attrs := [(k, Vals [PBytes (concat bss)])]\<rparr>)"
    using decode_loop_group [of q k "[PBytes (concat bss)]" "[bs]"] assms(1,6,7) by simp
  have "split_packed n (PBytes (concat bss)) = map PBytes bss"
  proof -
    have "concat bss \<noteq> []" using n assms(8,9) by (cases bss) auto
    moreover have "length (concat bss) mod n = 0"
      using assms(9) by (induction bss) auto
    ultimately show ?thesis using chunks_concat [OF n assms(9)]
      by (simp add: split_packed_def del: concat_eq_Nil_conv)
  qed
  then show ?thesis
    using assms(2,3,5,6) by (simp add: l split_array_attributes_def split_array_entry_def)
qed

lemma array_attribute_roundtrip_witness:
  "\<exists>bs. length bs = 10
    \<and> map_sum id split_array_attributes (decode_loop bs blank)
        = Inr (blank\<lparr>p_attrs := [(KInt 5, Vals (map PBytes [[0, 0, 0, 1], [0, 0, 0, 2]]))]\<rparr>)"
proof -
  have f: "flat_key (Some sample_dict) (KInt 5)" by code_simp
  have "case attr_of_key sample_dict (KInt 5) of None \<Rightarrow> False
     | Some a \<Rightarrow> a_array a \<and> \<not> a_concat a \<and> od_get ARRAY_TYPE_SIZE (a_type a) = Some 4"
    by code_simp
  then obtain a where a: "attr_of_key sample_dict (KInt 5) = Some a" "a_array a" "\<not> a_concat a"
      "od_get ARRAY_TYPE_SIZE (a_type a) = Some 4"
    by (auto split: option.splits)
  have "okE (encode_avp_group (Some sample_dict) (KInt 5)
      (Vals (map PBytes [[0, 0, 0, 1], [0, 0, 0, 2]]))) (\<lambda>bs. length bs = 10)"
    by code_simp
  then obtain bs where bs:
      "encode_avp_group (Some sample_dict) (KInt 5) (Vals (map PBytes [[0, 0, 0, 1], [0, 0, 0, 2]])) = Inr bs"
      "length bs = 10"
    using okE_Inr by blast
  show ?thesis
    using array_attribute_roundtrip [OF f a, of blank "[[0, 0, 0, 1], [0, 0, 0, 2]]" bs] bs by auto
qed

end
