(* ===== verification/Passwords.thy ===== *)
theory Passwords
  imports PacketAuth PacketRoundTrip
begin

text \<open>
  Hidden passwords are recovered by a receiver that holds the same secret and authenticator:
  User-Password for every text, salted attributes up to 15 octets. Both use the MD5 keystream
  chained over blocks of 16 octets; the locale states what the proofs use of it. Beyond the
  first block \<^verbatim>\<open>salt_decrypt\<close> chains on its own output and is not the inverse of
  \<^verbatim>\<open>salt_crypt\<close>.
\<close>

locale keystream_chain =
  fixes ks :: "bytes \<Rightarrow> bytes \<Rightarrow> bytes"
    and enc :: "bytes \<Rightarrow> bytes list \<Rightarrow> bytes"
    and dec :: "bytes \<Rightarrow> bytes list \<Rightarrow> bytes"
  assumes ks_length: "length (ks prev b) = 16"
    and ks_cancel: "length b = 16 \<Longrightarrow> ks prev (ks prev b) = b"
    and enc_Nil: "enc prev [] = []"
    and enc_Cons: "enc prev (b # bs) = ks prev b @ enc (ks prev b) bs"
    and dec_Nil: "dec prev [] = []"
    and dec_Cons: "dec prev (b # bs) = ks prev b @ dec b bs"
begin

lemma enc_length: "length (enc prev bs) = 16 * length bs"
  by (induction bs arbitrary: prev) (simp_all add: enc_Nil enc_Cons ks_length)

lemma enc_blocks: "chunks 16 (enc prev (b # bs)) = ks prev b # chunks 16 (enc (ks prev b) bs)"
  by (simp add: enc_Cons chunks_append ks_length)

lemma dec_enc: "\<forall>b \<in> set bs. length b = 16 \<Longrightarrow> dec prev (chunks 16 (enc prev bs)) = concat bs"
  by (induction bs arbitrary: prev) (simp_all add: enc_Nil dec_Nil enc_blocks dec_Cons ks_cancel)

text \<open>Chaining on the output, the first block alone is decrypted.\<close>

lemma enc_enc_first: "length b = 16 \<Longrightarrow> enc prev (chunks 16 (enc prev [b])) = b"
  using chunks_append [of "ks prev b" 16 "[]"]
  by (simp add: enc_Nil enc_Cons ks_cancel ks_length)

end

lemma be_val_xor_less:
  assumes "0 \<le> x" "0 \<le> y" "x < 2 ^ n" "y < 2 ^ n"
  shows "(x :: int) XOR y < 2 ^ n"
proof -
  have "take_bit n (x XOR y) = x XOR y"
    using assms by (simp add: take_bit_xor take_bit_int_eq_self)
  then show ?thesis by (metis take_bit_int_less_exp)
qed

lemma md5_keystream_length: "length (md5_keystream_xor secret prev b) = 16"
  by (simp add: md5_keystream_xor_def)

lemma be_val_128: "length bs = 16 \<Longrightarrow> be_val bs < 2 ^ 128"
  using be_val_less [of bs] by simp

lemma md5_keystream_cancel:
  assumes "length b = 16"
  shows "md5_keystream_xor secret prev (md5_keystream_xor secret prev b) = b"
proof -
  let ?k = "be_val (md5 (secret @ prev))"
  have l: "?k < 2 ^ 128" "be_val b < 2 ^ 128"
    by (rule be_val_128; simp add: assms length_md5)+
  have "0 \<le> ?k XOR be_val b" by simp
  moreover have "?k XOR be_val b < 256 ^ 16"
    using be_val_xor_less [OF _ _ l] by simp
  ultimately have "be_val (be_bytes 16 (?k XOR be_val b)) = ?k XOR be_val b"
    by (intro be_val_be_bytes_id)
  then have "md5_keystream_xor secret prev (md5_keystream_xor secret prev b)
      = be_bytes 16 (be_val b)"
    by (simp add: md5_keystream_xor_def xor.assoc [symmetric])
  then show ?thesis using be_bytes_be_val [of b] assms by simp
qed

interpretation md5_chain: keystream_chain "md5_keystream_xor secret" "chain_output secret" "chain_input secret"
  for secret :: bytes
  by unfold_locales
    (simp_all add: md5_keystream_length md5_keystream_cancel Let_def)

lemma pad16_blocks: "c \<in> set (chunks 16 (pad16 bs)) \<Longrightarrow> length c = 16"
proof -
  have "16 dvd length (pad16 bs)"
  proof (cases "length bs mod 16 = 0")
    case False
    have "length bs + (16 - length bs mod 16) = 16 * (length bs div 16) + 16"
      using False by (metis add.assoc le_add_diff_inverse less_imp_le mod_less_divisor
          mult_div_mod_eq zero_less_numeral)
    then have "16 dvd length bs + (16 - length bs mod 16)"
      by (metis dvd_add dvd_refl dvd_triv_left)
    then show ?thesis using False by (simp add: pad16_def)
  qed (simp add: pad16_def mod_eq_0_iff_dvd)
  then show "c \<in> set (chunks 16 (pad16 bs)) \<Longrightarrow> length c = 16"
    by (intro chunks_multiple [of 16]) simp_all
qed

lemma pad16_rstrip: "bs = [] \<or> last bs \<noteq> 0 \<Longrightarrow> rstrip_zeros (pad16 bs) = bs"
proof -
  assume a: "bs = [] \<or> last bs \<noteq> 0"
  have "dropWhile (\<lambda>b. b = 0) (replicate n 0 @ rev bs) = rev bs" for n
    using a by (induction n; cases bs rule: rev_cases) auto
  then show ?thesis
    using a by (cases bs rule: rev_cases) (auto simp: rstrip_zeros_def pad16_def)
qed

section \<open>User-Password\<close>

lemma rand_bytes_frame:
  "length (fst (rand_bytes n p)) = n \<and> snd (rand_bytes n p) = p\<lparr>p_pos := p_pos p + n\<rparr>"
proof (induction n arbitrary: p)
  case (Suc n)
  obtain bs p2 where r: "rand_bytes n (p\<lparr>p_pos := Suc (p_pos p)\<rparr>) = (bs, p2)"
    by (cases "rand_bytes n (p\<lparr>p_pos := Suc (p_pos p)\<rparr>)")
  show ?case
    using Suc [of "p\<lparr>p_pos := Suc (p_pos p)\<rparr>"] r by (simp add: randrange_def)
qed simp

lemma need_authenticator_frame:
  obtains a k where "need_authenticator p = p\<lparr>p_auth := Some a, p_pos := k\<rparr>"
    "p_auth p = None \<Longrightarrow> length a = 16" "p_auth p \<noteq> None \<Longrightarrow> p_auth p = Some a"
proof (cases "p_auth p")
  case None
  obtain a q where r: "rand_bytes 16 p = (a, q)" by (cases "rand_bytes 16 p")
  then show ?thesis
    using rand_bytes_frame [of 16 p] None
    by (intro that [where a = a and k = "p_pos p + 16"])
      (simp_all add: need_authenticator_def create_authenticator_def)
next
  case (Some a)
  have "p\<lparr>p_auth := Some a, p_pos := p_pos p\<rparr> = p" using Some by simp
  then show ?thesis
    using Some by (intro that [where a = a and k = "p_pos p"]) (simp_all add: need_authenticator_def)
qed

text \<open>Text that does not end in U+0000 does not end in a zero octet.\<close>

lemma byte_of_nonzero: "0 < n \<Longrightarrow> n < 256 \<Longrightarrow> byte_of n \<noteq> 0"
  using unat_of_nat [of n, where 'a = 8] by (auto simp: byte_of_def)

lemma utf8_char_last:
  assumes "utf8_char c = Inr bs" "c \<noteq> 0"
  shows "bs \<noteq> [] \<and> last bs \<noteq> 0"
proof -
  have "c mod 64 < 64" by simp
  then have "byte_of (0x80 + c mod 64) \<noteq> 0" by (intro byte_of_nonzero) linarith+
  moreover have "c < 0x80 \<Longrightarrow> byte_of c \<noteq> 0" using assms(2) by (intro byte_of_nonzero) linarith+
  ultimately show ?thesis using assms(1) by (auto simp: utf8_char_def split: if_splits)
qed

lemma utf8_encode_last:
  assumes "utf8_encode s = Inr bs" "s \<noteq> []" "last s \<noteq> 0"
  shows "bs \<noteq> [] \<and> last bs \<noteq> 0"
proof (cases s rule: rev_cases)
  case (snoc t c)
  from assms(1) obtain xs y where x: "utf8_char c = Inr y" "bs = concat xs @ y"
    by (auto simp: utf8_encode_def snoc mapE_append bindE_eq_Inr)
  then show ?thesis using utf8_char_last [OF x(1)] assms(3) by (simp add: snoc)
qed (use assms in simp)

lemma pw_crypt_decrypt:
  assumes "list_all scalar s" "s = [] \<or> last s \<noteq> 0"
    and "pw_crypt (PStr s) p = Inr (c, p')" "p_version p = V1_0"
    and "p_version q = V1_0" "p_secret q = p_secret p" "p_auth q = p_auth p'"
  shows "pw_decrypt c q = Inr s"
proof -
  obtain a k where n: "need_authenticator p = p\<lparr>p_auth := Some a, p_pos := k\<rparr>"
    using need_authenticator_frame [of p] by metis
  from utf8_decode_encode [OF assms(1)] obtain bs where
    bs: "utf8_encode s = Inr bs" "utf8_decode bs = Inr s" by blast
  have n': "p_auth (need_authenticator p) = Some a" "p_secret (need_authenticator p) = p_secret p"
    by (simp_all add: n)
  have c: "c = chain_output (p_secret p) a (chunks 16 (pad16 bs))" and p': "p_auth p' = Some a"
    using assms(3,4) bs(1) n' by (auto simp: pw_crypt_def plain_bytes_def)
  have "chain_input (p_secret p) a (chunks 16 c) = pad16 bs"
    using md5_chain.dec_enc [of "chunks 16 (pad16 bs)"] pad16_blocks by (simp add: c)
  moreover have "rstrip_zeros (pad16 bs) = bs"
  proof (rule pad16_rstrip)
    show "bs = [] \<or> last bs \<noteq> 0"
    proof (cases "s = []")
      case True
      then show ?thesis using bs(1) by (simp add: utf8_encode_def)
    next
      case False
      then show ?thesis using utf8_encode_last [OF bs(1)] assms(2) by simp
    qed
  qed
  moreover have "c = [] \<Longrightarrow> s = []"
  proof -
    assume "c = []"
    then have "length (chunks 16 (pad16 bs)) = 0"
      using md5_chain.enc_length [of "p_secret p" a "chunks 16 (pad16 bs)"] by (simp add: c)
    then have "bs = []" by (auto simp: pad16_def split: if_splits)
    then show ?thesis using bs(2) by simp
  qed
  ultimately show ?thesis
    using assms(5-7) p' bs(2) by (auto simp: pw_decrypt_def)
qed

section \<open>Salted attributes\<close>

definition salt_auth :: "packet \<Rightarrow> bytes option" where
  "salt_auth p = (case p_req_auth p of Some a \<Rightarrow> Some a | None \<Rightarrow> p_auth p)"

lemma salt_crypt_decrypt:
  assumes "salt_crypt (PBytes bs) p = Inr (c, p')" "length bs \<le> 15"
    and "p_secret q = p_secret p" "salt_auth q = salt_auth p'"
  shows "salt_decrypt q c = Inr bs"
proof -
  obtain a k where n: "need_authenticator p = p\<lparr>p_auth := Some a, p_pos := k\<rparr>"
    using need_authenticator_frame [of p] by metis
  define b where "b = (word_of_int (int (length bs)) # bs :: bytes)"
  have one: "chunks 16 (pad16 b) = [pad16 b]"
  proof (rule chunks_short)
    have "length b \<le> 16" "b \<noteq> []" using assms(2) by (simp_all add: b_def)
    then show "pad16 b \<noteq> []" "length (pad16 b) \<le> 16"
      by (cases "length b = 16"; simp add: pad16_def)+
  qed
  have len: "length (pad16 b) = 16"
    using pad16_blocks [of "pad16 b" b] one by simp
  have pk: "pack_uint 1 (int (length bs)) = Inr [word_of_int (int (length bs))]"
    using assms(2) by (simp add: pack_uint_def)
  obtain r p1 where r: "randrange 0 32767 (need_authenticator p) = (r, p1)"
    by (cases "randrange 0 32767 (need_authenticator p)")
  then have p1: "p_secret p1 = p_secret p" "p_req_auth p1 = p_req_auth p" "p_auth p1 = Some a"
    by (auto simp: randrange_def n)
  let ?salt = "be_bytes 2 (32768 + r)"
  obtain x where x: "salt_auth p1 = Some x" using p1 by (cases "p_req_auth p") (auto simp: salt_auth_def)
  have enc: "salt_en_decrypt p1 (pad16 b) ?salt = Inr (chain_output (p_secret p) (x @ ?salt) [pad16 b])"
    using x p1(1) by (simp add: salt_en_decrypt_def salt_auth_def one del: chain_output.simps)
  have c: "c = ?salt @ chain_output (p_secret p) (x @ ?salt) [pad16 b]" "p' = p1"
    using assms(1) r pk enc
    by (auto simp: salt_crypt_def plain_bytes_def b_def Let_def simp del: chain_output.simps)
  have "salt_en_decrypt q (drop 2 c) ?salt = Inr (pad16 b)"
    using md5_chain.enc_enc_first [OF len, of "p_secret p" "x @ ?salt"] assms(3,4) x c
    by (simp add: salt_en_decrypt_def salt_auth_def del: chain_output.simps be_bytes.simps)
  moreover have "take 2 c = ?salt" using c by (simp del: be_bytes.simps)
  ultimately have "salt_decrypt q c = (case pad16 b of [] \<Rightarrow> Inl IndexError | l # r \<Rightarrow> Inr (take (unat l) r))"
    by (simp add: salt_decrypt_def)
  also have "\<dots> = Inr bs"
  proof -
    have "unat (word_of_int (int (length bs)) :: byte) = length bs"
      using assms(2) by (subst unat_word_of_byte) auto
    then show ?thesis by (auto simp: pad16_def b_def)
  qed
  finally show ?thesis .
qed

section \<open>The properties\<close>

text \<open>
  C37 A User-Password hidden by \<^verbatim>\<open>pw_crypt\<close> is recovered by \<^verbatim>\<open>pw_decrypt\<close> of a packet with the
  same secret and the authenticator the sender used, for every text that is valid Unicode and
  does not end in U+0000.
\<close>

theorem password_roundtrip:
  assumes "list_all scalar s" "s = [] \<or> last s \<noteq> 0"
    and "pw_crypt (PStr s) p = Inr (c, p')" "p_version p = V1_0"
    and "p_version q = V1_0" "p_secret q = p_secret p" "p_auth q = p_auth p'"
  shows "pw_decrypt c q = Inr s"
  using assms by (rule pw_crypt_decrypt)

definition keyed :: "bytes \<Rightarrow> packet" where
  "keyed a = (blank_packet None)\<lparr>p_class := AuthC, p_secret := [115], p_auth := Some a\<rparr>"

lemma keyed_simps [simp]:
  "p_version (keyed a) = V1_0" "p_secret (keyed a) = [115]" "p_auth (keyed a) = Some a"
  "p_req_auth (keyed a) = None" "need_authenticator (keyed a) = keyed a"
  by (simp_all add: keyed_def blank_packet_def need_authenticator_def)

lemma password_roundtrip_witness:
  "\<exists>c. pw_crypt (PStr [8364, 97]) (keyed [1, 2, 3]) = Inr (c, keyed [1, 2, 3])
    \<and> pw_decrypt c (keyed [1, 2, 3]) = Inr [8364, 97]"
proof -
  have s: "list_all scalar [8364, 97]" by (simp add: scalar_def)
  obtain bs where "utf8_encode [8364, 97] = Inr bs" using utf8_decode_encode [OF s] by blast
  then obtain c where c: "pw_crypt (PStr [8364, 97]) (keyed [1, 2, 3]) = Inr (c, keyed [1, 2, 3])"
    by (simp add: pw_crypt_def plain_bytes_def)
  from password_roundtrip [OF s _ c, of "keyed [1, 2, 3]"] c show ?thesis by simp
qed

text \<open>
  A salted attribute of at most 15 octets is recovered by the receiver that has the same
  secret and the same request authenticator.
\<close>

theorem salted_roundtrip:
  assumes "salt_crypt (PBytes bs) p = Inr (c, p')" "length bs \<le> 15"
    and "p_secret q = p_secret p" "salt_auth q = salt_auth p'"
  shows "salt_decrypt q c = Inr bs"
  using assms by (rule salt_crypt_decrypt)

lemma salted_roundtrip_witness:
  "\<exists>c p'. salt_crypt (PBytes [5, 6, 7]) (keyed [9]) = Inr (c, p') \<and> salt_decrypt (keyed [9]) c = Inr [5, 6, 7]"
proof -
  have "okE (salt_crypt (PBytes [5, 6, 7]) (keyed [9])) (\<lambda>(c, p'). salt_auth (keyed [9]) = salt_auth p')"
    by code_simp
  then obtain c p' where c: "salt_crypt (PBytes [5, 6, 7]) (keyed [9]) = Inr (c, p')"
      "salt_auth (keyed [9]) = salt_auth p'"
    using okE_Inr by fastforce
  from salted_roundtrip [OF c(1) _ _ c(2)] c(1) show ?thesis by auto
qed

text \<open>
  Longer values are not recovered: both directions of \<^verbatim>\<open>_salt_en_decrypt\<close> chain on what they
  have just written, so from the second block on the receiver uses another keystream than the
  sender. A value of 16 octets comes back wrong, with the right secret and authenticator.
\<close>

theorem salted_second_block_lost:
  "\<exists>c p' out. salt_crypt (PBytes (replicate 16 7)) (keyed [9]) = Inr (c, p')
    \<and> salt_auth p' = salt_auth (keyed [9])
    \<and> salt_decrypt (keyed [9]) c = Inr out \<and> take 15 out = replicate 15 7 \<and> out \<noteq> replicate 16 7"
proof -
  have "okE (salt_crypt (PBytes (replicate 16 7)) (keyed [9])) (\<lambda>(c, p').
      salt_auth p' = salt_auth (keyed [9])
      \<and> okE (salt_decrypt (keyed [9]) c) (\<lambda>out. take 15 out = replicate 15 7 \<and> out \<noteq> replicate 16 7))"
    by code_simp
  then obtain c p' where "salt_crypt (PBytes (replicate 16 7)) (keyed [9]) = Inr (c, p')"
      "salt_auth p' = salt_auth (keyed [9])"
      "okE (salt_decrypt (keyed [9]) c) (\<lambda>out. take 15 out = replicate 15 7 \<and> out \<noteq> replicate 16 7)"
    using okE_Inr by fastforce
  then show ?thesis using okE_Inr by blast
qed

end
