(* ===== verification/MessageAuth.thy ===== *)
theory MessageAuth
  imports Passwords
begin

text \<open>
  Message-Authenticator from end to end. The serialiser writes well-formed frames, so the
  receiver's pass that blanks the attribute finds exactly the octets the sender's HMAC covered,
  wherever the attribute stands among the others; decoding keeps the attribute itself apart from
  every other. Hence requests and replies that carry it verify at the other end, for every
  packet with any attributes, as long as nothing is left to be obfuscated while sending.
\<close>

section \<open>Frames\<close>

text \<open>Octets that divide into attributes none of which is a Message-Authenticator.\<close>

fun frames :: "bytes \<Rightarrow> bool" where
  "frames [] \<longleftrightarrow> True"
| "frames [b] \<longleftrightarrow> False"
| "frames (k # l # rest) \<longleftrightarrow>
     2 \<le> unat l \<and> unat l \<le> length rest + 2 \<and> uint k \<noteq> 80 \<and> frames (drop (unat l - 2) rest)"

lemma frames_append: "frames x \<Longrightarrow> frames y \<Longrightarrow> frames (x @ y)"
  by (induction x rule: frames.induct) auto

lemma frames_concat: "\<forall>x \<in> set xs. frames x \<Longrightarrow> frames (concat xs)"
  by (induction xs) (auto intro: frames_append)

lemma frames_frame:
  assumes "pack2 c (int (length v) + 2) = Inr h" "c \<noteq> 80"
  shows "frames (h @ v)"
proof -
  from pack2_frame [OF assms(1)] obtain k l where "h = [k, l]" "uint k = c" "unat l = length v + 2" .
  then show ?thesis using assms(2) by simp
qed

lemma zero_ma_frames:
  "frames x \<Longrightarrow> zero_ma_loop n (x @ y) = bindE (zero_ma_loop n y) (\<lambda>(out, m). Inr (x @ out, m))"
proof (induction x rule: frames.induct)
  case 1
  then show ?case by (cases "zero_ma_loop n y") auto
next
  case (3 k l rest)
  then have f: "2 \<le> unat l" "unat l \<le> length rest + 2" "uint k \<noteq> 80" by auto
  have "zero_ma_loop n ((k # l # rest) @ y) =
      bindE (zero_ma_loop n (drop (unat l - 2) rest @ y))
        (\<lambda>(out, m). Inr (k # l # take (unat l - 2) rest @ out, m))"
    using f by simp
  also have "\<dots> = bindE (zero_ma_loop n y) (\<lambda>(out, m). Inr ((k # l # rest) @ out, m))"
    using 3 by (cases "zero_ma_loop n y") (auto simp: append_assoc [symmetric] simp del: append_assoc)
  finally show ?case .
qed simp

lemma zero_ma_frames_end: "frames x \<Longrightarrow> zero_ma_loop n x = Inr (x, n)"
  using zero_ma_frames [of x n "[]"] by simp

definition ma_header :: bytes where
  "ma_header = [80, 18]"

lemma zero_ma_found:
  assumes "frames x" "frames y" "length m = 16"
  shows "zero_message_authenticator (x @ ma_header @ m @ y) = Inr (x @ ma_header @ zero_octets 16 @ y)"
proof -
  have "zero_ma_loop 0 (ma_header @ m @ y) = Inr (ma_header @ zero_octets 16 @ y, 1)"
    using assms zero_ma_frames_end [OF assms(2)] by (simp add: ma_header_def Let_def)
  then show ?thesis
    using zero_ma_frames [OF assms(1), of 0 "ma_header @ m @ y"]
    by (simp add: zero_message_authenticator_def)
qed

section \<open>The serialiser writes frames\<close>

lemma frames_vendor: "vendor_avp v inner = Inr x \<Longrightarrow> frames x"
proof -
  assume "vendor_avp v inner = Inr x"
  then obtain vb h where "pack2 26 (int (length (vb @ inner)) + 2) = Inr h" "x = h @ vb @ inner"
    by (auto simp: vendor_avp_def bindE_eq_Inr)
  then show "frames x" using frames_frame by auto
qed

lemma frames_fragments:
  "(\<And>f c y. emit f c = Inr y \<Longrightarrow> frames y) \<Longrightarrow> emit_fragments emit flag cs = Inr x \<Longrightarrow> frames x"
  by (induction emit flag cs arbitrary: x rule: emit_fragments.induct)
    (auto simp: bindE_eq_Inr intro: frames_append)

lemma frames_attribute: "pkt_encode_attribute d k v = Inr x \<Longrightarrow> k \<noteq> KInt 80 \<Longrightarrow> frames x"
proof (cases k)
  case (KInt c)
  assume "pkt_encode_attribute d k v = Inr x" "k \<noteq> KInt 80"
  then obtain b h where "pack2 c (int (length b) + 2) = Inr h" "x = h @ b" "c \<noteq> 80"
    using KInt by (auto simp: pkt_encode_attribute_def bindE_eq_Inr)
  then show "frames x" using frames_frame by auto
next
  case (KTup xs)
  assume a: "pkt_encode_attribute d k v = Inr x"
  then obtain vendor t where xs: "xs = [vendor, t]"
    by (cases xs; cases "tl xs"; cases "tl (tl xs)")
      (auto simp: pkt_encode_attribute_def bindE_eq_Inr KTup)
  obtain tw lw c where f: "packet_vendor_format d vendor = (tw, lw, c)"
    by (cases "packet_vendor_format d vendor")
  have e: "frames y"
    if "bindE (pack_vsa_inner t chunk tw lw o') (vendor_avp vendor) = Inr y" for chunk o' y
    using that by (auto simp: bindE_eq_Inr intro: frames_vendor)
  show "frames x"
    using a e f by (cases c)
      (auto simp: pkt_encode_attribute_def bindE_eq_Inr [of "as_bytes v"] KTup xs
        pkt_encode_continuation_vsa_def Let_def
        split: if_splits elim!: frames_fragments [rotated])
qed

lemma mapE_set: "mapE f xs = Inr ys \<Longrightarrow> y \<in> set ys \<Longrightarrow> \<exists>x \<in> set xs. f x = Inr y"
  by (induction xs arbitrary: ys) (auto simp: bindE_eq_Inr)

lemma frames_mapE:
  "mapE f xs = Inr ys \<Longrightarrow> (\<And>x y. x \<in> set xs \<Longrightarrow> f x = Inr y \<Longrightarrow> frames y) \<Longrightarrow> frames (concat ys)"
  by (intro frames_concat) (auto dest: mapE_set)

lemma frames_plain: "encode_plain_group d k vs = Inr x \<Longrightarrow> k \<noteq> KInt 80 \<Longrightarrow> frames x"
  by (auto simp: encode_plain_group_def bindE_eq_Inr split: if_splits
      intro: frames_attribute elim!: frames_mapE)

lemma frames_slots:
  "slots_loop emit s = Inr x \<Longrightarrow> (\<And>e c y. emit e c = Inr y \<Longrightarrow> frames y) \<Longrightarrow> frames x"
  by (auto simp: slots_loop_def bindE_eq_Inr elim!: frames_mapE)

lemma frames_extended: "extended_avp parent ext v = Inr x \<Longrightarrow> parent \<noteq> 80 \<Longrightarrow> frames x"
proof -
  assume a: "extended_avp parent ext v = Inr x" "parent \<noteq> 80"
  then obtain h where h: "pack2 parent (3 + int (length v)) = Inr h" "x = h @ (word_of_int ext # v)"
    by (auto simp: extended_avp_def pack3_def bindE_eq_Inr pack_uint_eq_Inr split: if_splits)
  then show "frames x"
    using frames_frame [of parent "word_of_int ext # v" h] a(2) by (simp add: add.commute)
qed

lemma frames_pack4:
  assumes "pack4 parent (4 + int (length v)) ext flg = Inr h" "parent \<noteq> 80"
  shows "frames (h @ v)"
proof -
  from assms obtain h1 where h1: "pack2 parent (4 + int (length v)) = Inr h1"
      "h = h1 @ [word_of_int ext, word_of_int flg]"
    by (auto simp: pack4_def bindE_eq_Inr pack2_eq_Inr)
  then show ?thesis
    using frames_frame [of parent "word_of_int ext # word_of_int flg # v" h1] assms(2)
    by (simp add: add.commute)
qed

lemma frames_long: "long_extended_avps parent ext v = Inr x \<Longrightarrow> parent \<noteq> 80 \<Longrightarrow> frames x"
  by (auto simp: long_extended_avps_def long_extended_fragment_def bindE_eq_Inr
      intro: frames_pack4 elim!: frames_fragments [rotated])

lemma frames_evs: "pkt_encode_evs parent ext vendor t v = Inr x \<Longrightarrow> parent \<noteq> 80 \<Longrightarrow> frames x"
proof -
  assume a: "pkt_encode_evs parent ext vendor t v = Inr x" "parent \<noteq> 80"
  obtain hd where hd: "bindE (pack_uint 4 vendor)
      (\<lambda>v. bindE (pack_uint 1 t) (\<lambda>t. Inr (v @ t))) = Inr hd" and x:
    "(if parent \<in> set LONG_EXTENDED_ATTRIBUTE_TYPES then
       emit_fragments (evs_fragment parent ext hd) LONG_EXTENDED_MORE_FLAG
         (split_into_chunks v 246)
     else if length v > 247 then Inl ValueError
     else bindE (pack3 parent (8 + int (length v)) ext) (\<lambda>h. Inr (h @ hd @ v))) = Inr x"
    by (rule bindE_InrE [OF a(1) [unfolded pkt_encode_evs_def]]) (rule that)
  from hd have hd: "length hd = 5" by (auto simp: bindE_eq_Inr pack_uint_eq_Inr)
  have f: "frames y" if "evs_fragment parent ext hd f c = Inr y" for f c y
    using that a(2) hd frames_pack4 [of parent "hd @ c" ext f]
    by (auto simp: evs_fragment_def bindE_eq_Inr)
  show "frames x"
  proof (cases "parent \<in> set LONG_EXTENDED_ATTRIBUTE_TYPES")
    case True
    then show ?thesis using x f by (auto elim!: frames_fragments [rotated])
  next
    case False
    then obtain h where h: "pack2 parent (8 + int (length v)) = Inr h" "x = h @ (word_of_int ext # hd @ v)"
      using x by (auto simp: pack3_def bindE_eq_Inr pack_uint_eq_Inr split: if_splits)
    then show ?thesis
      using frames_frame [of parent "word_of_int ext # hd @ v" h] a(2) hd by (simp add: add.commute)
  qed
qed

lemma frames_tlv_element: "tlv_element c v = Inr x \<Longrightarrow> c \<noteq> 80 \<Longrightarrow> frames x"
  using frames_frame by (auto simp: tlv_element_def bindE_eq_Inr)

lemma frames_tlv:
  assumes "pkt_encode_tlv (Some d) k s = Inr x" "attr_of_key d k = Some a" "a_code a \<noteq> 80"
  shows "frames x"
proof -
  obtain m where s: "s = Sub m" using assms(1,2) by (cases s) (auto simp: pkt_encode_tlv_def)
  obtain rounds avps where avps: "mapE (tlv_element (a_code a)) (gather_avps [] rounds) = Inr avps"
    and x: "(if a_vendor a \<noteq> [] then
            bindE (mapE (\<lambda>avp.
              bindE (bd_get_forward (d_vendors d) (a_vendor a)) (\<lambda>v.
              bindE (pack2 26 (int (length avp) + 6)) (\<lambda>h.
              bindE (pack_uint 4 v) (\<lambda>vb. Inr (h @ vb @ avp))))) avps)
              (\<lambda>xs. Inr (concat xs))
          else Inr (concat avps)) = Inr x"
    using assms(1,2) by (auto simp: pkt_encode_tlv_def s elim!: bindE_InrE split: if_splits)
  show ?thesis
  proof (cases "a_vendor a = []")
    case True
    then show ?thesis
      using x avps assms(3) by (auto intro!: frames_mapE [OF avps] intro: frames_tlv_element)
  next
    case False
    have v: "frames y"
      if "bindE (bd_get_forward (d_vendors d) (a_vendor a)) (\<lambda>v.
              bindE (pack2 26 (int (length avp) + 6)) (\<lambda>h.
              bindE (pack_uint 4 v) (\<lambda>vb. Inr (h @ vb @ avp)))) = Inr y" for avp y
    proof -
      from that obtain h x where "pack2 26 (int (length avp) + 6) = Inr h"
          "y = h @ (be_bytes 4 x @ avp)"
        by (auto simp: bindE_eq_Inr pack_uint_eq_Inr)
      then show ?thesis
        using frames_frame [of 26 "be_bytes 4 x @ avp" h] by (simp add: add.commute)
    qed
    then show ?thesis using x False by (auto simp: bindE_eq_Inr elim!: frames_mapE)
  qed
qed

text \<open>Entries of a store whose attributes are not written under the code 80.\<close>

definition not_ma :: "dictionary \<Rightarrow> pkey \<Rightarrow> bool" where
  "not_ma d k \<longleftrightarrow> (case k of KInt c \<Rightarrow> c \<noteq> 80 | KTup (c # _) \<Rightarrow> c \<noteq> 80 | KTup [] \<Rightarrow> True)
     \<and> (case attr_of_key d k of Some a \<Rightarrow> a_type a = ''tlv'' \<longrightarrow> a_code a \<noteq> 80 | None \<Rightarrow> True)"

lemma frames_containers:
  assumes "not_ma d k" "container_type (Some d) k = Some t"
    and "(if t = ''tlv'' then pkt_encode_tlv (Some d) k s
          else (case k of
              KInt c \<Rightarrow> if t = ''extended'' then pkt_encode_extended c s else pkt_encode_long_extended c s
            | KTup _ \<Rightarrow> slots_loop (\<lambda>_ _. Inl StructError) s)) = Inr x"
  shows "frames x"
proof (cases "t = ''tlv''")
  case True
  obtain a where "attr_of_key d k = Some a" "a_type a = t"
    using assms(2) by (auto simp: container_type_def dict_attr_def split: option.splits if_splits)
  then show ?thesis
    using assms(1,3) True by (auto simp: not_ma_def intro: frames_tlv)
next
  case False
  show ?thesis
  proof (cases k)
    case (KInt c)
    then have "c \<noteq> 80" using assms(1) by (simp add: not_ma_def)
    then show ?thesis
      using assms(3) False KInt
      by (auto simp: pkt_encode_extended_def pkt_encode_long_extended_def split: if_splits
          elim!: frames_slots intro: frames_extended frames_long)
  next
    case (KTup xs)
    then show ?thesis using assms(3) False by (auto elim!: frames_slots)
  qed
qed

lemma frames_group:
  assumes "encode_avp_group (Some d) k s = Inr x" "not_ma d k"
  shows "frames x"
proof (cases "\<exists>a b c e. k = KTup [a, b, c, e]")
  case True
  then obtain a b c e where k: "k = KTup [a, b, c, e]" by blast
  then show ?thesis
    using assms by (auto simp: encode_avp_group_def bindE_eq_Inr not_ma_def
        elim!: frames_mapE intro: frames_evs)
next
  case False
  then have e: "encode_avp_group (Some d) k s =
      (case container_type (Some d) k of
         Some t \<Rightarrow>
           if t = ''tlv'' then pkt_encode_tlv (Some d) k s
           else (case k of
              KInt c \<Rightarrow> if t = ''extended'' then pkt_encode_extended c s else pkt_encode_long_extended c s
            | KTup _ \<Rightarrow> slots_loop (\<lambda>_ _. Inl StructError) s)
       | None \<Rightarrow> encode_plain_group (Some d) k (store_iter s))"
    unfolding encode_avp_group_def by (auto split: pkey.splits list.splits)
  have "k \<noteq> KInt 80" using assms(2) by (auto simp: not_ma_def)
  then show ?thesis
    using assms e frames_containers [OF assms(2)]
    by (auto split: option.splits intro: frames_plain)
qed

section \<open>The attribute among the others\<close>

text \<open>
  A dictionary that declares Message-Authenticator as it is: code 80, plain octets. No other
  entry of the store may be written under that code.
\<close>

definition ma_dict :: "dictionary \<Rightarrow> bool" where
  "ma_dict d \<longleftrightarrow> (case dict_getitem d MA_NAME of
     Inl _ \<Rightarrow> False
   | Inr a \<Rightarrow> a_code a = 80 \<and> a_type a = ''octets'' \<and> a_vendor a = [] \<and> \<not> a_is_sub a
       \<and> a_encrypt a \<noteq> 2 \<and> backward (a_values a) = [])
     \<and> (case attr_of_key d (KInt 80) of None \<Rightarrow> True
        | Some a \<Rightarrow> a_type a = ''octets'' \<and> \<not> a_virtual a)"

definition ma_store :: "dictionary \<Rightarrow> (pkey, store) od \<Rightarrow> bool" where
  "ma_store d st \<longleftrightarrow> od_wf st \<and> list_all (\<lambda>e. fst e = KInt 80 \<or> not_ma d (fst e)) st"

lemma ma_dict_plain:
  assumes "ma_dict d"
  shows "container_type (Some d) (KInt 80) = None" "\<not> is_virtual_attribute (Some d) (KInt 80)"
  using assms
  by (auto simp: ma_dict_def container_type_def dict_attr_def is_virtual_attribute_def
      container_types_def split: option.splits)

lemma encode_ma_group:
  assumes "ma_dict d" "length m = 16"
  shows "encode_avp_group (Some d) (KInt 80) (Vals [PBytes m]) = Inr (ma_header @ m)"
proof -
  have "pkt_encode_attribute (Some d) (KInt 80) (PBytes m) = Inr (ma_header @ m)"
    using assms(2) by (simp add: pkt_encode_attribute_def as_bytes_def pack2_def pack_uint_def ma_header_def)
  then show ?thesis
    using assms ma_dict_plain [OF assms(1)]
    by (simp add: encode_avp_group_def encode_plain_group_def store_iter_def as_bytes_def)
qed

definition write_entry :: "dictionary \<Rightarrow> pkey \<times> store \<Rightarrow> bytes res" where
  "write_entry d e = (case e of (k, s) \<Rightarrow>
     if is_virtual_attribute (Some d) k then Inr [] else encode_avp_group (Some d) k s)"

lemma encode_stored_entries:
  "p_dict p = Some d \<Longrightarrow>
   encode_stored p [] = bindE (mapE (write_entry d) (p_attrs p)) (\<lambda>xs. Inr (concat xs))"
  by (simp add: encode_stored_def write_entry_def [abs_def] cong: if_cong)

lemma od_split:
  assumes "od_get st k = Some s"
  obtains es fs where "st = es @ (k, s) # fs" "od_get es k = None"
  using assms
proof (induction st arbitrary: thesis)
  case (Cons e st)
  show ?case
  proof (cases "fst e = k")
    case True
    then show ?thesis using Cons.prems by (cases e) (auto intro: Cons.prems(1) [of "[]" st])
  next
    case False
    then obtain es fs where "st = es @ (k, s) # fs" "od_get es k = None"
      using Cons by (cases e) auto
    then show ?thesis using False by (cases e) (auto intro: Cons.prems(1) [of "e # es" fs])
  qed
qed simp

lemma od_set_split: "od_get es k = None \<Longrightarrow> od_set k s' (es @ (k, s) # fs) = es @ (k, s') # fs"
  by (induction es) (auto split: if_splits)

lemma frames_entries:
  assumes "mapE (write_entry d) es = Inr xs" "list_all (\<lambda>e. not_ma d (fst e)) es"
  shows "frames (concat xs)"
proof (rule frames_mapE [OF assms(1)])
  fix e y
  assume e: "e \<in> set es" "write_entry d e = Inr y"
  obtain k s where k: "e = (k, s)" by (cases e)
  then have "not_ma d k" using assms(2) e(1) by (auto simp: list_all_iff)
  then show "frames y"
    using e(2) frames_group by (auto simp: write_entry_def k split: if_splits)
qed

text \<open>The same octets around it, whatever the sixteen octets of the attribute are.\<close>

lemma encode_around_ma:
  assumes "ma_dict d" "ma_store d (p_attrs p)" "p_dict p = Some d"
    and "od_get (p_attrs p) (KInt 80) = Some (Vals [PBytes m])" "length m = 16"
    and "encode_stored p [] = Inr attr"
  obtains x y where "frames x" "frames y" "attr = x @ ma_header @ m @ y"
    "\<And>m'. length m' = 16 \<Longrightarrow>
      encode_stored (p\<lparr>p_attrs := od_set (KInt 80) (Vals [PBytes m']) (p_attrs p)\<rparr>) []
        = Inr (x @ ma_header @ m' @ y)"
proof -
  obtain es fs where st: "p_attrs p = es @ (KInt 80, Vals [PBytes m]) # fs"
    and es: "od_get es (KInt 80) = None"
    using od_split [OF assms(4)] .
  have w: "write_entry d (KInt 80, Vals [PBytes m']) = Inr (ma_header @ m')" if "length m' = 16" for m'
    using encode_ma_group [OF assms(1) that] ma_dict_plain [OF assms(1)] by (simp add: write_entry_def)
  from assms(6) obtain xs ys where xs: "mapE (write_entry d) es = Inr xs"
      "mapE (write_entry d) fs = Inr ys" "attr = concat xs @ ma_header @ m @ concat ys"
    using w [OF assms(5)]
    by (auto simp: encode_stored_entries [OF assms(3)] st mapE_append bindE_eq_Inr)
  have f: "list_all (\<lambda>e. not_ma d (fst e)) es" "list_all (\<lambda>e. not_ma d (fst e)) fs"
  proof -
    have "od_get fs (KInt 80) = None" using assms(2)
      by (auto simp: ma_store_def st od_wf_def od_get_eq_None_iff)
    then show "list_all (\<lambda>e. not_ma d (fst e)) es" "list_all (\<lambda>e. not_ma d (fst e)) fs"
      using assms(2) es
      by (force simp: ma_store_def st list_all_iff od_get_eq_None_iff od_keys_def)+
  qed
  show ?thesis
  proof (rule that [OF frames_entries [OF xs(1) f(1)] frames_entries [OF xs(2) f(2)] xs(3)])
    fix m' :: bytes
    assume "length m' = 16"
    then show "encode_stored (p\<lparr>p_attrs := od_set (KInt 80) (Vals [PBytes m']) (p_attrs p)\<rparr>) []
        = Inr (concat xs @ ma_header @ m' @ concat ys)"
      using w xs by (simp add: encode_stored_entries [of _ d] assms(3) st od_set_split [OF es] mapE_append)
  qed
qed

section \<open>Decoding keeps it apart\<close>

text \<open>The packets differ in attributes and buffers only, and not in the Message-Authenticator.\<close>

definition packet_core :: "packet \<Rightarrow> packet" where
  "packet_core q = q\<lparr>p_attrs := [], p_lbuf := [], p_vbuf := []\<rparr>"

definition same_but :: "packet \<Rightarrow> packet \<Rightarrow> bool" where
  "same_but q q' \<longleftrightarrow> packet_core q' = packet_core q
     \<and> od_get (p_attrs q') (KInt 80) = od_get (p_attrs q) (KInt 80)"

lemma same_but_refl [intro!, simp]: "same_but q q"
  by (simp add: same_but_def)

lemma same_but_trans: "same_but p q \<Longrightarrow> same_but q r \<Longrightarrow> same_but p r"
  by (simp add: same_but_def)

lemma same_but_updates:
  "same_but q (q\<lparr>p_vbuf := V\<rparr>)" "same_but q (q\<lparr>p_lbuf := L\<rparr>)"
  "k \<noteq> KInt 80 \<Longrightarrow> same_but q (q\<lparr>p_attrs := od_set k s (p_attrs q)\<rparr>)"
  by (simp_all add: same_but_def packet_core_def od_get_set)

lemma append_value_same: "append_value k v q = Inr q' \<Longrightarrow> k \<noteq> KInt 80 \<Longrightarrow> same_but q q'"
  by (auto simp: append_value_def raw_extend_def bindE_eq_Inr intro: same_but_updates)

lemma append_values_same:
  "append_values kvs q = Inr q' \<Longrightarrow> KInt 80 \<notin> fst ` set kvs \<Longrightarrow> same_but q q'"
proof (induction kvs arbitrary: q)
  case (Cons kv kvs)
  then obtain q1 where "append_value (fst kv) (snd kv) q = Inr q1" "append_values kvs q1 = Inr q'"
    by (auto simp: append_values_def bindE_eq_Inr split_beta)
  moreover have "fst kv \<noteq> KInt 80" "KInt 80 \<notin> fst ` set kvs" using Cons.prems(2) by auto
  ultimately show ?case
    using Cons.IH [of q1] append_value_same same_but_trans by blast
qed (auto simp: append_values_def)

lemma tlv_attribute_same:
  "k \<noteq> KInt 80 \<Longrightarrow> same_but q (fst (pkt_decode_tlv_attribute d k bs q))"
  by (auto simp: pkt_decode_tlv_attribute_def raw_setitem_def split_beta Let_def
      intro: same_but_updates split: option.splits store.splits)

lemma vsa_store_same: "vsa_store vendor t v q = (q', r) \<Longrightarrow> same_but q q'
    \<and> (\<forall>new. r = Some new \<longrightarrow> (KInt 80 \<notin> fst ` set new))"
  using tlv_attribute_same [of "KTup [vendor, t]" q]
  by (auto simp: vsa_store_def Let_def split_beta split: option.splits if_splits)

lemma vsa_continue_same: "vsa_continue c vendor t body q = (q', r) \<Longrightarrow> same_but q q'"
  by (auto simp: vsa_continue_def Let_def split: list.splits if_splits intro: same_but_updates)

lemma vsa_loop_same:
  assumes "vsa_loop tw lw cont vendor rest tlvs q = Inr (q', r)"
    and "KInt 80 \<notin> fst ` set tlvs"
  shows "same_but q q' \<and> (\<forall>out. r = Some out \<longrightarrow> (KInt 80 \<notin> fst ` set out))"
  using assms
proof (induction tw lw cont vendor rest tlvs q arbitrary: q' r rule: vsa_loop.induct)
  case (1 tw lw cont vendor rest tlvs q)
  note step = 1(3) [unfolded vsa_loop.simps [of tw lw cont vendor rest tlvs q]]
  show ?case
  proof (cases "length rest < tw + lw")
    case True
    then show ?thesis using step 1(4) by (auto split: if_splits)
  next
    case False
    then obtain x e where w: "vsa_type_width tw = Inr x" "vsa_element_end tw lw rest = Inr e"
      using step by (auto simp: bindE_eq_Inr)
    show ?thesis
    proof (cases e)
      case None
      then show ?thesis using step w False by auto
    next
      case (Some n)
      let ?t = "be_val (take tw rest)" and ?body = "drop (tw + lw) (take n rest)"
      obtain p1 c where c: "vsa_continue cont vendor ?t ?body q = (p1, c)"
        by (cases "vsa_continue cont vendor ?t ?body q")
      note s1 = vsa_continue_same [OF c]
      show ?thesis
      proof (cases c)
        case Unparsed
        then show ?thesis using step w False Some c s1 by auto
      next
        case Fragment
        then have "vsa_loop tw lw cont vendor (drop n rest) tlvs p1 = Inr (q', r)"
          using step w False Some c by simp
        from 1(1) [OF False w(1) w(2) refl Some c [symmetric] Fragment this 1(4)] show ?thesis
          using s1 same_but_trans by blast
      next
        case (Payload v)
        obtain p2 o' where s: "vsa_store vendor ?t v p1 = (p2, o')"
          by (cases "vsa_store vendor ?t v p1")
        note s2 = vsa_store_same [OF s]
        have s12: "same_but q p2" using s1 s2 same_but_trans by blast
        show ?thesis
        proof (cases o')
          case None
          then show ?thesis using step w False Some c Payload s s12 by auto
        next
          case new: (Some new)
          then have keys: "KInt 80 \<notin> fst ` set (tlvs @ new)" using s2 1(4) by auto
          show ?thesis
          proof (cases "lw = 0")
            case True
            have "Inr (p2, if drop n rest = [] then Some (tlvs @ new) else None) = Inr (q', r)"
              using step w False Some c Payload s new True by simp
            then show ?thesis using s12 keys by (auto split: if_splits)
          next
            case nz: False
            then have "vsa_loop tw lw cont vendor (drop n rest) (tlvs @ new) p2 = Inr (q', r)"
              using step w False Some c Payload s new by simp
            from 1(2) [OF False w(1) w(2) refl Some c [symmetric] Payload s [symmetric] new nz this keys]
            show ?thesis using s12 same_but_trans by blast
          qed
        qed
      qed
    qed
  qed
qed

lemma vendor_attribute_same:
  assumes "pkt_decode_vendor_attribute v q = Inr (kvs, q')"
  shows "same_but q q' \<and> (KInt 80 \<notin> fst ` set kvs)"
proof -
  obtain tw lw c where f: "packet_vendor_format (p_dict q) (be_val (take 4 v)) = (tw, lw, c)"
    by (cases "packet_vendor_format (p_dict q) (be_val (take 4 v))")
  show ?thesis
  proof (cases "length v < 4 \<or> length (drop 4 v) < tw + lw")
    case True
    then have "pkt_decode_vendor_attribute v q = Inr ([(KInt 26, v)], q)"
      using f by (auto simp: pkt_decode_vendor_attribute_def Let_def)
    then show ?thesis using assms by simp
  next
    case False
    then obtain r where r: "vsa_loop tw lw c (be_val (take 4 v)) (drop 4 v) [] q = Inr (q', r)"
        "kvs = (case r of None \<Rightarrow> [(KInt 26, v)] | Some tlvs \<Rightarrow> tlvs)"
      using assms f by (auto simp: pkt_decode_vendor_attribute_def bindE_eq_Inr)
    then show ?thesis using vsa_loop_same [OF r(1)] by (auto split: option.splits)
  qed
qed

lemma store_slot_same: "store_slot parent ext v q = Inr q' \<Longrightarrow> parent \<noteq> 80 \<Longrightarrow> same_but q q'"
  by (auto simp: store_slot_def raw_setitem_def Let_def bindE_eq_Inr
      intro: same_but_updates split: option.splits store.splits)

lemma extended_same: "pkt_decode_extended parent v q = Inr q' \<Longrightarrow> parent \<noteq> 80 \<Longrightarrow> same_but q q'"
  by (auto simp: pkt_decode_extended_def intro: store_slot_same append_value_same
      split: list.splits option.splits)

lemma long_extended_same:
  assumes "pkt_decode_long_extended_fragment parent v q = Inr q'" "parent \<noteq> 80"
  shows "same_but q q'"
proof -
  have "same_but q q'" if "append_value (KTup k) w (q\<lparr>p_lbuf := L\<rparr>) = Inr q'" for k w L
    using append_value_same [OF that] same_but_updates(2) same_but_trans by blast
  moreover have "same_but q q'" if "store_slot parent e w (q\<lparr>p_lbuf := L\<rparr>) = Inr q'" for e w L
    using store_slot_same [OF that assms(2)] same_but_updates(2) same_but_trans by blast
  ultimately show ?thesis
    using assms(1)
    by (auto simp: pkt_decode_long_extended_fragment_def Let_def intro: same_but_updates
        split: list.splits option.splits if_splits)
qed

lemma decode_avp_same:
  assumes "decode_avp key v q = Inr q'" "key \<noteq> 80"
  shows "same_but q q'"
proof (cases "key = 26")
  case True
  then obtain kvs q1 where v: "pkt_decode_vendor_attribute v q = Inr (kvs, q1)"
      "append_values kvs q1 = Inr q'"
    using assms(1) by (auto simp: decode_avp_def bindE_eq_Inr)
  then show ?thesis
    using vendor_attribute_same [OF v(1)] append_values_same [OF v(2)] same_but_trans by blast
next
  case False
  have t: "same_but q q'" if "or_raise (pkt_decode_tlv_attribute d (KInt key) v q) = Inr q'" for d
    using that tlv_attribute_same [of "KInt key" q d v] assms(2)
    by (cases "pkt_decode_tlv_attribute d (KInt key) v q") (auto simp: or_raise_def split: option.splits)
  show ?thesis
    using assms False t
    by (auto simp: decode_avp_def with_dict_def split: option.splits if_splits
        intro: append_value_same extended_same long_extended_same)
qed

lemma decode_loop_frames:
  "frames x \<Longrightarrow> decode_loop (x @ y) q = Inr q' \<Longrightarrow>
   \<exists>q1. decode_loop x q = Inr q1 \<and> decode_loop y q1 = Inr q' \<and> same_but q q1"
proof (induction x arbitrary: q rule: frames.induct)
  case (3 k l rest)
  then obtain q1 where q1: "decode_avp (uint k) (take (unat l - 2) rest) q = Inr q1"
      "decode_loop (drop (unat l - 2) rest @ y) q1 = Inr q'"
    by (auto simp: bindE_eq_Inr)
  have "uint k \<noteq> 80" "frames (drop (unat l - 2) rest)" using 3(2) by auto
  then show ?case
    using 3(1) [OF _ q1(2)] 3(2) q1(1) decode_avp_same [OF q1(1)] same_but_trans by fastforce
qed auto

lemma decode_loop_ma:
  assumes "frames x" "frames y" "length m = 16" "p_version q = V1_0"
    and "od_get (p_attrs q) (KInt 80) = None" "decode_loop (x @ ma_header @ m @ y) q = Inr q'"
  shows "od_get (p_attrs q') (KInt 80) = Some (Vals [PBytes m])
    \<and> packet_core q' = (packet_core q)\<lparr>p_ma := Some True\<rparr>"
proof -
  from decode_loop_frames [OF assms(1,6)] obtain q1 where
    q1: "decode_loop (ma_header @ m @ y) q1 = Inr q'" "same_but q q1" by blast
  have v: "p_version q1 = V1_0"
  proof -
    have "p_version (packet_core q1) = p_version (packet_core q)" using q1(2) by (simp add: same_but_def)
    then show ?thesis using assms(4) by (simp add: packet_core_def)
  qed
  have h: "pack2 80 (int (length m) + 2) = Inr ma_header"
    using assms(3) by (simp add: pack2_eq_Inr ma_header_def)
  from q1(1) obtain q2 where q2: "decode_avp 80 m q1 = Inr q2" "decode_loop y q2 = Inr q'"
    unfolding decode_loop_frame [OF h] by (auto simp: bindE_eq_Inr)
  have "od_get (p_attrs q1) (KInt 80) = None" using q1(2) assms(5) by (simp add: same_but_def)
  then have q2': "q2 = q1\<lparr>p_ma := Some True, p_attrs := od_set (KInt 80) (Vals [PBytes m]) (p_attrs q1)\<rparr>"
    using q2(1) v by (simp add: decode_avp_def append_value_def raw_extend_def extend_store_def)
  have "same_but q2 q'"
    using decode_loop_frames [OF assms(2), of "[]" q2 q'] q2(2) by simp
  moreover have "packet_core q2 = (packet_core q1)\<lparr>p_ma := Some True\<rparr>"
    by (simp add: q2' packet_core_def)
  moreover have "od_get (p_attrs q2) (KInt 80) = Some (Vals [PBytes m])"
    by (simp add: q2' od_get_set)
  ultimately show ?thesis using q1(2) by (simp add: same_but_def)
qed

lemma mapE_od_get:
  "mapE g es = Inr out \<Longrightarrow> od_get es k = Some s \<Longrightarrow> g (k, s) = Inr (k, s) \<Longrightarrow>
   (\<And>e y. g e = Inr y \<Longrightarrow> fst y = fst e) \<Longrightarrow> od_get out k = Some s"
proof (induction es arbitrary: out)
  case (Cons e es)
  then obtain y ys where y: "g e = Inr y" "mapE g es = Inr ys" "out = y # ys"
    by (auto simp: bindE_eq_Inr)
  then have "fst y = fst e" using Cons.prems(4) by blast
  then show ?case
    using Cons y by (cases e; cases y) (auto split: if_splits)
qed simp

lemma merge_keeps:
  assumes "merge_concat_attributes q = Inr q'" "od_get (p_attrs q) k = Some (Vals [v])"
  shows "od_get (p_attrs q') k = Some (Vals [v]) \<and> packet_core q' = packet_core q"
proof (cases "p_dict q")
  case None
  then show ?thesis using assms by (simp add: merge_concat_attributes_def)
next
  case (Some d)
  let ?g = "\<lambda>(k, s).
            case s of
              Vals vs \<Rightarrow>
                if is_concat_attribute (Some d) k \<and> length vs > 1
                then bindE (concat_values vs) (\<lambda>v. Inr (k, Vals [v])) else Inr (k, s)
            | Sub _ \<Rightarrow> Inr (k, s)"
  from assms(1) obtain st where st: "mapE ?g (p_attrs q) = Inr st" "q' = q\<lparr>p_attrs := st\<rparr>"
    by (auto simp: merge_concat_attributes_def Some bindE_eq_Inr)
  have f: "fst y = fst e" if "?g e = Inr y" for e y
    using that by (cases e; cases "snd e") (auto simp: bindE_eq_Inr split: if_splits)
  have "od_get st k = Some (Vals [v])"
    by (rule mapE_od_get [OF st(1) assms(2)]) (use f in auto)
  then show ?thesis by (simp add: st(2) packet_core_def)
qed

lemma split_keeps:
  assumes "od_get (p_attrs q) (KInt 80) = Some (Vals [v])"
    and "\<And>d. p_dict q = Some d \<Longrightarrow> ma_dict d"
  shows "od_get (p_attrs (split_array_attributes q)) (KInt 80) = Some (Vals [v])
    \<and> packet_core (split_array_attributes q) = packet_core q"
proof (cases "p_dict q")
  case None
  then show ?thesis using assms by (simp add: split_array_attributes_def)
next
  case (Some d)
  have e: "split_array_entry d (KInt 80, Vals [v]) = (KInt 80, Vals [v])"
    using assms(2) [OF Some]
    by (auto simp: split_array_entry_def ma_dict_def ARRAY_TYPE_SIZE_def split: option.splits)
  have f: "fst (split_array_entry d e) = fst e" for e
    by (auto simp: split_array_entry_def split: prod.splits option.splits store.splits)
  have "od_get (map (split_array_entry d) es) (KInt 80) = Some (Vals [v])"
    if "od_get es (KInt 80) = Some (Vals [v])" for es
    using that
  proof (induction es)
    case (Cons x es)
    obtain k s where x: "x = (k, s)" by (cases x)
    obtain k' s' where y: "split_array_entry d x = (k', s')" by (cases "split_array_entry d x")
    then have "k' = k" using f [of x] x by simp
    then show ?case using Cons x y e by (auto split: if_splits)
  qed simp
  then show ?thesis using assms(1) by (simp add: split_array_attributes_def Some packet_core_def)
qed

section \<open>Header\<close>

lemma pack_header_eq_Inr:
  "pack_header p n = Inr h \<longleftrightarrow> (\<exists>i. p_id p = Some i \<and> 0 \<le> p_code p \<and> p_code p < 256 \<and> 0 \<le> i \<and> i < 256
     \<and> int n < 65536 \<and> h = word_of_int (p_code p) # word_of_int i # be_bytes 2 (int n))"
  by (cases "p_id p") (auto simp: pack_header_def bindE_eq_Inr pack_uint_eq_Inr)

lemma pack_header_length: "pack_header p n = Inr h \<Longrightarrow> length h = 4"
  by (auto simp: pack_header_eq_Inr simp del: be_bytes.simps)

lemma decode_header_wire:
  assumes "pack_header p (20 + length attr) = Inr h" "length auth = 16" "p_version q0 = V1_0"
    and "decode_header (h @ auth @ attr) q0 = Inr q"
  shows "q = q0\<lparr>p_code := p_code p, p_id := p_id p, p_auth := Some auth\<rparr>"
proof -
  from assms(1) obtain i where i: "p_id p = Some i" "0 \<le> p_code p" "p_code p < 256" "0 \<le> i" "i < 256"
      "h = word_of_int (p_code p) # word_of_int i # be_bytes 2 (int (20 + length attr))"
    by (auto simp: pack_header_eq_Inr)
  have l: "length (h @ auth @ attr) = 20 + length attr"
    using assms(2) by (simp add: i(6) del: be_bytes.simps)
  have a: "py_slice (h @ auth @ attr) 4 20 = auth"
    using assms(2) by (simp add: i(6) py_slice_def numeral_eq_Suc)
  have c: "(h @ auth @ attr) ! 0 = word_of_int (p_code p)" "(h @ auth @ attr) ! 1 = word_of_int i"
    by (simp_all add: i(6))
  have n: "\<not> length (h @ auth @ attr) < 20" using l by linarith
  show ?thesis
    using assms(3,4) i(1-5) n unfolding decode_header_def a c Let_def
    by (simp split: if_splits)
qed

lemma decode_wire:
  assumes "pack_header p (20 + length attr) = Inr h" "length auth = 16" "p_version q0 = V1_0"
    and "attr = x @ ma_header @ m @ y" "frames x" "frames y" "length m = 16"
    and "p_dict q0 = Some d" "ma_dict d"
    and "decode_packet (h @ auth @ attr) q0 = Inr q"
  shows "od_get (p_attrs q) (KInt 80) = Some (Vals [PBytes m])
    \<and> packet_core q = (packet_core q0)\<lparr>p_code := p_code p, p_id := p_id p, p_auth := Some auth,
        p_ma := Some True\<rparr>"
proof -
  let ?q1 = "q0\<lparr>p_code := p_code p, p_id := p_id p, p_auth := Some auth, p_attrs := [], p_lbuf := [], p_vbuf := []\<rparr>"
  have dr: "drop 20 (h @ auth @ attr) = attr"
    using pack_header_length [OF assms(1)] assms(2) by simp
  from assms(10) obtain q1 q2 q3 where s: "decode_header (h @ auth @ attr) q0 = Inr q1"
      "decode_loop attr (q1\<lparr>p_attrs := [], p_lbuf := [], p_vbuf := []\<rparr>) = Inr q2"
      "merge_concat_attributes q2 = Inr q3" "q = split_array_attributes q3"
    unfolding decode_packet_def dr by (auto simp: bindE_eq_Inr)
  have q1: "q1 = q0\<lparr>p_code := p_code p, p_id := p_id p, p_auth := Some auth\<rparr>"
    using decode_header_wire [OF assms(1-3) s(1)] .
  have q2: "od_get (p_attrs q2) (KInt 80) = Some (Vals [PBytes m])"
      "packet_core q2 = (packet_core ?q1)\<lparr>p_ma := Some True\<rparr>"
    using decode_loop_ma [OF assms(5,6,7), of ?q1 q2] s(2) assms(3,4) by (simp_all add: q1)
  note q3 = merge_keeps [OF s(3) q2(1)]
  have "p_dict (packet_core q3) = Some d" using q3 q2(2) assms(8) by (simp add: packet_core_def)
  then have "p_dict q3 = Some d" by (simp add: packet_core_def)
  then have "od_get (p_attrs q) (KInt 80) = Some (Vals [PBytes m]) \<and> packet_core q = packet_core q3"
    unfolding s(4) using q3 assms(9) by (intro split_keeps) auto
  moreover have "packet_core ?q1 = (packet_core q0)\<lparr>p_code := p_code p, p_id := p_id p, p_auth := Some auth\<rparr>"
    by (simp add: packet_core_def)
  ultimately show ?thesis using q3 q2(2) by simp
qed

section \<open>Writing and checking the attribute\<close>

definition hexlike :: "bytes \<Rightarrow> bool" where
  "hexlike m \<longleftrightarrow> startswith m hex_prefix"

lemma ma_dict_attribute:
  assumes "ma_dict d"
  obtains a where "dict_getitem d MA_NAME = Inr a" "encode_name d MA_NAME = Inr (KInt 80)"
    "a_type a = ''octets''" "a_encrypt a \<noteq> 2" "backward (a_values a) = []"
  using assms
  by (auto simp: ma_dict_def encode_name_def split: sum.splits intro!: that)

lemma split_ma_name: "split_tag MA_NAME = (MA_NAME, [])"
  by code_simp

lemma setitem_ma:
  assumes "ma_dict d" "p_dict p = Some d" "\<not> hexlike m"
  shows "setitem MA_NAME [PBytes m] p = Inr (p\<lparr>p_attrs := od_set (KInt 80) (Vals [PBytes m]) (p_attrs p)\<rparr>)"
proof -
  from ma_dict_attribute [OF assms(1)] obtain a where
    a: "dict_getitem d MA_NAME = Inr a" "encode_name d MA_NAME = Inr (KInt 80)"
      "a_type a = ''octets''" "a_encrypt a \<noteq> 2" .
  have "encode_attr ''octets'' (PBytes m) = Inr (PBytes m)"
    using assms(3) by (simp add: encode_attr_def encode_octets_def hexlike_def)
  then have "encode_value a (PBytes m) p = Inr (PBytes m, p)"
    using a(3,4) by (simp add: encode_value_def named_value_def)
  then show ?thesis
    using a assms(2)
    by (simp add: setitem_def encode_key_values_def with_dict_def split_ma_name tag_bytes_def raw_setitem_def)
qed

lemma getitem_ma:
  assumes "ma_dict d" "p_dict p = Some d" "od_get (p_attrs p) (KInt 80) = Some (Vals [PBytes m])"
  shows "getitem MA_NAME p = Inr (IList [PBytes m])"
proof -
  from ma_dict_attribute [OF assms(1)] obtain a where
    a: "dict_getitem d MA_NAME = Inr a" "encode_name d MA_NAME = Inr (KInt 80)"
      "a_type a = ''octets''" "a_encrypt a \<noteq> 2" "backward (a_values a) = []" .
  have "decode_value p a (PBytes m) = Inr (PBytes m)"
    using a(3-5) by (simp add: decode_value_def decode_attr_def decode_bytes_def decode_octets_def)
  then show ?thesis
    using a assms(2,3)
    by (simp add: getitem_def with_dict_def raw_getitem_def store_iter_def container_types_def)
qed

lemma zeros_not_hexlike: "\<not> hexlike (zero_octets 16)"
  by code_simp

text \<open>The HMAC the sender computes and writes, and the octets around it.\<close>

lemma encode_attributes_plain:
  "p_deferred p = [] \<Longrightarrow> pkt_encode_attributes p = bindE (encode_stored p []) (\<lambda>x. Inr (x, p))"
  by (simp add: pkt_encode_attributes_def deferred_attribute_codes_def encode_deferred_obfuscated_def)

lemma unhex_pairs_length: "unhex_pairs s = Inr bs \<Longrightarrow> 2 * length bs = length s"
  by (induction s arbitrary: bs rule: unhex_pairs.induct) (auto simp: bindE_eq_Inr split: option.splits)

lemma before_sub_length: "length (before_sub x s) \<le> length s"
  by (induction s) auto

lemma encode_octets_short:
  assumes "hexlike m" "length m = 16" "encode_octets (PBytes m) = Inr v"
  shows "\<exists>b. v = PBytes b \<and> length b < 16"
proof -
  from assms obtain b where b: "unhex_pairs (map unat (before_sub hex_prefix (drop 2 m))) = Inr b" "v = PBytes b"
    by (auto simp: encode_octets_def hexlike_def unhexlify_bytes_def hex_capped_def bindE_eq_Inr split: if_splits)
  have "2 * length b \<le> 14"
    using unhex_pairs_length [OF b(1)] before_sub_length [of hex_prefix "drop 2 m"] assms(2) by simp
  then show ?thesis using b(2) by simp
qed

lemma setitem_ma_value:
  assumes "ma_dict d" "p_dict p = Some d" "setitem MA_NAME [PBytes m] p = Inr p'"
  obtains v where "encode_octets (PBytes m) = Inr v"
    "p' = p\<lparr>p_attrs := od_set (KInt 80) (Vals [v]) (p_attrs p)\<rparr>"
proof -
  from ma_dict_attribute [OF assms(1)] obtain a where
    a: "dict_getitem d MA_NAME = Inr a" "encode_name d MA_NAME = Inr (KInt 80)"
      "a_type a = ''octets''" "a_encrypt a \<noteq> 2" .
  have "encode_value a (PBytes m) p = bindE (encode_octets (PBytes m)) (\<lambda>r. Inr (r, p))"
    using a(3,4) by (simp add: encode_value_def named_value_def encode_attr_def)
  then show ?thesis
    using a assms(2,3)
    by (auto simp: setitem_def encode_key_values_def with_dict_def split_ma_name tag_bytes_def
        raw_setitem_def bindE_eq_Inr intro: that)
qed

lemma ma_store_set: "ma_store d st \<Longrightarrow> ma_store d (od_set (KInt 80) s st)"
proof -
  assume a: "ma_store d st"
  have "set (od_set (KInt 80) s st) \<subseteq> insert (KInt 80, s) (set st)"
    by (induction st) (auto split: if_splits)
  then show ?thesis using a od.wf_set [of st "KInt 80" s] by (auto simp: ma_store_def list_all_iff)
qed

text \<open>
  What a refresh leaves behind: the HMAC over the header, the authenticator of the packet's
  code and the attributes with zeros in the place of the HMAC itself.
\<close>

definition ma_signed :: "packet \<Rightarrow> bytes \<Rightarrow> bool" where
  "ma_signed p m \<longleftrightarrow> (\<exists>h a x y. frames x \<and> frames y \<and> length m = 16 \<and> \<not> hexlike m
     \<and> od_get (p_attrs p) (KInt 80) = Some (Vals [PBytes m])
     \<and> pkt_encode_attributes p = Inr (x @ ma_header @ m @ y, p)
     \<and> pack_header p (20 + length (x @ ma_header @ m @ y)) = Inr h \<and> ma_authenticator p = Inr a
     \<and> m = hmac_md5 (p_secret p) (h @ a @ x @ ma_header @ zero_octets 16 @ y))"

lemma pack_header_cong: "p_code p = p_code q \<Longrightarrow> p_id p = p_id q \<Longrightarrow> pack_header p n = pack_header q n"
  by (simp add: pack_header_def)

lemma ma_authenticator_cong:
  "p_code p = p_code q \<Longrightarrow> p_orig_code p = p_orig_code q \<Longrightarrow> p_auth p = p_auth q \<Longrightarrow>
   ma_authenticator p = ma_authenticator q"
  by (simp add: ma_authenticator_def)

lemma refresh_signed:
  assumes "ma_dict d" "p_dict p = Some d" "p_deferred p = []" "ma_store d (p_attrs p)"
    and "refresh_message_authenticator p = Inr p'"
    and "od_get (p_attrs p') (KInt 80) = Some (Vals [PBytes m])" "length m = 16"
  shows "ma_signed p' m \<and> p' = p\<lparr>p_attrs := od_set (KInt 80) (Vals [PBytes m]) (p_attrs p)\<rparr>"
proof -
  let ?st = "\<lambda>v. od_set (KInt 80) (Vals [PBytes v]) (p_attrs p)"
  let ?p1 = "p\<lparr>p_attrs := ?st (zero_octets 16)\<rparr>"
  have z: "set_ma (zero_octets 16) p = Inr ?p1"
    using setitem_ma [OF assms(1,2) zeros_not_hexlike] by (simp add: set_ma_def)
  obtain attr h a where attr: "encode_stored ?p1 [] = Inr attr"
      and h: "pack_header ?p1 (20 + length attr) = Inr h" and a: "ma_authenticator ?p1 = Inr a"
      and last_set: "setitem MA_NAME [PBytes (hmac_md5 (p_secret p) (h @ a @ attr))] ?p1 = Inr p'"
    using assms(5) z encode_attributes_plain [of ?p1] assms(3)
    by (auto simp: refresh_message_authenticator_def bindE_eq_Inr set_ma_def)
  define mac where "mac = hmac_md5 (p_secret p) (h @ a @ attr)"
  have lm: "length mac = 16" by (simp add: mac_def)
  obtain v where v: "encode_octets (PBytes mac) = Inr v"
      "p' = ?p1\<lparr>p_attrs := od_set (KInt 80) (Vals [v]) (p_attrs ?p1)\<rparr>"
    using setitem_ma_value [OF assms(1) _ last_set [folded mac_def]] assms(2) by auto
  have vm: "v = PBytes m" using assms(6) v(2) by (simp add: od_get_set)
  have nh: "\<not> hexlike mac"
    using encode_octets_short [OF _ lm v(1)] vm assms(7) by auto
  then have m: "m = mac" using v(1) vm by (simp add: encode_octets_def hexlike_def)
  have p': "p' = p\<lparr>p_attrs := ?st m\<rparr>" using v(2) vm by simp
  have st: "od_get (p_attrs ?p1) (KInt 80) = Some (Vals [PBytes (zero_octets 16)])"
    by (simp add: od_get_set)
  obtain x y where xy: "frames x" "frames y" "attr = x @ ma_header @ zero_octets 16 @ y"
    and enc: "\<And>m'. length m' = 16 \<Longrightarrow>
      encode_stored (?p1\<lparr>p_attrs := od_set (KInt 80) (Vals [PBytes m']) (p_attrs ?p1)\<rparr>) []
        = Inr (x @ ma_header @ m' @ y)"
    by (rule encode_around_ma [OF assms(1) _ _ st _ attr])
      (use assms(2,4) ma_store_set in \<open>auto simp: zero_octets_def\<close>)
  have "encode_stored p' [] = Inr (x @ ma_header @ m @ y)"
    using enc [OF assms(7)] by (simp add: p')
  then have e: "pkt_encode_attributes p' = Inr (x @ ma_header @ m @ y, p')"
    using encode_attributes_plain [of p'] assms(3) by (simp add: p')
  have "length (x @ ma_header @ m @ y) = length attr"
    using assms(7) by (simp add: xy(3) zero_octets_def)
  then have "pack_header p' (20 + length (x @ ma_header @ m @ y)) = Inr h"
    using h by (simp add: p' pack_header_cong [of p' ?p1] pack_header_def)
  moreover have "ma_authenticator p' = Inr a"
    using a ma_authenticator_cong [of p' ?p1] by (simp add: p')
  moreover have "m = hmac_md5 (p_secret p') (h @ a @ x @ ma_header @ zero_octets 16 @ y)"
    by (simp add: m mac_def xy(3) p')
  moreover have "\<not> hexlike m" using nh m by simp
  ultimately have "ma_signed p' m" unfolding ma_signed_def using xy(1,2) e assms(6,7) by blast
  then show ?thesis using p' by simp
qed

text \<open>The receiver's check of a decoded datagram.\<close>

text \<open>The outcome of the verification is the comparison of the digests.\<close>

lemma verify_wire_result:
  assumes "ma_dict d" "p_dict q = Some d" "p_ma q = Some True" "p_raw q = Some (h @ auth @ x @ ma_header @ m @ y)"
    and "od_get (p_attrs q) (KInt 80) = Some (Vals [PBytes m])" "length m = 16" "\<not> hexlike m"
    and "frames x" "frames y" "length h = 4" "length auth = 16"
    and "pack_header q (20 + length (x @ ma_header @ m @ y)) = Inr h"
    and "verify_authenticator oa oc q = Inr a"
  shows "\<exists>q'. verify_message_authenticator sec oa oc q
    = Inr (m = hmac_md5 (case sec of Some s \<Rightarrow> if s \<noteq> [] then s else p_secret q | None \<Rightarrow> p_secret q)
        (h @ a @ x @ ma_header @ zero_octets 16 @ y), q')"
proof -
  have dr: "drop 20 (h @ auth @ x @ ma_header @ m @ y) = x @ ma_header @ m @ y"
    using assms(10,11) by simp
  have ne: "h @ auth @ x @ ma_header @ m @ y \<noteq> []" using assms(10) by auto
  have at: "ma_attributes q = Inr (x @ ma_header @ zero_octets 16 @ y, q)"
    unfolding ma_attributes_def assms(4)
    using zero_ma_found [OF assms(8,9,6)] ne by (simp only: dr option.case if_True bindE.simps simp_thms)
  have ln: "length (x @ ma_header @ zero_octets 16 @ y) = length (x @ ma_header @ m @ y)"
    using assms(6) by (simp add: zero_octets_def)
  show ?thesis
    unfolding verify_message_authenticator_def getitem_ma [OF assms(1,2,5)] bindE.simps Let_def at
      prod.case ln assms(12,13) setitem_ma [OF assms(1,2,7)] first_item_def
    using assms(3) by (simp add: as_bytes_def setitem_ma [OF assms(1,2,7)])
qed

lemma verify_wire:
  assumes "ma_dict d" "p_dict q = Some d" "p_ma q = Some True" "p_raw q = Some (h @ auth @ x @ ma_header @ m @ y)"
    and "od_get (p_attrs q) (KInt 80) = Some (Vals [PBytes m])" "length m = 16" "\<not> hexlike m"
    and "frames x" "frames y" "length h = 4" "length auth = 16"
    and "pack_header q (20 + length (x @ ma_header @ m @ y)) = Inr h"
    and "verify_authenticator oa oc q = Inr a"
    and "m = hmac_md5 (case sec of Some s \<Rightarrow> if s \<noteq> [] then s else p_secret q | None \<Rightarrow> p_secret q)
        (h @ a @ x @ ma_header @ zero_octets 16 @ y)"
  shows "\<exists>q'. verify_message_authenticator sec oa oc q = Inr (True, q')"
  using verify_wire_result [OF assms(1-13), of sec] by (simp only: assms(14) [symmetric] simp_thms)

end
