(* ===== verification/Exchange.thy ===== *)
theory Exchange
  imports MessageAuth
begin

text \<open>
  One exchange seen from both ends: what a client sends verifies at a server that shares the
  secret, and the server's Access and Accounting replies verify at the client, while its CoA replies
  do not if they carry a Message-Authenticator. The packets between them are octets: the theorems
  go through serialisation, parsing and verification as the program runs them.
\<close>

section \<open>Fields a parser does not touch\<close>

definition packet_frame :: "packet \<Rightarrow> packet" where
  "packet_frame q = (packet_core q)\<lparr>p_ma := None\<rparr>"

lemma same_but_frame: "same_but q q' \<Longrightarrow> packet_frame q' = packet_frame q"
  by (simp add: same_but_def packet_frame_def)

lemma decode_avp_frame:
  assumes "decode_avp key v q = Inr q'"
  shows "packet_frame q' = packet_frame q"
proof (cases "key = 80")
  case True
  then show ?thesis
    using assms by (auto simp: decode_avp_def append_value_def bindE_eq_Inr packet_frame_def
        packet_core_def split: if_splits)
next
  case False
  then show ?thesis using decode_avp_same [OF assms] same_but_frame by blast
qed

lemma decode_loop_frame_kept: "decode_loop bs q = Inr q' \<Longrightarrow> packet_frame q' = packet_frame q"
proof (induction bs q rule: decode_loop.induct)
  case (3 k l rest q)
  then show ?case by (auto simp: bindE_eq_Inr dest: decode_avp_frame split: if_splits)
qed auto

lemma merge_core: "merge_concat_attributes q = Inr q' \<Longrightarrow> packet_core q' = packet_core q"
  by (auto simp: merge_concat_attributes_def bindE_eq_Inr packet_core_def split: option.splits)

lemma split_core: "packet_core (split_array_attributes q) = packet_core q"
  by (auto simp: split_array_attributes_def packet_core_def split: option.splits)

lemma decode_wire_frame:
  assumes "pack_header p (20 + length attr) = Inr h" "length auth = 16" "p_version q0 = V1_0"
    and "decode_packet (h @ auth @ attr) q0 = Inr q"
  shows "packet_frame q = (packet_frame q0)\<lparr>p_code := p_code p, p_id := p_id p, p_auth := Some auth\<rparr>"
proof -
  from assms(4) obtain q1 q2 q3 where s: "decode_header (h @ auth @ attr) q0 = Inr q1"
      "decode_loop (drop 20 (h @ auth @ attr)) (q1\<lparr>p_attrs := [], p_lbuf := [], p_vbuf := []\<rparr>) = Inr q2"
      "merge_concat_attributes q2 = Inr q3" "q = split_array_attributes q3"
    unfolding decode_packet_def by (auto simp: bindE_eq_Inr)
  have "packet_frame q = packet_frame (q1\<lparr>p_attrs := [], p_lbuf := [], p_vbuf := []\<rparr>)"
    using decode_loop_frame_kept [OF s(2)] merge_core [OF s(3)] split_core [of q3]
    by (simp add: packet_frame_def s(4))
  then show ?thesis
    using decode_header_wire [OF assms(1-3) s(1)] by (simp add: packet_frame_def packet_core_def)
qed

lemma packet_frame_fields:
  assumes "packet_frame q = (packet_frame q0)\<lparr>p_code := c, p_id := i, p_auth := a\<rparr>"
  shows "p_code q = c" "p_id q = i" "p_auth q = a" "p_secret q = p_secret q0" "p_raw q = p_raw q0"
    "p_version q = p_version q0" "p_dict q = p_dict q0" "p_class q = p_class q0" "p_token q = p_token q0"
    "p_req_auth q = p_req_auth q0" "p_deferred q = p_deferred q0"
proof -
  have f: "g (packet_frame q) = g ((packet_frame q0)\<lparr>p_code := c, p_id := i, p_auth := a\<rparr>)" for g :: "packet \<Rightarrow> 'a"
    using assms by simp
  show "p_code q = c" using f [of p_code] by (simp add: packet_frame_def packet_core_def)
  show "p_id q = i" using f [of p_id] by (simp add: packet_frame_def packet_core_def)
  show "p_auth q = a" using f [of p_auth] by (simp add: packet_frame_def packet_core_def)
  show "p_secret q = p_secret q0" using f [of p_secret] by (simp add: packet_frame_def packet_core_def)
  show "p_raw q = p_raw q0" using f [of p_raw] by (simp add: packet_frame_def packet_core_def)
  show "p_version q = p_version q0" using f [of p_version] by (simp add: packet_frame_def packet_core_def)
  show "p_dict q = p_dict q0" using f [of p_dict] by (simp add: packet_frame_def packet_core_def)
  show "p_class q = p_class q0" using f [of p_class] by (simp add: packet_frame_def packet_core_def)
  show "p_token q = p_token q0" using f [of p_token] by (simp add: packet_frame_def packet_core_def)
  show "p_req_auth q = p_req_auth q0" using f [of p_req_auth] by (simp add: packet_frame_def packet_core_def)
  show "p_deferred q = p_deferred q0" using f [of p_deferred] by (simp add: packet_frame_def packet_core_def)
qed

section \<open>Fields a serialiser does not touch\<close>

definition send_frame :: "packet \<Rightarrow> packet" where
  "send_frame p = p\<lparr>p_auth := None, p_pos := 0, p_attrs := []\<rparr>"

text \<open>
  Whatever relates a packet to itself with an authenticator made up, random numbers drawn or
  attributes stored relates it to what the serialisers leave behind.
\<close>

locale sending =
  fixes R :: "packet \<Rightarrow> packet \<Rightarrow> bool"
  assumes refl: "R p p" and trans: "R p q \<Longrightarrow> R q r \<Longrightarrow> R p r"
    and need: "R p (need_authenticator p)" and draw: "R p (p\<lparr>p_pos := k\<rparr>)"
    and attrs: "R p (p\<lparr>p_attrs := st\<rparr>)"
begin

lemma salt: "salt_crypt v p = Inr (c, p') \<Longrightarrow> R p p'"
  by (auto simp: salt_crypt_def bindE_eq_Inr Let_def randrange_def intro: trans [OF need draw])

lemma encoded: "encode_value a v p = Inr (c, p') \<Longrightarrow> R p p'"
  by (auto simp: encode_value_def bindE_eq_Inr dest: salt split: if_splits intro: refl)

lemma encoded_list: "encode_values a t vs p = Inr (c, p') \<Longrightarrow> R p p'"
  by (induction a t vs p arbitrary: c p' rule: encode_values.induct)
    (fastforce simp: bindE_eq_Inr dest: encoded intro: refl trans)+

lemma stored: "setitem k vs p = Inr p' \<Longrightarrow> R p p'"
  by (auto simp: setitem_def encode_key_values_def with_dict_def bindE_eq_Inr raw_setitem_def
      dest!: encoded_list intro: trans [OF _ attrs] split: option.splits prod.splits)

lemma hidden: "pw_crypt v p = Inr (c, p') \<Longrightarrow> R p p'"
  by (auto simp: pw_crypt_def bindE_eq_Inr Let_def intro: refl need split: if_splits option.splits)

lemma deferred_list: "encode_deferred_value_list a t vs p = Inr (c, p') \<Longrightarrow> R p p'"
proof (induction a t vs p arbitrary: c p' rule: encode_deferred_value_list.induct)
  case (1 a t p)
  then show ?case by (simp add: refl)
next
  case (2 a t v vs p)
  from 2(2) obtain x p1 y ys where
    x: "(if needs_pw_crypt a p then
              (if p_class p = AuthC then bindE (pw_crypt v p) (\<lambda>(bs, p'). Inr (PBytes bs, p'))
               else Inl PacketError)
            else encode_value a v p) = Inr (x, p1)"
    and y: "bindE (tag_bytes t) (\<lambda>t. case t of None \<Rightarrow> Inr x | Some t \<Rightarrow> tag_value a t x) = Inr y"
    and ys: "encode_deferred_value_list a t vs p1 = Inr (ys, p')"
    by (auto elim!: bindE_InrE)
  have "R p p1"
    using x by (auto simp: bindE_eq_Inr dest: hidden encoded split: if_splits)
  then show ?case using 2(1) [OF x HOL.refl y ys] by (rule trans)
qed

lemma deferred_one:
  assumes "add_deferred d nv (pending, p) = Inr (pending', p')"
  shows "R p p'"
proof -
  obtain n vs base t where s: "nv = (n, vs)" "split_tag n = (base, t)"
    by (cases nv; cases "split_tag (fst nv)") auto
  from assms obtain a ws p1 where e: "encode_deferred_value_list a t vs p = Inr (ws, p1)"
    and r: "(if is_tlv_sub_attribute d a then
          bindE (parent_key d a) (\<lambda>k.
          case od_get pending k of
            None \<Rightarrow> Inl KeyError
          | Some (Vals _) \<Rightarrow> Inl AttributeError
          | Some (Sub m) \<Rightarrow>
              bindE (extend_store (od_get m (a_code a)) ws) (\<lambda>s.
              Inr (od_set k (Sub (od_set (a_code a) s m)) pending, p1)))
        else
          bindE (encode_name d base) (\<lambda>k.
          bindE (raw_extend k ws pending) (\<lambda>pending'. Inr (pending', p1)))) = Inr (pending', p')"
    unfolding add_deferred_def s by (auto simp: s elim!: bindE_InrE)
  have "p' = p1"
  proof (cases "is_tlv_sub_attribute d a")
    case True
    then obtain k where "(case od_get pending k of
            None \<Rightarrow> Inl KeyError
          | Some (Vals _) \<Rightarrow> Inl AttributeError
          | Some (Sub m) \<Rightarrow>
              bindE (extend_store (od_get m (a_code a)) ws) (\<lambda>s.
              Inr (od_set k (Sub (od_set (a_code a) s m)) pending, p1))) = Inr (pending', p')"
      using r by (auto elim!: bindE_InrE)
    then show ?thesis
      by (cases "od_get pending k"; cases "the (od_get pending k)") (auto simp: bindE_eq_Inr)
  next
    case False
    then show ?thesis using r by (auto simp: bindE_eq_Inr)
  qed
  then show ?thesis using e deferred_list by blast
qed

lemma serialised:
  assumes "pkt_encode_attributes p = Inr (x, p')"
  shows "R p p'"
proof -
  have k: "R (snd st) (snd st')" if "foldE (add_deferred d) nvs st = Inr st'" for d nvs st st'
    using that
  proof (induction nvs arbitrary: st)
    case Nil
    then show ?case by (simp add: refl)
  next
    case (Cons nv nvs)
    then obtain st1 where st1: "add_deferred d nv st = Inr st1" "foldE (add_deferred d) nvs st1 = Inr st'"
      by (auto simp: bindE_eq_Inr)
    then have "R (snd st) (snd st1)"
      using deferred_one by (cases st; cases st1) auto
    then show ?case using Cons.IH [OF st1(2)] by (rule trans)
  qed
  from assms obtain y where "encode_deferred_obfuscated p = Inr (y, p')"
    by (auto simp: pkt_encode_attributes_def bindE_eq_Inr)
  then show ?thesis
    using k refl by (fastforce simp: encode_deferred_obfuscated_def with_dict_def bindE_eq_Inr Let_def
        split: if_splits option.splits)
qed

lemma refreshed: "refresh_message_authenticator p = Inr p' \<Longrightarrow> R p p'"
  by (auto simp: refresh_message_authenticator_def set_ma_def bindE_eq_Inr
      dest!: stored serialised intro: trans)

lemma refreshed_if_set: "refresh_if_set p = Inr p' \<Longrightarrow> R p p'"
  by (auto simp: refresh_if_set_def dest: refreshed split: if_splits intro: refl)

end

lemma need_authenticator_send: "send_frame (need_authenticator p) = send_frame p"
proof -
  obtain a k where "need_authenticator p = p\<lparr>p_auth := Some a, p_pos := k\<rparr>"
    using need_authenticator_frame [of p] by metis
  then show ?thesis by (simp add: send_frame_def)
qed

interpretation send: sending "\<lambda>p q. send_frame q = send_frame p"
  by unfold_locales (simp_all add: need_authenticator_send, simp_all add: send_frame_def)

text \<open>An authenticator stays; one that is made up has sixteen octets.\<close>

fun auth_step :: "bytes option \<Rightarrow> bytes option \<Rightarrow> bool" where
  "auth_step (Some a) y \<longleftrightarrow> y = Some a"
| "auth_step None None \<longleftrightarrow> True"
| "auth_step None (Some a) \<longleftrightarrow> length a = 16"

lemma auth_step_refl: "auth_step x x"
  by (cases x) simp_all

lemma auth_step_trans: "auth_step x y \<Longrightarrow> auth_step y z \<Longrightarrow> auth_step x z"
  by (cases x; cases y; cases z) simp_all

definition auth_kept :: "packet \<Rightarrow> packet \<Rightarrow> bool" where
  "auth_kept p q \<longleftrightarrow> auth_step (p_auth p) (p_auth q)"

lemma need_authenticator_kept: "auth_kept p (need_authenticator p)"
proof -
  obtain a k where n: "need_authenticator p = p\<lparr>p_auth := Some a, p_pos := k\<rparr>"
    "p_auth p = None \<Longrightarrow> length a = 16" "p_auth p \<noteq> None \<Longrightarrow> p_auth p = Some a"
    by (rule need_authenticator_frame [of p]) (rule that)
  then show ?thesis by (cases "p_auth p") (auto simp: auth_kept_def)
qed

interpretation auth: sending auth_kept
proof
  show "auth_kept p r" if "auth_kept p q" "auth_kept q r" for p q r
    using that unfolding auth_kept_def by (rule auth_step_trans)
qed (simp_all add: need_authenticator_kept, simp_all add: auth_kept_def auth_step_refl)

lemma setitem_auth: "setitem k vs p = Inr p' \<Longrightarrow> p_auth p = Some a \<Longrightarrow> p_auth p' = Some a"
  by (drule auth.stored) (simp add: auth_kept_def)

lemmas setitem_send = send.stored
lemmas encode_attributes_send = send.serialised
lemmas refresh_send = send.refreshed
lemmas refresh_if_set_send = send.refreshed_if_set

lemma send_frame_fields:
  assumes "send_frame q = send_frame p"
  shows "p_secret q = p_secret p" "p_dict q = p_dict p" "p_code q = p_code p" "p_id q = p_id p"
    "p_orig_code q = p_orig_code p" "p_deferred q = p_deferred p" "p_version q = p_version p"
    "p_class q = p_class p" "p_ma q = p_ma p"
proof -
  have f: "g (send_frame q) = g (send_frame p)" for g :: "packet \<Rightarrow> 'a" using assms by simp
  show "p_secret q = p_secret p" using f [of p_secret] by (simp add: send_frame_def)
  show "p_dict q = p_dict p" using f [of p_dict] by (simp add: send_frame_def)
  show "p_code q = p_code p" using f [of p_code] by (simp add: send_frame_def)
  show "p_id q = p_id p" using f [of p_id] by (simp add: send_frame_def)
  show "p_orig_code q = p_orig_code p" using f [of p_orig_code] by (simp add: send_frame_def)
  show "p_deferred q = p_deferred p" using f [of p_deferred] by (simp add: send_frame_def)
  show "p_version q = p_version p" using f [of p_version] by (simp add: send_frame_def)
  show "p_class q = p_class p" using f [of p_class] by (simp add: send_frame_def)
  show "p_ma q = p_ma p" using f [of p_ma] by (simp add: send_frame_def)
qed

section \<open>Requests whose authenticator is a digest of the body\<close>

lemma pkt_encode_pack_header_same:
  "pack_header p n = Inr h \<Longrightarrow> p_code q = p_code p \<Longrightarrow> p_id q = p_id p \<Longrightarrow> pack_header q n = Inr h"
  by (simp add: pack_header_def)

lemma take_drop_wire:
  assumes "length h = 4" "length a = 16"
  shows "take 4 (h @ a @ attr) = h" "drop 20 (h @ a @ attr) = attr" "py_slice (h @ a @ attr) 4 20 = a"
  using assms by (simp_all add: py_slice_def)

lemma body_md5_verifies:
  assumes "encode_v10_body_md5 p = Inr (w, p')" "p_secret p = p_secret q0" "p_version q0 = V1_0"
    and "decode_packet w (q0\<lparr>p_raw := Some w\<rparr>) = Inr q"
  shows "verify_packet q = Inr True"
proof -
  obtain p1 attr p2 h where s: "refresh_if_set p = Inr p1" "pkt_encode_attributes p1 = Inr (attr, p2)"
      "pack_header p2 (20 + length attr) = Inr h"
    and w: "w = h @ md5 (h @ zero_octets 16 @ attr @ p_secret p2) @ attr"
    using assms(1) by (auto simp: encode_v10_body_md5_def bindE_eq_Inr Let_def)
  have sec: "p_secret p2 = p_secret p"
    using send_frame_fields(1) refresh_if_set_send [OF s(1)] encode_attributes_send [OF s(2)] by metis
  let ?a = "md5 (h @ zero_octets 16 @ attr @ p_secret p2)"
  have f: "packet_frame q = (packet_frame (q0\<lparr>p_raw := Some w\<rparr>))
      \<lparr>p_code := p_code p2, p_id := p_id p2, p_auth := Some ?a\<rparr>"
    using decode_wire_frame [OF s(3), of ?a "q0\<lparr>p_raw := Some w\<rparr>" q] assms(3,4) by (simp add: w)
  note q = packet_frame_fields [OF f]
  have "h \<noteq> []" using pack_header_length [OF s(3)] by auto
  then show ?thesis
    using q take_drop_wire [OF pack_header_length [OF s(3)], of ?a attr] assms(2,3) sec
    by (simp add: verify_packet_def w)
qed

section \<open>Requests with a Message-Authenticator\<close>

lemma packet_core_fields:
  assumes "packet_core q = (packet_core q0)\<lparr>p_code := c, p_id := i, p_auth := a, p_ma := b\<rparr>"
  shows "p_code q = c" "p_id q = i" "p_auth q = a" "p_secret q = p_secret q0" "p_ma q = b"
    "p_raw q = p_raw q0" "p_dict q = p_dict q0" "p_version q = p_version q0" "p_deferred q = p_deferred q0"
proof -
  have f: "g (packet_core q) = g ((packet_core q0)\<lparr>p_code := c, p_id := i, p_auth := a, p_ma := b\<rparr>)"
    for g :: "packet \<Rightarrow> 'a"
    using assms by simp
  show "p_code q = c" using f [of p_code] by (simp add: packet_core_def)
  show "p_id q = i" using f [of p_id] by (simp add: packet_core_def)
  show "p_auth q = a" using f [of p_auth] by (simp add: packet_core_def)
  show "p_secret q = p_secret q0" using f [of p_secret] by (simp add: packet_core_def)
  show "p_ma q = b" using f [of p_ma] by (simp add: packet_core_def)
  show "p_raw q = p_raw q0" using f [of p_raw] by (simp add: packet_core_def)
  show "p_dict q = p_dict q0" using f [of p_dict] by (simp add: packet_core_def)
  show "p_version q = p_version q0" using f [of p_version] by (simp add: packet_core_def)
  show "p_deferred q = p_deferred q0" using f [of p_deferred] by (simp add: packet_core_def)
qed

lemma encode_v10_randomE:
  assumes "encode_v10_random p = Inr (w, p')"
  obtains p1 attr h a where "refresh_if_set (need_authenticator p) = Inr p1"
    "pkt_encode_attributes p1 = Inr (attr, p')" "pack_header p' (20 + length attr) = Inr h"
    "p_auth p' = Some a" "w = h @ pack_s 16 a @ attr"
proof -
  from assms obtain p1 attr p2 h where s: "refresh_if_set (need_authenticator p) = Inr p1"
    "pkt_encode_attributes p1 = Inr (attr, p2)" "pack_header p2 (20 + length attr) = Inr h"
    "(case p_auth p2 of None \<Rightarrow> Inl StructError | Some a \<Rightarrow> Inr (h @ pack_s 16 a @ attr, p2)) = Inr (w, p')"
    by (auto simp: encode_v10_random_def elim!: bindE_InrE)
  then obtain a where "p_auth p2 = Some a" "p2 = p'" "w = h @ pack_s 16 a @ attr"
    by (cases "p_auth p2") auto
  then show ?thesis using that s by blast
qed

lemma random_request_signed:
  assumes "ma_dict d" "p_dict p = Some d" "p_deferred p = []" "ma_store d (p_attrs p)"
    and "p_ma p = Some True" "p_code p \<in> {pt AccessRequest, pt StatusServer}"
    and "case p_auth p of None \<Rightarrow> True | Some a \<Rightarrow> length a = 16"
    and "encode_v10_random p = Inr (w, p')"
    and "od_get (p_attrs p') (KInt 80) = Some (Vals [PBytes m])" "length m = 16"
    and "p_dict q0 = Some d" "p_secret q0 = p_secret p" "p_version q0 = V1_0"
    and "decode_packet w (q0\<lparr>p_raw := Some w\<rparr>) = Inr q"
  shows "p_ma q = Some True \<and> (\<exists>q'. verify_message_authenticator None None None q = Inr (True, q'))"
proof -
  obtain a k where n: "need_authenticator p = p\<lparr>p_auth := Some a, p_pos := k\<rparr>"
    and r: "p_auth p = None \<Longrightarrow> length a = 16" "p_auth p \<noteq> None \<Longrightarrow> p_auth p = Some a"
    by (rule need_authenticator_frame [of p]) (rule that)
  have la: "length a = 16"
  proof (cases "p_auth p")
    case None
    then show ?thesis using r(1) by blast
  next
    case (Some b)
    then show ?thesis using r(2) assms(7) by simp
  qed
  let ?n = "p\<lparr>p_auth := Some a, p_pos := k\<rparr>"
  obtain p1 attr h b where s': "refresh_if_set (need_authenticator p) = Inr p1"
      "pkt_encode_attributes p1 = Inr (attr, p')" "pack_header p' (20 + length attr) = Inr h"
    and w: "p_auth p' = Some b" "w = h @ pack_s 16 b @ attr"
    by (rule encode_v10_randomE [OF assms(8)]) (rule that)
  have "p_ma ?n = Some True" using assms(5) by simp
  then have s: "refresh_message_authenticator ?n = Inr p1" "pkt_encode_attributes p1 = Inr (attr, p')"
      "pack_header p' (20 + length attr) = Inr h"
    using s' by (simp_all add: n refresh_if_set_def)
  have "send_frame p1 = send_frame ?n" using refresh_send [OF s(1)] .
  then have "p_deferred p1 = p_deferred ?n" by (rule send_frame_fields)
  then have "p_deferred p1 = []" using assms(3) by simp
  then have p21: "p' = p1" using s(2) encode_attributes_plain [of p1] by (auto simp: bindE_eq_Inr)
  have sg: "ma_signed p1 m \<and> p1 = ?n\<lparr>p_attrs := od_set (KInt 80) (Vals [PBytes m]) (p_attrs ?n)\<rparr>"
    by (rule refresh_signed [OF assms(1) _ _ _ s(1) _ assms(10)])
      (use assms(2-4,9) p21 in simp_all)
  then have e: "p1 = ?n\<lparr>p_attrs := od_set (KInt 80) (Vals [PBytes m]) (p_attrs ?n)\<rparr>" by blast
  have p1: "p_auth p1 = Some a" "p_secret p1 = p_secret p" "p_code p1 = p_code p" "p_id p1 = p_id p"
    by (simp_all add: e)
  from sg have "ma_signed p1 m" by blast
  then obtain h' a' x y where x0: "frames x" "frames y" "\<not> hexlike m"
    and e1: "pkt_encode_attributes p1 = Inr (x @ ma_header @ m @ y, p1)"
    and h0: "pack_header p1 (20 + length (x @ ma_header @ m @ y)) = Inr h'" "ma_authenticator p1 = Inr a'"
      "m = hmac_md5 (p_secret p1) (h' @ a' @ x @ ma_header @ zero_octets 16 @ y)"
    unfolding ma_signed_def by blast
  have at: "attr = x @ ma_header @ m @ y" using s(2) e1 by simp
  note x = x0 at
  have h': "pack_header p1 (20 + length attr) = Inr h'" "ma_authenticator p1 = Inr a'"
      "m = hmac_md5 (p_secret p1) (h' @ a' @ x @ ma_header @ zero_octets 16 @ y)"
    using h0 by (simp_all only: at)
  have same: "h' = h" "a' = a"
    using h' s(3) p21 p1 assms(6) by (auto simp: ma_authenticator_def body_md5_codes_def)
  have w': "w = h @ a @ attr" using w p21 p1(1) la by (simp add: pack_s_def)
  have q: "od_get (p_attrs q) (KInt 80) = Some (Vals [PBytes m])
    \<and> packet_core q = (packet_core (q0\<lparr>p_raw := Some w\<rparr>))
      \<lparr>p_code := p_code p1, p_id := p_id p1, p_auth := Some a, p_ma := Some True\<rparr>"
    by (rule decode_wire [OF _ la _ x(4,1,2) assms(10) _ assms(1)])
      (use s(3) p21 assms(11,13,14) w' in simp_all)
  note qf = packet_core_fields [OF conjunct2 [OF q]]
  have "\<exists>q'. verify_message_authenticator None None None q = Inr (True, q')"
  proof (rule verify_wire [OF assms(1) _ qf(5) _ conjunct1 [OF q] assms(10) x(3,1,2) _ la])
    show "p_raw q = Some (h @ a @ x @ ma_header @ m @ y)" using qf(6) w' x(4) by simp
    show "pack_header q (20 + length (x @ ma_header @ m @ y)) = Inr h"
      using s(3) p21 x(4) qf(1,2) pack_header_cong [of q p1] by simp
    show "verify_authenticator None None q = Inr a"
      using qf(1,3) p1(3) assms(6)
      by (auto simp: verify_authenticator_def body_md5_codes_def access_reply_codes_def)
  qed (use qf assms(11,12) same h'(3) p1(2) pack_header_length [OF s(3)] in simp_all)
  then show ?thesis using qf(5) by simp
qed

section \<open>Replies\<close>

lemma reply_packetE:
  assumes "reply_packet r = Inr (w, r')" "p_version r = V1_0"
  obtains p1 attr h a where "refresh_if_set r = Inr p1"
    "pkt_encode_attributes p1 = Inr (attr, r')" "pack_header r' (20 + length attr) = Inr h"
    "p_auth r' = Some a" "w = h @ md5 (h @ a @ attr @ p_secret r') @ attr"
proof -
  from assms obtain p1 attr p2 h where s: "refresh_if_set r = Inr p1"
    "pkt_encode_attributes p1 = Inr (attr, p2)" "pack_header p2 (20 + length attr) = Inr h"
    "(case p_auth p2 of None \<Rightarrow> Inl TypeError
      | Some a \<Rightarrow> Inr (h @ md5 (h @ a @ attr @ p_secret p2) @ attr, p2)) = Inr (w, r')"
    by (auto simp: reply_packet_def elim!: bindE_InrE split: if_split_asm)
  then obtain a where "p_auth p2 = Some a" "p2 = r'" "w = h @ md5 (h @ a @ attr @ p_secret p2) @ attr"
    by (cases "p_auth p2") auto
  then show ?thesis using that s by blast
qed

definition reply_codes :: "int list" where
  "reply_codes = pt AccountingResponse # access_reply_codes"

text \<open>Both ends put the same octets in the place of the authenticator.\<close>

lemma reply_authenticators:
  assumes "p_code r \<in> set reply_codes" "p_code q = p_code r" "p_auth r = Some a" "p_orig_code r = Some c"
    and "ma_authenticator r = Inr b"
  shows "verify_authenticator (Some a) (Some c) q = Inr b"
  using assms
  by (auto simp: ma_authenticator_def verify_authenticator_def reply_codes_def access_reply_codes_def
      body_md5_codes_def original_or_own_def split: if_splits)

lemma verify_reply_signed:
  assumes "p_version p = V1_0" "p_id q = p_id p" "pkt_encode_attributes q = Inr (z, q)"
    and "p_auth p = Some a" "md5 (take 4 w @ a @ drop 20 w @ p_secret p) = py_slice w 4 20"
    and "has_message_authenticator q"
    and "verify_message_authenticator (Some (p_secret p)) (Some a) (Some (p_code p)) q = Inr (b, q')"
  shows "verify_reply p q (Some w) enforce = Inr b"
  using assms by (cases b) (simp_all add: verify_reply_def require_valid_message_authenticator_def)

text \<open>
  What a reply with a Message-Authenticator looks like to the client that parses it: the same
  fields, a Response Authenticator over the request authenticator, and a digest made over the
  authenticator that \<^verbatim>\<open>ma_authenticator\<close> chose when it was sent.
\<close>

lemma reply_received:
  assumes "ma_dict d" "p_dict r = Some d" "p_deferred r = []" "ma_store d (p_attrs r)"
    and "p_ma r = Some True" "p_version r = V1_0"
    and "p_auth r = Some a" "p_id p = p_id r" "p_secret p = p_secret r"
    and "reply_packet r = Inr (w, r')"
    and "od_get (p_attrs r') (KInt 80) = Some (Vals [PBytes m])" "length m = 16"
    and "p_dict q0 = Some d" "p_secret q0 = p_secret p" "p_version q0 = V1_0" "p_deferred q0 = []"
    and "decode_packet w (q0\<lparr>p_raw := Some w\<rparr>) = Inr q" "pkt_encode_attributes q = Inr (z, q1)"
  obtains h x y a' ra where "w = h @ ra @ x @ ma_header @ m @ y" "length h = 4" "length ra = 16"
    "frames x" "frames y" "\<not> hexlike m"
    "ra = md5 (h @ a @ x @ ma_header @ m @ y @ p_secret r)"
    "ma_authenticator (r\<lparr>p_attrs := od_set (KInt 80) (Vals [PBytes m]) (p_attrs r)\<rparr>) = Inr a'"
    "m = hmac_md5 (p_secret r) (h @ a' @ x @ ma_header @ zero_octets 16 @ y)"
    "pack_header q (20 + length (x @ ma_header @ m @ y)) = Inr h"
    "p_dict q = Some d" "p_ma q = Some True" "p_raw q = Some w" "p_code q = p_code r" "p_id q = p_id r"
    "p_auth q = Some ra" "p_secret q = p_secret r"
    "od_get (p_attrs q) (KInt 80) = Some (Vals [PBytes m])" "q1 = q"
proof -
  obtain p1 attr h b where s: "refresh_if_set r = Inr p1"
    "pkt_encode_attributes p1 = Inr (attr, r')" "pack_header r' (20 + length attr) = Inr h"
    and w: "p_auth r' = Some b" "w = h @ md5 (h @ b @ attr @ p_secret r') @ attr"
    by (rule reply_packetE [OF assms(10,6)]) (rule that)
  have rf: "refresh_message_authenticator r = Inr p1" using s(1) assms(5) by (simp add: refresh_if_set_def)
  have "p_deferred p1 = p_deferred r" using refresh_send [OF rf] by (rule send_frame_fields)
  then have r': "r' = p1" using s(2) encode_attributes_plain [of p1] assms(3) by (auto simp: bindE_eq_Inr)
  have sg: "ma_signed p1 m \<and> p1 = r\<lparr>p_attrs := od_set (KInt 80) (Vals [PBytes m]) (p_attrs r)\<rparr>"
    by (rule refresh_signed [OF assms(1-4) rf _ assms(12)]) (use assms(11) r' in simp)
  then have e: "p1 = r\<lparr>p_attrs := od_set (KInt 80) (Vals [PBytes m]) (p_attrs r)\<rparr>" by blast
  have p1: "p_auth p1 = Some a" "p_secret p1 = p_secret r" "p_code p1 = p_code r" "p_id p1 = p_id r"
    using assms(7) by (simp_all add: e)
  from sg have "ma_signed p1 m" by blast
  then obtain h' a' x y where x: "frames x" "frames y" "\<not> hexlike m"
    and e1: "pkt_encode_attributes p1 = Inr (x @ ma_header @ m @ y, p1)"
    and h0: "pack_header p1 (20 + length (x @ ma_header @ m @ y)) = Inr h'" "ma_authenticator p1 = Inr a'"
    and mm: "m = hmac_md5 (p_secret p1) (h' @ a' @ x @ ma_header @ zero_octets 16 @ y)"
    unfolding ma_signed_def by blast
  have at: "attr = x @ ma_header @ m @ y" using s(2) e1 by simp
  have hh: "h' = h" using s(3) h0(1) unfolding at r' by simp
  let ?ra = "md5 (h @ a @ attr @ p_secret r)"
  have w': "w = h @ ?ra @ attr" using w r' p1(1,2) by simp
  have q: "od_get (p_attrs q) (KInt 80) = Some (Vals [PBytes m])
    \<and> packet_core q = (packet_core (q0\<lparr>p_raw := Some w\<rparr>))
      \<lparr>p_code := p_code p1, p_id := p_id p1, p_auth := Some ?ra, p_ma := Some True\<rparr>"
    by (rule decode_wire [OF _ _ _ at x(1,2) assms(12) _ assms(1)])
      (use s(3) r' assms(13,15,17) w' in simp_all)
  note qf = packet_core_fields [OF conjunct2 [OF q]]
  have q1: "q1 = q"
    using assms(16,18) encode_attributes_plain [of q] qf(9) by (auto simp: bindE_eq_Inr)
  show ?thesis
  proof (rule that [where h = h and x = x and y = y and a' = a' and ra = ?ra])
    show "pack_header q (20 + length (x @ ma_header @ m @ y)) = Inr h"
      using h0(1) hh qf(1,2) pack_header_cong [of q p1] by simp
    show "ma_authenticator (r\<lparr>p_attrs := od_set (KInt 80) (Vals [PBytes m]) (p_attrs r)\<rparr>) = Inr a'"
      using h0(2) by (simp only: e)
    show "m = hmac_md5 (p_secret r) (h @ a' @ x @ ma_header @ zero_octets 16 @ y)"
      using mm by (simp only: hh p1(2))
    show "w = h @ ?ra @ x @ ma_header @ m @ y" using w' by (simp only: at)
    show "?ra = md5 (h @ a @ x @ ma_header @ m @ y @ p_secret r)" by (simp add: at)
  qed (use qf conjunct1 [OF q] q1 x p1 assms(9,13,14) pack_header_length [OF s(3)] in simp_all)
qed

lemma reply_accepted:
  assumes "ma_dict d" "p_dict r = Some d" "p_deferred r = []" "ma_store d (p_attrs r)"
    and "p_ma r = Some True" "p_code r \<in> set reply_codes" "p_version r = V1_0"
    and "p_auth r = Some a" "p_orig_code r = Some (p_code p)"
    and "reply_packet r = Inr (w, r')"
    and "od_get (p_attrs r') (KInt 80) = Some (Vals [PBytes m])" "length m = 16"
    and "p_version p = V1_0" "p_auth p = Some a" "p_id p = p_id r" "p_secret p = p_secret r"
    and "p_dict q0 = Some d" "p_secret q0 = p_secret p" "p_version q0 = V1_0" "p_deferred q0 = []"
    and "decode_packet w (q0\<lparr>p_raw := Some w\<rparr>) = Inr q" "pkt_encode_attributes q = Inr (z, q1)"
  shows "verify_reply p q (Some w) enforce = Inr True"
proof -
  obtain h x y a' ra where g: "w = h @ ra @ x @ ma_header @ m @ y" "length h = 4" "length ra = 16"
    "frames x" "frames y" "\<not> hexlike m"
    "ra = md5 (h @ a @ x @ ma_header @ m @ y @ p_secret r)"
    "ma_authenticator (r\<lparr>p_attrs := od_set (KInt 80) (Vals [PBytes m]) (p_attrs r)\<rparr>) = Inr a'"
    "m = hmac_md5 (p_secret r) (h @ a' @ x @ ma_header @ zero_octets 16 @ y)"
    "pack_header q (20 + length (x @ ma_header @ m @ y)) = Inr h"
    "p_dict q = Some d" "p_ma q = Some True" "p_raw q = Some w" "p_code q = p_code r" "p_id q = p_id r"
    "p_auth q = Some ra" "p_secret q = p_secret r"
    "od_get (p_attrs q) (KInt 80) = Some (Vals [PBytes m])" "q1 = q"
    by (rule reply_received [OF assms(1-5,7,8,15,16,10-12,17-22)]) (rule that)
  have "\<exists>q'. verify_message_authenticator (Some (p_secret p)) (Some a) (Some (p_code p)) q = Inr (True, q')"
  proof (rule verify_wire [OF assms(1) g(11,12) _ g(18) assms(12) g(6,4,5,2,3,10)])
    show "verify_authenticator (Some a) (Some (p_code p)) q = Inr a'"
      by (rule reply_authenticators [OF _ _ _ _ g(8)]) (use assms(6,8,9) g(14) in simp_all)
  qed (use g(1,9,13,17) assms(16) in simp_all)
  moreover have "has_message_authenticator q" using g(12) by (simp add: has_message_authenticator_def)
  ultimately show ?thesis
    using g assms(13-16,22) take_drop_wire [OF g(2,3), of "x @ ma_header @ m @ y"]
    by (auto simp: verify_reply_def require_valid_message_authenticator_def)
qed

section \<open>Properties\<close>

lemma ensure_id_fields [simp]:
  "p_dict (ensure_id p) = p_dict p" "p_deferred (ensure_id p) = p_deferred p"
  "p_attrs (ensure_id p) = p_attrs p" "p_ma (ensure_id p) = p_ma p" "p_code (ensure_id p) = p_code p"
  "p_auth (ensure_id p) = p_auth p" "p_secret (ensure_id p) = p_secret p"
  "p_version (ensure_id p) = p_version p" "p_class (ensure_id p) = p_class p"
  by (simp_all add: ensure_id_def create_id_def randrange_def)

lemma parse_packetE:
  assumes "parse_packet w secret d V1_0 rng pos cur = Inr (q, cur')"
  obtains q0 where "p_dict q0 = d" "p_secret q0 = secret" "p_version q0 = V1_0" "p_deferred q0 = []"
    "decode_packet w (q0\<lparr>p_raw := Some w\<rparr>) = Inr q"
proof (cases w)
  case (Cons c cs)
  then show ?thesis
    using assms that [of "fst (new_packet (packet_class_of (uint c))
        (default_code (packet_class_of (uint c))) None secret None V1_0 d rng pos cur)"]
    by (auto simp: parse_packet_def new_packet_def Let_def bindE_eq_Inr)
qed (use assms in \<open>simp add: parse_packet_def\<close>)

text \<open>
  C2 An Access-Request that carries a Message-Authenticator is accepted by the receiver's policy,
  whatever it requires: the client serialises the request (which hashes the packet with a zeroed
  attribute and stores the digest), the server parses the octets with the same secret, zeroes the
  attribute in what it received and finds the same digest. The digest must not be taken for
  hexadecimal text when it is stored, which is the condition on its length.
\<close>

theorem signed_request_accepted:
  assumes "ma_dict d" "p_dict p = Some d" "p_deferred p = []" "ma_store d (p_attrs p)"
    and "p_class p = AuthC" "p_version p = V1_0" "p_code p = pt AccessRequest" "p_ma p = Some True"
    and "case p_auth p of None \<Rightarrow> True | Some a \<Rightarrow> length a = 16"
    and "request_packet p = Inr (w, p')"
    and "od_get (p_attrs p') (KInt 80) = Some (Vals [PBytes m])" "length m = 16"
    and "parse_packet w (p_secret p) (Some d) V1_0 rng pos cur = Inr (q, cur')"
  shows "\<exists>q'. validate_message_authenticator_policy require require_eap q = Inr q'"
proof -
  have e: "encode_v10_random (ensure_id p) = Inr (w, p')"
    using assms(5,6,10) by (simp add: request_packet_def Let_def)
  obtain q0 where q0: "p_dict q0 = Some d" "p_secret q0 = p_secret p" "p_version q0 = V1_0"
      "decode_packet w (q0\<lparr>p_raw := Some w\<rparr>) = Inr q"
    by (rule parse_packetE [OF assms(13)]) (rule that)
  have "p_ma q = Some True \<and> (\<exists>q'. verify_message_authenticator None None None q = Inr (True, q'))"
    by (rule random_request_signed [OF assms(1) _ _ _ _ _ _ e assms(11,12) q0(1) _ q0(3,4)])
      (use assms q0(2) in simp_all)
  then show ?thesis
    by (auto simp: validate_message_authenticator_policy_def has_message_authenticator_def
        require_valid_message_authenticator_def)
qed

text \<open>A dictionary and packets for the witnesses.\<close>

definition ma_sample_dict :: dictionary where
  "ma_sample_dict =
     register_attribute (sample_attribute ''Message-Authenticator'' 80 ''octets'') (KInt 80) sample_dict0"

definition signed_packet :: "pclass \<Rightarrow> int \<Rightarrow> packet" where
  "signed_packet cls code = (blank_packet (Some ma_sample_dict))\<lparr>p_class := cls, p_code := code,
     p_id := Some 7, p_secret := [115, 51], p_auth := Some (replicate 16 5), p_ma := Some True,
     p_attrs := [(KInt 1, Vals [PBytes [98, 111, 98]])]\<rparr>"

lemma signed_packet_fields [simp]:
  "p_dict (signed_packet cls code) = Some ma_sample_dict" "p_deferred (signed_packet cls code) = []"
  "p_attrs (signed_packet cls code) = [(KInt 1, Vals [PBytes [98, 111, 98]])]"
  "p_class (signed_packet cls code) = cls" "p_code (signed_packet cls code) = code"
  "p_version (signed_packet cls code) = V1_0" "p_ma (signed_packet cls code) = Some True"
  "p_auth (signed_packet cls code) = Some (replicate 16 5)" "p_id (signed_packet cls code) = Some 7"
  "p_secret (signed_packet cls code) = [115, 51]"
  by (simp_all add: signed_packet_def blank_packet_def)

lemma sample_ma: "ma_dict ma_sample_dict" "ma_store ma_sample_dict [(KInt 1, Vals [PBytes [98, 111, 98]])]"
  by code_simp+

fun ma_value :: "store option \<Rightarrow> bool" where
  "ma_value (Some (Vals [PBytes m])) \<longleftrightarrow> length m = 16"
| "ma_value _ \<longleftrightarrow> False"

definition holds_ma :: "packet \<Rightarrow> bool" where
  "holds_ma p = ma_value (od_get (p_attrs p) (KInt 80))"

lemma holds_ma_value: "holds_ma p \<Longrightarrow> \<exists>m. od_get (p_attrs p) (KInt 80) = Some (Vals [PBytes m]) \<and> length m = 16"
  unfolding holds_ma_def by (cases "od_get (p_attrs p) (KInt 80)" rule: ma_value.cases) auto

lemma signed_request_accepted_witness:
  "\<exists>w p' q cur'. request_packet (signed_packet AuthC 1) = Inr (w, p')
    \<and> parse_packet w [115, 51] (Some ma_sample_dict) V1_0 (\<lambda>_. 0) 0 0 = Inr (q, cur')
    \<and> (\<exists>q'. validate_message_authenticator_policy True True q = Inr q')"
proof -
  have "okE (request_packet (signed_packet AuthC 1)) (\<lambda>(w, p'). holds_ma p'
      \<and> okE (parse_packet w [115, 51] (Some ma_sample_dict) V1_0 (\<lambda>_. 0) 0 0) (\<lambda>_. True))"
    by code_simp
  then obtain w p' m q cur' where r: "request_packet (signed_packet AuthC 1) = Inr (w, p')"
      "od_get (p_attrs p') (KInt 80) = Some (Vals [PBytes m])" "length m = 16"
      "parse_packet w [115, 51] (Some ma_sample_dict) V1_0 (\<lambda>_. 0) 0 0 = Inr (q, cur')"
    by (fastforce dest!: okE_Inr holds_ma_value)
  have "\<exists>q'. validate_message_authenticator_policy True True q = Inr q'"
    by (rule signed_request_accepted [OF sample_ma(1) _ _ _ _ _ _ _ _ r(1-3), where q = q])
      (use r(4) sample_ma(2) in simp_all)
  then show ?thesis using r by blast
qed

text \<open>
  C6 Accounting, CoA and Disconnect requests verify at the receiver: the Request Authenticator
  that \<^verbatim>\<open>_encode_v10_body_md5\<close> puts into the header is the one \<^verbatim>\<open>verify_packet\<close> recomputes from
  the octets, whatever the attributes are and whether they hold a Message-Authenticator or not.
\<close>

theorem body_request_verifies:
  assumes "p_class p \<in> {AcctC, CoAC}" "p_version p = V1_0" "request_packet p = Inr (w, p')"
    and "parse_packet w (p_secret p) d V1_0 rng pos cur = Inr (q, cur')"
  shows "verify_packet q = Inr True"
proof -
  have e: "encode_v10_body_md5 (ensure_id p) = Inr (w, p')"
    using assms(1-3) by (auto simp: request_packet_def Let_def)
  obtain q0 where q0: "p_secret q0 = p_secret p" "p_version q0 = V1_0"
      "decode_packet w (q0\<lparr>p_raw := Some w\<rparr>) = Inr q"
    by (rule parse_packetE [OF assms(4)]) (rule that)
  show ?thesis by (rule body_md5_verifies [OF e _ q0(2,3)]) (simp add: q0(1))
qed

lemma body_request_verifies_witness:
  "\<exists>w p' q cur'. request_packet ((signed_packet AcctC 4)\<lparr>p_ma := None\<rparr>) = Inr (w, p')
    \<and> parse_packet w [115, 51] (Some ma_sample_dict) V1_0 (\<lambda>_. 0) 0 0 = Inr (q, cur')
    \<and> verify_packet q = Inr True"
proof -
  have "okE (request_packet ((signed_packet AcctC 4)\<lparr>p_ma := None\<rparr>)) (\<lambda>(w, p').
      okE (parse_packet w [115, 51] (Some ma_sample_dict) V1_0 (\<lambda>_. 0) 0 0) (\<lambda>_. True))"
    by code_simp
  then obtain w p' q cur' where r: "request_packet ((signed_packet AcctC 4)\<lparr>p_ma := None\<rparr>) = Inr (w, p')"
      "parse_packet w [115, 51] (Some ma_sample_dict) V1_0 (\<lambda>_. 0) 0 0 = Inr (q, cur')"
    by (fastforce dest!: okE_Inr)
  have "verify_packet q = Inr True"
    by (rule body_request_verifies [OF _ _ r(1)]) (use r(2) in simp_all)
  then show ?thesis using r by blast
qed

text \<open>
  C5 An Access-Accept, Access-Reject, Access-Challenge or Accounting-Response of RADIUS/1.0 that
  carries a Message-Authenticator is accepted by the client that sent the request, with the
  Message-Authenticator enforced or not: both the Response Authenticator and the keyed digest
  that the server computed over its own view of the packet are the ones the client recomputes
  from the octets and the request it kept. The conditions are that the two ends share the secret
  and the reply has the identifier and the authenticator of the request, that no attribute of
  the reply waits for its encryption (\<open>p_deferred\<close>), that its store keeps attribute 80 apart
  from every other, that the digest is stored as octets (not taken for hexadecimal text), and
  that the parsed attributes can be serialised again, which \<^verbatim>\<open>verify_reply\<close> tries. Replies of the
  CoA family are not among them: they are rejected.
\<close>

theorem signed_reply_accepted:
  assumes "ma_dict d" "p_dict r = Some d" "p_deferred r = []" "ma_store d (p_attrs r)"
    and "p_ma r = Some True" "p_code r \<in> set reply_codes" "p_version r = V1_0"
    and "p_auth r = Some a" "p_orig_code r = Some (p_code p)"
    and "reply_packet r = Inr (w, r')"
    and "od_get (p_attrs r') (KInt 80) = Some (Vals [PBytes m])" "length m = 16"
    and "p_version p = V1_0" "p_auth p = Some a" "p_id p = p_id r" "p_secret p = p_secret r"
    and "parse_packet w (p_secret p) (Some d) V1_0 rng pos cur = Inr (q, cur')"
    and "pkt_encode_attributes q = Inr (z, q1)"
  shows "verify_reply p q (Some w) enforce = Inr True"
proof -
  obtain q0 where q0: "p_dict q0 = Some d" "p_secret q0 = p_secret p" "p_version q0 = V1_0"
      "p_deferred q0 = []" "decode_packet w (q0\<lparr>p_raw := Some w\<rparr>) = Inr q"
    by (rule parse_packetE [OF assms(17)]) (rule that)
  show ?thesis by (rule reply_accepted [OF assms(1-16) q0 assms(18)])
qed

definition signed_reply :: packet where
  "signed_reply = (signed_packet AuthC 2)\<lparr>p_orig_code := Some 1\<rparr>"

lemma signed_reply_accepted_witness:
  "\<exists>w r' q cur'. reply_packet signed_reply = Inr (w, r')
    \<and> parse_packet w [115, 51] (Some ma_sample_dict) V1_0 (\<lambda>_. 0) 0 0 = Inr (q, cur')
    \<and> verify_reply (signed_packet AuthC 1) q (Some w) True = Inr True"
proof -
  have "okE (reply_packet signed_reply) (\<lambda>(w, r'). holds_ma r'
      \<and> okE (parse_packet w [115, 51] (Some ma_sample_dict) V1_0 (\<lambda>_. 0) 0 0) (\<lambda>(q, _).
          okE (pkt_encode_attributes q) (\<lambda>_. True)))"
    by code_simp
  then obtain w r' m q cur' z q1 where r: "reply_packet signed_reply = Inr (w, r')"
      "od_get (p_attrs r') (KInt 80) = Some (Vals [PBytes m])" "length m = 16"
      "parse_packet w [115, 51] (Some ma_sample_dict) V1_0 (\<lambda>_. 0) 0 0 = Inr (q, cur')"
      "pkt_encode_attributes q = Inr (z, q1)"
    by (fastforce dest!: okE_Inr holds_ma_value)
  have "p_code signed_reply \<in> set reply_codes"
    by (simp add: signed_reply_def reply_codes_def access_reply_codes_def)
  then have "verify_reply (signed_packet AuthC 1) q (Some w) True = Inr True"
    by (intro signed_reply_accepted [OF sample_ma(1) _ _ _ _ _ _ _ _ r(1-3) _ _ _ _ _ r(5)])
      (use r(4) sample_ma(2) in \<open>simp_all add: signed_reply_def\<close>)
  then show ?thesis using r(1,4) by blast
qed

text \<open>
  C1 The client accepts nothing else: a reply that \<^verbatim>\<open>verify_reply\<close> accepts has the identifier of
  the request and a Response Authenticator made with the shared secret over the octets received
  and the authenticator of the request, and when the Message-Authenticator is enforced for an
  Access-Request, the reply has one that is verified against the same request.
\<close>

theorem accepted_reply_authentic:
  assumes "verify_reply p q (Some w) enforce = Inr True" "p_version p = V1_0" "p_deferred q = []"
  shows "p_id q = p_id p \<and> (\<exists>a. p_auth p = Some a
    \<and> py_slice w 4 20 = md5 (take 4 w @ a @ drop 20 w @ p_secret p)
    \<and> (enforce \<and> p_code p = pt AccessRequest \<longrightarrow>
        has_message_authenticator q
        \<and> (\<exists>q'. verify_message_authenticator (Some (p_secret p)) (Some a) (Some (p_code p)) q
                 = Inr (True, q'))))"
proof -
  obtain z q1 where e: "pkt_encode_attributes q = Inr (z, q1)" and i: "p_id q = p_id p"
    using assms(1,2) by (auto simp: verify_reply_def bindE_eq_Inr split: if_splits)
  have "q1 = q" using e assms(3) encode_attributes_plain [of q] by (auto simp: bindE_eq_Inr)
  with e i show ?thesis
    using assms(1,2)
    by (auto simp: verify_reply_def require_valid_message_authenticator_def
        split: if_splits option.splits sum.splits prod.splits bool.splits)
qed

lemma accepted_reply_authentic_witness:
  "\<exists>w q a. p_auth (signed_packet AuthC 1) = Some a
    \<and> py_slice w 4 20 = md5 (take 4 w @ a @ drop 20 w @ [115, 51])
    \<and> (\<exists>q'. verify_message_authenticator (Some [115, 51]) (Some a) (Some 1) q = Inr (True, q'))"
proof -
  have "okE (reply_packet signed_reply) (\<lambda>(w, r').
      okE (parse_packet w [115, 51] (Some ma_sample_dict) V1_0 (\<lambda>_. 0) 0 0) (\<lambda>(q, _).
        p_deferred q = [] \<and> okE (verify_reply (signed_packet AuthC 1) q (Some w) True) (\<lambda>b. b)))"
    by code_simp
  then obtain w q where v: "verify_reply (signed_packet AuthC 1) q (Some w) True = Inr True" "p_deferred q = []"
    by (fastforce dest!: okE_Inr)
  have "p_version (signed_packet AuthC 1) = V1_0" by simp
  from accepted_reply_authentic [OF v(1) this v(2)] show ?thesis by auto
qed

text \<open>
  C38 A CoA-ACK, CoA-NAK, Disconnect-ACK or Disconnect-NAK that carries a Message-Authenticator
  fails at the client that sent the request, although the server made it with the shared secret
  and its Response Authenticator is the right one. \<^verbatim>\<open>refresh_message_authenticator\<close> computes the
  digest over the request authenticator; the last branch of \<^verbatim>\<open>verify_message_authenticator\<close>
  compares it with the digest over the response authenticator of the packet it was sent in. The
  client accepts the reply exactly when these two digests collide.
\<close>

definition coa_reply_codes :: "int list" where
  "coa_reply_codes = [pt DisconnectACK, pt DisconnectNAK, pt CoAACK, pt CoANAK]"

theorem coa_reply_with_ma_rejected:
  assumes "ma_dict d" "p_dict r = Some d" "p_deferred r = []" "ma_store d (p_attrs r)"
    and "p_ma r = Some True" "p_code r \<in> set coa_reply_codes" "p_version r = V1_0" "p_auth r = Some a"
    and "reply_packet r = Inr (w, r')"
    and "od_get (p_attrs r') (KInt 80) = Some (Vals [PBytes m])" "length m = 16"
    and "p_version p = V1_0" "p_auth p = Some a" "p_id p = p_id r" "p_secret p = p_secret r"
    and "parse_packet w (p_secret p) (Some d) V1_0 rng pos cur = Inr (q, cur')"
    and "pkt_encode_attributes q = Inr (z, q1)"
  shows "\<exists>attr. zero_message_authenticator (drop 20 w) = Inr attr
    \<and> py_slice w 4 20 = md5 (take 4 w @ a @ drop 20 w @ p_secret p)
    \<and> m = hmac_md5 (p_secret p) (take 4 w @ a @ attr)
    \<and> verify_reply p q (Some w) enforce
        = Inr (hmac_md5 (p_secret p) (take 4 w @ a @ attr)
             = hmac_md5 (p_secret p) (take 4 w @ py_slice w 4 20 @ attr))"
proof -
  obtain q0 where q0: "p_dict q0 = Some d" "p_secret q0 = p_secret p" "p_version q0 = V1_0"
      "p_deferred q0 = []" "decode_packet w (q0\<lparr>p_raw := Some w\<rparr>) = Inr q"
    by (rule parse_packetE [OF assms(16)]) (rule that)
  obtain h x y a' ra where g: "w = h @ ra @ x @ ma_header @ m @ y" "length h = 4" "length ra = 16"
    "frames x" "frames y" "\<not> hexlike m"
    "ra = md5 (h @ a @ x @ ma_header @ m @ y @ p_secret r)"
    "ma_authenticator (r\<lparr>p_attrs := od_set (KInt 80) (Vals [PBytes m]) (p_attrs r)\<rparr>) = Inr a'"
    "m = hmac_md5 (p_secret r) (h @ a' @ x @ ma_header @ zero_octets 16 @ y)"
    "pack_header q (20 + length (x @ ma_header @ m @ y)) = Inr h"
    "p_dict q = Some d" "p_ma q = Some True" "p_raw q = Some w" "p_code q = p_code r" "p_id q = p_id r"
    "p_auth q = Some ra" "p_secret q = p_secret r"
    "od_get (p_attrs q) (KInt 80) = Some (Vals [PBytes m])" "q1 = q"
    by (rule reply_received [OF assms(1-5,7,8,14,15,9-11) q0 assms(17)]) (rule that)
  let ?attr = "x @ ma_header @ zero_octets 16 @ y"
  note sl = take_drop_wire [OF g(2,3), of "x @ ma_header @ m @ y"]
  have a': "a' = a"
    using g(8) assms(6,8)
    by (auto simp: ma_authenticator_def coa_reply_codes_def body_md5_codes_def split: if_splits)
  have "verify_authenticator (Some a) (Some (p_code p)) q = Inr ra"
    using g(14,16) assms(6)
    by (auto simp: verify_authenticator_def coa_reply_codes_def body_md5_codes_def access_reply_codes_def)
  from verify_wire_result [OF assms(1) g(11,12) _ g(18) assms(11) g(6,4,5,2,3,10) this, of "Some (p_secret p)"]
  have v: "\<exists>q'. verify_message_authenticator (Some (p_secret p)) (Some a) (Some (p_code p)) q
      = Inr (m = hmac_md5 (p_secret p) (h @ ra @ ?attr), q')"
    using g(1,13,17) assms(15) by (cases "p_secret r = []") simp_all
  have m: "m = hmac_md5 (p_secret p) (h @ a @ ?attr)" using g(9) a' assms(15) by simp
  have d: "md5 (take 4 w @ a @ drop 20 w @ p_secret p) = py_slice w 4 20"
    unfolding g(1) sl using g(7) assms(15) by simp
  obtain q' where "verify_message_authenticator (Some (p_secret p)) (Some a) (Some (p_code p)) q
      = Inr (m = hmac_md5 (p_secret p) (h @ ra @ ?attr), q')" using v by blast
  from verify_reply_signed [OF assms(12) _ _ assms(13) d _ this]
  have "verify_reply p q (Some w) enforce = Inr (m = hmac_md5 (p_secret p) (h @ ra @ ?attr))"
    using g(12,15,19) assms(14,17) by (simp add: has_message_authenticator_def)
  then have "verify_reply p q (Some w) enforce
      = Inr (hmac_md5 (p_secret p) (h @ a @ ?attr) = hmac_md5 (p_secret p) (h @ ra @ ?attr))"
    by (simp only: m [symmetric])
  moreover have "zero_message_authenticator (drop 20 w) = Inr ?attr"
    using zero_ma_found [OF g(4,5) assms(11)] by (simp only: g(1) sl(2))
  moreover have "ra = md5 (take 4 w @ a @ drop 20 w @ p_secret p)"
    using d [symmetric] unfolding g(1) sl .
  ultimately show ?thesis
    using m unfolding g(1) sl by blast
qed

definition coa_reply :: packet where
  "coa_reply = (signed_packet CoAC 44)\<lparr>p_orig_code := Some 43\<rparr>"

lemma coa_reply_with_ma_rejected_witness:
  "\<exists>w r' q cur'. reply_packet coa_reply = Inr (w, r')
    \<and> parse_packet w [115, 51] (Some ma_sample_dict) V1_0 (\<lambda>_. 0) 0 0 = Inr (q, cur')
    \<and> py_slice w 4 20 = md5 (take 4 w @ replicate 16 5 @ drop 20 w @ [115, 51])
    \<and> verify_reply (signed_packet CoAC 43) q (Some w) False = Inr False"
proof -
  have "okE (reply_packet coa_reply) (\<lambda>(w, r'). holds_ma r'
      \<and> okE (parse_packet w [115, 51] (Some ma_sample_dict) V1_0 (\<lambda>_. 0) 0 0) (\<lambda>(q, _).
          okE (pkt_encode_attributes q) (\<lambda>_. True))
      \<and> okE (zero_message_authenticator (drop 20 w)) (\<lambda>attr.
          hmac_md5 [115, 51] (take 4 w @ replicate 16 5 @ attr)
            \<noteq> hmac_md5 [115, 51] (take 4 w @ py_slice w 4 20 @ attr)))"
    by code_simp
  then obtain w r' m q cur' z q1 attr where r: "reply_packet coa_reply = Inr (w, r')"
      "od_get (p_attrs r') (KInt 80) = Some (Vals [PBytes m])" "length m = 16"
      "parse_packet w [115, 51] (Some ma_sample_dict) V1_0 (\<lambda>_. 0) 0 0 = Inr (q, cur')"
      "pkt_encode_attributes q = Inr (z, q1)"
    and n: "zero_message_authenticator (drop 20 w) = Inr attr"
      "hmac_md5 [115, 51] (take 4 w @ replicate 16 5 @ attr)
        \<noteq> hmac_md5 [115, 51] (take 4 w @ py_slice w 4 20 @ attr)"
    by (fastforce dest!: okE_Inr holds_ma_value)
  have c: "p_code coa_reply \<in> set coa_reply_codes" "p_auth coa_reply = Some (replicate 16 5)"
      "p_version (signed_packet CoAC 43) = V1_0"
    by (simp_all add: coa_reply_def coa_reply_codes_def)
  have "\<exists>attr. zero_message_authenticator (drop 20 w) = Inr attr
    \<and> py_slice w 4 20 = md5 (take 4 w @ replicate 16 5 @ drop 20 w @ p_secret (signed_packet CoAC 43))
    \<and> m = hmac_md5 (p_secret (signed_packet CoAC 43)) (take 4 w @ replicate 16 5 @ attr)
    \<and> verify_reply (signed_packet CoAC 43) q (Some w) False
        = Inr (hmac_md5 (p_secret (signed_packet CoAC 43)) (take 4 w @ replicate 16 5 @ attr)
             = hmac_md5 (p_secret (signed_packet CoAC 43)) (take 4 w @ py_slice w 4 20 @ attr))"
    by (rule coa_reply_with_ma_rejected [OF sample_ma(1) _ _ _ _ c(1) _ c(2) r(1-3) c(3) _ _ _ _ r(5)])
      (use r(4) sample_ma(2) in \<open>simp_all add: coa_reply_def\<close>)
  then show ?thesis using r(1,4) n by auto
qed

text \<open>
  One request in \<open>65536\<close> cannot be signed: storing the digest runs it through \<^verbatim>\<open>encode_octets\<close>,
  which takes a value that begins with \<^verbatim>\<open>0x\<close> for hexadecimal text. For this authenticator the
  digest begins with those two octets, and the request is not serialised.
\<close>

theorem hexlike_digest_unsendable:
  "request_packet ((signed_packet AuthC 1)\<lparr>p_auth := Some ([0, 0, 132, 149] @ replicate 12 5)\<rparr>)
   = Inl BinasciiError"
proof -
  have "failsE (request_packet ((signed_packet AuthC 1)\<lparr>p_auth := Some ([0, 0, 132, 149] @ replicate 12 5)\<rparr>))
      BinasciiError"
    by code_simp
  then show ?thesis by (rule failsE_Inl)
qed

end
