(* ===== verification/Serving.thy ===== *)
theory Serving
  imports Server ServerAsync Exchange
begin

text \<open>
  What the servers guarantee: which requests reach the application's handlers, that a
  retransmission is answered without running a handler again, what can end the main loop of the
  sync server, and where the two servers differ.
\<close>

section \<open>Packets from the wire\<close>

lemma parsed_fields:
  assumes "parse_packet w secret d V1_0 rng pos cur = Inr (q, cur')"
  shows "p_raw q = Some w" "20 \<le> length w" "p_code q = uint (hd w)" "p_id q = Some (uint (w ! 1))"
    "p_auth q = Some (py_slice w 4 20)" "p_secret q = secret" "p_version q = V1_0" "p_dict q = d"
    "p_class q = packet_class_of (uint (hd w))" "p_deferred q = []" "p_token q = None"
    "p_dedup q = None"
proof -
  define q0 where "q0 = (fst (new_packet (packet_class_of (uint (hd w)))
    (default_code (packet_class_of (uint (hd w)))) None secret None V1_0 d rng pos cur))\<lparr>p_raw := Some w\<rparr>"
  have w: "w \<noteq> []" and dec: "decode_packet w q0 = Inr q"
    using assms by (cases w; auto simp: parse_packet_def q0_def new_packet_def Let_def bindE_eq_Inr)+
  from dec obtain q1 q2 q3 where s: "decode_header w q0 = Inr q1"
      "decode_loop (drop 20 w) (q1\<lparr>p_attrs := [], p_lbuf := [], p_vbuf := []\<rparr>) = Inr q2"
      "merge_concat_attributes q2 = Inr q3" "q = split_array_attributes q3"
    unfolding decode_packet_def by (auto simp: bindE_eq_Inr)
  have frame: "packet_frame q = packet_frame (q1\<lparr>p_attrs := [], p_lbuf := [], p_vbuf := []\<rparr>)"
    using decode_loop_frame_kept [OF s(2)] merge_core [OF s(3)] split_core [of q3]
    by (simp add: packet_frame_def s(4))
  have v: "p_version q0 = V1_0" by (simp add: q0_def new_packet_def Let_def)
  show len: "20 \<le> length w" using s(1) by (auto simp: decode_header_def split: if_splits)
  have hd: "w ! 0 = hd w" using w by (simp add: hd_conv_nth)
  have eq: "packet_frame q = (packet_frame q0)\<lparr>p_code := uint (hd w), p_id := Some (uint (w ! 1)),
      p_auth := Some (py_slice w 4 20)\<rparr>"
    using s(1) v frame hd
    by (auto simp: decode_header_def Let_def packet_frame_def packet_core_def split: if_splits)
  note f = packet_frame_fields [OF eq]
  show "p_dedup q = None"
    using arg_cong [OF eq, of p_dedup]
    by (simp add: packet_frame_def packet_core_def q0_def new_packet_def Let_def)
  show "p_raw q = Some w" "p_code q = uint (hd w)" "p_id q = Some (uint (w ! 1))"
    "p_auth q = Some (py_slice w 4 20)" "p_secret q = secret" "p_version q = V1_0" "p_dict q = d"
    "p_class q = packet_class_of (uint (hd w))" "p_deferred q = []" "p_token q = None"
    using f by (simp_all add: q0_def new_packet_def Let_def)
qed


lemma rt_parse_Inr:
  "fst (rt_parse env rt data secret s) = Inr p \<longleftrightarrow>
     data \<noteq> [] \<and> (\<exists>cur. parse_packet data secret (rt_dict rt) V1_0 (env_rng env (sv_packets s)) 0 (sv_cur s)
       = Inr (p, cur))"
  by (auto simp: rt_parse_def bindE_eq_Inr)

section \<open>Storing the digest again changes nothing else\<close>

lemma send_frame_more:
  assumes "send_frame q = send_frame p"
  shows "p_raw q = p_raw p" "p_source q = p_source p" "p_token q = p_token p" "p_dedup q = p_dedup p"
proof -
  have f: "g (send_frame q) = g (send_frame p)" for g :: "packet \<Rightarrow> 'a" using assms by simp
  show "p_raw q = p_raw p" using f [of p_raw] by (simp add: send_frame_def)
  show "p_source q = p_source p" using f [of p_source] by (simp add: send_frame_def)
  show "p_token q = p_token p" using f [of p_token] by (simp add: send_frame_def)
  show "p_dedup q = p_dedup p" using f [of p_dedup] by (simp add: send_frame_def)
qed

lemma verified_same:
  assumes "verify_message_authenticator None None None p = Inr (b, p')" "p_raw p = Some w" "w \<noteq> []"
    "p_auth p = Some a"
  shows "send_frame p' = send_frame p \<and> p_auth p' = Some a"
  using assms
  by (auto simp: verify_message_authenticator_def ma_attributes_def bindE_eq_Inr Let_def
      dest: setitem_send setitem_auth split: if_splits)

lemma policy_Inr:
  assumes "rt_validate_policy rt p = Inr p'" "p_version p = V1_0"
  obtains (Unsigned) "p' = p" "\<not> has_message_authenticator p" "rt_require_ma rt \<longrightarrow> p_code p \<noteq> pt AccessRequest"
      "rt_require_eap rt \<longrightarrow> \<not> has_eap_message p"
    | (Signed) "verify_message_authenticator None None None p = Inr (True, p')"
  using assms
  by (auto simp: rt_validate_policy_def validate_message_authenticator_policy_def
      require_valid_message_authenticator_def split: if_splits sum.splits prod.splits bool.splits)

lemma policy_same:
  assumes "rt_validate_policy rt p = Inr p'" "p_version p = V1_0" "p_raw p = Some w" "w \<noteq> []"
    "p_auth p = Some a"
  shows "send_frame p' = send_frame p \<and> p_auth p' = Some a"
  using assms(1,2)
proof (cases rule: policy_Inr)
  case Unsigned
  then show ?thesis using assms(5) by simp
next
  case Signed
  then show ?thesis by (rule verified_same [OF _ assms(3-5)])
qed

section \<open>What reaches a handler\<close>

text \<open>
  \<open>keeps J m\<close>: the statement \<open>m\<close> keeps \<open>J\<close> of the application's state. Everything in the servers
  but a handler leaves that state alone.
\<close>

abbreviation keeps :: "('u \<Rightarrow> bool) \<Rightarrow> ('u, 'a) srvm \<Rightarrow> bool" where
  "keeps J m \<equiv> preserves (\<lambda>s. J (sv_user s)) m"

lemma keeps_steps [keeps_intros, simp]:
  "keeps J (rt_parse env rt data secret)" "keeps J (dedup_key_for p src)"
  "keeps J (dedup_consult env key dest)" "keeps J (rt_record_reply env reply raw)"
  "keeps J (sendto raw dest)" "keeps J (new_status_packet env rt data secret)"
  by (auto simp: preserves_def rt_parse_def dedup_key_for_def dedup_consult_def rt_record_reply_def
      sendto_def new_status_packet_def new_packet_def Let_def split: prod.split option.split)

lemma drop_in_flight_user [simp]: "sv_user (dedup_drop_in_flight k s) = sv_user s"
  by (simp add: dedup_drop_in_flight_def split: option.split)

lemma keeps_send [keeps_intros, simp]:
  "keeps J (send_response env rt q a)" "keeps J (send_reply_packet env rt q)"
  by (auto simp: send_response_def send_reply_packet_def intro!: keeps_intros split: prod.split)

lemma keeps_status [keeps_intros, simp]:
  "keeps J (handle_status_server env rt ty data secret a)" "keeps J (handle_status_packet env rt p code)"
  by (auto simp: handle_status_server_def handle_status_packet_def intro!: keeps_intros)

text \<open>
  The contract of a handler: on the packets it may be given it keeps \<open>J\<close>. The admitted packets
  do not depend on the duplicate key, which the dispatcher writes into the packet.
\<close>

locale handler_contract =
  fixes J :: "'u \<Rightarrow> bool" and admits :: "packet \<Rightarrow> bool" and h :: "'u handler"
  assumes handles: "admits p \<Longrightarrow> J (sv_user s) \<Longrightarrow> J (sv_user (snd (h p s)))"
    and any_key: "admits p \<Longrightarrow> admits (p\<lparr>p_dedup := k\<rparr>)"
begin

lemma keeps_handler: "admits p \<Longrightarrow> keeps J (h p)"
  by (rule preservesI) (rule handles)

lemma keeps_dispatch: "admits p \<Longrightarrow> keeps J (dedup_dispatch env h src p)"
  unfolding dedup_dispatch_def
  by (auto intro!: keeps_intros keeps_handler any_key split: DispatchAction.split)

lemma keeps_verified_dispatch:
  "(\<And>p'. verify_request rt p = Inr () \<Longrightarrow> rt_validate_policy rt p = Inr p' \<Longrightarrow> admits p') \<Longrightarrow>
   keeps J (verified_dispatch env rt h p)"
  unfolding verified_dispatch_def by (intro preserves_bind_lift keeps_dispatch) simp

end

text \<open>The default CoA handlers keep whatever the application keeps.\<close>

interpretation nak: handler_contract J "\<lambda>_. True" "nak_handler env rt code a"
  for J :: "'u \<Rightarrow> bool" and env rt code a
  by unfold_locales (auto simp: nak_handler_def intro!: preservesD [where I = "\<lambda>s. J (sv_user s)"] keeps_intros)

text \<open>
  What a server has established of a packet from the address \<open>ip\<close>: it knows the host, the
  packet is the octets received, and these are authenticated with the host's secret as far as
  the settings ask for it.
\<close>

definition authentic :: "router \<Rightarrow> string \<Rightarrow> packet \<Rightarrow> bool" where
  "authentic rt ip p \<longleftrightarrow> (\<exists>w s. lookup_secret rt ip = Inr s
     \<and> p_raw p = Some w \<and> p_secret p = s \<and> p_code p = uint (hd w) \<and> p_auth p = Some (py_slice w 4 20)
     \<and> (rt_verify rt \<longrightarrow>
          (if p_code p = pt AccessRequest then py_slice w 4 20 \<noteq> zero_octets 16
           else md5 (take 4 w @ zero_octets 16 @ drop 20 w @ s) = py_slice w 4 20))
     \<and> (rt_require_ma rt \<and> p_code p = pt AccessRequest \<longrightarrow>
          (\<exists>k q. verify_message_authenticator None None None q = Inr (True, p\<lparr>p_dedup := k\<rparr>))))"

lemma authentic_key: "authentic rt ip p \<Longrightarrow> authentic rt ip (p\<lparr>p_dedup := k\<rparr>)"
  by (simp add: authentic_def)

definition request_codes :: "int list" where
  "request_codes = [pt AccessRequest, pt AccountingRequest, pt CoARequest, pt DisconnectRequest]"

lemma verified_authentic:
  assumes "lookup_secret rt ip = Inr s" "p_raw p = Some w" "20 \<le> length w" "p_code p = uint (hd w)"
    "p_auth p = Some (py_slice w 4 20)" "p_secret p = s" "p_version p = V1_0" "p_dedup p = None"
    and "p_code p \<in> set request_codes" "verify_request rt p = Inr ()" "rt_validate_policy rt p = Inr p'"
  shows "authentic rt ip p'"
proof -
  have w: "w \<noteq> []" using assms(3) by auto
  have same: "send_frame p' = send_frame p" "p_auth p' = Some (py_slice w 4 20)"
    using policy_same [OF assms(11,7,2) w assms(5)] by simp_all
  note f = send_frame_fields [OF same(1)] send_frame_more [OF same(1)]
  have ma: "rt_require_ma rt \<Longrightarrow> p_code p = pt AccessRequest \<Longrightarrow>
      \<exists>k q. verify_message_authenticator None None None q = Inr (True, p'\<lparr>p_dedup := k\<rparr>)"
  proof -
    assume "rt_require_ma rt" "p_code p = pt AccessRequest"
    with assms(11,7) have "verify_message_authenticator None None None p = Inr (True, p')"
      by (cases rule: policy_Inr) simp_all
    moreover have "p'\<lparr>p_dedup := None\<rparr> = p'" using f(13) assms(8) by simp
    ultimately show ?thesis by (metis)
  qed
  have chk: "rt_verify rt \<Longrightarrow> (if p_code p = pt AccessRequest then py_slice w 4 20 \<noteq> zero_octets 16
      else md5 (take 4 w @ zero_octets 16 @ drop 20 w @ s) = py_slice w 4 20)"
    using assms(2,5,6,7,9,10) w
    by (auto simp: verify_request_def verify_auth_request_def verify_packet_def request_codes_def
        bindE_eq_Inr checkE_eq_Inr split: if_splits list.splits)
  show ?thesis
    unfolding authentic_def
    using assms(1,2,4,6) same(2) f ma chk by auto
qed

lemma parsed_authentic:
  assumes "lookup_secret rt ip = Inr s" "fst (rt_parse env rt data s st) = Inr p"
    "p_code p \<in> set request_codes" "verify_request rt (p\<lparr>p_source := src\<rparr>) = Inr ()"
    "rt_validate_policy rt (p\<lparr>p_source := src\<rparr>) = Inr p'"
  shows "authentic rt ip p'"
proof -
  obtain cur where "parse_packet data s (rt_dict rt) V1_0 (env_rng env (sv_packets st)) 0 (sv_cur st)
      = Inr (p, cur)"
    using assms(2) by (auto simp: rt_parse_Inr)
  note f = parsed_fields [OF this]
  show ?thesis
    by (rule verified_authentic [OF assms(1) _ f(2) _ _ _ _ _ _ assms(4,5)])
      (use f assms(3) in simp_all)
qed

text \<open>The four handlers of the async server, each under its contract.\<close>

definition as_admits :: "router \<Rightarrow> source \<Rightarrow> int \<Rightarrow> packet \<Rightarrow> bool" where
  "as_admits rt a code p \<longleftrightarrow> authentic rt (fst a) p \<and> p_code p = code"

definition as_contract :: "router \<Rightarrow> ('u \<Rightarrow> bool) \<Rightarrow> 'u ahandlers \<Rightarrow> bool" where
  "as_contract rt J hs \<longleftrightarrow>
     (\<forall>a. handler_contract J (as_admits rt a (pt AccessRequest)) (ah_auth hs a)
       \<and> handler_contract J (as_admits rt a (pt AccountingRequest)) (ah_acct hs a)
       \<and> handler_contract J (as_admits rt a (pt CoARequest)) (ah_coa hs a)
       \<and> handler_contract J (as_admits rt a (pt DisconnectRequest)) (ah_disconnect hs a))"

lemma keeps_request_handler:
  assumes "as_contract rt J hs" "authentic rt (fst a) p" "gate_code (p_code p) ty = Inr ()"
    "p_code p \<noteq> pt StatusServer"
  shows "keeps J (request_handler env hs ty p a)"
proof -
  have "keeps J (dedup_dispatch env (h a) (Some a) p)" if "select_handler hs ty p = Inr h" for h
  proof -
    have "\<exists>c. handler_contract J (as_admits rt a c) (h a) \<and> as_admits rt a c p"
      using assms that
      by (cases ty; cases a)
        (auto simp: as_contract_def as_admits_def select_handler_def gate_code_def checkE_eq_Inr
          split: if_splits)
    then show ?thesis using handler_contract.keeps_dispatch by blast
  qed
  then show ?thesis
    unfolding request_handler_def logged_def by (intro preserves_catch preserves_bind_lift) auto
qed

lemma keeps_datagram_received:
  assumes "as_contract rt J hs"
  shows "keeps J (datagram_received env rt hs ty data a)"
proof (cases "lookup_secret rt (fst a)")
  case (Inr s)
  have req: "keeps J (bindS (rt_parse env rt data s) (\<lambda>req.
      bindS (liftE (verify_request rt req)) (\<lambda>_.
      bindS (liftE (rt_validate_policy rt req)) (\<lambda>req. request_handler env hs ty req a))))"
    if g: "gate_code (uint (hd data)) ty = Inr ()" "uint (hd data) \<noteq> pt StatusServer"
  proof (rule preserves_bind_result)
    fix st p
    assume p: "fst (rt_parse env rt data s st) = Inr p"
    then obtain cur where pp: "parse_packet data s (rt_dict rt) V1_0 (env_rng env (sv_packets st)) 0
        (sv_cur st) = Inr (p, cur)"
      by (auto simp: rt_parse_Inr)
    note f = parsed_fields [OF pp]
    have src: "p\<lparr>p_source := p_source p\<rparr> = p" by simp
    show "keeps J (bindS (liftE (verify_request rt p)) (\<lambda>_.
        bindS (liftE (rt_validate_policy rt p)) (\<lambda>req. request_handler env hs ty req a)))"
    proof (intro preserves_bind_lift)
      fix x p'
      assume "verify_request rt p = Inr x" "rt_validate_policy rt p = Inr p'"
      then have v: "verify_request rt p = Inr ()" "rt_validate_policy rt p = Inr p'" by simp_all
      have ty: "gate_code (p_code p) ty = Inr ()" "p_code p \<noteq> pt StatusServer" using g f(3) by simp_all
      then have c: "p_code p \<in> set request_codes"
        by (cases ty) (auto simp: gate_code_def checkE_eq_Inr request_codes_def split: if_splits)
      have au: "authentic rt (fst a) p'"
        by (rule parsed_authentic [OF Inr p c, where src = "p_source p"]) (use v src in simp_all)
      have w: "data \<noteq> []" using f(2) by auto
      have "p_code p' = p_code p"
        by (rule send_frame_fields(3) [OF conjunct1 [OF policy_same [OF v(2) f(7,1) w f(5)]]])
      then show "keeps J (request_handler env hs ty p' a)"
        using keeps_request_handler [OF assms au] ty by simp
    qed
  qed simp
  have body: "keeps J (if uint c = pt StatusServer then
        bindS (liftE (gate_code (uint c) ty)) (\<lambda>_. handle_status_server env rt ty data s a)
      else
        bindS (liftE (gate_code (uint c) ty)) (\<lambda>_.
        bindS (rt_parse env rt data s) (\<lambda>req.
        bindS (liftE (verify_request rt req)) (\<lambda>_.
        bindS (liftE (rt_validate_policy rt req)) (\<lambda>req. request_handler env hs ty req a)))))"
    if "data = c # cs" for c cs
  proof (cases "uint c = pt StatusServer")
    case True
    show ?thesis unfolding if_P [OF True] by (intro preserves_bind_lift) simp
  next
    case False
    show ?thesis
      unfolding if_not_P [OF False] by (intro preserves_bind_lift req) (use False that in simp_all)
  qed
  show ?thesis
  proof (cases data)
    case Nil
    then show ?thesis by (simp add: datagram_received_def Inr logged_def preserves_catch)
  next
    case (Cons c cs)
    show ?thesis
      using body [OF Cons] unfolding datagram_received_def Inr logged_def sum.case Cons list.case
      by (intro preserves_catch preserves_bind_lift) simp_all
  qed
qed (simp add: datagram_received_def)

lemma keeps_serve: "as_contract rt J hs \<Longrightarrow> keeps J (serve env rt hs evs)"
  by (induction evs) (auto intro!: keeps_intros keeps_datagram_received)

text \<open>
  The handlers of the sync server find the address in the packet. The accounting handler also
  gets Accounting-Response packets, of which nothing is verified.
\<close>

definition sv_admits :: "router \<Rightarrow> int \<Rightarrow> packet \<Rightarrow> bool" where
  "sv_admits rt code p \<longleftrightarrow>
     p_code p = code \<and> (\<exists>ip port. p_source p = Some (ip, port) \<and> authentic rt ip p)"

definition sv_contract :: "router \<Rightarrow> ('u \<Rightarrow> bool) \<Rightarrow> 'u handlers \<Rightarrow> bool" where
  "sv_contract rt J hs \<longleftrightarrow>
     handler_contract J (sv_admits rt (pt AccessRequest)) (h_auth hs)
     \<and> handler_contract J (\<lambda>p. sv_admits rt (pt AccountingRequest) p \<or> p_code p = pt AccountingResponse)
         (h_acct hs)
     \<and> handler_contract J (sv_admits rt (pt CoARequest)) (h_coa hs)
     \<and> handler_contract J (sv_admits rt (pt DisconnectRequest)) (h_disconnect hs)"

text \<open>A packet as the main loop hands it to the three dispatchers.\<close>

definition grabbed :: "env \<Rightarrow> router \<Rightarrow> bytes \<Rightarrow> source \<Rightarrow> packet \<Rightarrow> bool" where
  "grabbed env rt data a p \<longleftrightarrow> (\<exists>s q rng cur cur'. lookup_secret rt (fst a) = Inr s
     \<and> parse_packet data s (rt_dict rt) V1_0 rng 0 cur = Inr (q, cur') \<and> p = q\<lparr>p_source := Some a\<rparr>)"

lemma grab_packet_result:
  assumes "fst (grab_packet env rt data a st) = Inr p"
  shows "grabbed env rt data a p"
proof -
  obtain s where s: "lookup_secret rt (fst a) = Inr s"
    using assms by (cases "lookup_secret rt (fst a)") (auto simp: grab_packet_def failS_def)
  then obtain q where "fst (rt_parse env rt data s st) = Inr q" "p = q\<lparr>p_source := Some a\<rparr>"
    using assms by (auto simp: grab_packet_def bindS_result)
  then show ?thesis using s by (auto simp: grabbed_def rt_parse_Inr)
qed

lemma add_secret_grabbed: "grabbed env rt data a p \<Longrightarrow> add_secret rt p = Inr p"
  by (cases a) (auto simp: grabbed_def add_secret_def dest: parsed_fields(6))

lemma grabbed_authentic:
  assumes "grabbed env rt data a p" "p_code p \<in> set request_codes" "verify_request rt p = Inr ()"
    "rt_validate_policy rt p = Inr p'"
  shows "sv_admits rt (p_code p) p'"
proof -
  obtain s q rng cur cur' where g: "lookup_secret rt (fst a) = Inr s" "p = q\<lparr>p_source := Some a\<rparr>"
    and pp: "parse_packet data s (rt_dict rt) V1_0 rng 0 cur = Inr (q, cur')"
    using assms(1) unfolding grabbed_def by blast
  note f = parsed_fields [OF pp]
  have w: "data \<noteq> []" using f(2) by auto
  have au: "authentic rt (fst a) p'"
    by (rule verified_authentic [OF g(1) _ f(2) _ _ _ _ _ assms(2-4)]) (use f g(2) in simp_all)
  have same: "send_frame p' = send_frame p"
    by (rule conjunct1 [OF policy_same [OF assms(4)]]) (use f g(2) w in simp_all)
  show ?thesis
    using au g(2) send_frame_fields(3) [OF same] send_frame_more(2) [OF same]
    by (cases a) (simp add: sv_admits_def)
qed

lemma keeps_verified:
  assumes "handler_contract J P h" "grabbed env rt data a p" "p_code p \<in> set request_codes"
    "\<And>q. sv_admits rt (p_code p) q \<Longrightarrow> P q"
  shows "keeps J (verified_dispatch env rt h p)"
  by (rule handler_contract.keeps_verified_dispatch [OF assms(1)])
    (rule assms(4), rule grabbed_authentic [OF assms(2,3)])

lemma keeps_ports:
  assumes "sv_contract rt J hs" "grabbed env rt data a p"
  shows "keeps J (handle_auth env rt hs p)" "keeps J (handle_acct env rt hs p)"
    "keeps J (handle_coa env rt hs p)"
proof -
  note a = add_secret_grabbed [OF assms(2)]
  note c = assms(1) [unfolded sv_contract_def]
  show "keeps J (handle_auth env rt hs p)"
    unfolding handle_auth_def a bindS_lift
    by (intro preserves_bind keeps_status)
      (use c in \<open>auto simp: request_codes_def intro!: keeps_verified [OF _ assms(2)]\<close>)
  show "keeps J (handle_coa env rt hs p)"
    unfolding handle_coa_def a bindS_lift
    using c by (auto simp: request_codes_def intro!: keeps_verified [OF _ assms(2)])
  have "keeps J (verified_dispatch env rt (h_acct hs) p)" if "p_code p = pt AccountingResponse"
  proof (rule handler_contract.keeps_verified_dispatch [of J "\<lambda>p. sv_admits rt (pt AccountingRequest) p
      \<or> p_code p = pt AccountingResponse"])
    fix p'
    assume v: "rt_validate_policy rt p = Inr p'"
    obtain s q rng cur cur' where g: "p = q\<lparr>p_source := Some a\<rparr>"
      and pp: "parse_packet data s (rt_dict rt) V1_0 rng 0 cur = Inr (q, cur')"
      using assms(2) unfolding grabbed_def by blast
    note f = parsed_fields [OF pp]
    have w: "data \<noteq> []" using f(2) by auto
    have "send_frame p' = send_frame p"
      by (rule conjunct1 [OF policy_same [OF v]]) (use f g w in simp_all)
    from send_frame_fields(3) [OF this] that
    show "sv_admits rt (pt AccountingRequest) p' \<or> p_code p' = pt AccountingResponse" by simp
  qed (use c in blast)
  then show "keeps J (handle_acct env rt hs p)"
    unfolding handle_acct_def a bindS_lift
    by (intro preserves_bind keeps_status)
      (use c in \<open>auto simp: request_codes_def intro!: keeps_verified [OF _ assms(2)]\<close>)
qed

lemma keeps_run:
  assumes "sv_contract rt J hs"
  shows "keeps J (run env rt conf hs evs)"
proof (induction evs)
  case (Cons ev evs)
  obtain fd data a where ev: "ev = (fd, data, a)" by (cases ev)
  have grab: "keeps J (grab_packet env rt data a)"
    unfolding grab_packet_def by (intro keeps_intros keeps_steps)
  have "keeps J (process_input env rt conf hs fd data a)"
    unfolding process_input_def
    by (auto intro!: preserves_bind_result [OF grab] keeps_ports [OF assms] dest: grab_packet_result)
  then show ?case
    unfolding ev run.simps turn_def prod.case
    by (intro preserves_bind preserves_catch Cons.IH) simp_all
qed simp

section \<open>What ends the main loop\<close>

text \<open>\<open>calm E m\<close>: the statement \<open>m\<close> raises nothing but the exceptions in \<open>E\<close>.\<close>

abbreviation calm :: "exn set \<Rightarrow> ('u, 'a) srvm \<Rightarrow> bool" where
  "calm E m \<equiv> raises_only (\<lambda>_. True) E m"

lemma always [simp]: "preserves (\<lambda>_. True) m"
  by (simp add: preserves_def)

lemma calm_steps [simp]:
  "calm E (dedup_key_for p src)" "calm E (dedup_consult env key dest)" "calm E (rt_record_reply env q raw)"
  by (simp_all add: raises_only_def dedup_key_for_def dedup_consult_def rt_record_reply_def
      split: prod.splits)












section \<open>Retransmissions\<close>

text \<open>The packet that the dispatcher gets for a datagram: parsed and past the policy.\<close>

definition arrived :: "router \<Rightarrow> bytes \<Rightarrow> source \<Rightarrow> packet \<Rightarrow> bool" where
  "arrived rt data a p \<longleftrightarrow> (\<exists>s q rng cur cur'. lookup_secret rt (fst a) = Inr s
     \<and> parse_packet data s (rt_dict rt) V1_0 rng 0 cur = Inr (q, cur') \<and> rt_validate_policy rt q = Inr p)"

text \<open>Its key is in the octets.\<close>

lemma arrived_key:
  assumes "arrived rt data (ip, port) p" "uint (hd data) \<in> set DEDUPABLE_CODES"
  shows "key_for p (Some (ip, port)) = Some \<lparr>src_ip = ip, src_port = port, dk_code = uint (hd data),
    dk_identifier = uint (data ! 1), dk_request_authenticator = py_slice data 4 20\<rparr>"
proof -
  obtain s q rng cur cur' where v: "rt_validate_policy rt q = Inr p"
    and pp: "parse_packet data s (rt_dict rt) V1_0 rng 0 cur = Inr (q, cur')"
    using assms(1) unfolding arrived_def by blast
  note f = parsed_fields [OF pp]
  have w: "data \<noteq> []" using f(2) by auto
  note same = policy_same [OF v f(7,1) w f(5)]
  note p = send_frame_fields [OF conjunct1 [OF same]] send_frame_more [OF conjunct1 [OF same]]
  have "py_slice data 4 20 \<noteq> []" using f(2) by (auto simp: py_slice_def)
  then have "truthy (Some (py_slice data 4 20))" "\<not> truthy None" by (auto simp: truthy_def)
  then show ?thesis
    using p f conjunct2 [OF same] assms(2) by (simp add: key_for_def correlator_def)
qed

lemma ensure_ma_dedup:
  assumes "ensure_message_authenticator p = Inr q"
  shows "p_dedup q = p_dedup p"
proof -
  have "p_dedup (need_authenticator p) = p_dedup p" "p_dedup (ensure_id p) = p_dedup p" for p
    using send_frame_more(4) [OF need_authenticator_send]
    by (auto simp: ensure_id_def create_id_def randrange_def)
  moreover have "refresh_message_authenticator p = Inr q \<Longrightarrow> p_dedup q = p_dedup p" for p q
    using refresh_send send_frame_more(4) by blast
  moreover have "set_ma bs p = Inr q \<Longrightarrow> p_dedup q = p_dedup p" for bs p q
    unfolding set_ma_def using setitem_send send_frame_more(4) by blast
  ultimately show ?thesis
    using assms
    by (fastforce simp: ensure_message_authenticator_def add_message_authenticator_def Let_def
        bindE_eq_Inr split: if_splits)
qed

lemma reply_packet_dedup:
  assumes "reply_packet p = Inr (raw, q)"
  shows "p_dedup q = p_dedup p"
proof -
  have "pkt_encode_attributes p = Inr (x, q) \<Longrightarrow> p_dedup q = p_dedup p" for p q x
    using encode_attributes_send send_frame_more(4) by blast
  moreover have "refresh_if_set p = Inr q \<Longrightarrow> p_dedup q = p_dedup p" for p q
    using refresh_if_set_send send_frame_more(4) by blast
  ultimately show ?thesis
    using assms
    by (fastforce simp: reply_packet_def serialize_v11_def bindE_eq_Inr split: if_splits option.splits)
qed

lemma send_response_effect:
  assumes "send_response env rt q a s = (Inr (), s')" "sv_cache s = Some c" "p_dedup q = Some k"
  obtains raw where "sv_sent s' = sv_sent s @ [(raw, a)]" "sv_user s' = sv_user s"
    "sv_cache s' = Some (record_reply (env_clock env (sv_ticks s)) (env_clock env (Suc (sv_ticks s))) k raw None c)"
    "sv_ticks s' = sv_ticks s + 2"
proof -
  from assms(1) obtain q1 where q1: "force_reply_ma rt q = Inr q1"
    by (cases "force_reply_ma rt q") (auto simp: send_response_def prepare_reply_packet_def failS_def)
  moreover from this assms(1) obtain raw q2 where "reply_packet q1 = Inr (raw, q2)"
    by (cases "reply_packet q1")
      (auto simp: send_response_def prepare_reply_packet_def failS_def)
  moreover have "p_dedup q2 = Some k" if "reply_packet q1 = Inr (raw, q2)" for raw q2
    using reply_packet_dedup [OF that] q1 ensure_ma_dedup [of q q1] assms(3)
    by (auto simp: force_reply_ma_def split: if_splits)
  ultimately show ?thesis
    using assms(1,2) that
    by (auto simp: send_response_def prepare_reply_packet_def bindS_def sendto_def rt_record_reply_def
        record_if_keyed_def)
qed

lemma replayed:
  assumes "arrived rt data a p" "arrived rt data a p'" "uint (hd data) \<in> set DEDUPABLE_CODES"
    and new: "sv_cache s = Some c" "cache_wf c" "key_for p (Some a) = Some k"
      "od_get (cached c) k = None" "k \<notin> in_flight c"
    and mk: "\<And>p q. mk p = Inr q \<Longrightarrow> p_dedup p \<noteq> None \<Longrightarrow> p_dedup q = p_dedup p"
    and t: "env_clock env (sv_ticks s + 2) < env_clock env (sv_ticks s + 1) + ttl c"
      "env_clock env (sv_ticks s + 3) < env_clock env (sv_ticks s + 1) + ttl c"
    and run: "dedup_dispatch env (\<lambda>p. bindS (liftE (mk p)) (\<lambda>q. send_response env rt q a)) (Some a) p s
      = (Inr (), s1)"
  shows "\<exists>raw s2. sv_sent s1 = sv_sent s @ [(raw, a)]
    \<and> dedup_dispatch env h (Some a) p' s1 = (Inr (), s2)
    \<and> sv_sent s2 = sv_sent s1 @ [(raw, a)] \<and> sv_user s2 = sv_user s1"
proof -
  let ?c = "mark_in_flight k c"
  let ?s = "s\<lparr>sv_cache := Some ?c, sv_ticks := Suc (sv_ticks s)\<rparr>"
  let ?p = "p\<lparr>p_dedup := Some k\<rparr>"
  obtain ip port where a: "a = (ip, port)" by (cases a)
  have k': "key_for p' (Some a) = Some k"
    using arrived_key [OF assms(1) [unfolded a] assms(3)] arrived_key [OF assms(2) [unfolded a] assms(3)]
      new(3) by (simp add: a)
  have "dedup_consult env (Some k) (Some a) s = (Inr PROCESS, ?s)"
    using new by (simp add: dedup_consult_def consult_cache_cases lookup_def)
  then have "dedup_dispatch env h (Some a) p s = finallyS (h ?p) (dedup_drop_in_flight (Some k)) ?s" for h
    using new by (simp add: dedup_dispatch_def bindS_def dedup_key_for_def)
  with run obtain s0 where h: "bindS (liftE (mk ?p)) (\<lambda>q. send_response env rt q a) ?s = (Inr (), s0)"
      and s1: "s1 = dedup_drop_in_flight (Some k) s0"
    by (auto simp: finallyS_def split: prod.splits)
  then obtain q where q: "mk ?p = Inr q" "send_response env rt q a ?s = (Inr (), s0)"
    by (cases "mk ?p") (auto simp: failS_def)
  have d: "p_dedup q = Some k" using mk [OF q(1)] by simp
  obtain raw where e: "sv_sent s0 = sv_sent ?s @ [(raw, a)]" "sv_user s0 = sv_user ?s"
      "sv_cache s0 = Some (record_reply (env_clock env (sv_ticks ?s)) (env_clock env (Suc (sv_ticks ?s)))
         k raw None ?c)" "sv_ticks s0 = sv_ticks ?s + 2"
    by (rule send_response_effect [OF q(2) _ d, where c = ?c]) (simp, rule that)
  then have s0: "sv_sent s0 = sv_sent s @ [(raw, a)]" "sv_user s0 = sv_user s"
      "sv_cache s0 = Some (record_reply (env_clock env (sv_ticks s + 1)) (env_clock env (sv_ticks s + 2)) k raw None ?c)"
      "sv_ticks s0 = sv_ticks s + 3"
    by (simp_all add: numeral_2_eq_2 numeral_3_eq_3)
  let ?r = "drop_in_flight k (record_reply (env_clock env (sv_ticks s + 1)) (env_clock env (sv_ticks s + 2)) k raw None ?c)"
  have s1': "sv_sent s1 = sv_sent s0" "sv_user s1 = sv_user s0" "sv_cache s1 = Some ?r" "sv_ticks s1 = sv_ticks s + 3"
    by (simp_all add: s1 dedup_drop_in_flight_def s0)
  have "od_get (cached ?r) k = Some (raw, env_clock env (sv_ticks s + 1) + ttl c)"
    using record_get [OF mark_wf [OF new(2)], where t = None and raw = raw and key = k
        and ?now1.0 = "env_clock env (sv_ticks s + 1)" and ?now2.0 = "env_clock env (sv_ticks s + 2)"] t(1)
    by (simp add: drop_in_flight_def mark_in_flight_def)
  then have "dedup_consult env (Some k) (Some a) s1 = (Inr RESENT, s1\<lparr>
      sv_cache := Some (?r\<lparr>cached := od_move_to_end k (cached ?r)\<rparr>),
      sv_ticks := Suc (sv_ticks s1), sv_sent := sv_sent s1 @ [(raw, a)]\<rparr>)"
    using t(2) s1' by (simp add: dedup_consult_def consult_cache_cases lookup_def)
  then show ?thesis
    using k' s1' s0(1)
    by (auto simp: dedup_dispatch_def bindS_def dedup_key_for_def retS_def)
qed

section \<open>The default answer to CoA requests\<close>

lemma no_attributes [simp]: "p_attrs q = [] \<Longrightarrow> \<not> has_attribute n c q"
  by (auto simp: has_attribute_def contains_def od_mem_def split: sum.splits if_splits)

definition error_cause_avp :: bytes where
  "error_cause_avp = [101, 6, 0, 0, 1, 150]"

text \<open>Attribute 101 is sent as it is stored, and is not the EAP-Message of the dictionary.\<close>

definition error_cause_plain :: "dictionary option \<Rightarrow> bool" where
  "error_cause_plain d \<longleftrightarrow> container_type d (KInt 101) = None \<and> \<not> is_virtual_attribute d (KInt 101)
     \<and> (case d of None \<Rightarrow> True | Some d \<Rightarrow> encode_name d EAP_NAME \<noteq> Inr (KInt 101))"

lemma plain_reply_fields:
  assumes "reply_shell (p_class p) = (cls, c0)" "p_class p \<noteq> StatusC" "\<not> has_message_authenticator p"
    "\<not> has_eap_message p" "p_code p \<noteq> pt AccessRequest" "p_id p = Some i"
  obtains q where "as_plain_reply rt None p = Inr q" "p_attrs q = []" "p_version q = p_version p"
    "p_auth q = p_auth p" "p_id q = p_id p" "p_secret q = p_secret p" "p_dict q = p_dict p"
    "p_deferred q = []" "p_ma q = None" "p_dedup q = p_dedup p" "p_code q = c0" "p_orig_code q = Some (p_code p)"
proof -
  define q0 where "q0 = (fst (new_packet cls c0 (p_id p) (p_secret p) (p_auth p) (p_version p)
    (p_dict p) (p_rng p) (p_pos p) 0))\<lparr>p_orig_code := Some (p_code p), p_token := p_token p,
      p_auth_type := (if p_class p = AuthC then p_auth_type p else ''pap'')\<rparr>"
  have q0: "p_attrs q0 = []" "p_version q0 = p_version p" "p_auth q0 = p_auth p" "p_secret q0 = p_secret p"
    "p_dict q0 = p_dict p" "p_deferred q0 = []" "p_ma q0 = None" "p_dedup q0 = None" "p_id q0 = p_id p"
    "p_code q0 = c0" "p_orig_code q0 = Some (p_code p)"
    using assms(6) by (simp_all add: q0_def new_packet_def Let_def)
  have r: "\<exists>cur. create_reply None None [] 0 p = Some (Inr (q0, cur))"
    using assms(2) by (simp add: create_reply_def assms(1) init_contents_def q0_def new_packet_def Let_def)
  have "prepare_reply rt p q0 = Inr q0"
    using assms(3-5) q0(1) by (simp add: prepare_reply_def prepare_reply_message_authenticator_def has_eap_message_def)
  then have "as_plain_reply rt None p = Inr (attach_dedup_key p q0)"
    using r by (auto simp: as_plain_reply_def as_create_reply_packet_def as_finish_reply_def)
  then show ?thesis
    by (rule that) (use q0 in \<open>auto simp: attach_dedup_key_def\<close>)
qed

lemma error_cause_encoded:
  assumes "p_attrs q = [(KInt 101, Vals [PBytes [0, 0, 1, 150]])]" "p_deferred q = []"
    "error_cause_plain (p_dict q)"
  shows "pkt_encode_attributes q = Inr (error_cause_avp, q)" "\<not> has_eap_message q"
proof -
  have "encode_avp_group (p_dict q) (KInt 101) (Vals [PBytes [0, 0, 1, 150]]) = Inr error_cause_avp"
    using assms(3)
    by (simp add: encode_avp_group_def error_cause_plain_def store_iter_def encode_plain_group_def
        pkt_encode_attribute_def pack2_def pack_uint_ok as_bytes_def error_cause_avp_def)
  then show "pkt_encode_attributes q = Inr (error_cause_avp, q)"
    using assms by (simp add: encode_attributes_plain encode_stored_def error_cause_plain_def)
  show "\<not> has_eap_message q"
    using assms(1,3)
    by (auto simp: has_eap_message_def has_attribute_def contains_def encode_key_def with_dict_def
        error_cause_plain_def od_mem_def split: sum.splits option.splits if_splits)
qed

lemma nak_sent:
  assumes "p_class p = CoAC" "p_code p \<noteq> pt AccessRequest" "p_version p = V1_0" "p_auth p = Some a"
    "a \<noteq> []" "p_id p = Some (uint i)" "\<not> has_message_authenticator p" "\<not> has_eap_message p"
    "error_cause_plain (p_dict p)"
  shows "\<exists>s'. handle_coa_packet env rt addr p s = (Inr (), s')
    \<and> sv_sent s' = sv_sent s @ [([45, i, 0, 26]
        @ md5 ([45, i, 0, 26] @ a @ error_cause_avp @ p_secret p) @ error_cause_avp, addr)]"
proof -
  have shell: "reply_shell (p_class p) = (CoAC, pt CoAACK)" "p_class p \<noteq> StatusC"
    by (simp_all add: assms(1) reply_shell_def)
  obtain q0 where q0: "as_plain_reply rt None p = Inr q0" "p_attrs q0 = []" "p_version q0 = p_version p"
    "p_auth q0 = p_auth p" "p_id q0 = p_id p" "p_secret q0 = p_secret p" "p_dict q0 = p_dict p"
    "p_deferred q0 = []" "p_ma q0 = None"
    by (rule plain_reply_fields [OF shell assms(7,8,2,6), of rt]) (rule that)
  define q where "q = add_error_cause ErrorCause_UnsupportedExtension (q0\<lparr>p_code := pt CoANAK\<rparr>)"
  have be: "be_bytes 4 406 = [0, 0, 1, 150]" by code_simp
  have q: "p_attrs q = [(KInt 101, Vals [PBytes [0, 0, 1, 150]])]" "p_deferred q = []"
      "error_cause_plain (p_dict q)" "p_version q = V1_0" "p_auth q = Some a" "p_id q = Some (uint i)"
      "p_secret q = p_secret p" "p_ma q = None" "p_code q = 45"
    using q0 assms
    by (simp_all add: q_def add_error_cause_def raw_setitem_def ERROR_CAUSE_ATTRIBUTE_def
        ErrorCause_UnsupportedExtension_def be)
  note e = error_cause_encoded [OF q(1-3)]
  have h: "pack_header q (20 + length error_cause_avp) = Inr [45, i, 0, 26]"
  proof -
    have "pack_uint 1 45 = Inr [45]" "pack_uint 2 26 = Inr [0, 26]" by code_simp+
    moreover have "pack_uint 1 (uint i) = Inr [i]"
      using uint_byte_bounds [of i] by (simp add: pack_uint_def)
    ultimately show ?thesis using q by (simp add: pack_header_def error_cause_avp_def)
  qed
  have f: "prepare_reply_packet rt q = Inr q"
    using e(2) q(9) by (simp add: prepare_reply_packet_def force_reply_ma_def access_reply_codes_def)
  have "reply_packet q = Inr ([45, i, 0, 26]
      @ md5 ([45, i, 0, 26] @ a @ error_cause_avp @ p_secret p) @ error_cause_avp, q)"
    using q e h assms(5) by (simp add: reply_packet_def truthy_def refresh_if_set_def)
  moreover have "add_error_cause ErrorCause_UnsupportedExtension (q0\<lparr>p_code := 45\<rparr>) = q"
    by (simp add: q_def)
  ultimately show ?thesis
    using q0(1) f
    by (simp add: handle_coa_packet_def nak_handler_def send_response_def bindS_def sendto_def
        rt_record_reply_def)
qed
section \<open>Properties\<close>

text \<open>
  C3 The handlers of the async server see authentic requests only. Whatever datagrams arrive on
  whatever listeners, from whatever addresses: what the handlers do to the application's state
  is what they do on packets from known hosts, parsed from the octets received, whose Request
  Authenticator is verified with the host's secret and, for an Access-Request where the server
  requires it, whose Message-Authenticator is. Stated for any property \<open>J\<close> of the application's
  state that the handlers keep on such packets.
\<close>

theorem async_handlers_authentic:
  assumes "as_contract rt J hs" "J (sv_user s)"
  shows "J (sv_user (snd (serve env rt hs evs s)))"
  using preservesD [OF keeps_serve [OF assms(1)], of s] assms(2) by simp

text \<open>Handlers that write down what they are given, and a server with one known host.\<close>

definition log_handler :: "packet list handler" where
  "log_handler p s = (Inr (), s\<lparr>sv_user := sv_user s @ [p]\<rparr>)"

definition log_handlers :: "packet list handlers" where
  "log_handlers = \<lparr>h_auth = log_handler, h_acct = log_handler, h_coa = log_handler,
     h_disconnect = log_handler\<rparr>"

definition as_log_handlers :: "packet list ahandlers" where
  "as_log_handlers = \<lparr>ah_auth = (\<lambda>_. log_handler), ah_acct = (\<lambda>_. log_handler),
     ah_coa = (\<lambda>_. log_handler), ah_disconnect = (\<lambda>_. log_handler)\<rparr>"

definition small_router :: router where
  "small_router = \<lparr>rt_hosts = [(''10.0.0.9'', [115, 51])], rt_dict = None, rt_verify = True,
     rt_require_ma = True, rt_require_eap = True\<rparr>"

definition small_env :: env where
  "small_env = \<lparr>env_clock = (\<lambda>n. of_nat n), env_rng = (\<lambda>_ _. 0)\<rparr>"

definition start :: "cache option \<Rightarrow> 'u \<Rightarrow> 'u srv" where
  "start c x = \<lparr>sv_cache = c, sv_sent = [], sv_ticks = 0, sv_packets = 0, sv_cur = 0, sv_user = x\<rparr>"

definition acct_datagram :: bytes where
  "acct_datagram = [4, 1, 0, 20] @ [167, 157, 220, 75, 88, 16, 187, 183, 138, 203, 129, 1, 212, 119, 176, 212]"

lemma log_contract:
  assumes "\<And>p. admits p \<Longrightarrow> Q p" "\<And>p k. admits p \<Longrightarrow> admits (p\<lparr>p_dedup := k\<rparr>)"
  shows "handler_contract (\<lambda>log. \<forall>p \<in> set log. Q p) admits log_handler"
  by unfold_locales (use assms in \<open>auto simp: log_handler_def\<close>)

lemma as_log_contract:
  "as_contract rt (\<lambda>log. \<forall>p \<in> set log. \<exists>ip. authentic rt ip p) as_log_handlers"
proof -
  have "handler_contract (\<lambda>log. \<forall>p \<in> set log. \<exists>ip. authentic rt ip p) (as_admits rt a code) log_handler"
    for a code
    by (rule log_contract) (auto simp: as_admits_def intro: authentic_key)
  then show ?thesis by (simp add: as_contract_def as_log_handlers_def)
qed

lemma async_handlers_authentic_witness:
  "\<exists>p. sv_user (snd (serve small_env small_router as_log_handlers
      [(Acct, acct_datagram, ''10.0.0.9'', 1000), (Acct, acct_datagram @ [0], ''10.0.0.9'', 1000)]
      (start None []))) = [p]
    \<and> (\<exists>ip. authentic small_router ip p)"
proof -
  let ?s = "snd (serve small_env small_router as_log_handlers
      [(Acct, acct_datagram, ''10.0.0.9'', 1000), (Acct, acct_datagram @ [0], ''10.0.0.9'', 1000)]
      (start None []))"
  have "length (sv_user ?s) = 1" by code_simp
  then obtain p where p: "sv_user ?s = [p]" by (auto simp: length_Suc_conv)
  have "\<forall>p \<in> set (sv_user ?s). \<exists>ip. authentic small_router ip p"
    by (rule async_handlers_authentic [OF as_log_contract]) (simp add: start_def)
  then show ?thesis using p by auto
qed

text \<open>
  C7 The handlers of the sync server see authentic requests only, with one exception: on the
  accounting port an Accounting-Response is handed to the accounting handler unverified.
\<close>

theorem sync_handlers_authentic:
  assumes "sv_contract rt J hs" "J (sv_user s)"
  shows "J (sv_user (snd (run env rt conf hs evs s)))"
  using preservesD [OF keeps_run [OF assms(1)], of s] assms(2) by simp

definition all_ports :: server_conf where
  "all_ports = \<lparr>auth_enabled = True, acct_enabled = True, coa_enabled = True\<rparr>"

definition authentic_or_reply :: "router \<Rightarrow> packet \<Rightarrow> bool" where
  "authentic_or_reply rt p \<longleftrightarrow> (\<exists>ip. authentic rt ip p) \<or> p_code p = pt AccountingResponse"

lemma sv_log_contract:
  "sv_contract rt (\<lambda>log. \<forall>p \<in> set log. authentic_or_reply rt p) log_handlers"
proof -
  have "handler_contract (\<lambda>log. \<forall>p \<in> set log. authentic_or_reply rt p) admits log_handler"
    if "\<And>p. admits p \<longleftrightarrow> sv_admits rt c p \<or> b \<and> p_code p = pt AccountingResponse" for admits c b
    by (rule log_contract)
      (auto simp: that sv_admits_def authentic_or_reply_def intro: authentic_key)
  from this [where b = False] this [where b = True] show ?thesis
    unfolding sv_contract_def log_handlers_def handlers.simps by (intro conjI) auto
qed

lemma sync_handlers_authentic_witness:
  "\<exists>p. sv_user (snd (run small_env small_router all_ports log_handlers
      [(AcctFd, acct_datagram, ''10.0.0.9'', 1000), (AcctFd, acct_datagram @ [0], ''10.0.0.9'', 1000)]
      (start None []))) = [p]
    \<and> authentic_or_reply small_router p"
proof -
  let ?s = "snd (run small_env small_router all_ports log_handlers
      [(AcctFd, acct_datagram, ''10.0.0.9'', 1000), (AcctFd, acct_datagram @ [0], ''10.0.0.9'', 1000)]
      (start None []))"
  have "length (sv_user ?s) = 1" by code_simp
  then obtain p where p: "sv_user ?s = [p]" by (auto simp: length_Suc_conv)
  have "\<forall>p \<in> set (sv_user ?s). authentic_or_reply small_router p"
    by (rule sync_handlers_authentic [OF sv_log_contract]) (simp add: start_def)
  then show ?thesis using p by auto
qed

text \<open>
  The exception is real: four octets of header and sixteen zeros, sent to the accounting
  port from the address of a known host by anyone, run the accounting handler of the sync
  server although nothing in them depends on the secret. The async server refuses the code.
\<close>

theorem unverified_accounting_response:
  "\<exists>p. sv_user (snd (run small_env small_router all_ports log_handlers
      [(AcctFd, [5, 1, 0, 20] @ replicate 16 0, ''10.0.0.9'', 1000)] (start None []))) = [p]
    \<and> \<not> authentic small_router ''10.0.0.9'' p
    \<and> sv_user (snd (serve small_env small_router as_log_handlers
      [(Acct, [5, 1, 0, 20] @ replicate 16 0, ''10.0.0.9'', 1000)] (start None []))) = []"
proof -
  let ?log = "sv_user (snd (run small_env small_router all_ports log_handlers
      [(AcctFd, [5, 1, 0, 20] @ replicate 16 0, ''10.0.0.9'', 1000)] (start None [])))"
  have "map p_raw ?log = [Some ([5, 1, 0, 20] @ replicate 16 0)]" by code_simp
  then obtain p where p: "?log = [p]" "p_raw p = Some ([5, 1, 0, 20] @ replicate 16 0)"
    by (auto simp: map_eq_Cons_conv)
  have "md5 ([5, 1, 0, 20] @ zero_octets 16 @ [115, 51]) \<noteq> zero_octets 16" by code_simp
  then have "\<not> authentic small_router ''10.0.0.9'' p"
    using p(2) by (auto simp: authentic_def small_router_def lookup_secret_def py_slice_def zero_octets_def)
  moreover have "sv_user (snd (serve small_env small_router as_log_handlers
      [(Acct, [5, 1, 0, 20] @ replicate 16 0, ''10.0.0.9'', 1000)] (start None []))) = []"
  proof -
    have "length (sv_user (snd (serve small_env small_router as_log_handlers
      [(Acct, [5, 1, 0, 20] @ replicate 16 0, ''10.0.0.9'', 1000)] (start None [])))) = 0"
      by code_simp
    then show ?thesis by simp
  qed
  ultimately show ?thesis using p(1) by blast
qed




text \<open>
  C30 A retransmission is answered with the octets of the first answer and runs no handler: the
  same datagram, parsed again as another packet object, finds the reply that the handler of the
  first one sent, as long as the reply has not expired. The second handler \<open>h\<close> is arbitrary: it
  is not called.
\<close>

theorem retransmission_replayed:
  assumes "arrived rt data a p" "arrived rt data a p'" "uint (hd data) \<in> set DEDUPABLE_CODES"
    and "sv_cache s = Some c" "cache_wf c" "key_for p (Some a) = Some k"
      "od_get (cached c) k = None" "k \<notin> in_flight c"
    and "\<And>p q. mk p = Inr q \<Longrightarrow> p_dedup p \<noteq> None \<Longrightarrow> p_dedup q = p_dedup p"
    and "env_clock env (sv_ticks s + 2) < env_clock env (sv_ticks s + 1) + ttl c"
      "env_clock env (sv_ticks s + 3) < env_clock env (sv_ticks s + 1) + ttl c"
    and "dedup_dispatch env (\<lambda>p. bindS (liftE (mk p)) (\<lambda>q. send_response env rt q a)) (Some a) p s
      = (Inr (), s1)"
  shows "\<exists>raw s2. sv_sent s1 = sv_sent s @ [(raw, a)]
    \<and> dedup_dispatch env h (Some a) p' s1 = (Inr (), s2)
    \<and> sv_sent s2 = sv_sent s1 @ [(raw, a)] \<and> sv_user s2 = sv_user s1"
  using assms by (rule replayed)

lemma plain_reply_dedup:
  assumes "as_plain_reply rt code p = Inr q" "p_dedup p \<noteq> None"
  shows "p_dedup q = p_dedup p"
  using assms
  by (auto simp: as_plain_reply_def as_create_reply_packet_def as_finish_reply_def bindE_eq_Inr
      attach_dedup_key_def split: option.splits)

lemma retransmission_replayed_witness:
  "\<exists>p k s1 raw s2. key_for p (Some (''10.0.0.9'', 1000)) = Some k
    \<and> sv_sent s1 = [(raw, ''10.0.0.9'', 1000)]
    \<and> dedup_dispatch small_env log_handler (Some (''10.0.0.9'', 1000)) p s1 = (Inr (), s2)
    \<and> sv_sent s2 = [(raw, ''10.0.0.9'', 1000), (raw, ''10.0.0.9'', 1000)] \<and> sv_user s2 = sv_user s1"
proof -
  let ?a = "(''10.0.0.9'', 1000 :: int)"
  let ?c = "\<lparr>ttl = 30, max_entries = 4, in_flight = {}, cached = []\<rparr> :: cache"
  let ?s = "start (Some ?c) [] :: packet list srv"
  let ?h = "\<lambda>p. bindS (liftE (as_plain_reply small_router None p)) (\<lambda>q. send_response small_env small_router q ?a)"
  have "okE (parse_packet acct_datagram [115, 51] None V1_0 (\<lambda>_. 0) 0 0) (\<lambda>(q, _).
      okE (rt_validate_policy small_router q) (\<lambda>p.
        fst (dedup_dispatch small_env ?h (Some ?a) p ?s) = Inr ()))"
    by code_simp
  then obtain q cur p where q: "parse_packet acct_datagram [115, 51] None V1_0 (\<lambda>_. 0) 0 0 = Inr (q, cur)"
      "rt_validate_policy small_router q = Inr p" "fst (dedup_dispatch small_env ?h (Some ?a) p ?s) = Inr ()"
    by (fastforce dest!: okE_Inr)
  then obtain s1 where s1: "dedup_dispatch small_env ?h (Some ?a) p ?s = (Inr (), s1)"
    by (metis prod.collapse)
  have ar: "arrived small_router acct_datagram ?a p"
    unfolding arrived_def using q(1,2)
    by (intro exI [of _ "[115, 51]"] exI [of _ q] exI [of _ "\<lambda>_. 0"] exI [of _ 0] exI [of _ cur])
      (simp add: small_router_def lookup_secret_def)
  have code: "uint (hd acct_datagram) \<in> set DEDUPABLE_CODES"
    by (simp add: acct_datagram_def DEDUPABLE_CODES_def)
  obtain k where k: "key_for p (Some ?a) = Some k" using arrived_key [OF ar code] by blast
  have "\<exists>raw s2. sv_sent s1 = sv_sent ?s @ [(raw, ?a)]
      \<and> dedup_dispatch small_env log_handler (Some ?a) p s1 = (Inr (), s2)
      \<and> sv_sent s2 = sv_sent s1 @ [(raw, ?a)] \<and> sv_user s2 = sv_user s1"
    by (rule retransmission_replayed [OF ar ar code _ _ k _ _ _ _ _ s1, of ?c])
      (auto simp: start_def cache_wf_def small_env_def plain_reply_dedup)
  then show ?thesis using k by (fastforce simp: start_def)
qed

text \<open>
  A server that does not handle CoA requests refuses them as RFC 5176 says: the default
  handler answers a CoA-Request with a CoA-NAK that has the request's identifier, Error-Cause
  406 (Unsupported Extension) as its only attribute and the Response Authenticator that the
  client expects.
\<close>

theorem default_coa_nak:
  assumes "p_class p = CoAC" "p_code p \<noteq> pt AccessRequest" "p_version p = V1_0" "p_auth p = Some a"
    "a \<noteq> []" "p_id p = Some (uint i)" "\<not> has_message_authenticator p" "\<not> has_eap_message p"
    "error_cause_plain (p_dict p)"
  shows "\<exists>s'. handle_coa_packet env rt addr p s = (Inr (), s')
    \<and> sv_sent s' = sv_sent s @ [([45, i, 0, 26]
        @ md5 ([45, i, 0, 26] @ a @ error_cause_avp @ p_secret p) @ error_cause_avp, addr)]"
  using assms by (rule nak_sent)

lemma default_coa_nak_witness:
  "\<exists>s'. handle_coa_packet small_env small_router (''10.0.0.9'', 1)
      ((blank_packet None)\<lparr>p_class := CoAC, p_code := 43, p_id := Some 7, p_auth := Some (replicate 16 1)\<rparr>)
      (start None ()) = (Inr (), s') \<and> length (sv_sent s') = 1"
proof -
  let ?p = "(blank_packet None)\<lparr>p_class := CoAC, p_code := 43, p_id := Some 7, p_auth := Some (replicate 16 1)\<rparr>"
  have n: "p_attrs ?p = []" by (simp add: blank_packet_def)
  have "\<exists>s'. handle_coa_packet small_env small_router (''10.0.0.9'', 1) ?p (start None ()) = (Inr (), s')
    \<and> sv_sent s' = sv_sent (start None ()) @ [([45, 7, 0, 26]
        @ md5 ([45, 7, 0, 26] @ replicate 16 1 @ error_cause_avp @ p_secret ?p) @ error_cause_avp, (''10.0.0.9'', 1))]"
    by (rule default_coa_nak)
      (simp_all add: blank_packet_def has_message_authenticator_def has_eap_message_def
        error_cause_plain_def container_type_def is_virtual_attribute_def dict_attr_def)
  then show ?thesis by (auto simp: start_def)
qed

end
