(* ===== verification/InFlight.thy ===== *)
theory InFlight
  imports Serving
begin

text \<open>
  The markers of running requests in the two servers: what \<^verbatim>\<open>_dedup_dispatch\<close> leaves in the
  response cache, whatever a handler does, and in which states handlers run.
\<close>

section \<open>The marked requests\<close>

text \<open>At most the requests of \<open>X\<close> are marked, and the cache keeps to its cap.\<close>

definition marked_within :: "DedupKey set \<Rightarrow> 'u srv \<Rightarrow> bool" where
  "marked_within X s \<longleftrightarrow>
     (case sv_cache s of
        None \<Rightarrow> True
      | Some c \<Rightarrow> cache_wf c \<and> in_flight c \<subseteq> X \<and> int (cache_len c) \<le> max_entries c)"

lemma marked_within_cache:
  "sv_cache s' = sv_cache s \<Longrightarrow> marked_within X s' = marked_within X s"
  by (simp add: marked_within_def)

lemma marked_within_Some:
  "sv_cache s = Some c \<Longrightarrow> marked_within X s \<longleftrightarrow> cache_wf c \<and> in_flight c \<subseteq> X"
  by (auto simp: marked_within_def cache_wf_def cache_len_def)

text \<open>
  Handlers may raise, but reach the cache only through the replies they send. \<open>X\<close>: the own marker
  of the request, if that is all there is.
\<close>

definition own_marker :: "(packet \<Rightarrow> ('u, unit) srvm) \<Rightarrow> bool" where
  "own_marker h \<longleftrightarrow> (\<forall>p X. X \<subseteq> set_option (p_dedup p) \<longrightarrow> preserves (marked_within X) (h p))"

section \<open>The steps of the servers\<close>

lemma marked_steps [keeps_intros, simp]:
  "preserves (marked_within X) (rt_parse env rt data secret)"
  "preserves (marked_within X) (dedup_key_for p src)"
  "preserves (marked_within X) (sendto raw dest)"
  "preserves (marked_within X) (new_status_packet env rt data secret)"
  by (auto simp: preserves_def rt_parse_def dedup_key_for_def sendto_def new_status_packet_def
      new_packet_def Let_def marked_within_def split: prod.split option.split)

lemma marked_record [keeps_intros, simp]: "preserves (marked_within X) (rt_record_reply env reply raw)"
proof (rule preservesI)
  fix s :: "'u srv" assume m: "marked_within X s"
  show "marked_within X (snd (rt_record_reply env reply raw s))"
  proof (cases "sv_cache s")
    case None
    then show ?thesis by (simp add: rt_record_reply_def record_if_keyed_def marked_within_def)
  next
    case (Some c)
    then have c: "cache_wf c" "in_flight c \<subseteq> X" using m by (simp_all add: marked_within_Some)
    show ?thesis
    proof (cases "p_dedup reply")
      case None
      then show ?thesis using Some c
        by (simp add: rt_record_reply_def record_if_keyed_def marked_within_Some)
    next
      case k: (Some k)
      let ?c = "record_reply (env_clock env (sv_ticks s)) (env_clock env (Suc (sv_ticks s))) k raw None c"
      have "sv_cache (snd (rt_record_reply env reply raw s)) = Some ?c"
        using Some k by (simp add: rt_record_reply_def record_if_keyed_def)
      from marked_within_Some [OF this] show ?thesis using c record_wf [OF c(1)] by auto
    qed
  qed
qed

lemma marked_send [keeps_intros, simp]:
  "preserves (marked_within X) (send_response env rt q a)"
  "preserves (marked_within X) (send_reply_packet env rt q)"
  by (auto simp: send_response_def send_reply_packet_def intro!: keeps_intros split: prod.split)

lemma marked_status [keeps_intros, simp]:
  "preserves (marked_within X) (handle_status_server env rt ty data secret a)"
  "preserves (marked_within X) (handle_status_packet env rt p code)"
  by (auto simp: handle_status_server_def handle_status_packet_def intro!: keeps_intros)

text \<open>The \<^verbatim>\<open>finally\<close> of the dispatch takes the marker of the request away.\<close>

lemma marked_drop: "marked_within (set_option key) s \<Longrightarrow> marked_within {} (dedup_drop_in_flight key s)"
  by (cases key) (auto simp: dedup_drop_in_flight_def marked_within_def cache_len_def drop_in_flight_def cache_wf_def
      split: option.splits)

lemma marked_consult:
  assumes "marked_within {} s" "dedup_consult env key dest s = (Inr action, s')"
  shows "action \<noteq> DROP" "marked_within (if action = PROCESS then set_option key else {}) s'"
proof -
  show "action \<noteq> DROP"
    using assms by (auto simp: dedup_consult_def consult_cache_def lookup_def Let_def marked_within_def
        split: option.splits prod.splits lookup_result.splits if_splits)
  show "marked_within (if action = PROCESS then set_option key else {}) s'"
  proof (cases "sv_cache s")
    case None
    then show ?thesis using assms(2)
      by (auto simp: dedup_consult_def consult_cache_def marked_within_def split: option.splits)
  next
    case (Some c)
    then have c: "cache_wf c" "in_flight c = {}" using assms(1) by (simp_all add: marked_within_Some)
    show ?thesis
    proof (cases key)
      case None
      then show ?thesis using assms Some
        by (auto simp: dedup_consult_def consult_cache_def marked_within_Some)
    next
      case k: (Some k)
      obtain r c' where l: "lookup (env_clock env (sv_ticks s)) k c = (r, c')" by fastforce
      have "cache_wf c'" "in_flight c' = {}"
        using lookup_wf [OF c(1)] in_flight_lookup c(2) l by (metis snd_conv)+
      then show ?thesis
        using assms(2) Some k l mark_wf [of c' k]
        by (cases r) (auto simp: dedup_consult_def consult_cache_def marked_within_Some mark_in_flight_def)
    qed
  qed
qed

lemma marked_dispatch:
  fixes h :: "'u handler"
  assumes "own_marker h"
  shows "preserves (marked_within {}) (dedup_dispatch env h src p)"
proof (rule preservesI)
  fix s :: "'u srv" assume m: "marked_within {} s"
  define key where "key = (if sv_cache s = None then None else key_for p src)"
  have k: "dedup_key_for p src s = (Inr key, s)" by (simp add: dedup_key_for_def key_def)
  obtain action s1 where c: "dedup_consult env key (if src \<noteq> None then src else p_source p) s = (Inr action, s1)"
    by (fastforce simp: dedup_consult_def split: prod.splits)
  note s1 = marked_consult [OF m c]
  let ?p = "if key \<noteq> None then p\<lparr>p_dedup := key\<rparr> else p"
  have d: "dedup_dispatch env h src p s
      = (if action = PROCESS then finallyS (h ?p) (dedup_drop_in_flight key) s1 else (Inr (), s1))"
    using c s1(1) k by (cases action) (simp_all add: dedup_dispatch_def bindS_def retS_def)
  show "marked_within {} (snd (dedup_dispatch env h src p s))"
  proof (cases "action = PROCESS")
    case False
    then show ?thesis using d s1(2) by simp
  next
    case True
    have "set_option key \<subseteq> set_option (p_dedup ?p)" by (cases key) simp_all
    then have "preserves (marked_within (set_option key)) (h ?p)" using assms unfolding own_marker_def by blast
    then have "marked_within (set_option key) (snd (h ?p s1))" using s1(2) True by (simp add: preservesD)
    then have "marked_within {} (dedup_drop_in_flight key (snd (h ?p s1)))"
      by (rule marked_drop)
    moreover have "snd (finallyS m f s1) = f (snd (m s1))" for m :: "('u, unit) srvm" and f
      by (simp add: finallyS_def split: prod.split)
    ultimately show ?thesis unfolding d if_P [OF True] by simp
  qed
qed

lemma marked_verified_dispatch:
  "own_marker h \<Longrightarrow> preserves (marked_within {}) (verified_dispatch env rt h p)"
  unfolding verified_dispatch_def by (intro preserves_bind_lift marked_dispatch)

text \<open>The three ports of the sync server, and the callback of the async one.\<close>

lemma marked_ports:
  assumes "own_marker (h_auth hs)" "own_marker (h_acct hs)" "own_marker (h_coa hs)" "own_marker (h_disconnect hs)"
  shows "preserves (marked_within {}) (handle_auth env rt hs p)"
    "preserves (marked_within {}) (handle_acct env rt hs p)"
    "preserves (marked_within {}) (handle_coa env rt hs p)"
  using assms
  by (auto simp: handle_auth_def handle_acct_def handle_coa_def intro!: keeps_intros marked_verified_dispatch)

lemma marked_turn:
  assumes "own_marker (h_auth hs)" "own_marker (h_acct hs)" "own_marker (h_coa hs)" "own_marker (h_disconnect hs)"
  shows "preserves (marked_within {}) (turn env rt conf hs ev)"
  unfolding turn_def process_input_def grab_packet_def
  by (auto intro!: keeps_intros marked_ports assms split: prod.split)

lemma marked_run:
  assumes "own_marker (h_auth hs)" "own_marker (h_acct hs)" "own_marker (h_coa hs)" "own_marker (h_disconnect hs)"
  shows "preserves (marked_within {}) (run env rt conf hs evs)"
  by (induction evs) (auto intro!: keeps_intros marked_turn assms)

lemma marked_request:
  assumes "\<And>a. own_marker (ah_auth hs a)" "\<And>a. own_marker (ah_acct hs a)" "\<And>a. own_marker (ah_coa hs a)"
    "\<And>a. own_marker (ah_disconnect hs a)"
  shows "preserves (marked_within {}) (request_handler env hs ty p a)"
proof -
  have "own_marker (h a)" if "select_handler hs ty p = Inr h" for h
    using that assms by (cases ty) (auto simp: select_handler_def split: if_splits)
  then show ?thesis
    unfolding request_handler_def logged_def
    by (intro preserves_catch preserves_bind_lift marked_dispatch) auto
qed

lemma marked_received:
  assumes "\<And>a. own_marker (ah_auth hs a)" "\<And>a. own_marker (ah_acct hs a)" "\<And>a. own_marker (ah_coa hs a)"
    "\<And>a. own_marker (ah_disconnect hs a)"
  shows "preserves (marked_within {}) (datagram_received env rt hs ty data a)"
  unfolding datagram_received_def logged_def
  by (auto intro!: keeps_intros marked_request assms split: sum.split list.split)

lemma marked_serve:
  assumes "\<And>a. own_marker (ah_auth hs a)" "\<And>a. own_marker (ah_acct hs a)" "\<And>a. own_marker (ah_coa hs a)"
    "\<And>a. own_marker (ah_disconnect hs a)"
  shows "preserves (marked_within {}) (serve env rt hs evs)"
  by (induction evs) (auto intro!: keeps_intros marked_received assms)

text \<open>An unmarked request is not dropped: it gets its reply again or runs its handler.\<close>

lemma unmarked_not_dropped:
  assumes "marked_within {} s" "sv_cache s = Some c"
  shows "fst (consult_cache now (Some c) (Some k)) \<noteq> DROP"
  using assms by (auto simp: marked_within_def consult_cache_def lookup_def Let_def
      split: option.splits prod.splits lookup_result.splits if_splits)

section \<open>Properties\<close>

text \<open>
  C19 No request stays marked as running. After any datagrams, with handlers that reply, do not
  reply or raise whatever they like, no request is marked in the response cache of either
  server and the cache is within its cap; so no later retransmission is dropped as a duplicate of a
  handler that has ended: it gets the recorded reply or its handler runs. A handler itself starts
  when no request but its own is marked (\<open>own_marker\<close> asks it to keep that, and nothing more).
\<close>

theorem no_request_stays_in_flight:
  assumes "marked_within {} s"
    and "\<forall>h \<in> {h_auth hs, h_acct hs, h_coa hs, h_disconnect hs}. own_marker h"
    and "\<forall>a. \<forall>h \<in> {ah_auth as a, ah_acct as a, ah_coa as a, ah_disconnect as a}. own_marker h"
    and "s' = snd (run env rt conf hs evs s) \<or> s' = snd (serve env rt as aevs s)" "sv_cache s' = Some c"
  shows "in_flight c = {} \<and> int (cache_len c) \<le> max_entries c
    \<and> (\<forall>now k. fst (consult_cache now (Some c) (Some k)) \<noteq> DROP)"
proof -
  have "marked_within {} s'"
    using assms(4)
  proof
    assume "s' = snd (run env rt conf hs evs s)"
    then show ?thesis using preservesD [OF marked_run assms(1), of hs env rt conf evs] assms(2) by simp
  next
    assume "s' = snd (serve env rt as aevs s)"
    moreover have "own_marker (ah_auth as a)" "own_marker (ah_acct as a)" "own_marker (ah_coa as a)"
      "own_marker (ah_disconnect as a)" for a
      using spec [OF assms(3), of a] by simp_all
    ultimately show ?thesis using preservesD [OF marked_serve assms(1), of as env rt aevs] by simp
  qed
  then show ?thesis
    using unmarked_not_dropped [OF _ assms(5)] assms(5) by (simp add: marked_within_def)
qed

text \<open>A handler that notes the request and then raises.\<close>

definition failing_handler :: "packet list handler" where
  "failing_handler p s = (Inl KeyError, s\<lparr>sv_user := sv_user s @ [p]\<rparr>)"

definition as_failing_handlers :: "packet list ahandlers" where
  "as_failing_handlers = \<lparr>ah_auth = (\<lambda>_. failing_handler), ah_acct = (\<lambda>_. failing_handler),
     ah_coa = (\<lambda>_. failing_handler), ah_disconnect = (\<lambda>_. failing_handler)\<rparr>"

lemma no_request_stays_in_flight_witness:
  "\<exists>c. sv_cache (snd (serve small_env small_router as_failing_handlers
      [(Acct, acct_datagram, ''10.0.0.9'', 1000), (Acct, acct_datagram, ''10.0.0.9'', 1000)]
      (start (Some \<lparr>ttl = 30, max_entries = 4, in_flight = {}, cached = []\<rparr>) []))) = Some c
    \<and> in_flight c = {} \<and> cache_len c = 0
    \<and> length (sv_user (snd (serve small_env small_router as_failing_handlers
      [(Acct, acct_datagram, ''10.0.0.9'', 1000), (Acct, acct_datagram, ''10.0.0.9'', 1000)]
      (start (Some \<lparr>ttl = 30, max_entries = 4, in_flight = {}, cached = []\<rparr>) [])))) = 2"
proof -
  let ?s = "start (Some \<lparr>ttl = 30, max_entries = 4, in_flight = {}, cached = []\<rparr>) [] :: packet list srv"
  define s' where "s' = snd (serve small_env small_router as_failing_handlers
      [(Acct, acct_datagram, ''10.0.0.9'', 1000), (Acct, acct_datagram, ''10.0.0.9'', 1000)] ?s)"
  have own: "own_marker failing_handler" "own_marker log_handler"
    by (auto simp: own_marker_def preserves_def failing_handler_def log_handler_def marked_within_def)
  have s: "marked_within {} ?s" by (simp add: start_def marked_within_def cache_wf_def cache_len_def od_wf_def)
  have "case sv_cache s' of None \<Rightarrow> False | Some c \<Rightarrow> cache_len c = 0 \<and> length (sv_user s') = 2"
    unfolding s'_def by code_simp
  then obtain c where c: "sv_cache s' = Some c" "cache_len c = 0" "length (sv_user s') = 2"
    by (auto split: option.splits)
  have "in_flight c = {}"
    using no_request_stays_in_flight [where hs = log_handlers, OF s _ _ disjI2 [OF s'_def] c(1)] own
    by (simp add: log_handlers_def as_failing_handlers_def)
  then show ?thesis using c unfolding s'_def by blast
qed

end
