(* ===== verification/DictFile.thy ===== *)
theory DictFile
  imports Dictionary "HOL-Library.Sublist"
begin

text \<open>
  \<^verbatim>\<open>pyrad2/dictfile.py\<close>: dictionary files with \<^verbatim>\<open>$INCLUDE\<close>, and \<^verbatim>\<open>read_dictionary\<close> on them. The file
  system is the input: \<open>fs_open\<close> gives the lines of a file that can be opened, \<open>fs_realpath\<close> and
  \<open>fs_abspath\<close> are \<^verbatim>\<open>os.path.realpath\<close> and \<^verbatim>\<open>os.path.abspath\<close>, which depend on the links and on the
  working directory. The other path functions are those of \<^verbatim>\<open>posixpath\<close>. \<open>df_opened\<close> is not in the
  code: it lists the files that were opened, first the entry point.
\<close>

section \<open>Paths\<close>

definition slash :: nat where "slash = 47"

definition isabs :: "ustr \<Rightarrow> bool" where
  "isabs p \<longleftrightarrow> (case p of [] \<Rightarrow> False | c # _ \<Rightarrow> c = slash)"

definition path_join :: "ustr \<Rightarrow> ustr \<Rightarrow> ustr" where
  "path_join a b =
     (if isabs b then b else if a = [] \<or> last a = slash then a @ b else a @ [slash] @ b)"

definition basename :: "ustr \<Rightarrow> ustr" where
  "basename p = rev (takeWhile (\<lambda>c. c \<noteq> slash) (rev p))"

definition dirname :: "ustr \<Rightarrow> ustr" where
  "dirname p =
     (let head = rev (dropWhile (\<lambda>c. c \<noteq> slash) (rev p))
      in if list_all (\<lambda>c. c = slash) head then head else rev (dropWhile (\<lambda>c. c = slash) (rev head)))"

definition path_parts :: "ustr \<Rightarrow> ustr list" where
  "path_parts p = filter (\<lambda>w. w \<noteq> [] \<and> w \<noteq> u ''.'') (split_on slash p)"

text \<open>\<^verbatim>\<open>commonpath([a, b])\<close>.\<close>

definition commonpath :: "ustr \<Rightarrow> ustr \<Rightarrow> ustr res" where
  "commonpath a b =
     (if isabs a \<noteq> isabs b then Inl ValueError
      else
        Inr ((if isabs a then [slash] else [])
             @ join_with [slash] (longest_common_prefix (path_parts a) (path_parts b))))"

section \<open>Files\<close>

record fsys =
  fs_open :: "ustr \<Rightarrow> ustr list option"
  fs_realpath :: "ustr \<Rightarrow> ustr"
  fs_abspath :: "ustr \<Rightarrow> ustr"

text \<open>The lines that a node has still to give, and the number of the last one it gave.\<close>

record node =
  nd_name :: ustr
  nd_lines :: "ustr list"
  nd_current :: nat
  nd_dir :: ustr

record dictfile =
  df_stack :: "node list"
  df_base :: ustr
  df_opened :: "ustr list"

datatype dict_source = Path ustr | Stream "ustr list"

definition new_node :: "ustr list \<Rightarrow> ustr \<Rightarrow> ustr \<Rightarrow> node" where
  "new_node lines name parentdir =
     \<lparr>nd_name = basename name, nd_lines = lines, nd_current = 0,
      nd_dir = (if isabs (dirname name) then dirname name else path_join parentdir (dirname name))\<rparr>"

definition cur_dir :: "fsys \<Rightarrow> dictfile \<Rightarrow> ustr" where
  "cur_dir fs df = (case df_stack df of [] \<Rightarrow> fs_realpath fs (u ''.'') | n # _ \<Rightarrow> nd_dir n)"

text \<open>A \<^verbatim>\<open>ValueError\<close> of \<^verbatim>\<open>commonpath\<close> counts as the empty path.\<close>

definition inside_base :: "fsys \<Rightarrow> ustr \<Rightarrow> ustr \<Rightarrow> bool" where
  "inside_base fs base fname \<longleftrightarrow>
     (case commonpath base (fs_realpath fs fname) of Inl _ \<Rightarrow> [] | Inr c \<Rightarrow> c) = base"

text \<open>The state after an exception is kept beside it.\<close>

definition read_node :: "fsys \<Rightarrow> dict_source \<Rightarrow> bool \<Rightarrow> dictfile \<Rightarrow> unit res \<times> dictfile" where
  "read_node fs fil is_entry_point df =
     (let parentdir = cur_dir fs df in
      case fil of
        Path name \<Rightarrow>
          let fname = (if isabs name then name else path_join parentdir name) in
          if \<not> is_entry_point \<and> \<not> inside_base fs (df_base df) fname then (Inl ParseError, df)
          else
            (case fs_open fs fname of
               None \<Rightarrow> (Inl OSError, df)
             | Some lines \<Rightarrow>
                 (Inr (), df\<lparr>df_stack := new_node lines name parentdir # df_stack df,
                         df_opened := df_opened df @ [fname]\<rparr>))
      | Stream lines \<Rightarrow> (Inr (), df\<lparr>df_stack := new_node lines [] parentdir # df_stack df\<rparr>))"

definition include_base :: "fsys \<Rightarrow> dict_source \<Rightarrow> ustr option \<Rightarrow> ustr" where
  "include_base fs fil include_base_dir =
     (case include_base_dir of
        Some b \<Rightarrow> fs_realpath fs b
      | None \<Rightarrow>
          (case fil of
             Path name \<Rightarrow>
               let d = dirname (fs_abspath fs name) in fs_realpath fs (if d = [] then u ''.'' else d)
           | Stream _ \<Rightarrow> fs_realpath fs (u ''.'')))"

definition dictfile_init :: "fsys \<Rightarrow> dict_source \<Rightarrow> ustr option \<Rightarrow> unit res \<times> dictfile" where
  "dictfile_init fs fil include_base_dir =
     read_node fs fil True \<lparr>df_stack = [], df_base = include_base fs fil include_base_dir, df_opened = []\<rparr>"

definition get_include :: "ustr \<Rightarrow> ustr option" where
  "get_include line =
     (case line_tokens line of
        [] \<Rightarrow> None
      | t # ts \<Rightarrow> if map upper_char t = u ''$INCLUDE'' then Some (join_with [32] ts) else None)"

definition df_line :: "dictfile \<Rightarrow> int" where
  "df_line df = (case df_stack df of [] \<Rightarrow> -1 | n # _ \<Rightarrow> int (nd_current n))"

definition df_file :: "dictfile \<Rightarrow> ustr" where
  "df_file df = (case df_stack df of [] \<Rightarrow> [] | n # _ \<Rightarrow> nd_name n)"

text \<open>
  \<^verbatim>\<open>__next__\<close>: the next line that is not an include, \<open>None\<close> at the end (\<^verbatim>\<open>StopIteration\<close>). A file that
  includes itself is opened for ever: then there is no result at all. An include without a path
  is given out as a line.
\<close>

partial_function (option) df_next :: "fsys \<Rightarrow> dictfile \<Rightarrow> (ustr option res \<times> dictfile) option" where
  "df_next fs df =
     (case df_stack df of
        [] \<Rightarrow> Some (Inr None, df)
      | n # st \<Rightarrow>
          (case nd_lines n of
             [] \<Rightarrow> df_next fs (df\<lparr>df_stack := st\<rparr>)
           | l # ls \<Rightarrow>
               let df' = df\<lparr>df_stack := n\<lparr>nd_lines := ls, nd_current := Suc (nd_current n)\<rparr> # st\<rparr> in
               (case get_include l of
                  None \<Rightarrow> Some (Inr (Some l), df')
                | Some inc \<Rightarrow>
                    if inc = [] then Some (Inr (Some l), df')
                    else
                      (case read_node fs (Path inc) False df' of
                         (Inl e, df'') \<Rightarrow> Some (Inl e, df'')
                       | (Inr _, df'') \<Rightarrow> df_next fs df''))))"

declare df_next.simps [code]

section \<open>Reading a dictionary\<close>

text \<open>The loop of \<^verbatim>\<open>read_dictionary\<close> over the lines of its \<^verbatim>\<open>DictFile\<close>.\<close>

partial_function (option) read_loop :: "fsys \<Rightarrow> dictfile \<Rightarrow> reader \<Rightarrow> (dictionary res \<times> dictfile) option" where
  "read_loop fs df r =
     (case df_next fs df of
        None \<Rightarrow> None
      | Some (Inl e, df') \<Rightarrow> Some (Inl e, df')
      | Some (Inr None, df') \<Rightarrow> Some (finish_reading r, df')
      | Some (Inr (Some l), df') \<Rightarrow>
          (case read_line l r of Inl e \<Rightarrow> Some (Inl e, df') | Inr r' \<Rightarrow> read_loop fs df' r'))"

declare read_loop.simps [code]

definition read_file ::
    "fsys \<Rightarrow> dict_source \<Rightarrow> ustr option \<Rightarrow> dictionary \<Rightarrow> (dictionary res \<times> dictfile) option" where
  "read_file fs fil include_base_dir d =
     (case dictfile_init fs fil include_base_dir of
        (Inl e, df) \<Rightarrow> Some (Inl e, df)
      | (Inr _, df) \<Rightarrow> (case start_reading d of None \<Rightarrow> None | Some r \<Rightarrow> read_loop fs df r))"

section \<open>The base directory\<close>

lemma path_parts_join:
  assumes "\<forall>w \<in> set ws. w \<noteq> [] \<and> w \<noteq> u ''.'' \<and> slash \<notin> set w"
  shows "path_parts (join_with [slash] ws) = ws" "path_parts (slash # join_with [slash] ws) = ws"
proof -
  have "path_parts (join_with [slash] ws) = ws"
  proof (cases "ws = []")
    case False
    then show ?thesis using assms split_join [of ws slash] by (simp add: path_parts_def filter_id_conv)
  qed (simp add: path_parts_def)
  then show "path_parts (join_with [slash] ws) = ws" "path_parts (slash # join_with [slash] ws) = ws"
    by (simp_all add: path_parts_def)
qed

lemma split_on_free: "w \<in> set (split_on d s) \<Longrightarrow> d \<notin> set w"
  by (induction s arbitrary: w) (auto split: if_splits list.splits)

lemma path_parts_ok: "w \<in> set (path_parts p) \<Longrightarrow> w \<noteq> [] \<and> w \<noteq> u ''.'' \<and> slash \<notin> set w"
  by (auto simp: path_parts_def dest: split_on_free)

lemma inside_base_prefix:
  assumes "inside_base fs base fname" "base \<noteq> []"
  shows "prefix (path_parts base) (path_parts (fs_realpath fs fname))"
proof -
  let ?c = "longest_common_prefix (path_parts base) (path_parts (fs_realpath fs fname))"
  have e: "base = (if isabs base then [slash] else []) @ join_with [slash] ?c"
    using assms by (auto simp: inside_base_def commonpath_def split: if_splits)
  have p: "prefix ?c (path_parts (fs_realpath fs fname))" "prefix ?c (path_parts base)"
    by (rule longest_common_prefix_prefix2 longest_common_prefix_prefix1)+
  have "\<forall>w \<in> set ?c. w \<noteq> [] \<and> w \<noteq> u ''.'' \<and> slash \<notin> set w"
    using path_parts_ok set_mono_prefix [OF p(2)] by blast
  from path_parts_join [OF this] have "path_parts base = ?c"
    by (subst e) simp
  then show ?thesis using p(1) by simp
qed

text \<open>Every file but the entry point is inside; a stream is no file that was opened.\<close>

definition sandboxed :: "fsys \<Rightarrow> bool \<Rightarrow> dictfile \<Rightarrow> bool" where
  "sandboxed fs entry df \<longleftrightarrow>
     (if entry then df_opened df \<noteq> [] else True)
     \<and> list_all (inside_base fs (df_base df)) (if entry then tl (df_opened df) else df_opened df)"

lemma read_node_sandboxed:
  assumes "read_node fs (Path inc) False df = (r, df')" "sandboxed fs entry df"
  shows "sandboxed fs entry df' \<and> df_base df' = df_base df"
  using assms by (auto simp: read_node_def Let_def sandboxed_def split: if_splits option.splits)

lemma next_sandboxed:
  assumes "df_next fs df = Some (r, df')" "sandboxed fs entry df"
  shows "sandboxed fs entry df' \<and> df_base df' = df_base df"
proof -
  define P where "P = (\<lambda>fs df y. sandboxed fs entry df \<longrightarrow>
    sandboxed fs entry (snd (y :: ustr option res \<times> dictfile)) \<and> df_base (snd y) = df_base df)"
  have "P fs df (r, df')"
  proof (rule df_next.raw_induct [where P = P, OF _ assms(1)])
    fix f fs df y
    assume ih: "\<And>fs df y. f fs df = Some y \<Longrightarrow> P fs df y"
      and eq: "(case df_stack df of [] \<Rightarrow> Some (Inr None, df)
      | n # st \<Rightarrow>
          (case nd_lines n of
             [] \<Rightarrow> f fs (df\<lparr>df_stack := st\<rparr>)
           | l # ls \<Rightarrow>
               let df' = df\<lparr>df_stack := n\<lparr>nd_lines := ls, nd_current := Suc (nd_current n)\<rparr> # st\<rparr> in
               (case get_include l of
                  None \<Rightarrow> Some (Inr (Some l), df')
                | Some inc \<Rightarrow>
                    if inc = [] then Some (Inr (Some l), df')
                    else
                      (case read_node fs (Path inc) False df' of
                         (Inl e, df'') \<Rightarrow> Some (Inl e, df'')
                       | (Inr _, df'') \<Rightarrow> f fs df'')))) = Some y"
    have st: "sandboxed fs entry (df\<lparr>df_stack := x\<rparr>) \<longleftrightarrow> sandboxed fs entry df" for x
      by (simp add: sandboxed_def)
    have inc: "P fs df z" if "read_node fs (Path i) False (df\<lparr>df_stack := x\<rparr>) = (r, df1)" "P fs df1 z" for i x r df1 z
      using read_node_sandboxed [OF that(1), of entry] that(2) st by (auto simp: P_def)
    have same: "P fs df (z, df1)" if "read_node fs (Path i) False (df\<lparr>df_stack := x\<rparr>) = (r, df1)" for i x r df1 z
      using read_node_sandboxed [OF that(1), of entry] st by (auto simp: P_def)
    have pop: "P fs df z" if "P fs (df\<lparr>df_stack := x\<rparr>) z" for x z
      using that st by (auto simp: P_def)
    show "P fs df y"
    proof (cases "df_stack df")
      case Nil
      then show ?thesis using eq by (auto simp: P_def)
    next
      case stack: (Cons n st')
      show ?thesis
      proof (cases "nd_lines n")
        case Nil
        then show ?thesis using eq stack by (auto intro: pop ih)
      next
        case (Cons l ls)
        let ?d = "df\<lparr>df_stack := n\<lparr>nd_lines := ls, nd_current := Suc (nd_current n)\<rparr> # st'\<rparr>"
        have out: "P fs df (z, ?d)" for z using st by (auto simp: P_def)
        show ?thesis
          using eq stack Cons
          by (auto simp: Let_def intro: out inc same ih split: option.splits if_splits prod.splits sum.splits)
      qed
    qed
  qed
  then show ?thesis using assms(2) by (simp add: P_def)
qed

lemma loop_sandboxed:
  assumes "read_loop fs df r = Some (x, df')" "sandboxed fs entry df"
  shows "sandboxed fs entry df' \<and> df_base df' = df_base df"
proof -
  define P where "P = (\<lambda>fs df (r :: reader) y. sandboxed fs entry df \<longrightarrow>
    sandboxed fs entry (snd (y :: dictionary res \<times> dictfile)) \<and> df_base (snd y) = df_base df)"
  have "P fs df r (x, df')"
  proof (rule read_loop.raw_induct [where P = P, OF _ assms(1)])
    fix f fs df r y
    assume ih: "\<And>fs df r y. f fs df r = Some y \<Longrightarrow> P fs df r y"
      and eq: "(case df_next fs df of
        None \<Rightarrow> None
      | Some (Inl e, df') \<Rightarrow> Some (Inl e, df')
      | Some (Inr None, df') \<Rightarrow> Some (finish_reading r, df')
      | Some (Inr (Some l), df') \<Rightarrow>
          (case read_line l r of Inl e \<Rightarrow> Some (Inl e, df') | Inr r' \<Rightarrow> f fs df' r')) = Some y"
    obtain z df1 where n: "df_next fs df = Some (z, df1)" using eq by (auto split: option.splits)
    have fin: "P fs df r (w, df1)" for w using next_sandboxed [OF n, of entry] by (simp add: P_def)
    have go: "P fs df r y" if "P fs df1 r1 y" for r1
      using next_sandboxed [OF n, of entry] that by (simp add: P_def)
    show "P fs df r y"
      using eq n by (auto intro: fin go ih split: sum.splits option.splits)
  qed
  then show ?thesis using assms(2) by (simp add: P_def)
qed

lemma file_sandboxed:
  assumes "read_file fs fil b d = Some (r, df)"
  shows "df_base df = include_base fs fil b
    \<and> (\<forall>f \<in> set (case fil of Path _ \<Rightarrow> tl (df_opened df) | Stream _ \<Rightarrow> df_opened df). inside_base fs (df_base df) f)"
proof -
  obtain x df0 where i: "dictfile_init fs fil b = (x, df0)" by (cases "dictfile_init fs fil b")
  have base: "df_base df0 = include_base fs fil b"
    using i by (auto simp: dictfile_init_def read_node_def Let_def split: dict_source.splits option.splits)
  show ?thesis
  proof (cases x)
    case (Inl e)
    then show ?thesis
      using assms i by (auto simp: read_file_def dictfile_init_def read_node_def Let_def
          split: dict_source.splits option.splits)
  next
    case (Inr y)
    let ?entry = "case fil of Path _ \<Rightarrow> True | Stream _ \<Rightarrow> False"
    have s0: "sandboxed fs ?entry df0"
      using i Inr by (auto simp: dictfile_init_def read_node_def Let_def sandboxed_def
          split: dict_source.splits option.splits)
    obtain rd where "read_loop fs df0 rd = Some (r, df)"
      using assms i Inr by (auto simp: read_file_def split: option.splits)
    from loop_sandboxed [OF this s0] show ?thesis
      using base by (auto simp: sandboxed_def list_all_iff split: dict_source.splits)
  qed
qed

section \<open>A file that includes itself\<close>

definition at_include :: "ustr \<Rightarrow> ustr list \<Rightarrow> ustr \<Rightarrow> dictfile \<Rightarrow> bool" where
  "at_include l ls base df \<longleftrightarrow> (\<exists>n st. df_stack df = n # st \<and> nd_lines n = l # ls) \<and> df_base df = base"

lemma include_again:
  assumes "fs_open fs f = Some (l # ls)" "get_include l = Some f" "isabs f" "inside_base fs base f"
    and "at_include l ls base df"
  shows "df_next fs df = None"
proof (rule ccontr)
  assume "df_next fs df \<noteq> None"
  then obtain y where y: "df_next fs df = Some y" by blast
  define P where "P = (\<lambda>fs' df (y :: ustr option res \<times> dictfile). fs' = fs \<longrightarrow> \<not> at_include l ls base df)"
  have "P fs df y"
  proof (rule df_next.raw_induct [where P = P, OF _ y])
    fix g fs' df y
    assume ih: "\<And>fs df y. g fs df = Some y \<Longrightarrow> P fs df y"
      and eq: "(case df_stack df of [] \<Rightarrow> Some (Inr None, df)
      | n # st \<Rightarrow>
          (case nd_lines n of
             [] \<Rightarrow> g fs' (df\<lparr>df_stack := st\<rparr>)
           | l # ls \<Rightarrow>
               let df' = df\<lparr>df_stack := n\<lparr>nd_lines := ls, nd_current := Suc (nd_current n)\<rparr> # st\<rparr> in
               (case get_include l of
                  None \<Rightarrow> Some (Inr (Some l), df')
                | Some inc \<Rightarrow>
                    if inc = [] then Some (Inr (Some l), df')
                    else
                      (case read_node fs' (Path inc) False df' of
                         (Inl e, df'') \<Rightarrow> Some (Inl e, df'')
                       | (Inr _, df'') \<Rightarrow> g fs' df'')))) = Some y"
    show "P fs' df y"
      unfolding P_def
    proof (intro impI notI)
      assume fs: "fs' = fs" and h: "at_include l ls base df"
      obtain n st where n: "df_stack df = n # st" "nd_lines n = l # ls" "df_base df = base"
        using h by (auto simp: at_include_def)
      let ?d = "df\<lparr>df_stack := n\<lparr>nd_lines := ls, nd_current := Suc (nd_current n)\<rparr> # st\<rparr>"
      obtain df1 where r: "read_node fs (Path f) False ?d = (Inr (), df1)" "at_include l ls base df1"
        using assms(1,3,4) n(3) by (auto simp: read_node_def at_include_def new_node_def)
      have "f \<noteq> []" using assms(3) by (auto simp: isabs_def)
      then have "g fs df1 = Some y" using eq n r(1) assms(2) by (simp add: fs)
      from ih [OF this] r(2) show False by (simp add: P_def)
    qed
  qed
  then show False using assms(5) by (simp add: P_def)
qed

section \<open>Properties\<close>

text \<open>
  C29 Includes do not escape. Whatever the files hold, and whether reading them succeeds or not: every
  file that was opened, but for the entry point, is below the base directory, with all links
  resolved: the components of the base directory begin its path.
\<close>

theorem includes_stay_inside:
  assumes "read_file fs fil b d = Some (r, df)" "include_base fs fil b \<noteq> []"
  shows "\<forall>f \<in> set (case fil of Path _ \<Rightarrow> tl (df_opened df) | Stream _ \<Rightarrow> df_opened df).
    prefix (path_parts (include_base fs fil b)) (path_parts (fs_realpath fs f))"
  using file_sandboxed [OF assms(1)] inside_base_prefix assms(2) by metis

definition plain_fs :: "(ustr \<times> ustr list) list \<Rightarrow> fsys" where
  "plain_fs files = \<lparr>fs_open = map_of files, fs_realpath = (\<lambda>p. p), fs_abspath = (\<lambda>p. p)\<rparr>"

definition two_files :: fsys where
  "two_files = plain_fs [(u ''/d/main'', [u ''$INCLUDE sub/more  # text'', u ''VENDOR Acme 99'']),
     (u ''/d/sub/more'', [u ''ATTRIBUTE User-Name 1 string'', u ''$INCLUDE /etc/passwd''])]"

lemma includes_stay_inside_witness:
  "\<exists>r df. read_file two_files (Path (u ''/d/main'')) None dict_init = Some (r, df)
    \<and> df_opened df = [u ''/d/main'', u ''/d/sub/more'']
    \<and> prefix [u ''d''] (path_parts (fs_realpath two_files (u ''/d/sub/more'')))"
proof -
  have b: "include_base two_files (Path (u ''/d/main'')) None = u ''/d''" by code_simp
  have "map_option (df_opened \<circ> snd) (read_file two_files (Path (u ''/d/main'')) None dict_init)
      = Some [u ''/d/main'', u ''/d/sub/more'']"
    by code_simp
  then obtain r df where r: "read_file two_files (Path (u ''/d/main'')) None dict_init = Some (r, df)"
      "df_opened df = [u ''/d/main'', u ''/d/sub/more'']" by auto
  have "u ''/d'' \<noteq> []" and p: "path_parts (u ''/d'') = [u ''d'']" by code_simp+
  then show ?thesis using includes_stay_inside [OF r(1), unfolded b p] r by simp
qed

text \<open>
  C39 A dictionary file that includes itself, by an absolute path and inside the base directory, is
  read for ever: nothing checks for cycles.
\<close>

theorem self_include_hangs:
  assumes "fs_open fs f = Some (l # ls)" "get_include l = Some f" "isabs f"
    and "inside_base fs (include_base fs (Path f) b) f"
  shows "read_file fs (Path f) b d = None"
proof -
  obtain df where i: "dictfile_init fs (Path f) b = (Inr (), df)"
    and a: "at_include l ls (include_base fs (Path f) b) df"
    using assms(1,3) by (auto simp: dictfile_init_def read_node_def at_include_def new_node_def)
  show ?thesis
    using include_again [OF assms a] i
    by (auto simp: read_file_def read_loop.simps [of fs df] split: option.split)
qed

lemma self_include_hangs_witness:
  "read_file (plain_fs [(u ''/d/a'', [u ''$include /d/a''])]) (Path (u ''/d/a'')) None dict_init = None"
proof -
  let ?fs = "plain_fs [(u ''/d/a'', [u ''$include /d/a''])]"
  have "fs_open ?fs (u ''/d/a'') = Some [u ''$include /d/a'']" by (simp add: plain_fs_def)
  moreover have "get_include (u ''$include /d/a'') = Some (u ''/d/a'')" by code_simp
  moreover have "isabs (u ''/d/a'')" by code_simp
  moreover have "inside_base ?fs (include_base ?fs (Path (u ''/d/a'')) None) (u ''/d/a'')" by code_simp
  ultimately show ?thesis by (rule self_include_hangs)
qed

end
