(* ===== verification/DedupSpec.thy ===== *)
theory DedupSpec
  imports Dedup
begin

text \<open>
  What the response cache promises, without its order: a map from requests to replies that expire,
  and the set of running requests. Looking up forgets an expired reply; recording a reply may
  forget others, but only expired ones while the cap is kept, and never the one just recorded while
  it lives. The cache of \<^verbatim>\<open>pyrad2/dedup.py\<close> refines it: \<open>abs_cache\<close> is the abstraction.
\<close>

record spec_cache =
  sc_running :: "DedupKey set"
  sc_replies :: "DedupKey \<Rightarrow> (bytes \<times> time) option"

definition abs_cache :: "cache \<Rightarrow> spec_cache" where
  "abs_cache c = \<lparr>sc_running = in_flight c, sc_replies = od_get (cached c)\<rparr>"

definition spec_consult :: "time \<Rightarrow> DedupKey \<Rightarrow> spec_cache \<Rightarrow> DispatchAction \<times> bytes list \<times> spec_cache" where
  "spec_consult now k sp =
     (case sc_replies sp k of
        Some (raw, e) \<Rightarrow>
          if now < e then (RESENT, [raw], sp)
          else
            let sp' = sp\<lparr>sc_replies := (sc_replies sp)(k := None)\<rparr>
            in if k \<in> sc_running sp then (DROP, [], sp')
               else (PROCESS, [], sp'\<lparr>sc_running := insert k (sc_running sp)\<rparr>)
      | None \<Rightarrow>
          if k \<in> sc_running sp then (DROP, [], sp)
          else (PROCESS, [], sp\<lparr>sc_running := insert k (sc_running sp)\<rparr>))"

text \<open>\<open>m'\<close> is \<open>m\<close> with some replies forgotten at time \<open>now\<close>, under the cap.\<close>

definition forgets :: "time \<Rightarrow> int \<Rightarrow> (DedupKey \<Rightarrow> (bytes \<times> time) option) \<Rightarrow> (DedupKey \<Rightarrow> (bytes \<times> time) option) \<Rightarrow> bool" where
  "forgets now cap m m' \<longleftrightarrow>
     m' \<subseteq>\<^sub>m m \<and> int (card (dom m')) \<le> cap
     \<and> (\<forall>x raw e. m x = Some (raw, e) \<and> m' x = None \<longrightarrow> e \<le> now \<or> cap < int (card (dom m)))"

definition spec_record :: "time \<Rightarrow> time \<Rightarrow> int \<Rightarrow> DedupKey \<Rightarrow> bytes \<Rightarrow> spec_cache \<Rightarrow> spec_cache \<Rightarrow> bool" where
  "spec_record now e cap k raw sp sp' \<longleftrightarrow>
     sc_running sp' = sc_running sp - {k}
     \<and> forgets now cap ((sc_replies sp)(k \<mapsto> (raw, e))) (sc_replies sp')
     \<and> (now < e \<longrightarrow> sc_replies sp' k = Some (raw, e))"

text \<open>
  What a server does with the cache: a request asks, a handler finishes with a reply or without.
  The answer to a request is the action and the octets that are sent again.
\<close>

datatype use =
    Ask time DedupKey
  | Finish time time DedupKey bytes
  | Fail DedupKey

type_synonym answer = "(DispatchAction \<times> bytes list) option"

fun use_cache :: "use \<Rightarrow> cache \<Rightarrow> answer \<times> cache" where
  "use_cache (Ask now k) c =
     (case consult_cache now (Some c) (Some k) of
        (act, sent, Some c') \<Rightarrow> (Some (act, sent), c')
      | (act, sent, None) \<Rightarrow> (Some (act, sent), c))"
| "use_cache (Finish now1 now2 k raw) c = (None, record_reply now1 now2 k raw None c)"
| "use_cache (Fail k) c = (None, drop_in_flight k c)"

fun answers :: "use list \<Rightarrow> cache \<Rightarrow> answer list" where
  "answers [] c = []"
| "answers (x # xs) c = (case use_cache x c of (a, c') \<Rightarrow> a # answers xs c')"

text \<open>What the specification allows; \<open>t\<close> and \<open>cap\<close> are the settings of the cache.\<close>

fun spec_use :: "time \<Rightarrow> int \<Rightarrow> use \<Rightarrow> spec_cache \<Rightarrow> answer \<Rightarrow> spec_cache \<Rightarrow> bool" where
  "spec_use t cap (Ask now k) sp a sp' =
     (case spec_consult now k sp of (act, sent, sp1) \<Rightarrow> a = Some (act, sent) \<and> sp' = sp1)"
| "spec_use t cap (Finish now1 now2 k raw) sp a sp' =
     (a = None \<and> spec_record now2 (now1 + t) cap k raw sp sp')"
| "spec_use t cap (Fail k) sp a sp' = (a = None \<and> sp' = sp\<lparr>sc_running := sc_running sp - {k}\<rparr>)"

fun spec_answers :: "time \<Rightarrow> int \<Rightarrow> use list \<Rightarrow> spec_cache \<Rightarrow> answer list \<Rightarrow> bool" where
  "spec_answers t cap [] sp as = (as = [])"
| "spec_answers t cap (x # xs) sp as =
     (\<exists>a bs sp'. as = a # bs \<and> spec_use t cap x sp a sp' \<and> spec_answers t cap xs sp' bs)"

definition spec_init :: spec_cache where
  "spec_init = \<lparr>sc_running = {}, sc_replies = (\<lambda>_. None)\<rparr>"

section \<open>The operations refine the specification\<close>

lemma consult_refines:
  assumes "consult_cache now (Some c) (Some k) = (act, sent, Some c')"
  shows "spec_consult now k (abs_cache c) = (act, sent, abs_cache c')"
proof (cases "od_get (cached c) k")
  case None
  then show ?thesis
    using assms by (auto simp: consult_cache_cases lookup_def spec_consult_def abs_cache_def mark_in_flight_def)
next
  case (Some v)
  then obtain raw e where v: "od_get (cached c) k = Some (raw, e)" by (cases v) auto
  show ?thesis
    using assms v
    by (auto simp: consult_cache_cases lookup_def spec_consult_def abs_cache_def mark_in_flight_def Let_def
        od.get_del odr.get_to_end fun_upd_def split: if_splits)
qed

lemma card_dom_get: "od_wf d \<Longrightarrow> card (dom (od_get d)) = length d"
  using od.keys_dom [of d] distinct_card [of "od_keys d"] by (simp add: od_wf_def od_keys_def)

lemma get_suffix:
  assumes "od_wf (pre @ d)"
  shows "od_get d \<subseteq>\<^sub>m od_get (pre @ d)"
    and "od_get (pre @ d) x = Some v \<Longrightarrow> od_get d x = None \<Longrightarrow> (x, v) \<in> set pre"
proof -
  show "od_get d \<subseteq>\<^sub>m od_get (pre @ d)"
    using assms by (force simp: map_le_def od_get_def od_wf_def od_keys_def map_add_def
        dest: map_of_SomeD split: option.split)
  show "od_get (pre @ d) x = Some v \<Longrightarrow> od_get d x = None \<Longrightarrow> (x, v) \<in> set pre"
    by (auto simp: od_get_def map_add_def dest: map_of_SomeD split: option.splits)
qed

lemma drop_expired_dropped:
  "\<exists>pre. d = pre @ drop_expired now d \<and> (\<forall>(k, raw, e) \<in> set pre. e \<le> now)"
proof (induction now d rule: drop_expired.induct)
  case (2 now k raw e d)
  show ?case
  proof (cases "e > now")
    case False
    then obtain pre where "d = pre @ drop_expired now d" "\<forall>(k, raw, e) \<in> set pre. e \<le> now" using 2 by blast
    then show ?thesis using False by (intro exI [of _ "(k, raw, e) # pre"]) auto
  qed simp
qed simp

lemma evict_forgets:
  assumes "od_wf d" "0 < cap"
  shows "forgets now cap (od_get d) (od_get (enforce_cap cap (drop_expired now d)))"
proof -
  let ?d1 = "drop_expired now d" and ?d2 = "enforce_cap cap (drop_expired now d)"
  obtain p1 where p1: "d = p1 @ ?d1" "\<forall>(k, raw, e) \<in> set p1. e \<le> now" using drop_expired_dropped by blast
  obtain p2 where p2: "?d1 = p2 @ ?d2" using enforce_cap_suffix by blast
  have w1: "od_wf ?d1" using assms(1) p1(1) od_wf_suffix by metis
  have w2: "od_wf ?d2" using w1 p2 od_wf_suffix by metis
  have sub: "od_get ?d2 \<subseteq>\<^sub>m od_get ?d1" "od_get ?d1 \<subseteq>\<^sub>m od_get d"
    using get_suffix(1) [of p2 ?d2] get_suffix(1) [of p1 ?d1] w1 assms(1) p1(1) p2 by simp_all
  have "e \<le> now \<or> cap < int (length d)" if x: "od_get d x = Some (raw, e)" "od_get ?d2 x = None" for x raw e
  proof (cases "od_get ?d1 x")
    case None
    then have "(x, raw, e) \<in> set p1" using get_suffix(2) [of p1 ?d1 x "(raw, e)"] x(1) assms(1) p1(1) by simp
    then show ?thesis using p1(2) by auto
  next
    case (Some v)
    then have "?d2 \<noteq> ?d1" using x(2) by auto
    then have "cap < int (length ?d1)" using enforce_cap_id [of ?d1 cap] by linarith
    moreover have "length ?d1 \<le> length d" by (subst (2) p1(1)) simp
    ultimately show ?thesis by linarith
  qed
  moreover have "int (length ?d2) \<le> cap" using enforce_cap_bound assms(2) by simp
  ultimately show ?thesis
    using map_le_trans [OF sub] card_dom_get [OF w2] card_dom_get [OF assms(1)] by (simp add: forgets_def) blast
qed

lemma record_refines:
  assumes "cache_wf c"
  shows "spec_record now2 (now1 + ttl c) (max_entries c) k raw (abs_cache c)
    (abs_cache (record_reply now1 now2 k raw None c))"
proof -
  let ?e = "now1 + ttl c"
  let ?d = "od_move_to_end k (od_set k (raw, ?e) (cached c))"
  have w: "od_wf ?d" using assms by (auto simp: cache_wf_def intro: odr.wf_to_end od.wf_set)
  have c: "cached (record_reply now1 now2 k raw None c) = enforce_cap (max_entries c) (drop_expired now2 ?d)"
    by (simp add: record_reply_def Let_def evict_locked_def drop_in_flight_def)
  have "od_get ?d = (od_get (cached c))(k \<mapsto> (raw, ?e))" by (simp add: odr.get_to_end od.get_set)
  then have "forgets now2 (max_entries c) ((od_get (cached c))(k \<mapsto> (raw, ?e)))
      (od_get (cached (record_reply now1 now2 k raw None c)))"
    using evict_forgets [OF w, of "max_entries c" now2] assms c by (simp add: cache_wf_def)
  moreover have "now2 < ?e \<longrightarrow> od_get (cached (record_reply now1 now2 k raw None c)) k = Some (raw, ?e)"
    using record_get [OF assms, of ?e now1 None now2] by simp
  ultimately show ?thesis by (simp add: spec_record_def abs_cache_def)
qed

lemma settings_kept:
  "ttl (snd (use_cache x c)) = ttl c" "max_entries (snd (use_cache x c)) = max_entries c"
proof -
  have "ttl (snd (lookup now k c)) = ttl c \<and> max_entries (snd (lookup now k c)) = max_entries c" for now k
    by (simp add: lookup_def Let_def split: option.split)
  then have "ttl c' = ttl c \<and> max_entries c' = max_entries c"
    if "consult_cache now (Some c) (Some k) = (act, sent, Some c')" for now k act sent c'
    using consult_other [OF that] consult_PROCESS [of now c k sent c'] that
    by (cases act) (auto simp: mark_in_flight_def)
  then have "ttl (snd (use_cache x c)) = ttl c \<and> max_entries (snd (use_cache x c)) = max_entries c"
    by (cases x) (auto simp: record_reply_def Let_def evict_locked_def drop_in_flight_def
        split: prod.split option.split)
  then show "ttl (snd (use_cache x c)) = ttl c" "max_entries (snd (use_cache x c)) = max_entries c" by simp_all
qed

lemma consult_some:
  obtains act sent c' where "consult_cache now (Some c) (Some k) = (act, sent, Some c')" "cache_wf c \<Longrightarrow> cache_wf c'"
proof -
  obtain r c1 where l: "lookup now k c = (r, c1)" by (cases "lookup now k c")
  have "cache_wf c \<Longrightarrow> cache_wf c1" using lookup_wf [of c now k] l by simp
  then show thesis
    using that l by (cases r) (auto simp: consult_cache_cases intro: mark_wf)
qed

lemma use_refines:
  assumes "cache_wf c" "use_cache x c = (a, c')"
  shows "spec_use (ttl c) (max_entries c) x (abs_cache c) a (abs_cache c') \<and> cache_wf c'"
proof (cases x)
  case (Ask now k)
  obtain act sent c1 where r: "consult_cache now (Some c) (Some k) = (act, sent, Some c1)" "cache_wf c1"
    using consult_some [of now c k] assms(1) by metis
  then show ?thesis using assms(2) Ask consult_refines [OF r(1)] by simp
next
  case (Finish now1 now2 k raw)
  then show ?thesis
    using assms record_refines [OF assms(1), of now2 now1 k raw] record_wf [OF assms(1), of now1 now2 k raw] by auto
next
  case (Fail k)
  then show ?thesis
    using assms drop_wf [OF assms(1), of k] by (auto simp: abs_cache_def drop_in_flight_def)
qed

lemma answers_refine:
  "cache_wf c \<Longrightarrow> spec_answers (ttl c) (max_entries c) xs (abs_cache c) (answers xs c)"
proof (induction xs arbitrary: c)
  case (Cons x xs)
  obtain a c' where u: "use_cache x c = (a, c')" by (cases "use_cache x c")
  have "spec_answers (ttl c') (max_entries c') xs (abs_cache c') (answers xs c')"
    by (rule Cons.IH) (use use_refines [OF Cons.prems u] in simp)
  then show ?case
    using use_refines [OF Cons.prems u] settings_kept [of x c] u by auto
qed simp

section \<open>Properties\<close>

text \<open>
  C17 The response cache refines its specification, an expiring map from requests to replies beside
  the set of running requests: whatever requests ask and handlers finish, in whatever order and at
  whatever times, the answers of the cache are answers that the specification allows. Recency,
  the order of the entries and the two eviction loops are not visible, except that replies may be
  forgotten when they have expired or the cap is exceeded.
\<close>

theorem cache_refines_expiring_map:
  assumes "cache_init t cap = Inr c"
  shows "spec_answers t cap xs spec_init (answers xs c)"
proof -
  have "ttl c = t" "max_entries c = cap" "abs_cache c = spec_init"
    using assms by (auto simp: cache_init_def abs_cache_def spec_init_def fun_eq_iff split: if_splits)
  then show ?thesis using answers_refine [OF cache_init_wf [OF assms], of xs] by simp
qed

lemma cache_refines_expiring_map_witness:
  fixes k :: DedupKey
  defines "k \<equiv> \<lparr>src_ip = ''10.0.0.1'', src_port = 1812, dk_code = 1, dk_identifier = 7,
    dk_request_authenticator = [1, 2, 3]\<rparr>"
  shows "spec_answers 30 1 [Ask 0 k, Ask 1 k, Finish 2 3 k [7], Ask 4 k, Ask 40 k] spec_init
    [Some (PROCESS, []), Some (DROP, []), None, Some (RESENT, [[7]]), Some (PROCESS, [])]"
proof -
  define c :: cache where "c = \<lparr>ttl = 30, max_entries = 1, in_flight = {}, cached = []\<rparr>"
  have i: "cache_init 30 1 = Inr c" by (simp add: cache_init_def c_def)
  have "answers [Ask 0 k, Ask 1 k, Finish 2 3 k [7], Ask 4 k, Ask 40 k] c
    = [Some (PROCESS, []), Some (DROP, []), None, Some (RESENT, [[7]]), Some (PROCESS, [])]"
    by (simp add: consult_cache_cases lookup_def c_def mark_in_flight_def record_reply_def drop_in_flight_def
        evict_locked_def od_move_to_end_def od_del_def Let_def)
  then show ?thesis using cache_refines_expiring_map [OF i] by metis
qed

end
