(* ===== verification/Mschap.thy ===== *)
theory Mschap
  imports PacketAuth Md4
begin

text \<open>
  \<^verbatim>\<open>pyrad2/mschap.py\<close>: MS-CHAPv2 (RFC 2759). DES comes from the package \<^verbatim>\<open>cryptography\<close>, which is
  not part of the repository: \<open>des\<close> is Triple-DES of one block in ECB mode as a function of the
  key and the block, \<open>None\<close> where the package is not installed. Passwords and names are octets
  or text, as in the code.
\<close>

type_synonym des = "(bytes \<Rightarrow> bytes \<Rightarrow> bytes) option"

section \<open>Keys\<close>

text \<open>Seven octets of key over eight, one zero parity bit in each.\<close>

definition masked :: "int \<Rightarrow> byte" where
  "masked x = word_of_int (x AND 0xFE)"

definition expand_des_key :: "bytes \<Rightarrow> bytes res" where
  "expand_des_key key7 =
     (if length key7 \<noteq> 7 then Inl ValueError
      else
        let k = (\<lambda>i. uint (key7 ! i))
        in Inr
          [masked (k 0),
           masked (push_bit 7 (k 0) OR drop_bit 1 (k 1)),
           masked (push_bit 6 (k 1) OR drop_bit 2 (k 2)),
           masked (push_bit 5 (k 2) OR drop_bit 3 (k 3)),
           masked (push_bit 4 (k 3) OR drop_bit 4 (k 4)),
           masked (push_bit 3 (k 4) OR drop_bit 5 (k 5)),
           masked (push_bit 2 (k 5) OR drop_bit 6 (k 6)),
           masked (push_bit 1 (k 6))])"

definition des_encrypt :: "des \<Rightarrow> bytes \<Rightarrow> bytes \<Rightarrow> bytes res" where
  "des_encrypt des key7 plaintext8 =
     (if length plaintext8 \<noteq> 8 then Inl ValueError
      else
        case des of
          None \<Rightarrow> Inl ImportError
        | Some e \<Rightarrow> bindE (expand_des_key key7) (\<lambda>k. Inr (e (k @ k @ k) plaintext8)))"

section \<open>Hashes\<close>

text \<open>\<^verbatim>\<open>s.encode("utf-16-le")\<close>; a lone surrogate cannot be encoded.\<close>

definition utf16_char :: "nat \<Rightarrow> bytes res" where
  "utf16_char c =
     (if \<not> scalar c then Inl UnicodeError
      else if c < 0x10000 then Inr (le_bytes 2 (int c))
      else
        Inr (le_bytes 2 (int (0xD800 + (c - 0x10000) div 0x400))
             @ le_bytes 2 (int (0xDC00 + (c - 0x10000) mod 0x400))))"

definition utf16le_encode :: "ustr \<Rightarrow> bytes res" where
  "utf16le_encode s = bindE (mapE utf16_char s) (\<lambda>bss. Inr (concat bss))"

definition nt_password_hash :: "pyval \<Rightarrow> bytes res" where
  "nt_password_hash password =
     bindE (case password of PStr s \<Rightarrow> utf16le_encode s | v \<Rightarrow> as_bytes v) md4"

definition hash_nt_password_hash :: "bytes \<Rightarrow> bytes res" where
  "hash_nt_password_hash h = (if length h \<noteq> 16 then Inl ValueError else md4 h)"

definition challenge_hash :: "bytes \<Rightarrow> bytes \<Rightarrow> pyval \<Rightarrow> bytes res" where
  "challenge_hash peer authenticator user =
     bindE (plain_bytes user) (\<lambda>name.
     if length peer \<noteq> 16 then Inl ValueError
     else if length authenticator \<noteq> 16 then Inl ValueError
     else Inr (take 8 (sha1 (peer @ authenticator @ name))))"

section \<open>Responses\<close>

definition challenge_response :: "des \<Rightarrow> bytes \<Rightarrow> bytes \<Rightarrow> bytes res" where
  "challenge_response des challenge8 h =
     (if length challenge8 \<noteq> 8 then Inl ValueError
      else if length h \<noteq> 16 then Inl ValueError
      else
        let z = h @ replicate 5 0
        in bindE (des_encrypt des (py_slice z 0 7) challenge8) (\<lambda>a.
           bindE (des_encrypt des (py_slice z 7 14) challenge8) (\<lambda>b.
           bindE (des_encrypt des (py_slice z 14 21) challenge8) (\<lambda>c. Inr (a @ b @ c)))))"

definition generate_nt_response :: "des \<Rightarrow> bytes \<Rightarrow> bytes \<Rightarrow> pyval \<Rightarrow> pyval \<Rightarrow> bytes res" where
  "generate_nt_response des authenticator peer user password =
     bindE (challenge_hash peer authenticator user) (\<lambda>challenge.
     bindE (nt_password_hash password) (\<lambda>h. challenge_response des challenge h))"

definition build_mschap2_response :: "int \<Rightarrow> bytes \<Rightarrow> bytes \<Rightarrow> int \<Rightarrow> bytes res" where
  "build_mschap2_response ident peer nt flgs =
     (if \<not> (0 \<le> ident \<and> ident \<le> 0xFF) then Inl ValueError
      else if \<not> (0 \<le> flgs \<and> flgs \<le> 0xFF) then Inl ValueError
      else if length peer \<noteq> 16 then Inl ValueError
      else if length nt \<noteq> 24 then Inl ValueError
      else Inr ([word_of_int ident, word_of_int flgs] @ peer @ replicate 8 0 @ nt))"

text \<open>An ASCII literal.\<close>

definition ascii :: "string \<Rightarrow> bytes" where
  "ascii s = map of_char s"

definition AUTH_RESPONSE_MAGIC_1 :: bytes where
  "AUTH_RESPONSE_MAGIC_1 = ascii ''Magic server to client signing constant''"

definition AUTH_RESPONSE_MAGIC_2 :: bytes where
  "AUTH_RESPONSE_MAGIC_2 = ascii ''Pad to make it do more than one iteration''"

definition upper_hex :: "bytes \<Rightarrow> bytes" where
  "upper_hex bs = map (\<lambda>c. word_of_nat (upper_char c)) (hex_of bs)"

definition generate_authenticator_response ::
    "pyval \<Rightarrow> bytes \<Rightarrow> bytes \<Rightarrow> bytes \<Rightarrow> pyval \<Rightarrow> bytes res" where
  "generate_authenticator_response password nt peer authenticator user =
     (if length nt \<noteq> 24 then Inl ValueError
      else
        bindE (nt_password_hash password) (\<lambda>h.
        bindE (hash_nt_password_hash h) (\<lambda>hh.
        bindE (challenge_hash peer authenticator user) (\<lambda>challenge.
        let inner = sha1 (hh @ nt @ AUTH_RESPONSE_MAGIC_1);
            final = sha1 (inner @ challenge @ AUTH_RESPONSE_MAGIC_2)
        in Inr (ascii ''S='' @ upper_hex final)))))"

text \<open>\<^verbatim>\<open>received.find(b"S=")\<close>.\<close>

fun find_sub :: "bytes \<Rightarrow> bytes \<Rightarrow> nat option" where
  "find_sub p [] = (if p = [] then Some 0 else None)"
| "find_sub p (b # bs) = (if startswith (b # bs) p then Some 0 else map_option Suc (find_sub p bs))"

definition verify_authenticator_response ::
    "pyval \<Rightarrow> bytes \<Rightarrow> bytes \<Rightarrow> bytes \<Rightarrow> pyval \<Rightarrow> bytes \<Rightarrow> bool res" where
  "verify_authenticator_response password nt peer authenticator user received =
     bindE (generate_authenticator_response password nt peer authenticator user) (\<lambda>expected.
     Inr (case find_sub (ascii ''S='') received of
            None \<Rightarrow> False
          | Some i \<Rightarrow> py_slice received i (i + 42) = expected))"

definition USER_PASSWORD :: ustr where
  "USER_PASSWORD = u ''User-Password''"

definition drop_user_password :: "packet \<Rightarrow> packet res" where
  "drop_user_password p =
     bindE (contains (KName USER_PASSWORD) p) (\<lambda>b.
     if b then delitem (KName USER_PASSWORD) p else Inr p)"

definition prepare_mschap2_request ::
    "des \<Rightarrow> pyval \<Rightarrow> pyval \<Rightarrow> bytes \<Rightarrow> bytes \<Rightarrow> int \<Rightarrow> int \<Rightarrow> packet \<Rightarrow> bytes pm" where
  "prepare_mschap2_request des user password authenticator peer ident flgs p =
     bindE (drop_user_password p) (\<lambda>p1.
     bindE (generate_nt_response des authenticator peer user password) (\<lambda>nt.
     bindE (setitem (u ''MS-CHAP-Challenge'') [PBytes authenticator] p1) (\<lambda>p2.
     bindE (build_mschap2_response ident peer nt flgs) (\<lambda>r.
     bindE (setitem (u ''MS-CHAP2-Response'') [PBytes r] p2) (\<lambda>p3. Inr (nt, p3))))))"

section \<open>The expansion keeps the key\<close>

text \<open>
  What DES uses of the expanded key: the seven high bits of each octet, most significant first.
\<close>

definition key_bits :: "bytes \<Rightarrow> int" where
  "key_bits k8 = foldl (\<lambda>acc b. 128 * acc + uint b div 2) 0 k8"

lemma and_FE: "x AND 0xFE = 2 * ((x div 2) mod 128)" for x :: int
proof -
  have "x AND (2 * mask 7) = 2 * take_bit 7 (drop_bit 1 x)"
    by (rule bit_eqI) (auto simp: bit_and_iff bit_double_iff bit_mask_iff bit_take_bit_iff bit_drop_bit_eq)
  then show ?thesis
    by (simp add: take_bit_eq_mod drop_bit_eq_div mask_eq_exp_minus_1)
qed

lemma uint_masked: "uint (masked x) = 2 * ((x div 2) mod 128)"
proof -
  have "0 \<le> 2 * ((x div 2) mod 128)" "2 * ((x div 2) mod 128) < (256::int)"
    using pos_mod_bound [of 128 "x div 2"] by simp_all
  then show ?thesis unfolding masked_def and_FE uint_word_of_int_byte by (rule mod_pos_pos_trivial)
qed

text \<open>The low bits of an octet and the high bits of its neighbour, side by side.\<close>

lemma masked_joined:
  assumes "n \<le> 8"
  shows "uint (masked (push_bit (8 - n) a OR drop_bit n (uint (b :: byte)))) div 2
    = (a * 2 ^ (8 - n) + uint b div 2 ^ n) div 2 mod 128"
proof -
  have "push_bit (8 - n) a OR drop_bit n (uint b) = push_bit (8 - n) a + drop_bit n (uint b)"
  proof (rule disjunctive_add [symmetric])
    fix i
    have "\<not> bit (drop_bit n (uint b)) i" if "8 - n \<le> i"
    proof -
      have "8 \<le> n + i" using that assms by arith
      then show ?thesis using bit_imp_le_length [of b "n + i"] by (auto simp: bit_drop_bit_eq bit_uint_iff)
    qed
    then show "\<not> bit (push_bit (8 - n) a) i \<or> \<not> bit (drop_bit n (uint b)) i"
      by (auto simp: bit_push_bit_iff)
  qed
  then show ?thesis by (simp add: uint_masked push_bit_eq_mult drop_bit_eq_div)
qed

lemma half_mod: "(256 * q + m) div 2 mod 128 = m div 2 mod (128 :: int)"
proof -
  have "256 * q + m = m + 128 * q * 2" by simp
  then have "(256 * q + m) div 2 = 128 * q + m div 2" by (simp only: div_mult_self1)
  then show ?thesis by simp
qed

lemma key_bits_step:
  fixes a b D E :: int
  assumes "0 < D" "D * E = 256" "0 \<le> b" "b < 256"
  shows "128 * (a div D) + (a * E + b div D) div 2 mod 128 = (256 * a + b) div (2 * D)"
proof -
  define q r where "q = a div D" and "r = a mod D"
  have a: "a = D * q + r" and r: "0 \<le> r" "r < D" using assms(1) by (simp_all add: q_def r_def)
  have E: "0 < E" using assms(1,2) zero_less_mult_pos [of D E] by simp
  define m where "m = r * E + b div D"
  have aE: "a * E = 256 * q + r * E" using assms(2) by (simp add: a algebra_simps)
  have m0: "0 \<le> m" using assms r E by (simp add: m_def pos_imp_zdiv_nonneg_iff)
  have "(r + 1) * E \<le> D * E" using r E by (simp add: mult_right_mono)
  moreover have "b div D < E"
  proof -
    have "D * (b div D) \<le> b" using assms(1) mult_div_mod_eq [of D b] pos_mod_sign [of D b] by linarith
    then have "D * (b div D) < D * E" using assms by linarith
    then show ?thesis using assms(1) by (simp add: mult_less_cancel_left_pos)
  qed
  ultimately have m1: "m < 256" using assms(2) by (simp add: m_def algebra_simps)
  have "(256 * q + m) div 2 mod 128 = m div 2"
    using m0 m1 by (simp add: half_mod)
  then have "(a * E + b div D) div 2 mod 128 = m div 2"
    by (simp add: aE m_def add.assoc)
  moreover have "(256 * a + b) div (2 * D) = 128 * q + m div 2"
  proof -
    have "(256 * a + b) div D = a * E + b div D"
    proof -
      have "a * E * D = a * (D * E)" by (simp add: mult.assoc mult.commute)
      then have "256 * a + b = b + a * E * D" by (simp add: assms(2))
      moreover have "(b + a * E * D) div D = a * E + b div D"
        using assms(1) by (intro div_mult_self1) simp
      ultimately show ?thesis by (simp only:)
    qed
    then have "(256 * a + b) div (D * 2) = (256 * q + m) div 2"
      using zdiv_zmult2_eq [of 2 "256 * a + b" D] by (simp add: aE m_def add.assoc)
    then show ?thesis by (simp add: mult.commute)
  qed
  ultimately show ?thesis by (simp add: q_def)
qed

text \<open>One octet more of the key \<open>N\<close> that has been spread so far; \<open>a\<close> is its last octet.\<close>

lemma spread_step:
  assumes "n \<le> 8"
  shows "128 * ((256 * x + uint (a :: byte)) div 2 ^ n)
      + uint (masked (push_bit (8 - n) (uint a) OR drop_bit n (uint (b :: byte)))) div 2
    = (256 * (256 * x + uint a) + uint b) div 2 ^ Suc n"
proof -
  let ?E = "2 ^ (8 - n) :: int"
  have e: "2 ^ n * ?E = 256" using assms by (simp flip: power_add)
  have "((256 * x + uint a) * ?E + uint b div 2 ^ n) div 2 mod 128
    = (256 * (x * ?E) + (uint a * ?E + uint b div 2 ^ n)) div 2 mod 128"
    by (simp only: distrib_right mult.assoc add.assoc)
  also have "\<dots> = (uint a * ?E + uint b div 2 ^ n) div 2 mod 128" by (rule half_mod)
  also have "\<dots> = uint (masked (push_bit (8 - n) (uint a) OR drop_bit n (uint b))) div 2"
    by (rule masked_joined [OF assms, symmetric])
  finally show ?thesis
    using key_bits_step [OF _ e, of "uint b" "256 * x + uint a"] uint_byte_bounds [of b]
    by (simp only: power_Suc zero_less_power zero_less_numeral)
qed

lemma expansion_keeps_key:
  assumes "expand_des_key key7 = Inr k8"
  shows "length k8 = 8 \<and> key_bits k8 = be_val key7 \<and> (\<forall>b \<in> set k8. even (uint b))"
proof -
  have "length key7 = 7" using assms by (simp add: expand_des_key_def split: if_splits)
  then obtain a b c d e f g where k: "key7 = [a, b, c, d, e, f, g]"
    by (auto simp: length_Suc_conv eval_nat_numeral)
  define B C D E F G where n: "B = 256 * uint a + uint b" "C = 256 * B + uint c"
    "D = 256 * C + uint d" "E = 256 * D + uint e" "F = 256 * E + uint f" "G = 256 * F + uint g"
  have k8: "k8 = [masked (uint a), masked (push_bit 7 (uint a) OR drop_bit 1 (uint b)),
      masked (push_bit 6 (uint b) OR drop_bit 2 (uint c)), masked (push_bit 5 (uint c) OR drop_bit 3 (uint d)),
      masked (push_bit 4 (uint d) OR drop_bit 4 (uint e)), masked (push_bit 3 (uint e) OR drop_bit 5 (uint f)),
      masked (push_bit 2 (uint f) OR drop_bit 6 (uint g)), masked (push_bit 1 (uint g))]"
    using assms by (simp add: expand_des_key_def k Let_def)
  have "uint (masked (uint a)) div 2 = uint a div 2"
    using uint_byte_bounds [of a] by (simp add: uint_masked)
  moreover have "128 * (uint a div 2) + uint (masked (push_bit 7 (uint a) OR drop_bit 1 (uint b))) div 2 = B div 4"
    using spread_step [of 1 0 a b] by (simp add: n)
  moreover have "128 * (B div 4) + uint (masked (push_bit 6 (uint b) OR drop_bit 2 (uint c))) div 2 = C div 8"
    using spread_step [of 2 "uint a" b c] by (simp add: n)
  moreover have "128 * (C div 8) + uint (masked (push_bit 5 (uint c) OR drop_bit 3 (uint d))) div 2 = D div 16"
    using spread_step [of 3 B c d] by (simp add: n)
  moreover have "128 * (D div 16) + uint (masked (push_bit 4 (uint d) OR drop_bit 4 (uint e))) div 2 = E div 32"
    using spread_step [of 4 C d e] by (simp add: n)
  moreover have "128 * (E div 32) + uint (masked (push_bit 3 (uint e) OR drop_bit 5 (uint f))) div 2 = F div 64"
    using spread_step [of 5 D e f] by (simp add: n)
  moreover have "128 * (F div 64) + uint (masked (push_bit 2 (uint f) OR drop_bit 6 (uint g))) div 2 = G div 128"
    using spread_step [of 6 E f g] by (simp add: n)
  moreover have "128 * (G div 128) + uint (masked (push_bit 1 (uint g))) div 2 = G"
  proof -
    have "G = uint g + 128 * (2 * F)" by (simp add: n(6))
    then have "(uint g * 2) div 2 mod 128 = G mod 128" by (simp only: mod_mult_self2) simp
    then show ?thesis by (simp add: uint_masked push_bit_eq_mult mult.commute)
  qed
  ultimately have "key_bits k8 = G"
    unfolding key_bits_def k8 by simp
  moreover have "be_val key7 = G" by (simp add: k be_val_def n algebra_simps)
  moreover have "\<forall>b \<in> set k8. even (uint b)" unfolding k8 by (simp add: uint_masked)
  moreover have "length k8 = 8" by (simp add: k8)
  ultimately show ?thesis by simp
qed

end
