(* ===== verification/Eap.thy ===== *)
theory Eap
  imports Mschap "HOL-Library.List_Lexorder" "HOL-Library.Char_ord"
begin

text \<open>
  \<^verbatim>\<open>pyrad2/chap.py\<close> and the package \<^verbatim>\<open>pyrad2/eap\<close>: CHAP requests, the registry of EAP methods and
  the three methods EAP-MD5, EAP-GTC and EAP-MSCHAPv2. A method is a value of \<open>eap_method\<close>, for
  MSCHAPv2 with the state of one conversation. \<open>start\<close> and \<open>respond\<close> change the request in place;
  random octets come from the request's source of random numbers.
\<close>

section \<open>CHAP\<close>

definition build_chap_password :: "int \<Rightarrow> bytes \<Rightarrow> bytes \<Rightarrow> bytes res" where
  "build_chap_password chap_id password challenge =
     (if \<not> (0 \<le> chap_id \<and> chap_id \<le> 0xFF) then Inl ValueError
      else
        let id_byte = [word_of_int chap_id]
        in Inr (id_byte @ md5 (id_byte @ password @ challenge)))"

definition CHAP_PASSWORD_NAME :: ustr where
  "CHAP_PASSWORD_NAME = u ''CHAP-Password''"

definition prepare_chap_request :: "pyval \<Rightarrow> int option \<Rightarrow> bytes option \<Rightarrow> packet \<Rightarrow> packet res" where
  "prepare_chap_request password chap_id challenge p =
     bindE (plain_bytes password) (\<lambda>pw.
     case (case chap_id of Some i \<Rightarrow> (i, p) | None \<Rightarrow> randrange 0 256 p) of (i, p1) \<Rightarrow>
     case (case challenge of Some c \<Rightarrow> (c, p1) | None \<Rightarrow> rand_bytes 16 p1) of (c, p2) \<Rightarrow>
     bindE (drop_user_password p2) (\<lambda>p3.
     bindE (build_chap_password i pw c) (\<lambda>cp.
     bindE (setitem CHAP_PASSWORD_NAME [PBytes cp] p3) (\<lambda>p4.
     setitem CHAP_NAME [PBytes c] p4))))"

section \<open>Frames\<close>

definition EAP_MESSAGE_ATTR :: pkey where
  "EAP_MESSAGE_ATTR = KInt 79"

definition STATE_ATTR :: pkey where
  "STATE_ATTR = KInt 24"

definition USER_PASSWORD_ATTR :: pkey where
  "USER_PASSWORD_ATTR = KInt 2"

definition USER_NAME_ATTR :: pkey where
  "USER_NAME_ATTR = KInt 1"

definition EAP_TYPE_GTC :: int where
  "EAP_TYPE_GTC = 6"

definition EAP_TYPE_MSCHAPV2 :: int where
  "EAP_TYPE_MSCHAPV2 = 26"

definition OP_CHALLENGE :: int where "OP_CHALLENGE = 1"
definition OP_RESPONSE :: int where "OP_RESPONSE = 2"
definition OP_SUCCESS :: int where "OP_SUCCESS = 3"
definition OP_FAILURE :: int where "OP_FAILURE = 4"

text \<open>The header of an EAP-Response: \<^verbatim>\<open>struct.pack("!BBHB", RESPONSE, id, n, type)\<close>.\<close>

definition eap_header :: "int \<Rightarrow> nat \<Rightarrow> int \<Rightarrow> bytes res" where
  "eap_header i n ty =
     bindE (pack2 EAPPacketType_RESPONSE i) (\<lambda>a.
     bindE (pack_uint 2 (int n)) (\<lambda>b.
     bindE (pack_uint 1 ty) (\<lambda>c. Inr (a @ b @ c))))"

definition build_eap_identity :: "int \<Rightarrow> bytes \<Rightarrow> bytes res" where
  "build_eap_identity cur identity =
     bindE (eap_header cur (length identity + 5) EAPType_IDENTITY) (\<lambda>h. Inr (h @ identity))"

definition build_eap_md5_challenge :: "int \<Rightarrow> bytes \<Rightarrow> bytes \<Rightarrow> bytes res" where
  "build_eap_md5_challenge i password eap_md5 =
     bindE (pack_uint 1 i) (\<lambda>b.
     let d = md5 (b @ password @ drop 1 eap_md5)
     in bindE (eap_header i (length d + 6) 4) (\<lambda>h.
        bindE (pack_uint 1 (int (length d))) (\<lambda>l. Inr (h @ l @ d))))"

definition build_eap_gtc_response :: "int \<Rightarrow> bytes \<Rightarrow> bytes res" where
  "build_eap_gtc_response i password =
     bindE (eap_header i (length password + 5) EAP_TYPE_GTC) (\<lambda>h. Inr (h @ password))"

text \<open>\<^verbatim>\<open>pkt[code][0]\<close>.\<close>

definition first_value :: "pkey \<Rightarrow> packet \<Rightarrow> pyval res" where
  "first_value k p =
     bindE (raw_getitem k p) (\<lambda>s.
     case s of Vals (v # _) \<Rightarrow> Inr v | Vals [] \<Rightarrow> Inl IndexError | Sub _ \<Rightarrow> Inl KeyError)"

definition password_from_packet :: "packet \<Rightarrow> bytes res" where
  "password_from_packet p =
     (if \<not> od_mem (p_attrs p) USER_PASSWORD_ATTR then Inl PacketError
      else bindE (first_value USER_PASSWORD_ATTR p) as_bytes)"

definition set_eap :: "bytes \<Rightarrow> packet \<Rightarrow> packet" where
  "set_eap payload = raw_setitem EAP_MESSAGE_ATTR (Vals [PBytes payload])"

text \<open>\<^verbatim>\<open>pkt[STATE_ATTR] = reply[STATE_ATTR]\<close>.\<close>

definition carry_state :: "packet \<Rightarrow> packet \<Rightarrow> packet res" where
  "carry_state reply p = bindE (raw_getitem STATE_ATTR reply) (\<lambda>s. Inr (raw_setitem STATE_ATTR s p))"

definition eap_payload :: "packet \<Rightarrow> bytes res" where
  "eap_payload reply = bindE (first_value EAP_MESSAGE_ATTR reply) as_bytes"

section \<open>EAP-MD5 and EAP-GTC\<close>

definition inject_eap_identity :: "int \<Rightarrow> packet \<Rightarrow> packet res" where
  "inject_eap_identity cur p =
     bindE (password_from_packet p) (\<lambda>pw.
     bindE (build_eap_identity cur pw) (\<lambda>x. Inr (set_eap x p)))"

definition apply_eap_md5_challenge :: "packet \<Rightarrow> packet \<Rightarrow> packet res" where
  "apply_eap_md5_challenge p reply =
     bindE (eap_payload reply) (\<lambda>e.
     if length e < 5 then Inl StructError
     else
       bindE (password_from_packet p) (\<lambda>pw.
       bindE (build_eap_md5_challenge (uint (e ! 1)) pw (drop 5 e)) (\<lambda>x.
       carry_state reply (set_eap x p))))"

definition apply_eap_gtc_challenge :: "packet \<Rightarrow> packet \<Rightarrow> packet res" where
  "apply_eap_gtc_challenge p reply =
     bindE (eap_payload reply) (\<lambda>e.
     if length e < 5 then Inl ValueError
     else
       bindE (password_from_packet p) (\<lambda>pw.
       bindE (build_eap_gtc_response (uint (e ! 1)) pw) (\<lambda>x.
       carry_state reply (set_eap x p))))"

section \<open>EAP-MSCHAPv2\<close>

record mschap_state =
  ms_user :: bytes
  ms_password :: ustr
  ms_authenticator :: bytes
  ms_peer :: bytes
  ms_nt :: bytes

definition mschap_init :: mschap_state where
  "mschap_init = \<lparr>ms_user = [], ms_password = [], ms_authenticator = [], ms_peer = [], ms_nt = []\<rparr>"

definition user_name_from_packet :: "packet \<Rightarrow> bytes res" where
  "user_name_from_packet p =
     (if od_mem (p_attrs p) USER_NAME_ATTR then bindE (first_value USER_NAME_ATTR p) plain_bytes
      else
        bindE (contains (KName (u ''User-Name'')) p) (\<lambda>b.
        if \<not> b then Inl PacketError
        else bindE (bindE (getitem (u ''User-Name'') p) first_item) plain_bytes))"

definition mschap_start :: "int \<Rightarrow> mschap_state \<Rightarrow> packet \<Rightarrow> (mschap_state \<times> packet) res" where
  "mschap_start cur st p =
     bindE (user_name_from_packet p) (\<lambda>name.
     bindE (password_from_packet p) (\<lambda>raw.
     bindE (utf8_decode raw) (\<lambda>pw.
     bindE (build_eap_identity cur name) (\<lambda>x.
     Inr (st\<lparr>ms_user := name, ms_password := pw\<rparr>, set_eap x p)))))"

definition build_response ::
    "des \<Rightarrow> int \<Rightarrow> bytes \<Rightarrow> mschap_state \<Rightarrow> packet \<Rightarrow> (bytes \<times> mschap_state \<times> packet) res" where
  "build_response des i e st p =
     (if length e < 26 then Inl ValueError
      else if uint (e ! 9) \<noteq> 16 then Inl ValueError
      else
        case rand_bytes 16 p of (peer, p1) \<Rightarrow>
        let st1 = st\<lparr>ms_authenticator := py_slice e 10 26, ms_peer := peer\<rparr> in
        bindE (generate_nt_response des (ms_authenticator st1) peer (PBytes (ms_user st1)) (PStr (ms_password st1))) (\<lambda>nt.
        let n = 1 + 1 + 2 + 1 + 49 + length (ms_user st1) in
        bindE (eap_header i (5 + n) EAP_TYPE_MSCHAPV2) (\<lambda>h.
        bindE (pack_uint 1 OP_RESPONSE) (\<lambda>oc.
        bindE (pack_uint 2 (int n)) (\<lambda>l.
        Inr (h @ oc @ [e ! 6] @ l @ [49] @ (peer @ replicate 8 0 @ nt @ [0]) @ ms_user st1,
             st1\<lparr>ms_nt := nt\<rparr>, p1))))))"

text \<open>The six octets of an acknowledgement.\<close>

definition mschap_ack :: "int \<Rightarrow> int \<Rightarrow> bytes res" where
  "mschap_ack i oc =
     bindE (eap_header i 6 EAP_TYPE_MSCHAPV2) (\<lambda>h. bindE (pack_uint 1 oc) (\<lambda>c. Inr (h @ c)))"

definition build_success_response :: "int \<Rightarrow> bytes \<Rightarrow> mschap_state \<Rightarrow> bytes res" where
  "build_success_response i e st =
     (let message = drop 6 e
      in if message \<noteq> [] \<and> find_sub (ascii ''S='') message \<noteq> None then
           bindE (verify_authenticator_response (PStr (ms_password st)) (ms_nt st) (ms_peer st)
                    (ms_authenticator st) (PBytes (ms_user st)) message) (\<lambda>b.
           if b then mschap_ack i OP_SUCCESS else Inl ValueError)
         else mschap_ack i OP_SUCCESS)"

definition build_failure_response :: "int \<Rightarrow> bytes res" where
  "build_failure_response i = mschap_ack i OP_FAILURE"

definition mschap_respond ::
    "des \<Rightarrow> mschap_state \<Rightarrow> packet \<Rightarrow> packet \<Rightarrow> (mschap_state \<times> packet) res" where
  "mschap_respond des st p challenge =
     bindE (eap_payload challenge) (\<lambda>e.
     if length e < 6 then Inl ValueError
     else if uint (e ! 4) \<noteq> EAP_TYPE_MSCHAPV2 then Inl ValueError
     else
       let i = uint (e ! 1); oc = uint (e ! 5) in
       bindE (if oc = OP_CHALLENGE then build_response des i e st p
              else if oc = OP_SUCCESS then bindE (build_success_response i e st) (\<lambda>x. Inr (x, st, p))
              else if oc = OP_FAILURE then bindE (build_failure_response i) (\<lambda>x. Inr (x, st, p))
              else Inl ValueError) (\<lambda>(x, st1, p1).
       bindE (carry_state challenge (set_eap x p1)) (\<lambda>p2. Inr (st1, p2))))"

section \<open>Methods and their registry\<close>

datatype eap_method = Md5Method | GtcMethod | MschapV2Method mschap_state

fun method_start :: "int \<Rightarrow> eap_method \<Rightarrow> packet \<Rightarrow> (eap_method \<times> packet) res" where
  "method_start cur (MschapV2Method st) p =
     bindE (mschap_start cur st p) (\<lambda>(st', p'). Inr (MschapV2Method st', p'))"
| "method_start cur m p = bindE (inject_eap_identity cur p) (\<lambda>p'. Inr (m, p'))"

fun method_respond :: "des \<Rightarrow> eap_method \<Rightarrow> packet \<Rightarrow> packet \<Rightarrow> (eap_method \<times> packet) res" where
  "method_respond des Md5Method p reply =
     bindE (apply_eap_md5_challenge p reply) (\<lambda>p'. Inr (Md5Method, p'))"
| "method_respond des GtcMethod p reply =
     bindE (apply_eap_gtc_challenge p reply) (\<lambda>p'. Inr (GtcMethod, p'))"
| "method_respond des (MschapV2Method st) p reply =
     bindE (mschap_respond des st p reply) (\<lambda>(st', p'). Inr (MschapV2Method st', p'))"

text \<open>A factory is known by the fresh instance that it makes.\<close>

type_synonym registry = "(string, eap_method) od"

definition register_method :: "string \<Rightarrow> eap_method \<Rightarrow> registry \<Rightarrow> registry" where
  "register_method name fresh reg = od_set name fresh reg"

definition builtin_methods :: registry where
  "builtin_methods =
     register_method ''eap-mschapv2'' (MschapV2Method mschap_init)
       (register_method ''eap-gtc'' GtcMethod (register_method ''eap-md5'' Md5Method []))"

definition get_method :: "registry \<Rightarrow> string option \<Rightarrow> eap_method option" where
  "get_method reg name = (case name of None \<Rightarrow> None | Some n \<Rightarrow> od_get reg n)"

definition registered_methods :: "registry \<Rightarrow> string list" where
  "registered_methods reg = sort (od_keys reg)"

end
