(* ===== verification/Replies.thy ===== *)
theory Replies
  imports Eap Retry
begin

text \<open>
  What all three clients do with the octets of a reply (\<^verbatim>\<open>create_reply(packet=raw)\<close> and
  \<^verbatim>\<open>verify_reply\<close>, which leaves a changed reply behind), and the construction of requests by
  \<^verbatim>\<open>_ClientPacketFactoryMixin\<close> (\<^verbatim>\<open>pyrad2/host.py\<close>).
\<close>

section \<open>Replies from octets\<close>

text \<open>
  \<^verbatim>\<open>_make_reply(..., packet=raw)\<close>: the constructor decodes the octets, then \<^verbatim>\<open>_set_reply_context\<close>
  stores the request's code and the request's token in the reply. Requests that were sent have
  an identifier, so the counter of the module does not move.
\<close>

definition create_reply_from :: "bytes \<Rightarrow> packet \<Rightarrow> packet res" where
  "create_reply_from raw p =
     (case reply_shell (p_class p) of (cls, c0) \<Rightarrow>
      case new_packet cls c0 (p_id p) (p_secret p) (p_auth p) (p_version p) (p_dict p) (p_rng p) (p_pos p) 0 of
        (r, _) \<Rightarrow>
          bindE (decode_packet raw (r\<lparr>p_raw := Some raw\<rparr>)) (\<lambda>q.
          Inr (q\<lparr>p_orig_code := Some (p_code p), p_token := p_token p,
                 p_auth_type := (if p_class p = AuthC then p_auth_type p else ''pap'')\<rparr>)))"

text \<open>\<^verbatim>\<open>verify_reply\<close> with the reply that it leaves behind.\<close>

definition verify_reply_keep :: "packet \<Rightarrow> packet \<Rightarrow> bytes \<Rightarrow> bool \<Rightarrow> bool pm" where
  "verify_reply_keep p reply w enforce_ma =
     (if p_version p = V1_1 then
        Inr (p_token p \<noteq> None \<and> p_token reply \<noteq> None \<and> p_token reply = p_token p, reply)
      else if p_id reply \<noteq> p_id p then Inr (False, reply)
      else
        bindE (pkt_encode_attributes reply) (\<lambda>(_, r2).
        case p_auth p of
          None \<Rightarrow> Inl TypeError
        | Some a \<Rightarrow>
            if md5 (take 4 w @ a @ drop 20 w @ p_secret p) \<noteq> py_slice w 4 20 then Inr (False, r2)
            else if has_message_authenticator r2 then
              (case require_valid_message_authenticator (Some (p_secret p)) (Some a) (Some (p_code p)) r2 of
                 Inl e \<Rightarrow> Inr (False, r2)
               | Inr r3 \<Rightarrow> Inr (True, r3))
            else Inr (\<not> (enforce_ma \<and> p_code p = pt AccessRequest), r2)))"

lemma verify_reply_keep_verdict:
  "verify_reply p q (Some w) enforce = bindE (verify_reply_keep p q w enforce) (\<lambda>(b, _). Inr b)"
  by (simp add: verify_reply_def verify_reply_keep_def bindE_assoc split: option.split sum.split)
    (auto intro!: arg_cong2 [where f = bindE] simp: fun_eq_iff split: option.split sum.split)

lemma verify_reply_kept:
  assumes "verify_reply_keep p q w enforce = Inr (True, q')"
  shows "verify_reply p q (Some w) enforce = Inr True"
  using assms by (simp add: verify_reply_keep_verdict)

section \<open>Construction of requests\<close>

datatype req_class = ReqAuth | ReqAcct | ReqCoA | ReqStatus

fun req_pclass :: "req_class \<Rightarrow> pclass" where
  "req_pclass ReqAuth = AuthC"
| "req_pclass ReqAcct = AcctC"
| "req_pclass ReqCoA = CoAC"
| "req_pclass ReqStatus = StatusC"

text \<open>
  The constructor of the class with the client's dictionary and secret, the identifier that the
  client allocated (or the module's counter), attributes by name. Only Access-Requests are
  stamped with the client's setting for the Message-Authenticator.
\<close>

definition build_packet ::
    "req_class \<Rightarrow> int option \<Rightarrow> bytes \<Rightarrow> dictionary option \<Rightarrow> bool \<Rightarrow> bool option
     \<Rightarrow> (ustr \<times> pyval list) list \<Rightarrow> (nat \<Rightarrow> int) \<Rightarrow> int \<Rightarrow> (packet res \<times> int) option" where
  "build_packet c pkt_id secret d enforce ma attrs rng cur =
     (case new_packet (req_pclass c) (default_code (req_pclass c)) pkt_id secret None V1_0 d rng 0 cur of
        (p, cur') \<Rightarrow>
          map_option (\<lambda>r. (r, cur'))
            (init_contents None (if c = ReqAuth \<and> ma = None then Some enforce else ma) attrs p))"

end
