(* ===== verification/Client.thy ===== *)
theory Client
  imports Replies Effects
begin

text \<open>
  \<^verbatim>\<open>pyrad2/client.py\<close>: the sync client. The network is the list of what successive polls of the
  socket deliver (\<open>None\<close>: the poll timed out or delivered nothing); after the list nothing arrives
  any more, and a poll then waits until the attempt is over. \<open>cl_clock n\<close> is the \<open>n\<close>-th
  reading of the clock, \<open>cl_rand n\<close> the \<open>n\<close>-th random sample of the jitter. The request is part of
  the state, so what happens to it before an exception stays; a single packet operation that
  raises leaves it unchanged. The socket is in theory \<open>ClientSocket\<close>.
\<close>

record client =
  cl_policy :: RetryPolicy
  cl_enforce_ma :: bool
  cl_authport :: int
  cl_acctport :: int
  cl_coaport :: int
  cl_secret :: bytes
  cl_dict :: "dictionary option"
  cl_methods :: registry
  cl_des :: des
  cl_clock :: "nat \<Rightarrow> rat"
  cl_rand :: "nat \<Rightarrow> rat"

record exchange =
  x_pkt :: packet
  x_polls :: "bytes option list"
  x_sent :: "(bytes \<times> int) list"
  x_ticks :: nat
  x_draws :: nat
  x_cur :: int

type_synonym 'a xm = "(exchange, 'a) sm"

definition on_pkt :: "(packet \<Rightarrow> packet res) \<Rightarrow> unit xm" where
  "on_pkt f s = (case f (x_pkt s) of Inl e \<Rightarrow> (Inl e, s) | Inr p \<Rightarrow> (Inr (), s\<lparr>x_pkt := p\<rparr>))"

definition read_clock :: "client \<Rightarrow> rat xm" where
  "read_clock c s = (Inr (cl_clock c (x_ticks s)), s\<lparr>x_ticks := Suc (x_ticks s)\<rparr>)"

definition next_wait :: "client \<Rightarrow> nat \<Rightarrow> rat xm" where
  "next_wait c attempt s =
     (Inr (wait_for (cl_rand c (x_draws s)) attempt (cl_policy c)), s\<lparr>x_draws := Suc (x_draws s)\<rparr>)"

section \<open>Acct-Delay-Time\<close>

definition ACCT_DELAY :: ustr where
  "ACCT_DELAY = u ''Acct-Delay-Time''"

text \<open>\<^verbatim>\<open>list(pkt["Acct-Delay-Time"])\<close>; the list of a container is the list of its names.\<close>

definition item_values :: "item \<Rightarrow> pyval list" where
  "item_values x = (case x of IList vs \<Rightarrow> vs | IMap m \<Rightarrow> map (\<lambda>kv. PStr (fst kv)) m)"

definition saved_delay :: "packet \<Rightarrow> pyval list option res" where
  "saved_delay p =
     (if p_code p \<noteq> pt AccountingRequest then Inr None
      else
        bindE (contains (KName ACCT_DELAY) p) (\<lambda>b.
        if b then bindE (getitem ACCT_DELAY p) (\<lambda>x. Inr (Some (item_values x))) else Inr None))"

text \<open>\<^verbatim>\<open>int(x)\<close> of a float.\<close>

definition py_trunc :: "rat \<Rightarrow> int" where
  "py_trunc x = (if 0 \<le> x then \<lfloor>x\<rfloor> else \<lceil>x\<rceil>)"

definition add_int :: "pyval \<Rightarrow> int \<Rightarrow> pyval res" where
  "add_int v n = (case v of PInt i \<Rightarrow> Inr (PInt (i + n)) | _ \<Rightarrow> Inl TypeError)"

definition bump_delay :: "rat \<Rightarrow> packet \<Rightarrow> packet res" where
  "bump_delay previous_wait p =
     bindE (contains (KName ACCT_DELAY) p) (\<lambda>b.
     if b then
       bindE (bindE (getitem ACCT_DELAY p) first_item) (\<lambda>v.
       bindE (add_int v (py_trunc previous_wait)) (\<lambda>w. setitem ACCT_DELAY [w] p))
     else setitem ACCT_DELAY [PInt (py_trunc previous_wait)] p)"

definition restore_delay :: "bool \<Rightarrow> pyval list option \<Rightarrow> packet \<Rightarrow> packet res" where
  "restore_delay is_acct saved p =
     (if \<not> is_acct then Inr p
      else
        case saved of
          Some vs \<Rightarrow> setitem ACCT_DELAY vs p
        | None \<Rightarrow>
            bindE (contains (KName ACCT_DELAY) p) (\<lambda>b.
            if b then delitem (KName ACCT_DELAY) p else Inr p))"

section \<open>Waiting for the reply\<close>

text \<open>
  One datagram: \<open>None\<close> when it is not the reply (a PacketError or a failed verification). The
  accepted reply remembers the request's authenticator.
\<close>

definition accept_reply :: "bool \<Rightarrow> packet \<Rightarrow> bytes \<Rightarrow> packet option res" where
  "accept_reply enforce p raw =
     (case bindE (create_reply_from raw p) (\<lambda>q. verify_reply_keep p q raw enforce) of
        Inl e \<Rightarrow> if e = PacketError then Inr None else Inl e
      | Inr (b, q) \<Rightarrow> Inr (if b then Some (q\<lparr>p_req_auth := p_auth p\<rparr>) else None))"

text \<open>\<^verbatim>\<open>while now < waitto\<close>; the socket delivers at most 4096 octets.\<close>

fun await_reply ::
    "(nat \<Rightarrow> rat) \<Rightarrow> bool \<Rightarrow> packet \<Rightarrow> rat \<Rightarrow> rat \<Rightarrow> nat \<Rightarrow> bytes option list
     \<Rightarrow> packet option res \<times> nat \<times> bytes option list" where
  "await_reply clock enforce p waitto now ticks [] = (Inr None, ticks, [])"
| "await_reply clock enforce p waitto now ticks (x # xs) =
     (if \<not> now < waitto then (Inr None, ticks, x # xs)
      else
        case x of
          None \<Rightarrow> await_reply clock enforce p waitto (clock ticks) (Suc ticks) xs
        | Some datagram \<Rightarrow>
            if datagram = [] then await_reply clock enforce p waitto (clock ticks) (Suc ticks) xs
            else
              case accept_reply enforce p (take 4096 datagram) of
                Inl e \<Rightarrow> (Inl e, ticks, xs)
              | Inr (Some q) \<Rightarrow> (Inr (Some q), ticks, xs)
              | Inr None \<Rightarrow> await_reply clock enforce p waitto (clock ticks) (Suc ticks) xs)"

definition await :: "client \<Rightarrow> rat \<Rightarrow> rat \<Rightarrow> packet option xm" where
  "await c waitto now s =
     (case await_reply (cl_clock c) (cl_enforce_ma c) (x_pkt s) waitto now (x_ticks s) (x_polls s) of
        (r, ticks, polls) \<Rightarrow> (r, s\<lparr>x_ticks := ticks, x_polls := polls\<rparr>))"

section \<open>Sending\<close>

definition prepare_outgoing :: "client \<Rightarrow> packet \<Rightarrow> packet res" where
  "prepare_outgoing c p = prepare_request_message_authenticator (cl_enforce_ma c) p"

definition transmit :: "int \<Rightarrow> unit xm" where
  "transmit port s =
     (case request_packet (x_pkt s) of
        Inl e \<Rightarrow> (Inl e, s)
      | Inr (raw, p) \<Rightarrow> (Inr (), s\<lparr>x_pkt := p, x_sent := x_sent s @ [(raw, port)]\<rparr>))"

text \<open>From the second attempt on, an Accounting-Request says how long it has been under way.\<close>

definition bump_step :: "nat \<Rightarrow> rat \<Rightarrow> unit xm" where
  "bump_step attempt previous_wait s =
     (if attempt \<noteq> 0 \<and> p_code (x_pkt s) = pt AccountingRequest
      then on_pkt (bump_delay previous_wait) s else retS () s)"

text \<open>One attempt: the wait that it chose and the reply, if one came.\<close>

definition attempt_once :: "client \<Rightarrow> int \<Rightarrow> nat \<Rightarrow> rat \<Rightarrow> (rat \<times> packet option) xm" where
  "attempt_once c port attempt previous_wait =
     bindS (bump_step attempt previous_wait) (\<lambda>_.
     bindS (next_wait c attempt) (\<lambda>w.
     bindS (read_clock c) (\<lambda>now.
     bindS (on_pkt (prepare_outgoing c)) (\<lambda>_.
     bindS (transmit port) (\<lambda>_.
     bindS (await c (now + w) now) (\<lambda>r. retS (w, r)))))))"

fun attempts :: "client \<Rightarrow> int \<Rightarrow> nat \<Rightarrow> nat \<Rightarrow> rat \<Rightarrow> packet xm" where
  "attempts c port attempt 0 previous_wait = failS Timeout"
| "attempts c port attempt (Suc n) previous_wait =
     bindS (attempt_once c port attempt previous_wait) (\<lambda>(w, r).
     case r of Some q \<Rightarrow> retS q | None \<Rightarrow> attempts c port (Suc attempt) n w)"

definition send_to :: "client \<Rightarrow> int \<Rightarrow> packet xm" where
  "send_to c port s =
     (let is_acct = (p_code (x_pkt s) = pt AccountingRequest)
      in bindS (\<lambda>s. liftE (saved_delay (x_pkt s)) s) (\<lambda>saved.
         finallyE (attempts c port 0 (nat (retries (cl_policy c))) (timeout (cl_policy c)))
           (on_pkt (restore_delay is_acct saved))) s)"

section \<open>Runs\<close>

lemma await_reply_result:
  assumes "await_reply clock enforce p waitto now ticks xs = (r, t, ys)"
  obtains pre where "xs = pre @ ys" "\<And>q. r = Inr (Some q) \<Longrightarrow>
    \<exists>d. d \<noteq> [] \<and> Some d \<in> set pre \<and> accept_reply enforce p (take 4096 d) = Inr (Some q)"
proof -
  have "\<exists>pre. xs = pre @ ys \<and> (\<forall>q. r = Inr (Some q) \<longrightarrow>
    (\<exists>d. d \<noteq> [] \<and> Some d \<in> set pre \<and> accept_reply enforce p (take 4096 d) = Inr (Some q)))"
    using assms
  proof (induction xs arbitrary: now ticks)
    case (Cons x xs)
    show ?case
    proof (cases "now < waitto \<and> (case x of None \<Rightarrow> True | Some d \<Rightarrow> d = [] \<or> accept_reply enforce p (take 4096 d) = Inr None)")
      case True
      then have "await_reply clock enforce p waitto (clock ticks) (Suc ticks) xs = (r, t, ys)"
        using Cons.prems by (cases x) (auto split: if_splits)
      then obtain pre where "xs = pre @ ys" "\<forall>q. r = Inr (Some q) \<longrightarrow>
          (\<exists>d. d \<noteq> [] \<and> Some d \<in> set pre \<and> accept_reply enforce p (take 4096 d) = Inr (Some q))"
        using Cons.IH by metis
      then show ?thesis by (intro exI [of _ "x # pre"]) auto
    next
      case False
      show ?thesis
      proof (cases "now < waitto")
        case True
        then obtain d where d: "x = Some d" "d \<noteq> []" "accept_reply enforce p (take 4096 d) \<noteq> Inr None"
          using False by (cases x) auto
        have "ys = xs \<and> r = accept_reply enforce p (take 4096 d)"
        proof (cases "accept_reply enforce p (take 4096 d)")
          case (Inr y)
          then show ?thesis using Cons.prems True d by (cases y) auto
        qed (use Cons.prems True d in auto)
        then show ?thesis using d by (intro exI [of _ "[x]"]) auto
      qed (use Cons.prems in \<open>auto intro!: exI [of _ "[]"]\<close>)
    qed
  qed auto
  then show ?thesis using that by blast
qed

lemma await_result:
  assumes "await c waitto now s = (r, s')"
  obtains pre where "x_polls s = pre @ x_polls s'" "x_pkt s' = x_pkt s" "x_sent s' = x_sent s" "x_cur s' = x_cur s"
    "\<And>q. r = Inr (Some q) \<Longrightarrow>
      \<exists>d. d \<noteq> [] \<and> Some d \<in> set pre \<and> accept_reply (cl_enforce_ma c) (x_pkt s) (take 4096 d) = Inr (Some q)"
proof -
  obtain t ys where a: "await_reply (cl_clock c) (cl_enforce_ma c) (x_pkt s) waitto now (x_ticks s) (x_polls s) = (r, t, ys)"
    and s': "s' = s\<lparr>x_ticks := t, x_polls := ys\<rparr>"
    using assms by (auto simp: await_def split: prod.splits)
  show ?thesis
    by (rule await_reply_result [OF a]) (rule that, simp_all add: s')
qed

text \<open>What one attempt does to the state: the steps before the wait, and then the wait.\<close>

definition prepared :: "client \<Rightarrow> nat \<Rightarrow> rat \<Rightarrow> packet \<Rightarrow> packet res" where
  "prepared c attempt previous_wait p =
     bindE (if attempt \<noteq> 0 \<and> p_code p = pt AccountingRequest then bump_delay previous_wait p else Inr p)
       (prepare_outgoing c)"

lemma attempt_onceE:
  assumes "attempt_once c port attempt previous_wait s = (Inr (w, r), s')"
  obtains p1 raw p2 pre where "prepared c attempt previous_wait (x_pkt s) = Inr p1" "request_packet p1 = Inr (raw, p2)"
    "x_pkt s' = p2" "x_sent s' = x_sent s @ [(raw, port)]" "x_polls s = pre @ x_polls s'"
    "\<And>q. r = Some q \<Longrightarrow>
      \<exists>d. d \<noteq> [] \<and> Some d \<in> set pre \<and> accept_reply (cl_enforce_ma c) p2 (take 4096 d) = Inr (Some q)"
proof -
  obtain v1 s1 w1 s2 now s3 v4 s4 v5 s5 r0 s6 where
      1: "bump_step attempt previous_wait s = (Inr v1, s1)"
    and 2: "next_wait c attempt s1 = (Inr w1, s2)" "read_clock c s2 = (Inr now, s3)"
    and 3: "on_pkt (prepare_outgoing c) s3 = (Inr v4, s4)" "transmit port s4 = (Inr v5, s5)"
    and 4: "await c (now + w1) now s5 = (Inr r0, s6)" "retS (w1, r0) s6 = (Inr (w, r), s')"
    using assms unfolding attempt_once_def by (elim bindS_InrE) blast
  have a: "await c (now + w1) now s5 = (Inr r, s')"
    using 4 by (simp add: retS_def)
  obtain p0 where p0: "(if attempt \<noteq> 0 \<and> p_code (x_pkt s) = pt AccountingRequest
      then bump_delay previous_wait (x_pkt s) else Inr (x_pkt s)) = Inr p0" and s1: "s1 = s\<lparr>x_pkt := p0\<rparr>"
    using 1 by (auto simp: bump_step_def on_pkt_def retS_def split: if_splits sum.splits)
  obtain p1 where p1: "prepare_outgoing c p0 = Inr p1" "x_pkt s4 = p1" "x_sent s4 = x_sent s" "x_polls s4 = x_polls s"
    using 2 3(1) by (auto simp: s1 next_wait_def read_clock_def on_pkt_def split: sum.splits)
  obtain raw p2 where p2: "request_packet p1 = Inr (raw, p2)" "x_pkt s5 = p2" "x_sent s5 = x_sent s @ [(raw, port)]"
      "x_polls s5 = x_polls s"
    using 3(2) p1 by (auto simp: transmit_def split: sum.splits prod.splits)
  have "prepared c attempt previous_wait (x_pkt s) = Inr p1"
    using p0 p1(1) by (simp add: prepared_def)
  then show ?thesis
    using that [OF _ p2(1)] await_result [OF a] p2(2-4) by metis
qed

text \<open>The request before each attempt, as a relation: what is sent and the request it leaves.\<close>

definition sent_step :: "client \<Rightarrow> packet \<Rightarrow> bytes \<Rightarrow> packet \<Rightarrow> bool" where
  "sent_step c p raw p' \<longleftrightarrow>
     (\<exists>k w p1. prepared c k w p = Inr p1 \<and> request_packet p1 = Inr (raw, p'))"

text \<open>A reply that is returned answers the last datagram sent; \<open>I\<close> holds of the request all along.\<close>

lemma attempts_reply:
  assumes "attempts c port k n w s = (Inr q, s')" "I (x_pkt s)"
    and step: "\<And>p raw p'. I p \<Longrightarrow> sent_step c p raw p' \<Longrightarrow> I p'"
  shows "\<exists>p raw d pre new. I p \<and> sent_step c p raw (x_pkt s') \<and> x_sent s' = x_sent s @ new @ [(raw, port)]
    \<and> x_polls s = pre @ x_polls s' \<and> d \<noteq> [] \<and> Some d \<in> set pre
    \<and> accept_reply (cl_enforce_ma c) (x_pkt s') (take 4096 d) = Inr (Some q)"
  using assms(1,2)
proof (induction n arbitrary: k w s)
  case 0
  then show ?case by (simp add: failS_def)
next
  case (Suc n)
  then obtain w1 r s1 where a: "attempt_once c port k w s = (Inr (w1, r), s1)"
    and b: "(case r of Some q \<Rightarrow> retS q | None \<Rightarrow> attempts c port (Suc k) n w1) s1 = (Inr q, s')"
    by (auto elim: bindS_InrE)
  obtain p1 raw p2 pre where o: "prepared c k w (x_pkt s) = Inr p1" "request_packet p1 = Inr (raw, p2)"
    "x_pkt s1 = p2" "x_sent s1 = x_sent s @ [(raw, port)]" "x_polls s = pre @ x_polls s1"
    "\<And>q. r = Some q \<Longrightarrow>
      \<exists>d. d \<noteq> [] \<and> Some d \<in> set pre \<and> accept_reply (cl_enforce_ma c) p2 (take 4096 d) = Inr (Some q)"
    by (rule attempt_onceE [OF a]) (rule that)
  have st: "sent_step c (x_pkt s) raw p2" unfolding sent_step_def using o(1,2) by blast
  show ?case
  proof (cases r)
    case (Some y)
    then have "y = q" "s' = s1" using b by (simp_all add: retS_def)
    then obtain d where "d \<noteq> []" "Some d \<in> set pre" "accept_reply (cl_enforce_ma c) p2 (take 4096 d) = Inr (Some q)"
      using o(6) Some by blast
    then show ?thesis using st o(3-5) Suc.prems(2) \<open>s' = s1\<close>
      by (intro exI [of _ "x_pkt s"] exI [of _ raw] exI [of _ d] exI [of _ pre] exI [of _ "[]"]) simp
  next
    case None
    have "I (x_pkt s1)" using step [OF Suc.prems(2) st] o(3) by simp
    then obtain p raw' d pre' new where "I p" "sent_step c p raw' (x_pkt s')"
        "x_sent s' = x_sent s1 @ new @ [(raw', port)]" "x_polls s1 = pre' @ x_polls s'" "d \<noteq> []" "Some d \<in> set pre'"
        "accept_reply (cl_enforce_ma c) (x_pkt s') (take 4096 d) = Inr (Some q)"
      using Suc.IH [of "Suc k" w1 s1] b None by auto
    then show ?thesis using o(4,5)
      by (intro exI [of _ p] exI [of _ raw'] exI [of _ d] exI [of _ "pre @ pre'"] exI [of _ "(raw, port) # new"]) simp
  qed
qed

text \<open>
  No reply that is accepted: every attempt is made and the client gives up. \<open>Q\<close> holds of the request all
  along, and says that it can be sent.
\<close>

lemma await_reply_silent:
  "(\<And>d. Some d \<in> set xs \<Longrightarrow> d = [] \<or> accept_reply enforce p (take 4096 d) = Inr None) \<Longrightarrow>
   fst (await_reply clock enforce p waitto now ticks xs) = Inr None"
proof (induction xs arbitrary: now ticks)
  case (Cons x xs)
  have ih: "fst (await_reply clock enforce p waitto now ticks xs) = Inr None" for now ticks
    by (rule Cons.IH) (use Cons.prems in auto)
  show ?case
  proof (cases x)
    case (Some d)
    then have "d = [] \<or> accept_reply enforce p (take 4096 d) = Inr None" using Cons.prems [of d] by simp
    then show ?thesis using ih Some by auto
  qed (simp add: ih)
qed simp

lemma attempt_once_silent:
  assumes "prepared c k w (x_pkt s) = Inr p1" "request_packet p1 = Inr (raw, p2)"
    and silent: "\<And>d. Some d \<in> set (x_polls s) \<Longrightarrow> d = [] \<or> accept_reply (cl_enforce_ma c) p2 (take 4096 d) = Inr None"
  obtains s1 w1 where "attempt_once c port k w s = (Inr (w1, None), s1)" "x_pkt s1 = p2"
      "x_sent s1 = x_sent s @ [(raw, port)]" "set (x_polls s1) \<subseteq> set (x_polls s)"
proof -
  obtain p0 where p0: "(if k \<noteq> 0 \<and> p_code (x_pkt s) = pt AccountingRequest then bump_delay w (x_pkt s)
      else Inr (x_pkt s)) = Inr p0" "prepare_outgoing c p0 = Inr p1"
    using assms(1) unfolding prepared_def by (elim bindE_InrE) blast
  have b: "bump_step k w s = (Inr (), s\<lparr>x_pkt := p0\<rparr>)"
    using p0(1) by (auto simp: bump_step_def on_pkt_def retS_def split: if_splits)
  define w1 now s5 where n: "w1 = wait_for (cl_rand c (x_draws s)) k (cl_policy c)" "now = cl_clock c (x_ticks s)"
    "s5 = s\<lparr>x_pkt := p2, x_draws := Suc (x_draws s), x_ticks := Suc (x_ticks s), x_sent := x_sent s @ [(raw, port)]\<rparr>"
  obtain r t ys where aw: "await_reply (cl_clock c) (cl_enforce_ma c) p2 (now + w1) now (Suc (x_ticks s)) (x_polls s) = (r, t, ys)"
    by (metis prod_cases3)
  have r: "r = Inr None" using await_reply_silent [where p = p2, OF silent] aw by (metis fst_conv)
  have ys: "set ys \<subseteq> set (x_polls s)" by (rule await_reply_result [OF aw]) auto
  have "attempt_once c port k w s = (Inr (w1, None), s5\<lparr>x_ticks := t, x_polls := ys\<rparr>)"
    unfolding attempt_once_def bindS_ok [where m = "bump_step k w" and s = s, OF b]
    by (simp add: bindS_def next_wait_def read_clock_def on_pkt_def p0(2) transmit_def assms(2)
        await_def n aw [unfolded n] r retS_def)
  then show ?thesis by (rule that) (use ys in \<open>simp_all add: n\<close>)
qed

lemma attempts_exhausted:
  assumes "Q (x_pkt s)"
    and send: "\<And>k w p. Q p \<Longrightarrow> \<exists>p1 raw p2. prepared c k w p = Inr p1 \<and> request_packet p1 = Inr (raw, p2) \<and> Q p2"
    and silent: "\<And>p d. Q p \<Longrightarrow> Some d \<in> set (x_polls s) \<Longrightarrow>
      d = [] \<or> accept_reply (cl_enforce_ma c) p (take 4096 d) = Inr None"
  shows "\<exists>s' new. attempts c port k n w s = (Inl Timeout, s') \<and> Q (x_pkt s')
    \<and> x_sent s' = x_sent s @ new \<and> length new = n \<and> (\<forall>x \<in> set new. snd x = port)"
  using assms(1,3)
proof (induction n arbitrary: k w s)
  case 0
  then show ?case by (simp add: failS_def)
next
  case (Suc n)
  obtain p1 raw p2 where p: "prepared c k w (x_pkt s) = Inr p1" "request_packet p1 = Inr (raw, p2)" "Q p2"
    using send [OF Suc.prems(1)] by blast
  obtain s1 w1 where a: "attempt_once c port k w s = (Inr (w1, None), s1)" "x_pkt s1 = p2"
      "x_sent s1 = x_sent s @ [(raw, port)]" "set (x_polls s1) \<subseteq> set (x_polls s)"
    by (rule attempt_once_silent [where port = port, OF p(1,2) Suc.prems(2) [OF p(3)]]) (assumption, rule that)
  have "\<And>p d. Q p \<Longrightarrow> Some d \<in> set (x_polls s1) \<Longrightarrow>
      d = [] \<or> accept_reply (cl_enforce_ma c) p (take 4096 d) = Inr None"
    using Suc.prems(2) a(4) by blast
  then obtain s' new where "attempts c port (Suc k) n w1 s1 = (Inl Timeout, s')" "Q (x_pkt s')"
      "x_sent s' = x_sent s1 @ new" "length new = n" "\<forall>x \<in> set new. snd x = port"
    using Suc.IH [of s1 "Suc k" w1] a(2) p(3) by blast
  then show ?case using a(1,3) by (simp add: bindS_ok)
qed

section \<open>Sending to a port\<close>

lemma on_pkt_rest:
  assumes "on_pkt f s = (r, s')"
  shows "x_polls s' = x_polls s" "x_sent s' = x_sent s" "x_cur s' = x_cur s"
  using assms by (auto simp: on_pkt_def split: sum.splits)

lemma send_toE:
  assumes "send_to c port s = (Inr q, s')"
  obtains saved s1 where "saved_delay (x_pkt s) = Inr saved"
    "attempts c port 0 (nat (retries (cl_policy c))) (timeout (cl_policy c)) s = (Inr q, s1)"
    "restore_delay (p_code (x_pkt s) = pt AccountingRequest) saved (x_pkt s1) = Inr (x_pkt s')"
    "x_polls s' = x_polls s1" "x_sent s' = x_sent s1"
proof -
  obtain saved s0 where 1: "liftE (saved_delay (x_pkt s)) s = (Inr saved, s0)"
    and 2: "finallyE (attempts c port 0 (nat (retries (cl_policy c))) (timeout (cl_policy c)))
      (on_pkt (restore_delay (p_code (x_pkt s) = pt AccountingRequest) saved)) s0 = (Inr q, s')"
    using assms by (auto simp: send_to_def Let_def elim!: bindS_InrE)
  have e: "saved_delay (x_pkt s) = Inr saved" "s0 = s" using 1 by (auto simp: liftE_def)
  obtain s1 where 3: "attempts c port 0 (nat (retries (cl_policy c))) (timeout (cl_policy c)) s = (Inr q, s1)"
      "on_pkt (restore_delay (p_code (x_pkt s) = pt AccountingRequest) saved) s1 = (Inr (), s')"
    using 2 e(2) by (auto simp: finallyE_def split: prod.splits sum.splits)
  then have "restore_delay (p_code (x_pkt s) = pt AccountingRequest) saved (x_pkt s1) = Inr (x_pkt s')"
    by (auto simp: on_pkt_def split: sum.splits)
  then show ?thesis using that [OF e(1) 3(1)] on_pkt_rest [OF 3(2)] by blast
qed

lemma send_to_consumes:
  assumes "send_to c port s = (Inr q, s')"
  shows "length (x_polls s') < length (x_polls s)"
proof -
  obtain s1 where s1: "attempts c port 0 (nat (retries (cl_policy c))) (timeout (cl_policy c)) s = (Inr q, s1)"
      "x_polls s' = x_polls s1"
    by (rule send_toE [OF assms]) (rule that)
  obtain d pre where "x_polls s = pre @ x_polls s1" "Some d \<in> set pre"
    using attempts_reply [OF s1(1), where I = "\<lambda>_. True"] by auto
  then show ?thesis using s1(2) by (cases pre) auto
qed

section \<open>EAP and the choice of the port\<close>

text \<open>The challenge loop; a round ends only with a reply, so the rounds are as many as the datagrams.\<close>

function eap_rounds :: "client \<Rightarrow> int \<Rightarrow> eap_method \<Rightarrow> packet \<Rightarrow> packet xm" where
  "eap_rounds c port m reply s =
     (if p_code reply \<noteq> pt AccessChallenge then (Inr reply, s)
      else
        case method_respond (cl_des c) m (x_pkt s) reply of
          Inl e \<Rightarrow> (Inl e, s)
        | Inr (m', p) \<Rightarrow>
            (case send_to c port (s\<lparr>x_pkt := p\<rparr>) of
               (Inl e, s') \<Rightarrow> (Inl e, s')
             | (Inr q, s') \<Rightarrow> eap_rounds c port m' q s'))"
  by pat_completeness auto

termination eap_rounds
  by (relation "measure (\<lambda>(c, port, m, reply, s). length (x_polls s))")
    (fastforce dest: sym [THEN send_to_consumes])+

definition send_auth_packet :: "client \<Rightarrow> packet xm" where
  "send_auth_packet c s =
     (case get_method (cl_methods c) (Some (p_auth_type (x_pkt s))) of
        None \<Rightarrow> send_to c (cl_authport c) s
      | Some m \<Rightarrow>
          (case method_start (x_cur s) m (x_pkt s) of
             Inl e \<Rightarrow> (Inl e, s)
           | Inr (m', p) \<Rightarrow>
               (case send_to c (cl_authport c) (s\<lparr>x_pkt := p\<rparr>) of
                  (Inl e, s') \<Rightarrow> (Inl e, s')
                | (Inr q, s') \<Rightarrow> eap_rounds c (cl_authport c) m' q s')))"

definition status_port :: "client \<Rightarrow> string \<Rightarrow> int res" where
  "status_port c port =
     (if port = ''auth'' then Inr (cl_authport c)
      else if port = ''acct'' then Inr (cl_acctport c) else Inl ValueError)"

definition send_status_packet :: "client \<Rightarrow> string \<Rightarrow> packet xm" where
  "send_status_packet c port = bindS (liftE (status_port c port)) (send_to c)"

definition send_packet :: "client \<Rightarrow> packet xm" where
  "send_packet c s =
     (case p_class (x_pkt s) of
        StatusC \<Rightarrow> send_status_packet c ''auth'' s
      | AuthC \<Rightarrow> send_auth_packet c s
      | CoAC \<Rightarrow> send_to c (cl_coaport c) s
      | _ \<Rightarrow> send_to c (cl_acctport c) s)"

end
