(* ===== verification/Requests.thy ===== *)
theory Requests
  imports Replies Exchange
begin

text \<open>
  What the clients share: the octets of a request that was sent carry the identifier and the
  authenticator that its packet keeps (\<open>says\<close>), and the fields that sending does not touch
  (\<open>request_kept\<close>, an interpretation of \<open>sending\<close>); the identifier of a decoded reply.
\<close>

section \<open>What a datagram sent says about the request\<close>

definition auth16 :: "packet \<Rightarrow> bool" where
  "auth16 p \<longleftrightarrow> (case p_auth p of None \<Rightarrow> True | Some a \<Rightarrow> length a = 16)"

lemma auth16_kept: "auth_kept p q \<Longrightarrow> auth16 p \<Longrightarrow> auth16 q"
  by (cases "p_auth p"; cases "p_auth q") (simp_all add: auth_kept_def auth16_def)

lemma pack_uint_1: "pack_uint 1 x = Inr bs \<Longrightarrow> \<exists>b. bs = [b] \<and> uint b = x"
  by (auto simp: pack_uint_eq_Inr be_bytes_1 uint_word_of_int_byte)

lemma pack_header_octets:
  assumes "pack_header p n = Inr h"
  obtains c i l1 l2 where "h = [c, i, l1, l2]" "p_code p = uint c" "p_id p = Some (uint i)"
proof -
  obtain c i l k where "pack_uint 1 (p_code p) = Inr c" "p_id p = Some k" "pack_uint 1 k = Inr i"
      "pack_uint 2 (int n) = Inr l" "h = c @ i @ l"
    using assms by (auto simp: pack_header_def elim!: bindE_InrE split: option.splits)
  moreover have "length l = 2" using calculation(4) by (auto simp: pack_uint_eq_Inr)
  then obtain l1 l2 where "l = [l1, l2]" by (auto simp: length_Suc_conv eval_nat_numeral)
  moreover obtain c' where "c = [c']" "p_code p = uint c'" using pack_uint_1 [OF calculation(1)] by auto
  moreover obtain i' where "i = [i']" "k = uint i'" using pack_uint_1 [OF calculation(3)] by auto
  ultimately show ?thesis using that [of c' i' l1 l2] by simp
qed

text \<open>Octets 1 and 4 to 19 of a request are the identifier and the authenticator it keeps.\<close>

definition says :: "bytes \<Rightarrow> packet \<Rightarrow> bool" where
  "says raw p \<longleftrightarrow> p_id p = Some (uint (raw ! 1)) \<and> p_auth p = Some (py_slice raw 4 20)"

lemma random_says:
  assumes "encode_v10_random p = Inr (raw, p')" "auth16 p"
  shows "says raw p'"
proof -
  obtain p1 attr h a where e: "refresh_if_set (need_authenticator p) = Inr p1"
      "pkt_encode_attributes p1 = Inr (attr, p')" "pack_header p' (20 + length attr) = Inr h"
      "p_auth p' = Some a" "raw = h @ pack_s 16 a @ attr"
    by (rule encode_v10_randomE [OF assms(1)]) (rule that)
  have "auth_kept p p'"
    using auth.trans [OF auth.need auth.trans [OF auth.refreshed_if_set [OF e(1)] auth.serialised [OF e(2)]]] .
  then have "length a = 16" using auth16_kept assms(2) e(4) by (fastforce simp: auth16_def)
  then show ?thesis
    using e(3-5) by (elim pack_header_octets) (simp add: says_def pack_s_def py_slice_def)
qed

lemma body_md5_says:
  assumes "encode_v10_body_md5 p = Inr (raw, p')"
  shows "says raw p'"
  using assms
  by (auto simp: encode_v10_body_md5_def bindE_eq_Inr Let_def says_def py_slice_def elim!: pack_header_octets)

section \<open>What stays while a request is sent\<close>

definition req_core :: "packet \<Rightarrow> pclass \<times> int \<times> bytes \<times> RadiusVersion \<times> (ustr, pyval list) od \<times> dictionary option" where
  "req_core p = (p_class p, p_code p, p_secret p, p_version p, p_deferred p, p_dict p)"

definition request_kept :: "packet \<Rightarrow> packet \<Rightarrow> bool" where
  "request_kept p q \<longleftrightarrow> auth_kept p q \<and> req_core q = req_core p"

interpretation kept: sending request_kept
proof
  show "request_kept p r" if "request_kept p q" "request_kept q r" for p q r
    using that auth.trans unfolding request_kept_def by metis
  show "request_kept p (need_authenticator p)" for p
    using send_frame_fields [OF need_authenticator_send [of p]] auth.need
    by (simp add: request_kept_def req_core_def)
qed (simp_all add: request_kept_def req_core_def auth_kept_def auth_step_refl)

lemma kept_ma: "request_kept p (p\<lparr>p_ma := b\<rparr>)"
  by (simp add: request_kept_def req_core_def auth_kept_def auth_step_refl)

lemma kept_id: "request_kept p (ensure_id p)"
  by (simp add: request_kept_def req_core_def auth_kept_def auth_step_refl)

lemma kept_add:
  assumes "add_message_authenticator p = Inr q"
  shows "request_kept p q"
proof (cases "p_version p = V1_1")
  case True
  then show ?thesis using assms by (simp add: add_message_authenticator_def kept.refl)
next
  case False
  then obtain p1 where p1: "set_ma (zero_octets 16) (p\<lparr>p_ma := Some True\<rparr>) = Inr p1"
    and q: "(if p_auth (ensure_id p1) = None \<and> p_code (ensure_id p1) \<in> {pt AccessRequest, pt StatusServer}
      then refresh_message_authenticator (need_authenticator (ensure_id p1)) else Inr (ensure_id p1)) = Inr q"
    using assms by (auto simp: add_message_authenticator_def Let_def elim!: bindE_InrE)
  have k: "request_kept p (ensure_id p1)"
    using kept.trans [OF kept_ma kept.trans [OF kept.stored [OF p1 [unfolded set_ma_def]] kept_id]] .
  show ?thesis
    using q kept.trans [OF k kept.trans [OF kept.need kept.refreshed]] k by (auto split: if_splits)
qed

lemma kept_prepare:
  assumes "prepare_request_message_authenticator b p = Inr q"
  shows "request_kept p q"
proof -
  have "q = p \<or> ensure_message_authenticator p = Inr q"
    using assms by (auto simp: prepare_request_message_authenticator_def split: if_splits)
  then show ?thesis
    by (auto simp: ensure_message_authenticator_def kept.refl kept_ma dest!: kept_add split: if_splits)
qed

lemma auth16_request: "request_kept p q \<Longrightarrow> auth16 p \<Longrightarrow> auth16 q"
  by (auto simp: request_kept_def intro: auth16_kept)

lemma random_sent:
  assumes "encode_v10_random p = Inr (raw, p')"
  shows "request_kept p p'"
  by (rule encode_v10_randomE [OF assms])
    (rule kept.trans [OF kept.need kept.trans [OF kept.refreshed_if_set kept.serialised]])

lemma body_md5_sent:
  assumes "encode_v10_body_md5 p = Inr (raw, p')"
  shows "req_core p' = req_core p \<and> auth16 p'"
proof -
  obtain p1 attr p2 a where e: "refresh_if_set p = Inr p1" "pkt_encode_attributes p1 = Inr (attr, p2)"
      "p' = p2\<lparr>p_auth := Some (md5 a)\<rparr>"
    using assms by (auto simp: encode_v10_body_md5_def bindE_eq_Inr Let_def)
  have "request_kept p p2" using kept.trans [OF kept.refreshed_if_set [OF e(1)] kept.serialised [OF e(2)]] .
  then show ?thesis by (simp add: e(3) request_kept_def req_core_def auth16_def)
qed

text \<open>The same for the whole of \<^verbatim>\<open>request_packet\<close>.\<close>

lemma request_says:
  assumes "request_packet p = Inr (raw, p')" "p_version p = V1_0" "auth16 p"
  shows "says raw p' \<and> req_core p' = req_core p \<and> auth16 p'"
proof -
  have i: "auth16 (ensure_id p)" "req_core (ensure_id p) = req_core p"
    using auth16_request [OF kept_id assms(3)] kept_id [of p] by (simp_all add: request_kept_def)
  have rnd: "says raw p' \<and> req_core p' = req_core p \<and> auth16 p'"
    if "encode_v10_random q = Inr (raw, p')" "request_kept (ensure_id p) q" for q
  proof -
    have q: "auth16 q" by (rule auth16_request [OF that(2) i(1)])
    show ?thesis
      using random_says [OF that(1) q] auth16_request [OF random_sent [OF that(1)] q]
        random_sent [OF that(1)] that(2) i(2) by (simp add: request_kept_def)
  qed
  have v: "p_version (ensure_id p) \<noteq> V1_1" using assms(2) by simp
  show ?thesis
  proof (cases "p_class p")
    case PacketC
    then show ?thesis using assms(1) by (simp add: request_packet_def)
  next
    case AuthC
    then have "encode_v10_random (ensure_id p) = Inr (raw, p')"
      using assms(1) v by (simp add: request_packet_def Let_def)
    then show ?thesis by (rule rnd) (rule kept.refl)
  next
    case StatusC
    then obtain q where q: "prepare_request_message_authenticator False (need_authenticator (ensure_id p)) = Inr q"
        "encode_v10_random q = Inr (raw, p')"
      using assms(1) v by (auto simp: request_packet_def Let_def elim!: bindE_InrE)
    show ?thesis by (rule rnd [OF q(2) kept.trans [OF kept.need kept_prepare [OF q(1)]]])
  next
    case AcctC
    then have "encode_v10_body_md5 (ensure_id p) = Inr (raw, p')"
      using assms(1) v by (simp add: request_packet_def Let_def)
    then show ?thesis using body_md5_says body_md5_sent i by simp
  next
    case CoAC
    then have "encode_v10_body_md5 (ensure_id p) = Inr (raw, p')"
      using assms(1) v by (simp add: request_packet_def Let_def)
    then show ?thesis using body_md5_says body_md5_sent i by simp
  qed
qed

section \<open>Replies\<close>

lemma decode_frame:
  assumes "decode_packet w q0 = Inr q" "p_version q0 = V1_0"
  shows "packet_frame q = (packet_frame q0)\<lparr>p_code := uint (w ! 0), p_id := Some (uint (w ! 1)),
    p_auth := Some (py_slice w 4 20)\<rparr>"
proof -
  obtain q1 q2 q3 where s: "decode_header w q0 = Inr q1"
      "decode_loop (drop 20 w) (q1\<lparr>p_attrs := [], p_lbuf := [], p_vbuf := []\<rparr>) = Inr q2"
      "merge_concat_attributes q2 = Inr q3" "q = split_array_attributes q3"
    using assms(1) by (auto simp: decode_packet_def elim!: bindE_InrE)
  have "packet_frame q = packet_frame (q1\<lparr>p_attrs := [], p_lbuf := [], p_vbuf := []\<rparr>)"
    using decode_loop_frame_kept [OF s(2)] merge_core [OF s(3)] split_core [of q3] s(4)
    by (simp add: packet_frame_def)
  then show ?thesis
    using s(1) assms(2)
    by (auto simp: decode_header_def Let_def packet_frame_def packet_core_def split: if_splits)
qed

lemma decode_id:
  assumes "decode_packet w q0 = Inr q" "p_version q0 = V1_0"
  shows "p_id q = Some (uint (w ! 1))"
  using packet_frame_fields(2) [OF decode_frame [OF assms]] by simp

text \<open>The fields of the reply that \<^verbatim>\<open>create_reply(packet=raw)\<close> makes of the octets.\<close>

lemma created_reply_fields:
  assumes "create_reply_from w p = Inr q" "p_version p = V1_0"
  shows "p_raw q = Some w" "p_code q = uint (w ! 0)" "p_id q = Some (uint (w ! 1))"
    "p_auth q = Some (py_slice w 4 20)" "p_secret q = p_secret p" "p_orig_code q = Some (p_code p)"
    "p_version q = V1_0"
proof -
  obtain cls c0 where cls: "reply_shell (p_class p) = (cls, c0)" by (cases "reply_shell (p_class p)")
  obtain r cur where r: "new_packet cls c0 (p_id p) (p_secret p) (p_auth p) (p_version p) (p_dict p) (p_rng p) (p_pos p) 0
      = (r, cur)" by (cases "new_packet cls c0 (p_id p) (p_secret p) (p_auth p) (p_version p) (p_dict p) (p_rng p) (p_pos p) 0")
  have rf: "p_version r = V1_0" "p_secret r = p_secret p"
    using r assms(2) by (auto simp: new_packet_def Let_def)
  obtain q' where q': "decode_packet w (r\<lparr>p_raw := Some w\<rparr>) = Inr q'"
      "q = q'\<lparr>p_orig_code := Some (p_code p), p_token := p_token p,
        p_auth_type := (if p_class p = AuthC then p_auth_type p else ''pap'')\<rparr>"
    using assms(1) cls r by (auto simp: create_reply_from_def elim!: bindE_InrE)
  have e: "packet_frame q' = (packet_frame (r\<lparr>p_raw := Some w\<rparr>))\<lparr>p_code := uint (w ! 0),
      p_id := Some (uint (w ! 1)), p_auth := Some (py_slice w 4 20)\<rparr>"
    by (rule decode_frame [OF q'(1)]) (simp add: rf)
  show "p_raw q = Some w" "p_code q = uint (w ! 0)" "p_id q = Some (uint (w ! 1))"
    "p_auth q = Some (py_slice w 4 20)" "p_secret q = p_secret p" "p_orig_code q = Some (p_code p)"
    "p_version q = V1_0"
    using packet_frame_fields [OF e] rf by (simp_all add: q'(2))
qed

text \<open>Verification stores the received digest again and changes nothing else.\<close>

definition reply_kept :: "packet \<Rightarrow> packet \<Rightarrow> bool" where
  "reply_kept q q' \<longleftrightarrow> send_frame q' = send_frame q \<and> (\<forall>a. p_auth q = Some a \<longrightarrow> p_auth q' = Some a)"

lemma reply_kept_refl: "reply_kept q q"
  by (simp add: reply_kept_def)

lemma reply_kept_trans: "reply_kept p q \<Longrightarrow> reply_kept q r \<Longrightarrow> reply_kept p r"
  by (simp add: reply_kept_def)

lemma setitem_reply: "setitem k v q = Inr q' \<Longrightarrow> reply_kept q q'"
  using setitem_send setitem_auth by (fastforce simp: reply_kept_def)

lemma encode_reply:
  assumes "pkt_encode_attributes q = Inr (attr, q')"
  shows "reply_kept q q'"
  using encode_attributes_send [OF assms] auth.serialised [OF assms]
  by (auto simp: reply_kept_def auth_kept_def)

lemma verify_ma_reply:
  assumes "verify_message_authenticator sec oa oc q = Inr (b, q')"
  shows "reply_kept q q'"
proof -
  obtain attr q1 v where a: "ma_attributes q = Inr (attr, q1)" "setitem MA_NAME [v] q1 = Inr q'"
    using assms by (auto simp: verify_message_authenticator_def Let_def elim!: bindE_InrE split: if_splits)
  have "reply_kept q q1"
    using a(1) reply_kept_trans [OF setitem_reply encode_reply] reply_kept_refl
    by (auto simp: ma_attributes_def set_ma_def elim!: bindE_InrE split: option.splits if_splits)
  then show ?thesis using reply_kept_trans setitem_reply [OF a(2)] by blast
qed

lemma require_valid_Inr:
  "require_valid_message_authenticator sec oa oc q = Inr q' \<longleftrightarrow>
     verify_message_authenticator sec oa oc q = Inr (True, q')"
proof (cases "verify_message_authenticator sec oa oc q")
  case (Inr x)
  then show ?thesis by (cases x; cases "fst x") (auto simp: require_valid_message_authenticator_def)
qed (simp add: require_valid_message_authenticator_def)

lemma verify_reply_keep_kept:
  assumes "verify_reply_keep p q w enforce = Inr (True, q')"
  shows "reply_kept q q'"
proof (cases "p_version p = V1_1")
  case True
  then show ?thesis using assms by (simp add: verify_reply_keep_def reply_kept_refl)
next
  case False
  then obtain attr q1 where e: "pkt_encode_attributes q = Inr (attr, q1)"
    and v: "q' = q1 \<or> (\<exists>oa oc. require_valid_message_authenticator (Some (p_secret p)) oa oc q1 = Inr q')"
    using assms
    by (auto simp: verify_reply_keep_def elim!: bindE_InrE split: if_splits option.splits sum.splits) blast+
  then show ?thesis
    using v reply_kept_trans [OF encode_reply [OF e] verify_ma_reply] encode_reply [OF e]
    by (auto simp: require_valid_Inr)
qed

lemma reply_kept_fields:
  assumes "reply_kept q q'" "p_auth q = Some a"
  shows "p_auth q' = Some a" "p_raw q' = p_raw q" "p_code q' = p_code q" "p_id q' = p_id q"
    "p_secret q' = p_secret q" "p_orig_code q' = p_orig_code q"
proof -
  have s: "send_frame q' = send_frame q" using assms(1) by (simp add: reply_kept_def)
  show "p_auth q' = Some a" using assms by (simp add: reply_kept_def)
  show "p_raw q' = p_raw q" using arg_cong [OF s, of p_raw] by (simp add: send_frame_def)
  show "p_code q' = p_code q" "p_id q' = p_id q" "p_secret q' = p_secret q" "p_orig_code q' = p_orig_code q"
    using send_frame_fields [OF s] by simp_all
qed

lemma verified_octets:
  assumes "verify_reply_keep p q w enforce = Inr (True, q1)" "p_version p = V1_0"
    and "p_id q = Some (uint (w ! 1))"
  obtains a where "p_auth p = Some a" "p_id p = Some (uint (w ! 1))"
    "py_slice w 4 20 = md5 (take 4 w @ a @ drop 20 w @ p_secret p)"
  using assms
  by (auto simp: verify_reply_keep_def elim!: bindE_InrE split: if_splits option.splits)

section \<open>A request and its reply\<close>

definition coa_request :: packet where
  "coa_request = (blank_packet None)\<lparr>p_class := CoAC, p_code := 43, p_id := Some 7, p_secret := [115, 51], p_auth := None\<rparr>"

definition coa_ack :: bytes where
  "coa_ack = [44, 7, 0, 20, 71, 162, 180, 210, 152, 59, 210, 219, 77, 230, 239, 52, 1, 247, 68, 157]"

end
