(* ===== verification/Requesting.thy ===== *)
theory Requesting
  imports Client Requests
begin

text \<open>
  What the sync client guarantees: the replies that it returns answer the datagram that it sent
  last, it gives up after the attempts that its policy has, and it leaves Acct-Delay-Time as it was.
\<close>

lemma kept_prepared:
  assumes "prepared c k w p = Inr q"
  shows "request_kept p q"
proof -
  obtain p0 where p0: "(if k \<noteq> 0 \<and> p_code p = pt AccountingRequest then bump_delay w p else Inr p) = Inr p0"
      "prepare_outgoing c p0 = Inr q"
    using assms unfolding prepared_def by (elim bindE_InrE) blast
  have "request_kept p p0"
    using p0(1) by (auto simp: bump_delay_def bindE_eq_Inr kept.refl dest: kept.stored split: if_splits)
  then show ?thesis using kept_prepare [OF p0(2) [unfolded prepare_outgoing_def]] by (rule kept.trans)
qed

lemma sent_says:
  assumes "sent_step c p raw p'" "p_version p = V1_0" "auth16 p"
  shows "says raw p' \<and> req_core p' = req_core p \<and> auth16 p'"
proof -
  obtain k w p1 where s: "prepared c k w p = Inr p1" "request_packet p1 = Inr (raw, p')"
    using assms(1) by (auto simp: sent_step_def)
  have k: "request_kept p p1" using kept_prepared [OF s(1)] .
  then have "p_version p1 = V1_0" using assms(2) by (simp add: request_kept_def req_core_def)
  then show ?thesis using request_says [OF s(2) _ auth16_request [OF k assms(3)]] k by (simp add: request_kept_def)
qed

section \<open>Replies that are returned\<close>

lemma accept_replyE:
  assumes "accept_reply enforce p w = Inr (Some q)"
  obtains q0 q1 where "create_reply_from w p = Inr q0" "verify_reply_keep p q0 w enforce = Inr (True, q1)"
    "q = q1\<lparr>p_req_auth := p_auth p\<rparr>"
  using assms by (auto simp: accept_reply_def split: sum.splits if_splits elim!: bindE_InrE)

text \<open>
  The reply \<open>q\<close> was made of the octets \<open>w\<close>, and they answer the request octets \<open>raw\<close>: the identifier
  is that of \<open>raw\<close>, the Response Authenticator is the digest over the authenticator of \<open>raw\<close> and the
  secret, and \<open>q\<close> is what \<open>accept_reply\<close> makes of \<open>w\<close> for a request with that identifier,
  authenticator and secret.
\<close>

definition answers_octets :: "bytes \<Rightarrow> bytes \<Rightarrow> bytes \<Rightarrow> packet \<Rightarrow> bool" where
  "answers_octets secret raw w q \<longleftrightarrow>
     w ! 1 = raw ! 1
     \<and> py_slice w 4 20 = md5 (take 4 w @ py_slice raw 4 20 @ drop 20 w @ secret)
     \<and> p_raw q = Some w \<and> p_code q = uint (w ! 0) \<and> p_id q = Some (uint (w ! 1))
     \<and> p_auth q = Some (py_slice w 4 20) \<and> p_req_auth q = Some (py_slice raw 4 20) \<and> p_secret q = secret
     \<and> (\<exists>p enforce. says raw p \<and> p_secret p = secret \<and> accept_reply enforce p w = Inr (Some q))"

lemma accepted_octets:
  assumes "accept_reply enforce p w = Inr (Some q)" "p_version p = V1_0" "says raw p"
  shows "answers_octets (p_secret p) raw w q"
proof -
  obtain q0 q1 where q: "create_reply_from w p = Inr q0" "verify_reply_keep p q0 w enforce = Inr (True, q1)"
      "q = q1\<lparr>p_req_auth := p_auth p\<rparr>"
    by (rule accept_replyE [OF assms(1)]) (rule that)
  note c = created_reply_fields [OF q(1) assms(2)]
  note k = reply_kept_fields [OF verify_reply_keep_kept [OF q(2)] c(4)]
  have "w ! 1 = raw ! 1 \<and> py_slice w 4 20 = md5 (take 4 w @ py_slice raw 4 20 @ drop 20 w @ p_secret p)"
    by (rule verified_octets [OF q(2) assms(2) c(3)]) (use assms(3) in \<open>simp add: says_def word_uint_eq_iff\<close>)
  then show ?thesis
    using assms(1,3) c k by (auto simp: answers_octets_def q(3) says_def)
qed

text \<open>
  The reply that is returned was made of a datagram that arrived, of the first 4096 octets of it,
  and answers the last datagram that was sent.
\<close>

definition answered :: "bytes \<Rightarrow> packet \<Rightarrow> bytes option list \<Rightarrow> (bytes \<times> int) list \<Rightarrow> bool" where
  "answered secret q polls sent \<longleftrightarrow>
     (\<exists>d raw port. Some d \<in> set polls \<and> sent \<noteq> [] \<and> last sent = (raw, port)
        \<and> answers_octets secret raw (take 4096 d) q)"

lemma answered_more:
  "answered secret q polls sent \<Longrightarrow> set polls \<subseteq> set polls' \<Longrightarrow> answered secret q polls' sent"
  unfolding answered_def by blast

definition v10_request :: "bytes \<Rightarrow> packet \<Rightarrow> bool" where
  "v10_request secret p \<longleftrightarrow> p_version p = V1_0 \<and> p_secret p = secret \<and> auth16 p"

lemma v10_request_kept: "request_kept p q \<Longrightarrow> v10_request secret p \<Longrightarrow> v10_request secret q"
  using auth16_request [of p q] by (simp add: v10_request_def) (simp add: request_kept_def req_core_def)

lemma kept_restore:
  assumes "restore_delay is_acct saved p = Inr q"
  shows "request_kept p q"
proof -
  have "request_kept p q" if "delitem k p = Inr q" for k
    using that by (auto simp: delitem_def kept.attrs elim!: bindE_InrE)
  then show ?thesis
    using assms by (auto simp: restore_delay_def kept.refl dest: kept.stored elim!: bindE_InrE split: if_splits option.splits)
qed

lemma send_to_answered:
  assumes "send_to c port s = (Inr q, s')" "v10_request secret (x_pkt s)"
  shows "answered secret q (x_polls s) (x_sent s') \<and> v10_request secret (x_pkt s')
    \<and> set (x_polls s') \<subseteq> set (x_polls s)"
proof -
  obtain saved s1 where s1: "attempts c port 0 (nat (retries (cl_policy c))) (timeout (cl_policy c)) s = (Inr q, s1)"
    and r: "restore_delay (p_code (x_pkt s) = pt AccountingRequest) saved (x_pkt s1) = Inr (x_pkt s')"
    and p: "x_polls s' = x_polls s1" "x_sent s' = x_sent s1"
    by (rule send_toE [OF assms(1)]) (rule that)
  have step: "v10_request secret p' \<and> says raw p'" if "v10_request secret p" "sent_step c p raw p'" for p raw p'
    using sent_says [OF that(2)] that(1) by (simp add: v10_request_def req_core_def)
  obtain p0 raw d pre new where a: "v10_request secret p0" "sent_step c p0 raw (x_pkt s1)"
      "x_sent s1 = x_sent s @ new @ [(raw, port)]" "x_polls s = pre @ x_polls s1" "d \<noteq> []" "Some d \<in> set pre"
      "accept_reply (cl_enforce_ma c) (x_pkt s1) (take 4096 d) = Inr (Some q)"
    using attempts_reply [OF s1, where I = "v10_request secret"] assms(2) step by blast
  have v: "v10_request secret (x_pkt s1)" and y: "says raw (x_pkt s1)" using step [OF a(1,2)] by simp_all
  have "answered secret q (x_polls s) (x_sent s1)"
    unfolding answered_def using accepted_octets [OF a(7) _ y] v a(3,4,6)
    by (intro exI [of _ d] exI [of _ raw] exI [of _ port]) (auto simp: v10_request_def)
  then show ?thesis using p a(4) v10_request_kept [OF kept_restore [OF r] v] by simp
qed

lemma kept_rand: "request_kept p (snd (rand_bytes n p))"
  using rand_bytes_frame [of n p] kept.draw by simp

lemma kept_set: "request_kept p (raw_setitem k v p)"
  by (simp add: raw_setitem_def kept.attrs)

lemma kept_start:
  assumes "method_start cur m p = Inr (m', q)"
  shows "request_kept p q"
  using assms
  by (cases m) (auto simp: mschap_start_def inject_eap_identity_def set_eap_def kept_set elim!: bindE_InrE)

lemma kept_carry: "carry_state reply p = Inr q \<Longrightarrow> request_kept p q"
  by (auto simp: carry_state_def kept_set elim!: bindE_InrE)

lemma kept_build:
  assumes "build_response des i e st p = Inr (x, st', q)"
  shows "request_kept p q"
  using assms kept_rand [of p 16]
  by (auto simp: build_response_def Let_def elim!: bindE_InrE split: if_splits prod.splits)

lemma kept_respond:
  assumes "method_respond des m p reply = Inr (m', q)"
  shows "request_kept p q"
proof (cases m)
  case (MschapV2Method st)
  then have "\<exists>p1 x. request_kept p p1 \<and> carry_state reply (set_eap x p1) = Inr q"
    using assms by (auto simp: mschap_respond_def Let_def elim!: bindE_InrE split: if_splits)
      (use kept.refl kept_build in blast)+
  then show ?thesis using kept.trans [OF _ kept.trans [OF kept_set kept_carry]] by (auto simp: set_eap_def)
next
  case Md5Method
  then show ?thesis using assms kept.trans [OF kept_set kept_carry]
    by (auto simp: apply_eap_md5_challenge_def set_eap_def elim!: bindE_InrE split: if_splits)
next
  case GtcMethod
  then show ?thesis using assms kept.trans [OF kept_set kept_carry]
    by (auto simp: apply_eap_gtc_challenge_def set_eap_def elim!: bindE_InrE split: if_splits)
qed

text \<open>
  What one \<^verbatim>\<open>_send_packet\<close> says of the datagrams that arrived and those that were sent, every call of
  \<^verbatim>\<open>send_packet\<close> says, with as many EAP rounds as it takes. \<open>I\<close> is what is known of the client and the
  request; no operation of an EAP method changes it.
\<close>

locale answering =
  fixes I :: "client \<Rightarrow> packet \<Rightarrow> bool" and A :: "packet \<Rightarrow> bytes option list \<Rightarrow> (bytes \<times> int) list \<Rightarrow> bool"
  assumes one_sending: "send_to c port s = (Inr q, s') \<Longrightarrow> I c (x_pkt s) \<Longrightarrow>
      A q (x_polls s) (x_sent s') \<and> I c (x_pkt s') \<and> set (x_polls s') \<subseteq> set (x_polls s)"
    and kept_I: "request_kept p q \<Longrightarrow> I c p \<Longrightarrow> I c q"
    and more_polls: "A q polls sent \<Longrightarrow> set polls \<subseteq> set polls' \<Longrightarrow> A q polls' sent"
begin

lemma eap_rounds_say:
  assumes "eap_rounds c port m reply s = (Inr q, s')" "A reply polls (x_sent s)"
    "set (x_polls s) \<subseteq> set polls" "I c (x_pkt s)"
  shows "A q polls (x_sent s')"
  using assms
proof (induction c port m reply s rule: eap_rounds.induct)
  case (1 c port m reply s)
  show ?case
  proof (cases "p_code reply = pt AccessChallenge")
    case False
    then show ?thesis using 1 by simp
  next
    case True
    then obtain m' p q' s1 where r: "method_respond (cl_des c) m (x_pkt s) reply = Inr (m', p)"
      and t: "send_to c port (s\<lparr>x_pkt := p\<rparr>) = (Inr q', s1)" and e: "eap_rounds c port m' q' s1 = (Inr q, s')"
      using "1.prems"(1) by (subst (asm) eap_rounds.simps) (auto split: sum.splits prod.splits)
    have "I c (x_pkt (s\<lparr>x_pkt := p\<rparr>))" using kept_I [OF kept_respond [OF r]] "1.prems"(4) by simp
    note a = one_sending [OF t this]
    show ?thesis
      by (rule "1.IH" [OF _ r refl t [symmetric] refl e])
        (use True a "1.prems"(3) in \<open>auto intro: more_polls\<close>)
  qed
qed

lemma send_auth_says:
  assumes "send_auth_packet c s = (Inr q, s')" "I c (x_pkt s)"
  shows "A q (x_polls s) (x_sent s')"
proof (cases "get_method (cl_methods c) (Some (p_auth_type (x_pkt s)))")
  case None
  then show ?thesis using one_sending assms by (simp add: send_auth_packet_def)
next
  case (Some m)
  then obtain m' p q' s1 where r: "method_start (x_cur s) m (x_pkt s) = Inr (m', p)"
    and t: "send_to c (cl_authport c) (s\<lparr>x_pkt := p\<rparr>) = (Inr q', s1)"
    and e: "eap_rounds c (cl_authport c) m' q' s1 = (Inr q, s')"
    using assms(1) by (auto simp: send_auth_packet_def split: sum.splits prod.splits)
  have "I c (x_pkt (s\<lparr>x_pkt := p\<rparr>))" using kept_I [OF kept_start [OF r] assms(2)] by simp
  note a = one_sending [OF t this]
  show ?thesis by (rule eap_rounds_say [OF e]) (use a in auto)
qed

lemma send_packet_says:
  assumes "send_packet c s = (Inr q, s')" "I c (x_pkt s)"
  shows "A q (x_polls s) (x_sent s')"
proof (cases "p_class (x_pkt s)")
  case StatusC
  then obtain port where "send_to c port s = (Inr q, s')"
    using assms(1) by (auto simp: send_packet_def send_status_packet_def liftE_def elim!: bindS_InrE)
  then show ?thesis using one_sending assms(2) by blast
qed (use assms one_sending send_auth_says in \<open>auto simp: send_packet_def\<close>)

end

interpretation ans: answering "\<lambda>c. v10_request secret" "answered secret" for secret
  by unfold_locales (use send_to_answered v10_request_kept answered_more in blast)+

section \<open>Acct-Delay-Time is put back\<close>

text \<open>The attribute of the dictionary: an integer under code 41, not encrypted, without named values.\<close>

definition delay_known :: "dictionary \<Rightarrow> bool" where
  "delay_known d \<longleftrightarrow>
     encode_name d ACCT_DELAY = Inr (KInt 41)
     \<and> okE (dict_getitem d ACCT_DELAY) (\<lambda>a. a_type a = ''integer'' \<and> a_encrypt a \<noteq> 2
          \<and> forward (a_values a) = [] \<and> backward (a_values a) = [])"

fun delay_octets :: "store option \<Rightarrow> bool" where
  "delay_octets None \<longleftrightarrow> True"
| "delay_octets (Some (Vals vs)) \<longleftrightarrow> list_all (\<lambda>v. case v of PBytes b \<Rightarrow> length b = 4 | _ \<Rightarrow> False) vs"
| "delay_octets (Some (Sub _)) \<longleftrightarrow> False"

lemma delay_known_attr:
  assumes "delay_known d"
  obtains a where "dict_getitem d ACCT_DELAY = Inr a" "encode_name d ACCT_DELAY = Inr (KInt 41)"
    "a_type a = ''integer''" "a_encrypt a \<noteq> 2" "forward (a_values a) = []" "backward (a_values a) = []"
  using assms by (auto simp: delay_known_def dest!: okE_Inr)

lemma split_delay: "split_tag ACCT_DELAY = (ACCT_DELAY, [])"
  by code_simp

lemma integer_codec:
  assumes "a_type a = ''integer''" "a_encrypt a \<noteq> 2" "forward (a_values a) = []" "backward (a_values a) = []"
    "length b = 4"
  shows "decode_value p a (PBytes b) = Inr (PInt (be_val b))"
    "encode_value a (PInt (be_val b)) q = Inr (PBytes b, q)"
proof -
  have v: "0 \<le> be_val b" "be_val b < 256 ^ 4" using be_val_less [of b] assms(5) by simp_all
  show "decode_value p a (PBytes b) = Inr (PInt (be_val b))"
    using assms by (simp add: decode_value_def decode_attr_def decode_bytes_def decode_integer_def
        unpack_int_def unpack_uint_def)
  show "encode_value a (PInt (be_val b)) q = Inr (PBytes b, q)"
    using assms v be_bytes_be_val [of b]
    by (simp add: encode_value_def named_value_def encode_attr_def encode_integer_def py_int_of_def pack_int_def)
qed

lemma delay_codec:
  assumes "a_type a = ''integer''" "a_encrypt a \<noteq> 2" "forward (a_values a) = []" "backward (a_values a) = []"
    "list_all (\<lambda>v. case v of PBytes b \<Rightarrow> length b = 4 | _ \<Rightarrow> False) vs"
  shows "\<exists>ws. mapE (decode_value p a) vs = Inr ws \<and> encode_values a None ws q = Inr (vs, q)"
  using assms(5)
proof (induction vs)
  case (Cons v vs)
  then obtain b ws where "v = PBytes b" "length b = 4" "mapE (decode_value p a) vs = Inr ws"
      "encode_values a None ws q = Inr (vs, q)"
    by (auto split: pyval.splits)
  then show ?case using integer_codec [OF assms(1-4)] by (auto intro!: exI [of _ "PInt (be_val b) # ws"])
qed simp

lemma saved_and_restored:
  assumes "delay_known d" "p_dict p = Some d" "delay_octets (od_get (p_attrs p) (KInt 41))"
    "saved_delay p = Inr saved" "p_dict q = Some d" "p_code p = pt AccountingRequest"
  obtains r where "restore_delay True saved q = Inr r" "od_get (p_attrs r) (KInt 41) = od_get (p_attrs p) (KInt 41)"
proof -
  obtain a where a: "dict_getitem d ACCT_DELAY = Inr a" "encode_name d ACCT_DELAY = Inr (KInt 41)"
    "a_type a = ''integer''" "a_encrypt a \<noteq> 2" "forward (a_values a) = []" "backward (a_values a) = []"
    by (rule delay_known_attr [OF assms(1)]) (rule that)
  have c: "contains (KName ACCT_DELAY) x = Inr (od_mem (p_attrs x) (KInt 41))" if "p_dict x = Some d" for x
    using that a(2) by (simp add: contains_def encode_key_def with_dict_def)
  show ?thesis
  proof (cases "od_get (p_attrs p) (KInt 41)")
    case None
    then have s: "saved = None" using assms(4,6) c [OF assms(2)] by (simp add: saved_delay_def od_mem_def)
    have "restore_delay True saved q = Inr (q\<lparr>p_attrs := od_del (KInt 41) (p_attrs q)\<rparr>)"
      using c [OF assms(5)] assms(5) a(2)
      by (cases "od_get (p_attrs q) (KInt 41)")
        (simp_all add: s restore_delay_def delitem_def encode_key_def with_dict_def od_mem_def od_delE_def od_del_absent)
    then show ?thesis by (rule that) (simp add: od_get_del None)
  next
    case (Some st)
    then obtain vs where st: "st = Vals vs" using assms(3) by (cases st) simp_all
    obtain ws where w: "mapE (decode_value p a) vs = Inr ws" "encode_values a None ws q = Inr (vs, q)"
      using delay_codec [OF a(3-6), of vs p q] assms(3) Some st by auto
    have "saved = Some ws"
      using assms(2,4,6) c [OF assms(2)] Some st a(1,2,3) w(1)
      by (simp add: saved_delay_def od_mem_def getitem_def with_dict_def raw_getitem_def store_iter_def
          item_values_def container_types_def)
    then have "restore_delay True saved q = Inr (raw_setitem (KInt 41) (Vals vs) q)"
      using assms(5) a(1,2) w(2)
      by (simp add: restore_delay_def setitem_def encode_key_values_def with_dict_def split_delay tag_bytes_def)
    then show ?thesis by (rule that) (simp add: raw_setitem_def od_get_set Some st)
  qed
qed

lemma request_core:
  assumes "request_packet p = Inr (raw, p')"
  shows "req_core p' = req_core p"
proof -
  have v: "serialize_v11 q = Inr (raw, p') \<Longrightarrow> req_core p' = req_core q" for q
    by (auto simp: serialize_v11_def request_kept_def dest!: kept.serialised elim!: bindE_InrE)
  have i: "req_core (ensure_id p) = req_core p" using kept_id [of p] by (simp add: request_kept_def)
  have st: "req_core p' = req_core p" if "prepare_request_message_authenticator False (need_authenticator (ensure_id p)) = Inr q"
      "encode_v10_random q = Inr (raw, p')" for q
    using random_sent [OF that(2)] kept_prepare [OF that(1)] kept.need [of "ensure_id p"] i by (simp add: request_kept_def)
  have rnd: "encode_v10_random (ensure_id p) = Inr (raw, p') \<Longrightarrow> req_core p' = req_core p"
    using random_sent i by (fastforce simp: request_kept_def)
  have bod: "encode_v10_body_md5 (ensure_id p) = Inr (raw, p') \<Longrightarrow> req_core p' = req_core p"
    using body_md5_sent i by simp
  show ?thesis
    using assms v [of "ensure_id p"] i rnd bod st
    by (cases "p_class p") (auto simp: request_packet_def Let_def elim!: bindE_InrE split: if_splits)
qed

lemma core_on_pkt: "(\<And>p q. f p = Inr q \<Longrightarrow> req_core q = req_core p) \<Longrightarrow>
    preserves (\<lambda>s. req_core (x_pkt s) = k) (on_pkt f)"
  by (auto simp: preserves_def on_pkt_def split: sum.split)

lemma core_transmit: "preserves (\<lambda>s. req_core (x_pkt s) = k) (transmit port)"
  by (auto simp: preserves_def transmit_def dest: request_core split: sum.split prod.split)

lemma core_rest:
  "preserves (\<lambda>s. req_core (x_pkt s) = k) (next_wait c n)"
  "preserves (\<lambda>s. req_core (x_pkt s) = k) (read_clock c)"
  "preserves (\<lambda>s. req_core (x_pkt s) = k) (await c w now)"
  by (auto simp: preserves_def next_wait_def read_clock_def await_def split: prod.split)

lemma core_bump: "preserves (\<lambda>s. req_core (x_pkt s) = k) (bump_step n w)"
proof -
  have "req_core q = req_core p" if "bump_delay w p = Inr q" for p q
    using that by (auto simp: bump_delay_def request_kept_def dest!: kept.stored elim!: bindE_InrE split: if_splits)
  then have "preserves (\<lambda>s. req_core (x_pkt s) = k) (on_pkt (bump_delay w))" by (rule core_on_pkt)
  then show ?thesis by (simp add: preserves_def bump_step_def retS_def)
qed

lemma core_prepare: "preserves (\<lambda>s. req_core (x_pkt s) = k) (on_pkt (prepare_outgoing c))"
  by (rule core_on_pkt) (auto simp: prepare_outgoing_def request_kept_def dest!: kept_prepare)

lemma core_attempts: "preserves (\<lambda>s. req_core (x_pkt s) = k) (attempts c port n m w)"
proof (induction m arbitrary: n w)
  case (Suc m)
  have "preserves (\<lambda>s. req_core (x_pkt s) = k) (attempt_once c port n w)"
    unfolding attempt_once_def by (intro keeps_intros core_bump core_rest core_prepare core_transmit)
  then show ?case
    by (auto intro!: keeps_intros Suc split: option.split)
qed (simp add: keeps_intros)

lemma acct_delay_kept:
  assumes "p_code (x_pkt s) = pt AccountingRequest" "p_dict (x_pkt s) = Some d" "delay_known d"
    and "delay_octets (od_get (p_attrs (x_pkt s)) (KInt 41))"
  shows "od_get (p_attrs (x_pkt (snd (send_to c port s)))) (KInt 41) = od_get (p_attrs (x_pkt s)) (KInt 41)"
proof (cases "saved_delay (x_pkt s)")
  case (Inl e)
  then show ?thesis by (simp add: send_to_def Let_def bindS_def liftE_def)
next
  case (Inr saved)
  obtain r s1 where a: "attempts c port 0 (nat (retries (cl_policy c))) (timeout (cl_policy c)) s = (r, s1)"
    by fastforce
  have "req_core (x_pkt s1) = req_core (x_pkt s)"
    using core_attempts [of "req_core (x_pkt s)", THEN preservesD, of s] a by (metis snd_conv)
  then have d: "p_dict (x_pkt s1) = Some d" using assms(2) by (simp add: req_core_def)
  obtain q where q: "restore_delay True saved (x_pkt s1) = Inr q"
      "od_get (p_attrs q) (KInt 41) = od_get (p_attrs (x_pkt s)) (KInt 41)"
    by (rule saved_and_restored [OF assms(3,2,4) Inr d assms(1)]) (rule that)
  then show ?thesis
    using assms(1) Inr a by (simp add: send_to_def Let_def bindS_def liftE_def finallyE_def on_pkt_def)
qed

text \<open>
  C8 A reply that the sync client returns answers what the client sent. Whatever datagrams arrive,
  on whatever request and with EAP rounds or without: when \<^verbatim>\<open>send_packet\<close> returns a reply, that
  reply was made of one of the datagrams that arrived (its octets, code, identifier and
  authenticator are that datagram's), the datagram has the identifier of the last datagram that was
  sent, its Response Authenticator is the digest over the authenticator that was sent and the
  secret, and the reply remembers that authenticator.
\<close>

theorem client_reply_answers:
  assumes "send_packet c s = (Inr q, s')" "v10_request secret (x_pkt s)"
  shows "answered secret q (x_polls s) (x_sent s')"
  using ans.send_packet_says [OF assms] .

definition small_client :: client where
  "small_client = \<lparr>cl_policy = default_policy, cl_enforce_ma = True, cl_authport = 1812, cl_acctport = 1813,
     cl_coaport = 3799, cl_secret = [115, 51], cl_dict = None, cl_methods = builtin_methods, cl_des = None,
     cl_clock = of_nat, cl_rand = (\<lambda>_. 0)\<rparr>"

definition asking :: "packet \<Rightarrow> bytes option list \<Rightarrow> exchange" where
  "asking p polls = \<lparr>x_pkt = p, x_polls = polls, x_sent = [], x_ticks = 0, x_draws = 0, x_cur = 0\<rparr>"

lemma client_reply_answers_witness:
  "\<exists>q s'. send_packet small_client (asking coa_request [None, Some [1, 2, 3], Some coa_ack]) = (Inr q, s')
    \<and> answered [115, 51] q [None, Some [1, 2, 3], Some coa_ack] (x_sent s')"
proof -
  have "okE (fst (send_packet small_client (asking coa_request [None, Some [1, 2, 3], Some coa_ack]))) (\<lambda>_. True)"
    by code_simp
  then obtain q s' where r: "send_packet small_client (asking coa_request [None, Some [1, 2, 3], Some coa_ack]) = (Inr q, s')"
    by (metis okE_Inr prod.collapse)
  have "v10_request [115, 51] (x_pkt (asking coa_request [None, Some [1, 2, 3], Some coa_ack]))" by code_simp
  from client_reply_answers [OF r this] r show ?thesis by (auto simp: asking_def)
qed

text \<open>
  The client gives up. When nothing that arrives is accepted, because nothing arrives or only
  forged or broken datagrams do, \<^verbatim>\<open>_send_packet\<close> sends as many datagrams as the policy has
  \<^verbatim>\<open>retries\<close>, to the one port, and then raises Timeout. \<open>Q\<close> holds of the request all along and says
  that it can be sent.
\<close>

theorem client_gives_up:
  assumes "Q (x_pkt s)" "p_code (x_pkt s) \<noteq> pt AccountingRequest"
    and "\<And>k w p. Q p \<Longrightarrow> \<exists>p1 raw p2. prepared c k w p = Inr p1 \<and> request_packet p1 = Inr (raw, p2) \<and> Q p2"
    and "\<And>p d. Q p \<Longrightarrow> Some d \<in> set (x_polls s) \<Longrightarrow>
      d = [] \<or> accept_reply (cl_enforce_ma c) p (take 4096 d) = Inr None"
  shows "\<exists>s' new. send_to c port s = (Inl Timeout, s') \<and> x_sent s' = x_sent s @ new
    \<and> length new = nat (retries (cl_policy c)) \<and> (\<forall>x \<in> set new. snd x = port)"
proof -
  obtain s' new where a: "attempts c port 0 (nat (retries (cl_policy c))) (timeout (cl_policy c)) s = (Inl Timeout, s')"
      "x_sent s' = x_sent s @ new" "length new = nat (retries (cl_policy c))" "\<forall>x \<in> set new. snd x = port"
    using attempts_exhausted [of Q s c, OF assms(1,3,4)] by blast
  have "send_to c port s = (Inl Timeout, s')"
    using assms(2) a(1)
    by (simp add: send_to_def Let_def bindS_def liftE_def saved_delay_def finallyE_def on_pkt_def restore_delay_def)
  then show ?thesis using a(2-4) by blast
qed

text \<open>A CoA-Request after it was sent any number of times; three octets are no reply to it.\<close>

definition asked :: "packet \<Rightarrow> bool" where
  "asked p \<longleftrightarrow> (\<exists>a. p = coa_request\<lparr>p_auth := a\<rparr>)"

lemma asked_sent:
  assumes "asked p"
  shows "\<exists>p1 raw p2. prepared small_client k w p = Inr p1 \<and> request_packet p1 = Inr (raw, p2) \<and> asked p2"
proof -
  obtain a where p: "p = coa_request\<lparr>p_auth := a\<rparr>" using assms by (auto simp: asked_def)
  have f: "p_version p = V1_0" "p_code p = 43" "p_class p = CoAC" "p_id p = Some 7" "p_ma p = None"
    "p_attrs p = []" "p_deferred p = []"
    by (simp_all add: p coa_request_def blank_packet_def)
  have h: "pack_header p 20 = Inr [43, 7, 0, 20]"
    unfolding p coa_request_def blank_packet_def by (cases a) (simp, code_simp)+
  have "request_packet p = Inr ([43, 7, 0, 20] @ md5 ([43, 7, 0, 20] @ zero_octets 16 @ p_secret p),
      p\<lparr>p_auth := Some (md5 ([43, 7, 0, 20] @ zero_octets 16 @ p_secret p))\<rparr>)"
    using f h by (simp add: request_packet_def ensure_id_def Let_def encode_v10_body_md5_def refresh_if_set_def
        encode_attributes_plain encode_stored_def)
  moreover have "prepared small_client k w p = Inr p"
    using f by (simp add: prepared_def prepare_outgoing_def prepare_request_message_authenticator_def)
  moreover have "asked (p\<lparr>p_auth := b\<rparr>)" for b by (auto simp: asked_def p)
  ultimately show ?thesis by blast
qed

lemma client_gives_up_witness:
  "\<exists>s' new. send_to small_client 3799 (asking coa_request [None, Some [1, 2, 3]]) = (Inl Timeout, s')
    \<and> x_sent s' = new \<and> length new = 3"
proof -
  have q: "asked (x_pkt (asking coa_request [None, Some [1, 2, 3]]))"
    unfolding asked_def asking_def by (rule exI [of _ None]) (simp add: coa_request_def)
  have short: "accept_reply e p [1, 2, 3] = Inr None" for e p
    by (simp add: accept_reply_def create_reply_from_def new_packet_def decode_packet_def decode_header_def Let_def
        split: prod.split)
  show ?thesis
    using client_gives_up [where Q = asked, OF q _ asked_sent, of 3799]
    by (auto simp: asking_def small_client_def default_policy_def coa_request_def short)
qed

text \<open>
  Whatever comes of it, a reply, Timeout or any other exception: after \<^verbatim>\<open>_send_packet\<close> an
  Accounting-Request has the Acct-Delay-Time that the caller gave it, or none if it had none,
  although every attempt but the first sends a larger one.
\<close>

theorem acct_delay_restored:
  assumes "p_code (x_pkt s) = pt AccountingRequest" "p_dict (x_pkt s) = Some d" "delay_known d"
    and "delay_octets (od_get (p_attrs (x_pkt s)) (KInt 41))"
  shows "od_get (p_attrs (x_pkt (snd (send_to c port s)))) (KInt 41) = od_get (p_attrs (x_pkt s)) (KInt 41)"
  by (rule acct_delay_kept [OF assms])

definition delay_dict :: dictionary where
  "delay_dict = register_attribute (sample_attribute ''Acct-Delay-Time'' 41 ''integer'') (KInt 41) sample_dict0"

definition acct_request :: packet where
  "acct_request = (blank_packet (Some delay_dict))\<lparr>p_class := AcctC, p_code := 4, p_id := Some 7,
     p_secret := [115, 51], p_attrs := [(KInt 41, Vals [PBytes [0, 0, 0, 3]])]\<rparr>"

lemma acct_delay_restored_witness:
  "od_get (p_attrs (x_pkt (snd (send_to small_client 1813 (asking acct_request []))))) (KInt 41)
     = Some (Vals [PBytes [0, 0, 0, 3]])
   \<and> map (\<lambda>x. drop 20 (fst x)) (x_sent (snd (send_to small_client 1813 (asking acct_request []))))
     = [[41, 6, 0, 0, 0, 3], [41, 6, 0, 0, 0, 8], [41, 6, 0, 0, 0, 13]]"
proof -
  have f: "p_code (x_pkt (asking acct_request [])) = pt AccountingRequest"
    "p_dict (x_pkt (asking acct_request [])) = Some delay_dict"
    "od_get (p_attrs (x_pkt (asking acct_request []))) (KInt 41) = Some (Vals [PBytes [0, 0, 0, 3]])"
    by (simp_all add: asking_def acct_request_def blank_packet_def)
  have d: "delay_known delay_dict" by code_simp
  have "map (\<lambda>x. drop 20 (fst x)) (x_sent (snd (send_to small_client 1813 (asking acct_request []))))
     = [[41, 6, 0, 0, 0, 3], [41, 6, 0, 0, 0, 8], [41, 6, 0, 0, 0, 13]]"
    by code_simp
  then show ?thesis
    using acct_delay_restored [OF f(1,2) d, of small_client 1813] by (simp add: f(3))
qed

end
