(* ===== verification/ClientAsync.thy ===== *)
theory ClientAsync
  imports Replies Effects
begin

text \<open>
  \<^verbatim>\<open>pyrad2/client_async.py\<close>: the asyncio client. Packets and futures are objects that several
  places refer to, so they are numbered and live in \<open>w_heap\<close> and \<open>w_futures\<close>. The event loop runs one
  callback at a time: a datagram arrives, the timeout task wakes up, a future's callback runs;
  each is a function on \<open>world\<close>. \<open>now\<close> is the clock reading of the call. What connecting a transport
  meets is an input; EAP conversations end with the transport they started on.
\<close>

datatype future = Waiting | Result packet | Failed exn | Cancelled

datatype kind = KAuth | KAcct | KCoa

record pending =
  q_packet :: nat
  q_retries :: int
  q_future :: nat
  q_send_date :: rat

record transport =
  t_pending :: "(int option, pending) od"
  t_packet_id :: int
  t_sent :: "bytes list"
  t_timer :: bool
  t_open :: bool

record conversation =
  v_packet :: nat
  v_method :: "eap_method option"
  v_outer :: nat

record world =
  w_heap :: "packet list"
  w_futures :: "future list"
  w_tr :: "kind \<Rightarrow> transport option"
  w_callbacks :: "(nat \<times> conversation) list"
  w_cur :: int
  w_packets :: nat

record async_client =
  ac_policy :: RetryPolicy
  ac_enforce_ma :: bool
  ac_secret :: bytes
  ac_dict :: "dictionary option"
  ac_methods :: registry
  ac_des :: des
  ac_rng :: "nat \<Rightarrow> nat \<Rightarrow> int"
  ac_rand :: "nat \<Rightarrow> rat"

type_synonym 'a wm = "(world, 'a) sm"

section \<open>Futures and packets\<close>

definition settled :: "future \<Rightarrow> bool" where
  "settled f \<longleftrightarrow> (case f of Waiting \<Rightarrow> False | _ \<Rightarrow> True)"

definition new_future :: "nat wm" where
  "new_future w = (Inr (length (w_futures w)), w\<lparr>w_futures := w_futures w @ [Waiting]\<rparr>)"

text \<open>\<^verbatim>\<open>set_result\<close> and \<^verbatim>\<open>set_exception\<close> raise on a future that is done.\<close>

definition settle :: "nat \<Rightarrow> future \<Rightarrow> unit wm" where
  "settle f x w =
     (if settled (w_futures w ! f) then (Inl InvalidStateError, w)
      else (Inr (), w\<lparr>w_futures := (w_futures w)[f := x]\<rparr>))"

definition cancel :: "nat \<Rightarrow> world \<Rightarrow> world" where
  "cancel f w =
     (if settled (w_futures w ! f) then w else w\<lparr>w_futures := (w_futures w)[f := Cancelled]\<rparr>)"

definition on_packet :: "nat \<Rightarrow> (packet \<Rightarrow> packet res) \<Rightarrow> unit wm" where
  "on_packet i f w =
     (case f (w_heap w ! i) of
        Inl e \<Rightarrow> (Inl e, w)
      | Inr p \<Rightarrow> (Inr (), w\<lparr>w_heap := (w_heap w)[i := p]\<rparr>))"

definition prepare_outgoing_async :: "async_client \<Rightarrow> nat \<Rightarrow> unit wm" where
  "prepare_outgoing_async c i = on_packet i (prepare_request_message_authenticator (ac_enforce_ma c))"

section \<open>The transport\<close>

definition update_tr :: "kind \<Rightarrow> (transport \<Rightarrow> transport) \<Rightarrow> world \<Rightarrow> world" where
  "update_tr k f w = w\<lparr>w_tr := (w_tr w)(k := map_option f (w_tr w k))\<rparr>"

definition pending_of :: "kind \<Rightarrow> world \<Rightarrow> (int option, pending) od" where
  "pending_of k w = (case w_tr w k of None \<Rightarrow> [] | Some t \<Rightarrow> t_pending t)"

text \<open>
  \<^verbatim>\<open>self.transport.sendto(packet.request_packet())\<close>; a transport that was never connected has no
  attribute \<^verbatim>\<open>transport\<close>, and a closed one has None.
\<close>

definition transmit_async :: "kind \<Rightarrow> nat \<Rightarrow> unit wm" where
  "transmit_async k i w =
     (if (case w_tr w k of None \<Rightarrow> True | Some t \<Rightarrow> \<not> t_open t) then (Inl AttributeError, w)
      else
        case request_packet (w_heap w ! i) of
          Inl e \<Rightarrow> (Inl e, w)
        | Inr (raw, p) \<Rightarrow>
            (Inr (), update_tr k (\<lambda>t. t\<lparr>t_sent := t_sent t @ [raw]\<rparr>) (w\<lparr>w_heap := (w_heap w)[i := p]\<rparr>)))"

definition candidates :: "int \<Rightarrow> int list" where
  "candidates start = map (\<lambda>offset. (start + int offset) mod 256) [1..<257]"

definition transport_create_id :: "transport \<Rightarrow> (int \<times> transport) res" where
  "transport_create_id t =
     (case find (\<lambda>c. \<not> od_mem (t_pending t) (Some c)) (candidates (t_packet_id t)) of
        None \<Rightarrow> Inl IdentifierExhausted
      | Some c \<Rightarrow> Inr (c, t\<lparr>t_packet_id := c\<rparr>))"

definition next_free_id :: "kind \<Rightarrow> int wm" where
  "next_free_id k w =
     (case w_tr w k of
        None \<Rightarrow> (Inl GenericException, w)
      | Some t \<Rightarrow>
          (case transport_create_id t of
             Inl e \<Rightarrow> (Inl e, w)
           | Inr (c, t') \<Rightarrow> (Inr c, w\<lparr>w_tr := (w_tr w)(k := Some t')\<rparr>)))"

text \<open>\<^verbatim>\<open>DatagramProtocolClient.send_packet\<close>: the entry is made before the packet is serialised.\<close>

definition protocol_send :: "kind \<Rightarrow> rat \<Rightarrow> nat \<Rightarrow> nat \<Rightarrow> unit wm" where
  "protocol_send k now i f w =
     (let key = p_id (w_heap w ! i)
      in if od_mem (pending_of k w) key then (Inl IdentifierExhausted, w)
         else
           transmit_async k i
             (update_tr k (\<lambda>t. t\<lparr>t_pending := od_set key
                \<lparr>q_packet = i, q_retries = 0, q_future = f, q_send_date = now\<rparr> (t_pending t)\<rparr>) w))"

section \<open>The timeout task\<close>

definition update_pending :: "kind \<Rightarrow> int option \<Rightarrow> pending \<Rightarrow> world \<Rightarrow> world" where
  "update_pending k key q = update_tr k (\<lambda>t. t\<lparr>t_pending := od_set key q (t_pending t)\<rparr>)"

text \<open>
  One pending request: it fails, is sent again, or shortens the sleep. \<open>Inr True\<close>: remove it
  afterwards.
\<close>

definition service :: "async_client \<Rightarrow> kind \<Rightarrow> rat \<Rightarrow> rat \<Rightarrow> int option \<times> pending \<Rightarrow> (bool \<times> rat option) wm" where
  "service c k now smp kq =
     (case kq of (key, q) \<Rightarrow>
      let elapsed = now - q_send_date q; current_wait = wait_for smp (nat (q_retries q)) (ac_policy c)
      in if current_wait \<le> elapsed then
           if retries (ac_policy c) \<le> q_retries q then
             bindS (settle (q_future q) (Failed TimeoutError)) (\<lambda>_. retS (True, None))
           else
             bindS (modifyS (update_pending k key (q\<lparr>q_send_date := now, q_retries := q_retries q + 1\<rparr>))) (\<lambda>_.
             bindS (transmit_async k (q_packet q)) (\<lambda>_. retS (False, None)))
         else retS (False, Some (current_wait - elapsed)))"

text \<open>The loop over the pending requests; random samples are numbered from \<open>n\<close>.\<close>

fun service_all ::
    "async_client \<Rightarrow> kind \<Rightarrow> rat \<Rightarrow> nat \<Rightarrow> (int option \<times> pending) list \<Rightarrow> rat \<Rightarrow> int option list
     \<Rightarrow> (rat \<times> int option list) wm" where
  "service_all c k now n [] wake dels = retS (wake, dels)"
| "service_all c k now n (kq # kqs) wake dels =
     bindS (service c k now (ac_rand c n) kq) (\<lambda>(gone, remaining).
     service_all c k now (Suc n) kqs
       (case remaining of None \<Rightarrow> wake | Some r \<Rightarrow> if r < wake then r else wake)
       (if gone then dels @ [fst kq] else dels))"

definition remove_pending :: "kind \<Rightarrow> int option list \<Rightarrow> world \<Rightarrow> world" where
  "remove_pending k keys = update_tr k (\<lambda>t. t\<lparr>t_pending := fold od_del keys (t_pending t)\<rparr>)"

text \<open>
  One turn of the task, with the time that it then sleeps. An exception ends the task: nothing
  wakes it up again.
\<close>

definition wake_up :: "async_client \<Rightarrow> kind \<Rightarrow> rat \<Rightarrow> nat \<Rightarrow> world \<Rightarrow> rat option \<times> world" where
  "wake_up c k now n w =
     (case w_tr w k of
        None \<Rightarrow> (None, w)
      | Some t \<Rightarrow>
          if \<not> t_timer t then (None, w)
          else
            case service_all c k now n (t_pending t) (timeout (ac_policy c)) [] w of
              (Inl e, w') \<Rightarrow> (None, update_tr k (\<lambda>t. t\<lparr>t_timer := False\<rparr>) w')
            | (Inr (wake, dels), w') \<Rightarrow> (Some (max 0 wake), remove_pending k dels w'))"

section \<open>Datagrams\<close>

text \<open>\<^verbatim>\<open>Packet(packet=data, dict=...)\<close>: a plain packet, with an identifier from the module's counter.\<close>

definition new_reply :: "async_client \<Rightarrow> bytes \<Rightarrow> packet wm" where
  "new_reply c data w =
     (case new_packet PacketC 0 None [] None V1_0 (ac_dict c) (ac_rng c (w_packets w)) 0 (w_cur w) of
        (p, cur) \<Rightarrow>
          (decode_packet data (p\<lparr>p_raw := Some data\<rparr>), w\<lparr>w_cur := cur, w_packets := Suc (w_packets w)\<rparr>))"

definition deliver :: "async_client \<Rightarrow> kind \<Rightarrow> bytes \<Rightarrow> packet \<Rightarrow> unit wm" where
  "deliver c k data reply w =
     (case od_get (pending_of k w) (p_id reply) of
        None \<Rightarrow> (Inr (), w)
      | Some q \<Rightarrow>
          if p_code reply = 0 then (Inr (), w)
          else
            let p = w_heap w ! q_packet q in
            (case verify_reply_keep p (reply\<lparr>p_dict := p_dict p, p_secret := p_secret p\<rparr>) data (ac_enforce_ma c) of
               Inl e \<Rightarrow> (Inl e, w)
             | Inr (False, _) \<Rightarrow> (Inr (), w)
             | Inr (True, r) \<Rightarrow>
                 bindS (settle (q_future q) (Result r)) (\<lambda>_.
                 modifyS (remove_pending k [p_id reply])) w))"

text \<open>Every exception is logged and forgotten.\<close>

definition reply_received :: "async_client \<Rightarrow> kind \<Rightarrow> bytes \<Rightarrow> world \<Rightarrow> world" where
  "reply_received c k data w =
     snd (catchS (bindS (new_reply c data) (deliver c k data)) (\<lambda>_. retS ()) w)"

section \<open>Transports\<close>

text \<open>
  \<^verbatim>\<open>initialize_transports\<close>: \<open>ids k\<close> is the random first identifier, \<open>connects k\<close> the exception that
  connecting raises, if any. \<^verbatim>\<open>connection_made\<close> starts the timeout task. The protocol objects are
  there before they are connected and stay when that fails; of several failures one is raised.
\<close>

definition new_transport :: "int \<Rightarrow> transport" where
  "new_transport i = \<lparr>t_pending = [], t_packet_id = i, t_sent = [], t_timer = False, t_open = False\<rparr>"

definition connection_made :: "transport \<Rightarrow> transport" where
  "connection_made t = t\<lparr>t_timer := True, t_open := True\<rparr>"

definition initialize_transports ::
    "(kind \<Rightarrow> bool) \<Rightarrow> (kind \<Rightarrow> int) \<Rightarrow> (kind \<Rightarrow> exn option) \<Rightarrow> unit wm" where
  "initialize_transports enable ids connects w =
     (if \<not> list_ex enable [KAcct, KAuth, KCoa] then (Inl GenericException, w)
      else
        let todo = filter (\<lambda>k. enable k \<and> w_tr w k = None) [KAcct, KAuth, KCoa];
            w1 = fold (\<lambda>k w. w\<lparr>w_tr := (w_tr w)(k \<mapsto> new_transport (ids k))\<rparr>) todo w;
            w2 = fold (\<lambda>k. update_tr k connection_made) (filter (\<lambda>k. connects k = None) todo) w1
        in (case List.map_filter connects todo of [] \<Rightarrow> Inr () | e # _ \<Rightarrow> Inl e, w2))"

text \<open>Closing a transport that was never connected raises: it has no attribute \<^verbatim>\<open>transport\<close>.\<close>

definition close_transport :: "kind \<Rightarrow> unit wm" where
  "close_transport k w =
     (case w_tr w k of
        None \<Rightarrow> (Inr (), w)
      | Some t \<Rightarrow> if t_open t then (Inr (), w\<lparr>w_tr := (w_tr w)(k := None)\<rparr>) else (Inl AttributeError, w))"

definition deinitialize_transports :: "(kind \<Rightarrow> bool) \<Rightarrow> unit wm" where
  "deinitialize_transports deinit =
     bindS (if deinit KCoa then close_transport KCoa else retS ()) (\<lambda>_.
     bindS (if deinit KAuth then close_transport KAuth else retS ()) (\<lambda>_.
     if deinit KAcct then close_transport KAcct else retS ()))"

section \<open>The client\<close>

text \<open>\<^verbatim>\<open>_protocol_for_server_type\<close> and \<^verbatim>\<open>_status_protocol\<close>; the transport must be there.\<close>

definition protocol_for_server_type :: "string \<Rightarrow> world \<Rightarrow> kind res" where
  "protocol_for_server_type ty w =
     (let present = (\<lambda>k. if w_tr w k = None then Inl GenericException else Inr k)
      in if ty = ''auth'' then present KAuth
         else if ty = ''acct'' then present KAcct
         else if ty = ''coa'' then present KCoa
         else Inl ValueError)"

definition allocate_packet_id :: "string \<Rightarrow> int wm" where
  "allocate_packet_id ty w =
     (case protocol_for_server_type ty w of Inl e \<Rightarrow> (Inl e, w) | Inr k \<Rightarrow> next_free_id k w)"

definition status_protocol :: "string \<Rightarrow> world \<Rightarrow> kind res" where
  "status_protocol port w =
     (if port \<in> {''auth'', ''acct''} then protocol_for_server_type port w else Inl ValueError)"

text \<open>\<^verbatim>\<open>create_packet(id)\<close> of the async client: an identifier that counts as false is refused.\<close>

definition create_packet :: "async_client \<Rightarrow> int \<Rightarrow> nat wm" where
  "create_packet c i w =
     (if i = 0 then (Inl GenericException, w)
      else
        case new_packet PacketC 0 (Some i) (ac_secret c) None V1_0 (ac_dict c) (ac_rng c (w_packets w)) 0 (w_cur w) of
          (p, _) \<Rightarrow>
            (Inr (length (w_heap w)), w\<lparr>w_heap := w_heap w @ [p], w_packets := Suc (w_packets w)\<rparr>))"

definition create_status_packet :: "async_client \<Rightarrow> string \<Rightarrow> nat wm" where
  "create_status_packet c port w =
     bindS (\<lambda>w. liftE (status_protocol port w) w) (\<lambda>k.
     bindS (next_free_id k) (\<lambda>i w.
       case new_packet StatusC (pt StatusServer) (Some i) (ac_secret c) None V1_0 (ac_dict c)
              (ac_rng c (w_packets w)) 0 (w_cur w) of
         (p, _) \<Rightarrow>
           (Inr (length (w_heap w)), w\<lparr>w_heap := w_heap w @ [p], w_packets := Suc (w_packets w)\<rparr>))) w"

text \<open>A future for the reply to packet \<open>i\<close>, sent over transport \<open>k\<close>.\<close>

definition send_over :: "kind \<Rightarrow> rat \<Rightarrow> nat \<Rightarrow> nat \<Rightarrow> unit wm" where
  "send_over k now i f w =
     (if w_tr w k = None then (Inl GenericException, w) else protocol_send k now i f w)"

definition send_status_packet_async :: "async_client \<Rightarrow> rat \<Rightarrow> string \<Rightarrow> nat option \<Rightarrow> nat wm" where
  "send_status_packet_async c now port i =
     bindS (\<lambda>w. liftE (status_protocol port w) w) (\<lambda>k.
     bindS (case i of Some i \<Rightarrow> retS i | None \<Rightarrow> create_status_packet c port) (\<lambda>i.
     bindS new_future (\<lambda>f.
     bindS (prepare_outgoing_async c i) (\<lambda>_.
     bindS (protocol_send k now i f) (\<lambda>_. retS f)))))"

section \<open>EAP\<close>

text \<open>\<^verbatim>\<open>_send_round\<close>: a future of its own for each round, whose callback is \<^verbatim>\<open>_on_reply\<close>.\<close>

definition send_round :: "rat \<Rightarrow> conversation \<Rightarrow> unit wm" where
  "send_round now v =
     bindS new_future (\<lambda>f.
     bindS (protocol_send KAuth now (v_packet v) f) (\<lambda>_.
     modifyS (\<lambda>w. w\<lparr>w_callbacks := w_callbacks w @ [(f, v)]\<rparr>)))"

definition send_auth_packet_async :: "async_client \<Rightarrow> rat \<Rightarrow> nat \<Rightarrow> nat wm" where
  "send_auth_packet_async c now i w =
     (case (case get_method (ac_methods c) (Some (p_auth_type (w_heap w ! i))) of
              None \<Rightarrow> Inr (None, w_heap w ! i)
            | Some m \<Rightarrow> bindE (method_start (w_cur w) m (w_heap w ! i)) (\<lambda>(m', p). Inr (Some m', p))) of
        Inl e \<Rightarrow> (Inl e, w)
      | Inr (m, p) \<Rightarrow>
          bindS new_future (\<lambda>outer.
          bindS (prepare_outgoing_async c i) (\<lambda>_.
          bindS (send_round now \<lparr>v_packet = i, v_method = m, v_outer = outer\<rparr>) (\<lambda>_. retS outer)))
            (w\<lparr>w_heap := (w_heap w)[i := p]\<rparr>))"

text \<open>
  The next round: a fresh identifier and authenticator. What raises here raises in the callback:
  the event loop logs it and the outer future stays as it is.
\<close>

definition next_round :: "async_client \<Rightarrow> rat \<Rightarrow> conversation \<Rightarrow> unit wm" where
  "next_round c now v =
     bindS (next_free_id KAuth) (\<lambda>i.
     bindS (on_packet (v_packet v) (\<lambda>p.
       let (a, q) = create_authenticator (p\<lparr>p_id := Some i\<rparr>) in Inr (q\<lparr>p_auth := Some a\<rparr>))) (\<lambda>_.
     bindS (prepare_outgoing_async c (v_packet v)) (\<lambda>_.
     send_round now v)))"

definition on_reply :: "async_client \<Rightarrow> rat \<Rightarrow> nat \<Rightarrow> conversation \<Rightarrow> unit wm" where
  "on_reply c now f v w =
     (if settled (w_futures w ! v_outer v) then (Inr (), w)
      else
        case w_futures w ! f of
          Waiting \<Rightarrow> (Inr (), w)
        | Cancelled \<Rightarrow> (Inr (), cancel (v_outer v) w)
        | Failed e \<Rightarrow> settle (v_outer v) (Failed e) w
        | Result reply \<Rightarrow>
            (case v_method v of
               Some m \<Rightarrow>
                 if p_code reply = pt AccessChallenge then
                   (case method_respond (ac_des c) m (w_heap w ! v_packet v) reply of
                      Inl e \<Rightarrow> settle (v_outer v) (Failed e) w
                    | Inr (m', p) \<Rightarrow>
                        next_round c now (v\<lparr>v_method := Some m'\<rparr>) (w\<lparr>w_heap := (w_heap w)[v_packet v := p]\<rparr>))
                 else settle (v_outer v) (Result reply) w
             | None \<Rightarrow> settle (v_outer v) (Result reply) w))"

text \<open>The event loop runs the first callback whose future is done.\<close>

definition run_callback :: "async_client \<Rightarrow> rat \<Rightarrow> world \<Rightarrow> world" where
  "run_callback c now w =
     (case filter (\<lambda>(f, v). settled (w_futures w ! f)) (w_callbacks w) of
        [] \<Rightarrow> w
      | (f, v) # _ \<Rightarrow>
          snd (on_reply c now f v (w\<lparr>w_callbacks := filter (\<lambda>(g, _). g \<noteq> f) (w_callbacks w)\<rparr>)))"

definition send_packet_async :: "async_client \<Rightarrow> rat \<Rightarrow> nat \<Rightarrow> nat wm" where
  "send_packet_async c now i w =
     (case p_class (w_heap w ! i) of
        StatusC \<Rightarrow> send_status_packet_async c now ''auth'' (Some i) w
      | AuthC \<Rightarrow>
          if w_tr w KAuth = None then (Inl GenericException, w) else send_auth_packet_async c now i w
      | cls \<Rightarrow>
          bindS new_future (\<lambda>f.
          bindS (prepare_outgoing_async c i) (\<lambda>_.
          bindS (case cls of AcctC \<Rightarrow> send_over KAcct now i f | CoAC \<Rightarrow> send_over KCoa now i f
                 | _ \<Rightarrow> failS GenericException) (\<lambda>_. retS f))) w)"

end
