(* ===== verification/Pending.thy ===== *)
theory Pending
  imports ClientAsync Requests
begin

text \<open>
  What the asyncio client guarantees about its pending requests: identifiers are allocated without
  reuse, a future is resolved by a verified reply only; and what a cancelled future does to the
  timeout task.
\<close>

section \<open>Pending requests\<close>

lemma update_tr_simps [simp]:
  "w_futures (update_tr k f w) = w_futures w" "w_heap (update_tr k f w) = w_heap w"
  "w_tr (update_tr k f w) k = map_option f (w_tr w k)"
  by (simp_all add: update_tr_def)

lemma settled_simps [simp]:
  "\<not> settled Waiting" "settled (Result r)" "settled (Failed e)" "settled Cancelled"
  by (simp_all add: settled_def)

lemma not_settled: "\<not> settled f \<longleftrightarrow> f = Waiting"
  by (cases f) simp_all

lemma settle_waiting:
  "w_futures w ! f = Waiting \<Longrightarrow> settle f x w = (Inr (), w\<lparr>w_futures := (w_futures w)[f := x]\<rparr>)"
  by (simp add: settle_def)

lemma settle_settled: "settled (w_futures w ! f) \<Longrightarrow> settle f x w = (Inl InvalidStateError, w)"
  by (simp add: settle_def)

lemma pending_update [simp]:
  "pending_of k (update_tr k f w) = (case w_tr w k of None \<Rightarrow> [] | Some t \<Rightarrow> t_pending (f t))"
  by (simp add: pending_of_def split: option.split)

section \<open>Replies\<close>

lemma new_reply_fields:
  assumes "new_reply c data w = (Inr q, w1)"
  shows "p_id q = Some (uint (data ! 1))" "w_futures w1 = w_futures w" "w_heap w1 = w_heap w" "w_tr w1 = w_tr w"
  using assms by (auto simp: new_reply_def new_packet_def Let_def dest!: decode_id split: prod.splits)

lemma deliver_resolves:
  assumes "w_futures (snd (deliver c k data reply w)) ! f = Result r" "w_futures w ! f = Waiting"
  obtains q r0 where "od_get (pending_of k w) (p_id reply) = Some q" "q_future q = f"
    "r0 = reply\<lparr>p_dict := p_dict (w_heap w ! q_packet q), p_secret := p_secret (w_heap w ! q_packet q)\<rparr>"
    "verify_reply_keep (w_heap w ! q_packet q) r0 data (ac_enforce_ma c) = Inr (True, r)"
proof (cases "od_get (pending_of k w) (p_id reply)")
  case None
  then show thesis using assms by (simp add: deliver_def)
next
  case (Some q)
  let ?p = "w_heap w ! q_packet q"
  let ?v = "verify_reply_keep ?p (reply\<lparr>p_dict := p_dict ?p, p_secret := p_secret ?p\<rparr>) data (ac_enforce_ma c)"
  obtain r1 where v: "?v = Inr (True, r1)"
    using assms Some by (auto simp: deliver_def Let_def split: sum.splits if_splits prod.splits bool.splits)
  have w: "w_futures (snd (bindS (settle (q_future q) (Result r1)) (\<lambda>_. modifyS (remove_pending k [p_id reply])) w)) ! f
      = Result r"
    using assms(1,2) Some v by (simp add: deliver_def Let_def split: if_splits)
  have "q_future q = f \<and> r1 = r"
    using w assms(2)
    by (cases "q_future q = f"; cases "f < length (w_futures w)")
      (auto simp: bindS_def settle_def modifyS_def remove_pending_def list_update_beyond split: if_splits)
  then show thesis using that Some v by simp
qed

lemma received_resolves:
  assumes "w_futures (reply_received c k data w) ! f = Result r" "w_futures w ! f = Waiting"
  obtains q r0 where "od_get (pending_of k w) (Some (uint (data ! 1))) = Some q" "q_future q = f"
    "p_id r0 = Some (uint (data ! 1))"
    "verify_reply_keep (w_heap w ! q_packet q) r0 data (ac_enforce_ma c) = Inr (True, r)"
proof -
  obtain x w1 where n: "new_reply c data w = (x, w1)" by fastforce
  have un: "w_futures w1 = w_futures w"
    using n by (auto simp: new_reply_def split: prod.splits)
  have catch: "snd (catchS m (\<lambda>_. retS ()) s) = snd (m s)" for m and s :: world
    by (simp add: catchS_def retS_def split: prod.split sum.split)
  show thesis
  proof (cases x)
    case (Inl e)
    then show thesis using assms n un by (simp add: reply_received_def catch bindS_def)
  next
    case (Inr reply)
    note f = new_reply_fields [OF n [unfolded Inr]]
    have "w_futures (snd (deliver c k data reply w1)) ! f = Result r" "w_futures w1 ! f = Waiting"
      using assms n Inr f by (simp_all add: reply_received_def catch bindS_def)
    then show thesis
      by (rule deliver_resolves) (rule that; simp add: pending_of_def f)
  qed
qed

section \<open>Identifiers\<close>

lemma find_candidates:
  "find P (candidates s) = Some c \<Longrightarrow>
     \<exists>n. 1 \<le> n \<and> n \<le> 256 \<and> c = (s + n) mod 256 \<and> P c \<and> (\<forall>m. 1 \<le> m \<and> m < n \<longrightarrow> \<not> P ((s + m) mod 256))"
proof -
  assume "find P (candidates s) = Some c"
  then obtain i where i: "i < 256" "P (candidates s ! i)" "c = candidates s ! i"
      "\<forall>j < i. \<not> P (candidates s ! j)"
    by (auto simp: find_Some_iff candidates_def)
  have nth: "candidates s ! j = (s + (int j + 1)) mod 256" if "j < 256" for j
    using that by (simp add: candidates_def add.commute)
  have "\<not> P ((s + m) mod 256)" if "1 \<le> m" "m < int i + 1" for m
    using i(1,4) that nth [of "nat (m - 1)"] by (auto dest: spec [of _ "nat (m - 1)"])
  then show ?thesis using i nth [OF i(1)] by (intro exI [of _ "int i + 1"]) simp
qed

lemma set_candidates: "set (candidates s) = {0..<256}"
proof
  show "set (candidates s) \<subseteq> {0..<256}" by (auto simp: candidates_def)
  show "{0..<256} \<subseteq> set (candidates s)"
  proof
    fix c :: int assume c: "c \<in> {0..<256}"
    define n where "n = nat ((c - s - 1) mod 256) + 1"
    have "(s + int n) mod 256 = ((c - s - 1) mod 256 + (s + 1)) mod 256" by (simp add: n_def algebra_simps)
    also have "\<dots> = c" using c by (simp add: mod_add_left_eq)
    finally have "(s + int n) mod 256 = c" .
    moreover have "n \<in> {1..<257}" by (simp add: n_def nat_less_iff)
    ultimately show "c \<in> set (candidates s)" by (force simp: candidates_def image_iff)
  qed
qed

section \<open>The timeout task\<close>

text \<open>A turn of the task at each time; \<open>n\<close> numbers the random samples.\<close>

fun turns :: "async_client \<Rightarrow> kind \<Rightarrow> (rat \<times> nat) list \<Rightarrow> world \<Rightarrow> world" where
  "turns c k [] w = w"
| "turns c k ((now, n) # ts) w = turns c k ts (snd (wake_up c k now n w))"

definition timer_off :: "kind \<Rightarrow> world \<Rightarrow> bool" where
  "timer_off k w \<longleftrightarrow> (case w_tr w k of None \<Rightarrow> False | Some t \<Rightarrow> \<not> t_timer t)"

lemma turns_off: "timer_off k w \<Longrightarrow> turns c k ts w = w"
  by (induction ts) (auto simp: timer_off_def wake_up_def split: option.splits)

text \<open>A request that is out of retries.\<close>

definition overdue :: "async_client \<Rightarrow> rat \<Rightarrow> rat \<Rightarrow> pending \<Rightarrow> bool" where
  "overdue c now smp q \<longleftrightarrow>
     wait_for smp (nat (q_retries q)) (ac_policy c) \<le> now - q_send_date q \<and> retries (ac_policy c) \<le> q_retries q"

lemma service_overdue:
  assumes "overdue c now smp (snd kq)"
  shows "service c k now smp kq w
    = bindS (settle (q_future (snd kq)) (Failed TimeoutError)) (\<lambda>_. retS (True, None)) w"
  using assms by (cases kq) (simp add: service_def overdue_def Let_def)

lemma service_kept:
  assumes "service c k now smp kq w = (r, w')"
  shows "w_tr w' k = None \<longleftrightarrow> w_tr w k = None"
    and "settled (w_futures w ! f) \<Longrightarrow> settled (w_futures w' ! f)"
proof -
  have set: "(settled (w_futures w ! f) \<longrightarrow> settled (w_futures w1 ! f)) \<and> w_tr w1 = w_tr w"
    if "settle g x w = (r1, w1)" for g x r1 w1
    using that by (cases "g = f") (auto simp: settle_def split: if_splits)
  have "(w_tr w' k = None \<longleftrightarrow> w_tr w k = None) \<and> (settled (w_futures w ! f) \<longrightarrow> settled (w_futures w' ! f))"
    using assms
    by (cases kq) (auto simp: service_def Let_def retS_def modifyS_def transmit_async_def update_pending_def
        elim!: bindS_cases dest: set split: if_splits sum.splits prod.splits)
  then show "w_tr w' k = None \<longleftrightarrow> w_tr w k = None"
    and "settled (w_futures w ! f) \<Longrightarrow> settled (w_futures w' ! f)" by simp_all
qed

lemma service_all_tr:
  "service_all c k now n kqs wake dels w = (r, w') \<Longrightarrow> w_tr w' k = None \<longleftrightarrow> w_tr w k = None"
  by (induction kqs arbitrary: n wake dels w)
    (auto simp: retS_def elim!: bindS_cases dest: service_kept(1) split: prod.splits)

lemma service_all_raises:
  assumes "i < length kqs" "overdue c now (ac_rand c (n + i)) (snd (kqs ! i))"
    and "settled (w_futures w ! q_future (snd (kqs ! i)))"
  shows "\<exists>e w'. service_all c k now n kqs wake dels w = (Inl e, w')"
  using assms
proof (induction kqs arbitrary: n i wake dels w)
  case (Cons kq kqs)
  obtain x w1 where s: "service c k now (ac_rand c n) kq w = (x, w1)" by fastforce
  show ?case
  proof (cases x)
    case (Inl e)
    then show ?thesis using s by (simp add: bindS_def)
  next
    case (Inr y)
    show ?thesis
    proof (cases i)
      case 0
      then show ?thesis
        using Cons.prems s Inr by (simp add: service_overdue settle_settled bindS_def)
    next
      case (Suc j)
      then show ?thesis
        using Cons.IH [of j "Suc n" w1] Cons.prems service_kept(2) [OF s] s Inr
        by (cases y) (simp add: bindS_ok)
    qed
  qed
qed simp

lemma raised_turn:
  assumes "w_tr w k = Some t" "service_all c k now n (t_pending t) (timeout (ac_policy c)) [] w = (Inl e, w')"
  shows "timer_off k (snd (wake_up c k now n w))"
  using assms service_all_tr [OF assms(2)] by (auto simp: wake_up_def timer_off_def split: option.splits)

section \<open>Properties\<close>

definition small_async :: async_client where
  "small_async = \<lparr>ac_policy = default_policy, ac_enforce_ma = True, ac_secret = [115, 51], ac_dict = None,
     ac_methods = builtin_methods, ac_des = None, ac_rng = (\<lambda>_ _. 0), ac_rand = (\<lambda>_. 0)\<rparr>"

definition idle_transport :: transport where
  "idle_transport = \<lparr>t_pending = [], t_packet_id = 255, t_sent = [], t_timer = True, t_open = True\<rparr>"

definition world_of :: "packet list \<Rightarrow> world" where
  "world_of ps = \<lparr>w_heap = ps, w_futures = [], w_tr = [KCoa \<mapsto> idle_transport], w_callbacks = [], w_cur = 0, w_packets = 0\<rparr>"

text \<open>
  Identifiers of the asyncio client. \<^verbatim>\<open>create_id\<close> returns an identifier of one octet that no
  pending request has, the next such one after the last that it gave out, and fails only when all
  256 are pending.
\<close>

theorem allocated_id_is_free:
  "case transport_create_id t of
     Inl e \<Rightarrow> e = IdentifierExhausted \<and> (\<forall>i \<in> {0..<256}. od_mem (t_pending t) (Some i))
   | Inr (i, t') \<Rightarrow> t' = t\<lparr>t_packet_id := i\<rparr> \<and> \<not> od_mem (t_pending t) (Some i)
       \<and> (\<exists>n. 1 \<le> n \<and> n \<le> 256 \<and> i = (t_packet_id t + n) mod 256
            \<and> (\<forall>m. 1 \<le> m \<and> m < n \<longrightarrow> od_mem (t_pending t) (Some ((t_packet_id t + m) mod 256))))"
proof (cases "find (\<lambda>c. \<not> od_mem (t_pending t) (Some c)) (candidates (t_packet_id t))")
  case None
  then have "od_mem (t_pending t) (Some i)" if "i \<in> {0..<256}" for i
    using that unfolding find_None_iff set_candidates by blast
  then show ?thesis using None by (simp add: transport_create_id_def)
next
  case (Some c)
  then show ?thesis using find_candidates [OF Some] by (simp add: transport_create_id_def) blast
qed

definition some_pending :: pending where
  "some_pending = \<lparr>q_packet = 0, q_retries = 0, q_future = 0, q_send_date = 0\<rparr>"

lemma allocated_id_is_free_witness:
  "\<exists>i t'. transport_create_id (idle_transport\<lparr>t_pending := [(Some 0, some_pending), (Some 1, some_pending)]\<rparr>) = Inr (i, t')
    \<and> i = 2"
proof -
  let ?t = "idle_transport\<lparr>t_pending := [(Some 0, some_pending), (Some 1, some_pending)]\<rparr>"
  have "transport_create_id ?t = Inr (2, ?t\<lparr>t_packet_id := 2\<rparr>)"
    by (simp add: transport_create_id_def candidates_def idle_transport_def upt_rec [of 1] upt_rec [of 2]
        upt_rec [of 3] od_mem_def od_get_def numeral_eq_Suc)
  then show ?thesis using allocated_id_is_free [of ?t] by simp
qed

text \<open>
  C9 Only a verified reply resolves a request. When a datagram, whatever it holds, gives a waiting
  future its result, then a pending request that has the identifier in the datagram's second
  octet owns that future, and the datagram's Response Authenticator is the digest over that request's
  authenticator and secret.
\<close>

theorem reply_resolves_its_request:
  assumes "w_futures w ! f = Waiting" "w_futures (reply_received c k data w) ! f = Result r"
    and "\<forall>p \<in> set (w_heap w). p_version p = V1_0"
    and "\<forall>q \<in> set (map snd (pending_of k w)). q_packet q < length (w_heap w)"
  shows "\<exists>q a. od_get (pending_of k w) (Some (uint (data ! 1))) = Some q \<and> q_future q = f
    \<and> p_id (w_heap w ! q_packet q) = Some (uint (data ! 1)) \<and> p_auth (w_heap w ! q_packet q) = Some a
    \<and> py_slice data 4 20 = md5 (take 4 data @ a @ drop 20 data @ p_secret (w_heap w ! q_packet q))"
proof -
  obtain q r0 where q: "od_get (pending_of k w) (Some (uint (data ! 1))) = Some q" "q_future q = f"
      "p_id r0 = Some (uint (data ! 1))"
      "verify_reply_keep (w_heap w ! q_packet q) r0 data (ac_enforce_ma c) = Inr (True, r)"
    by (rule received_resolves [OF assms(2,1)]) (rule that)
  have "q \<in> set (map snd (pending_of k w))" using q(1) by (force simp: od_get_def dest: map_of_SomeD)
  then have "w_heap w ! q_packet q \<in> set (w_heap w)" using assms(4) by (meson nth_mem)
  then have "p_version (w_heap w ! q_packet q) = V1_0" using assms(3) by blast
  from verified_octets [OF q(4) this q(3)] show ?thesis using q(1,2) by blast
qed

definition coa_sent :: world where
  "coa_sent = snd (send_packet_async small_async 0 0 (world_of [coa_request]))"

lemma reply_resolves_its_request_witness:
  "\<exists>q a r. w_futures (reply_received small_async KCoa coa_ack coa_sent) ! 0 = Result r
    \<and> od_get (pending_of KCoa coa_sent) (Some 7) = Some q \<and> p_auth (w_heap coa_sent ! q_packet q) = Some a"
proof -
  have "\<not> settled (w_futures coa_sent ! 0)" by code_simp
  then have w: "w_futures coa_sent ! 0 = Waiting" by (simp only: not_settled)
  have "(case w_futures (reply_received small_async KCoa coa_ack coa_sent) ! 0 of Result _ \<Rightarrow> True | _ \<Rightarrow> False)"
    by code_simp
  then obtain r where r: "w_futures (reply_received small_async KCoa coa_ack coa_sent) ! 0 = Result r"
    by (auto split: future.splits)
  have v: "\<forall>p \<in> set (w_heap coa_sent). p_version p = V1_0" by code_simp
  have p: "\<forall>q \<in> set (map snd (pending_of KCoa coa_sent)). q_packet q < length (w_heap coa_sent)" by code_simp
  have "uint (coa_ack ! 1) = 7" by code_simp
  then show ?thesis using reply_resolves_its_request [OF w r v p] r by metis
qed

text \<open>
  C36 What cancelling does. \<^verbatim>\<open>asyncio.wait_for\<close> cancels the future of a request that takes too
  long, and the entry stays pending. When such a request, or any whose future is settled, runs out of
  retries, \<^verbatim>\<open>set_exception\<close> raises inside the timeout task and the task ends: from then on no turn
  changes anything, so no other request is sent again or fails.
\<close>

theorem cancelled_request_stops_timer:
  assumes "w_tr w k = Some t" "i < length (t_pending t)"
    and "overdue c now (ac_rand c (n + i)) (snd (t_pending t ! i))"
    and "settled (w_futures w ! q_future (snd (t_pending t ! i)))"
  shows "\<exists>w'. timer_off k w' \<and> (\<forall>ts. turns c k ((now, n) # ts) w = w')"
proof -
  obtain e w1 where s: "service_all c k now n (t_pending t) (timeout (ac_policy c)) [] w = (Inl e, w1)"
    using service_all_raises [OF assms(2-4)] by blast
  show ?thesis using raised_turn [OF assms(1) s] turns_off by auto
qed

definition coa_cancelled :: world where
  "coa_cancelled = cancel 0 (turns small_async KCoa [(40, 0), (80, 0), (120, 0)] coa_sent)"

lemma cancelled_request_stops_timer_witness:
  "\<exists>w'. timer_off KCoa w' \<and> (\<forall>ts. turns small_async KCoa ((160, 0) # ts) coa_cancelled = w')"
proof -
  have "case w_tr coa_cancelled KCoa of None \<Rightarrow> False | Some t \<Rightarrow>
      0 < length (t_pending t) \<and> overdue small_async 160 (ac_rand small_async 0) (snd (t_pending t ! 0))
      \<and> settled (w_futures coa_cancelled ! q_future (snd (t_pending t ! 0)))"
    by code_simp
  then obtain t where t: "w_tr coa_cancelled KCoa = Some t" "0 < length (t_pending t)"
      "overdue small_async 160 (ac_rand small_async (0 + 0)) (snd (t_pending t ! 0))"
      "settled (w_futures coa_cancelled ! q_future (snd (t_pending t ! 0)))"
    by (auto split: option.splits)
  show ?thesis by (rule cancelled_request_stops_timer [OF t])
qed

end
