(* ===== verification/Deadlines.thy ===== *)
theory Deadlines
  imports Pending
begin

text \<open>
  When the asyncio client settles a request. The timeout task runs again when the sleep that it chose
  has passed, or a little later, and datagrams arrive in between; any number of requests can be
  pending. The task is followed turn by turn (\<open>service\<close>, \<open>service_all\<close>, \<open>wake_up\<close>), and what it does
  to one request is compared with the schedule of the retransmission policy.
\<close>

section \<open>A transport in order\<close>



text \<open>How many of the datagrams sent have an identifier.\<close>

definition sent_for :: "kind \<Rightarrow> int option \<Rightarrow> world \<Rightarrow> nat" where
  "sent_for k key w =
     (case w_tr w k of None \<Rightarrow> 0 | Some t \<Rightarrow> length (filter (\<lambda>raw. Some (uint (raw ! 1)) = key) (t_sent t)))"




section \<open>One request in one turn\<close>










section \<open>All requests in one turn\<close>



section \<open>A turn of the task\<close>

lemma od_get_removed: "od_get (fold od_del keys d) key = (if key \<in> set keys then None else od_get d key)"
  by (induction keys arbitrary: d) (auto simp: od_get_del)


lemma removed_simps [simp]:
  "w_futures (remove_pending k keys w) = w_futures w" "w_heap (remove_pending k keys w) = w_heap w"
  "sent_for k key (remove_pending k keys w) = sent_for k key w"
  "od_get (pending_of k (remove_pending k keys w)) key
    = (if key \<in> set keys then None else od_get (pending_of k w) key)"
  by (simp_all add: remove_pending_def sent_for_def pending_of_def od_get_removed split: option.split)






section \<open>A datagram\<close>


section \<open>The schedule\<close>











section \<open>Properties\<close>




end
