(* ===== verification/RadSec.thy ===== *)
theory RadSec
  imports Replies Effects
begin

text \<open>
  What both ends of a RadSec connection share (\<^verbatim>\<open>pyrad2/tools.py\<close>): reading packets from the TLS
  stream, and certificate fingerprints with the SHA-256 of \<^verbatim>\<open>hashlib\<close>.
\<close>

section \<open>Packets on a stream\<close>

text \<open>
  A stream is the octets that still arrive on it and the exception that a read meets after them:
  IncompleteReadError at the end of the stream, TimeoutError when nothing more comes in time,
  OSError when the connection breaks. A read that fails uses up the octets.
\<close>

type_synonym stream = "bytes \<times> exn"

definition readexactly :: "nat \<Rightarrow> (stream, bytes) sm" where
  "readexactly n st =
     (case st of (octets, e) \<Rightarrow>
        if n \<le> length octets then (Inr (take n octets), (drop n octets, e)) else (Inl e, ([], e)))"

definition read_radius_packet :: "(stream, bytes) sm" where
  "read_radius_packet =
     bindS (readexactly 4) (\<lambda>header.
     let size = be_val (drop 2 header)
     in if size < 20 then failS ValueError
        else bindS (readexactly (nat size - 4)) (\<lambda>body. retS (header @ body)))"

lemma readexactly_eq:
  "readexactly n (octets, e) =
     (if n \<le> length octets then (Inr (take n octets), (drop n octets, e)) else (Inl e, ([], e)))"
  by (simp add: readexactly_def)

lemma read_packetE:
  assumes "read_radius_packet (octets, e) = (Inr data, st)"
  obtains n where "n = nat (be_val (drop 2 (take 4 octets)))" "20 \<le> n" "n \<le> length octets"
    "data = take n octets" "st = (drop n octets, e)"
proof -
  define n where "n = nat (be_val (drop 2 (take 4 octets)))"
  have r: "4 \<le> length octets" "20 \<le> n" "n - 4 \<le> length octets - 4"
      "data = take 4 octets @ take (n - 4) (drop 4 octets)" "st = (drop (n - 4) (drop 4 octets), e)"
    using assms unfolding read_radius_packet_def
    by (auto simp: readexactly_eq Let_def retS_def failS_def n_def elim!: bindS_InrE split: if_splits)
  have d: "data = take n octets" using r take_add [of 4 "n - 4" octets] by simp
  have "n \<le> length octets" "st = (drop n octets, e)" using r(1-3,5) by simp_all
  then show thesis using that [OF n_def r(2)] d by blast
qed

lemma read_packet_shorter: "read_radius_packet st = (Inr data, st') \<Longrightarrow> length (fst st') < length (fst st)"
  by (cases st) (auto elim!: read_packetE)

section \<open>SHA-256\<close>

text \<open>
  The constants are the first 32 bits of the fractional parts of cube roots and square roots of
  primes; \<open>root_bits\<close> finds the integer part of a root, from its highest bit down.
\<close>

fun root_bits :: "nat \<Rightarrow> nat \<Rightarrow> int \<Rightarrow> int \<Rightarrow> int" where
  "root_bits k 0 x r = r"
| "root_bits k (Suc i) x r = root_bits k i x (if (r + 2 ^ i) ^ k \<le> x then r + 2 ^ i else r)"

definition is_prime_nat :: "nat \<Rightarrow> bool" where
  "is_prime_nat n \<longleftrightarrow> 2 \<le> n \<and> list_all (\<lambda>d. n mod d \<noteq> 0) [2..<n]"

text \<open>The first 64 primes are those below 312.\<close>

definition SHA256_PRIMES :: "int list" where
  "SHA256_PRIMES = map int (filter is_prime_nat [2..<312])"

definition SHA256_K :: "32 word list" where
  "SHA256_K = map (\<lambda>p. word_of_int (root_bits 3 36 (p * 2 ^ 96) 0)) SHA256_PRIMES"

definition SHA256_H :: "32 word list" where
  "SHA256_H = map (\<lambda>p. word_of_int (root_bits 2 37 (p * 2 ^ 64) 0)) (take 8 SHA256_PRIMES)"

fun sha256_expand :: "nat \<Rightarrow> 32 word list \<Rightarrow> 32 word list" where
  "sha256_expand 0 w = w"
| "sha256_expand (Suc n) w =
     (let t = length w; x = w ! (t - 15); y = w ! (t - 2);
          s0 = word_rotr 7 x XOR word_rotr 18 x XOR drop_bit 3 x;
          s1 = word_rotr 17 y XOR word_rotr 19 y XOR drop_bit 10 y
      in sha256_expand n (w @ [w ! (t - 16) + s0 + w ! (t - 7) + s1]))"

fun sha256_step :: "32 word \<times> 32 word \<Rightarrow> 32 word list \<Rightarrow> 32 word list" where
  "sha256_step (k, w) [a, b, c, d, e, f, g, h] =
     (let s1 = word_rotr 6 e XOR word_rotr 11 e XOR word_rotr 25 e;
          ch = (e AND f) XOR (NOT e AND g);
          t1 = h + s1 + ch + k + w;
          s0 = word_rotr 2 a XOR word_rotr 13 a XOR word_rotr 22 a;
          maj = (a AND b) XOR (a AND c) XOR (b AND c)
      in [t1 + s0 + maj, a, b, c, d + t1, e, f, g])"
| "sha256_step kw s = s"

definition sha256_block :: "bytes \<Rightarrow> 32 word list \<Rightarrow> 32 word list" where
  "sha256_block blk s = map2 (+) s (fold sha256_step (zip SHA256_K (sha256_expand 48 (words_be blk))) s)"

definition sha256 :: "bytes \<Rightarrow> bytes" where
  "sha256 m =
     concat (map (\<lambda>w. be_bytes 4 (uint w)) (fold sha256_block (chunks 64 (pad_be m)) SHA256_H))"

section \<open>Fingerprints\<close>

text \<open>
  \<^verbatim>\<open>get_cert_fingerprint\<close>. Converting DER to PEM and back gives the same octets.
\<close>

definition get_cert_fingerprint :: "bytes \<Rightarrow> ustr" where
  "get_cert_fingerprint cert = hex_of (sha256 cert)"

text \<open>\<^verbatim>\<open>lower()\<close> of the ASCII letters: no other letter's lower case is a hexadecimal digit.\<close>

definition lower :: "nat \<Rightarrow> nat" where
  "lower c = (if 65 \<le> c \<and> c \<le> 90 then c + 32 else c)"

definition removeprefix :: "ustr \<Rightarrow> ustr \<Rightarrow> ustr" where
  "removeprefix pre s = (if take (length pre) s = pre then drop (length pre) s else s)"

text \<open>\<^verbatim>\<open>bytes.fromhex\<close> skips ASCII white space between the pairs of digits.\<close>

fun is_hex :: "ustr \<Rightarrow> bool" where
  "is_hex [] = True"
| "is_hex (c # s) =
     (if c \<in> {9, 10, 11, 12, 13, 32} then is_hex s
      else case s of [] \<Rightarrow> False | d # s' \<Rightarrow> hex_val c \<noteq> None \<and> hex_val d \<noteq> None \<and> is_hex s')"

definition normalize_cert_fingerprint :: "ustr \<Rightarrow> ustr res" where
  "normalize_cert_fingerprint s =
     (let n = filter (\<lambda>c. c \<noteq> 32) (filter (\<lambda>c. c \<noteq> 58) (removeprefix (u ''sha256:'') (map lower s)))
      in if length n \<noteq> 64 then Inl ValueError else if is_hex n then Inr n else Inl ValueError)"

definition cert_fingerprint_matches :: "bytes \<Rightarrow> ustr list \<Rightarrow> bool" where
  "cert_fingerprint_matches cert allowed \<longleftrightarrow> get_cert_fingerprint cert \<in> set allowed"

text \<open>
  The check of both ends: without a list of fingerprints every peer passes, with one a peer needs
  a certificate that is on it.
\<close>

definition fingerprint_allowed :: "ustr list \<Rightarrow> bytes option \<Rightarrow> bool" where
  "fingerprint_allowed allowed cert \<longleftrightarrow>
     (allowed = [] \<or> (case cert of None \<Rightarrow> False | Some c \<Rightarrow> cert_fingerprint_matches c allowed))"

end
