(* ===== verification/RadSecClient.thy ===== *)
theory RadSecClient
  imports RadSec
begin

text \<open>
  \<^verbatim>\<open>pyrad2/radsec/client.py\<close>: the RadSec client. What opening a connection meets is the input: each
  entry of \<open>rs_offers\<close> is the exception of a failed attempt, or a \<open>peer\<close>: the protocol that ALPN
  selected, the peer's certificate, the stream it will send, how many writes succeed before one
  raises the stream's exception, and how many times the transport is found open. The TLS handshake
  itself and the waiting between attempts are not modelled; the SSL context is in theory \<open>TlsSetup\<close>.
\<close>

record peer =
  pe_alpn :: "string option"
  pe_cert :: "bytes option"
  pe_octets :: bytes
  pe_end :: exn
  pe_writes :: nat
  pe_looks :: nat

record radsec_client =
  rc_retries :: int
  rc_reuse :: bool
  rc_allowed :: "ustr list"
  rc_versions :: "RadiusVersion list"
  rc_secret :: bytes
  rc_dict :: "dictionary option"
  rc_methods :: registry
  rc_des :: des
  rc_seed :: "nat \<Rightarrow> int"

record rs_state =
  rs_pkt :: packet
  rs_offers :: "(exn + peer) list"
  rs_conn :: "peer option"
  rs_version :: RadiusVersion
  rs_counter :: "int option"
  rs_counters :: nat
  rs_last_error :: "exn option"
  rs_sent :: "bytes list"
  rs_cur :: int

type_synonym 'a rm = "(rs_state, 'a) sm"

section \<open>Connections\<close>

definition rs_close :: "rs_state \<Rightarrow> rs_state" where
  "rs_close s = s\<lparr>rs_conn := None, rs_version := V1_0, rs_counter := None\<rparr>"

definition open_connection :: "radsec_client \<Rightarrow> peer rm" where
  "open_connection c s =
     (case rs_offers s of
        [] \<Rightarrow> (Inl OSError, s)
      | Inl e # os \<Rightarrow> (Inl e, s\<lparr>rs_offers := os\<rparr>)
      | Inr k # os \<Rightarrow>
          (case negotiate (rc_versions c) (pe_alpn k) of
             Inl _ \<Rightarrow> (Inl PacketError, s\<lparr>rs_offers := os\<rparr>)
           | Inr v \<Rightarrow>
               let s1 = s\<lparr>rs_offers := os, rs_version := v,
                   rs_counter := (if v = V1_1 then Some (token_init (rc_seed c (rs_counters s))) else None),
                   rs_counters := Suc (rs_counters s)\<rparr>
               in if fingerprint_allowed (rc_allowed c) (pe_cert k) then (Inr k, s1) else (Inl PacketError, s1)))"

text \<open>
  The connection in use is \<open>rs_conn\<close>. With \<^verbatim>\<open>reuse_connection\<close> it is the one that the client keeps;
  without, it is local to one call and dropped at its end.
\<close>

definition use_new :: "radsec_client \<Rightarrow> unit rm" where
  "use_new c = bindS (open_connection c) (\<lambda>k. modifyS (\<lambda>s. s\<lparr>rs_conn := Some k\<rparr>))"

definition ensure_connection :: "radsec_client \<Rightarrow> unit rm" where
  "ensure_connection c s =
     (case rs_conn s of
        Some k \<Rightarrow>
          if 0 < pe_looks k then (Inr (), s\<lparr>rs_conn := Some (k\<lparr>pe_looks := pe_looks k - 1\<rparr>)\<rparr>)
          else use_new c (rs_close s)
      | None \<Rightarrow> use_new c (rs_close s))"

section \<open>One exchange\<close>

definition on_rs_pkt :: "(packet \<Rightarrow> packet res) \<Rightarrow> unit rm" where
  "on_rs_pkt f s = (case f (rs_pkt s) of Inl e \<Rightarrow> (Inl e, s) | Inr p \<Rightarrow> (Inr (), s\<lparr>rs_pkt := p\<rparr>))"

definition stamp_radius_version :: "unit rm" where
  "stamp_radius_version s =
     (let p = (rs_pkt s)\<lparr>p_version := rs_version s\<rparr>
      in if rs_version s = V1_1 then
           (case (p_token p, rs_counter s) of
              (None, Some n) \<Rightarrow>
                (case token_next n of
                   Inl e \<Rightarrow> (Inl e, s\<lparr>rs_pkt := p\<rparr>)
                 | Inr (t, n') \<Rightarrow> (Inr (), s\<lparr>rs_pkt := p\<lparr>p_token := Some t\<rparr>, rs_counter := Some n'\<rparr>))
            | _ \<Rightarrow> (Inr (), s\<lparr>rs_pkt := p\<rparr>))
         else (Inr (), s\<lparr>rs_pkt := p\<lparr>p_token := None\<rparr>\<rparr>))"

text \<open>\<^verbatim>\<open>writer.write(packet.request_packet())\<close> and \<^verbatim>\<open>drain\<close>.\<close>

definition write_octets :: "unit rm" where
  "write_octets s =
     (case rs_conn s of
        None \<Rightarrow> (Inl OSError, s)
      | Some k \<Rightarrow>
          (case request_packet (rs_pkt s) of
             Inl e \<Rightarrow> (Inl e, s)
           | Inr (raw, p) \<Rightarrow>
               if pe_writes k = 0 then (Inl (pe_end k), s\<lparr>rs_pkt := p\<rparr>)
               else
                 (Inr (), s\<lparr>rs_pkt := p, rs_sent := rs_sent s @ [raw],
                            rs_conn := Some (k\<lparr>pe_writes := pe_writes k - 1\<rparr>)\<rparr>)))"

definition write_packet :: "unit rm" where
  "write_packet =
     bindS stamp_radius_version (\<lambda>_.
     bindS (on_rs_pkt (prepare_request_message_authenticator False)) (\<lambda>_. write_octets))"

definition read_packet :: "bytes rm" where
  "read_packet s =
     (case rs_conn s of
        None \<Rightarrow> (Inl OSError, s)
      | Some k \<Rightarrow>
          (case read_radius_packet (pe_octets k, pe_end k) of
             (r, (octets, _)) \<Rightarrow> (r, s\<lparr>rs_conn := Some (k\<lparr>pe_octets := octets\<rparr>)\<rparr>)))"

text \<open>\<^verbatim>\<open>create_reply(packet=response)\<close> and \<^verbatim>\<open>verify_reply(reply, response)\<close>.\<close>

definition accept_response :: "packet \<Rightarrow> bytes \<Rightarrow> packet res" where
  "accept_response p response =
     bindE (create_reply_from response p) (\<lambda>q.
     bindE (verify_reply_keep p q response False) (\<lambda>(b, r).
     if b then Inr r else Inl PacketError))"

definition send_packet_once :: "radsec_client \<Rightarrow> packet rm" where
  "send_packet_once c =
     bindS (if rc_reuse c then ensure_connection c else use_new c) (\<lambda>_.
     finallyS
       (bindS write_packet (\<lambda>_.
        bindS read_packet (\<lambda>response s. (accept_response (rs_pkt s) response, s))))
       (\<lambda>s. if rc_reuse c then s else s\<lparr>rs_conn := None\<rparr>))"

section \<open>Attempts\<close>

definition retryable_errors :: "exn set" where
  "retryable_errors = {IncompleteReadError, TimeoutError, OSError}"

fun rs_attempts :: "radsec_client \<Rightarrow> nat \<Rightarrow> packet option rm" where
  "rs_attempts c 0 s = (Inr None, s)"
| "rs_attempts c (Suc n) s =
     (case send_packet_once c s of
        (Inr q, s') \<Rightarrow> (Inr (Some q), s')
      | (Inl e, s') \<Rightarrow>
          if e = PacketError then (Inr None, rs_close (s'\<lparr>rs_last_error := Some e\<rparr>))
          else if e \<in> retryable_errors then rs_attempts c n (rs_close (s'\<lparr>rs_last_error := Some e\<rparr>))
          else (Inl e, s'))"

text \<open>\<^verbatim>\<open>_send_packet\<close>.\<close>

definition rs_exchange :: "radsec_client \<Rightarrow> packet option rm" where
  "rs_exchange c s = rs_attempts c (nat (max 1 (rc_retries c))) (s\<lparr>rs_last_error := None\<rparr>)"

section \<open>Octets left\<close>

text \<open>The octets that can still arrive: each reply uses some up, and nothing adds any.\<close>

definition peer_left :: "exn + peer \<Rightarrow> nat" where
  "peer_left x = (case x of Inl _ \<Rightarrow> 0 | Inr k \<Rightarrow> length (pe_octets k))"

definition rs_left :: "rs_state \<Rightarrow> nat" where
  "rs_left s = (case rs_conn s of None \<Rightarrow> 0 | Some k \<Rightarrow> length (pe_octets k)) + sum_list (map peer_left (rs_offers s))"

lemma rs_left_close: "rs_left (rs_close s) \<le> rs_left s"
  by (simp add: rs_left_def rs_close_def)

lemma left_use_new: "preserves (\<lambda>s. rs_left s \<le> n) (use_new c)"
  by (auto simp: preserves_def use_new_def bindS_def open_connection_def modifyS_def rs_left_def peer_left_def Let_def
      split: list.split sum.split)

lemma left_ensure: "preserves (\<lambda>s. rs_left s \<le> n) (ensure_connection c)"
proof (rule preservesI)
  fix s assume s: "rs_left s \<le> n"
  have new: "rs_left (snd (use_new c (rs_close s))) \<le> n"
    using preservesD [OF left_use_new order_trans [OF rs_left_close s]] .
  show "rs_left (snd (ensure_connection c s)) \<le> n"
  proof (cases "rs_conn s")
    case None
    then show ?thesis using new by (simp add: ensure_connection_def)
  next
    case (Some k)
    then show ?thesis using new s by (auto simp: ensure_connection_def rs_left_def)
  qed
qed

lemma left_write: "preserves (\<lambda>s. rs_left s \<le> n) write_packet"
proof -
  have "preserves (\<lambda>s. rs_left s \<le> n) stamp_radius_version"
    by (simp add: preserves_def stamp_radius_version_def rs_left_def Let_def split: option.split sum.split prod.split)
  moreover have "preserves (\<lambda>s. rs_left s \<le> n) (on_rs_pkt f)" for f
    by (simp add: preserves_def on_rs_pkt_def rs_left_def split: sum.split)
  moreover have "preserves (\<lambda>s. rs_left s \<le> n) write_octets"
    by (simp add: preserves_def write_octets_def rs_left_def split: option.split sum.split prod.split)
  ultimately show ?thesis unfolding write_packet_def by (intro keeps_intros)
qed

lemma readexactly_left: "length (fst (snd (readexactly n st))) \<le> length (fst st)"
  by (cases st) (simp add: readexactly_eq)

lemma read_left: "length (fst (snd (read_radius_packet st))) \<le> length (fst st)"
proof -
  obtain r octets e where 1: "readexactly 4 st = (r, octets, e)" by (cases "readexactly 4 st") auto
  have "length (fst (snd (readexactly m (octets, e)))) \<le> length (fst st)" for m
    using readexactly_left [of m "(octets, e)"] readexactly_left [of 4 st] 1 by simp
  moreover have "length octets \<le> length (fst st)" using readexactly_left [of 4 st] 1 by simp
  ultimately show ?thesis
    using 1 by (simp add: read_radius_packet_def bindS_def retS_def failS_def Let_def split: sum.split prod.split)
      (metis fst_conv snd_conv)
qed

lemma left_read: "preserves (\<lambda>s. rs_left s \<le> n) read_packet"
proof (rule preservesI)
  fix s assume s: "rs_left s \<le> n"
  show "rs_left (snd (read_packet s)) \<le> n"
  proof (cases "rs_conn s")
    case None
    then show ?thesis using s by (simp add: read_packet_def)
  next
    case (Some k)
    then show ?thesis
      using s read_left [of "(pe_octets k, pe_end k)"]
      by (auto simp: read_packet_def rs_left_def split: prod.split)
  qed
qed

lemma read_uses:
  assumes "read_packet s = (Inr data, s')"
  shows "rs_left s' < rs_left s"
proof -
  obtain k octets e where k: "rs_conn s = Some k" "s' = s\<lparr>rs_conn := Some (k\<lparr>pe_octets := octets\<rparr>)\<rparr>"
      "read_radius_packet (pe_octets k, pe_end k) = (Inr data, (octets, e))"
    using assms by (auto simp: read_packet_def split: option.splits prod.splits)
  have "length octets < length (pe_octets k)"
    by (rule read_packetE [OF k(3)]) auto
  then show ?thesis using k(1,2) by (simp add: rs_left_def)
qed

lemma left_once: "preserves (\<lambda>s. rs_left s \<le> n) (send_packet_once c)"
proof -
  have "preserves (\<lambda>s. rs_left s \<le> n) (\<lambda>s. (accept_response (rs_pkt s) w, s))" for w
    by (simp add: preserves_def)
  then have "preserves (\<lambda>s. rs_left s \<le> n)
      (bindS write_packet (\<lambda>_. bindS read_packet (\<lambda>response s. (accept_response (rs_pkt s) response, s))))"
    by (intro keeps_intros left_write left_read)
  then have "preserves (\<lambda>s. rs_left s \<le> n)
      (finallyS (bindS write_packet (\<lambda>_. bindS read_packet (\<lambda>response s. (accept_response (rs_pkt s) response, s))))
         (\<lambda>s. if rc_reuse c then s else s\<lparr>rs_conn := None\<rparr>))"
    by (rule preserves_finally) (auto simp: rs_left_def)
  then show ?thesis
    unfolding send_packet_once_def by (intro preserves_bind) (simp_all add: left_use_new left_ensure)
qed

lemma once_onE:
  assumes "send_packet_once c s = (Inr q, s')"
  obtains s1 s2 s3 data where "(if rc_reuse c then ensure_connection c else use_new c) s = (Inr (), s1)"
    "write_packet s1 = (Inr (), s2)" "read_packet s2 = (Inr data, s3)"
    "accept_response (rs_pkt s3) data = Inr q" "s' = (if rc_reuse c then s3 else s3\<lparr>rs_conn := None\<rparr>)"
proof -
  obtain s1 where 1: "(if rc_reuse c then ensure_connection c else use_new c) s = (Inr (), s1)"
    and f: "finallyS (bindS write_packet (\<lambda>_. bindS read_packet (\<lambda>response s. (accept_response (rs_pkt s) response, s))))
       (\<lambda>s. if rc_reuse c then s else s\<lparr>rs_conn := None\<rparr>) s1 = (Inr q, s')"
    using assms unfolding send_packet_once_def by (elim bindS_InrE) simp
  obtain s3 where "bindS write_packet (\<lambda>_. bindS read_packet (\<lambda>response s. (accept_response (rs_pkt s) response, s))) s1
      = (Inr q, s3)" "s' = (if rc_reuse c then s3 else s3\<lparr>rs_conn := None\<rparr>)"
    using f by (auto simp: finallyS_def split: prod.splits)
  then show thesis using that 1 by (elim bindS_InrE) auto
qed

lemma once_uses:
  assumes "send_packet_once c s = (Inr q, s')"
  shows "rs_left s' < rs_left s"
proof -
  obtain s1 s2 s3 data where o: "(if rc_reuse c then ensure_connection c else use_new c) s = (Inr (), s1)"
      "write_packet s1 = (Inr (), s2)" "read_packet s2 = (Inr data, s3)"
      "s' = (if rc_reuse c then s3 else s3\<lparr>rs_conn := None\<rparr>)"
    by (rule once_onE [OF assms]) (rule that)
  have "rs_left s1 \<le> rs_left s"
    using preservesD [OF left_use_new [of "rs_left s" c], of s] preservesD [OF left_ensure [of "rs_left s" c], of s] o(1)
    by (auto split: if_splits)
  moreover have "rs_left s2 \<le> rs_left s1" using preservesD [OF left_write [of "rs_left s1"], of s1] o(2) by simp
  moreover have "rs_left s3 < rs_left s2" using read_uses [OF o(3)] .
  moreover have "rs_left s' \<le> rs_left s3" using o(4) by (simp add: rs_left_def)
  ultimately show ?thesis by linarith
qed

lemma attempts_use:
  assumes "rs_attempts c n s = (Inr (Some q), s')"
  shows "rs_left s' < rs_left s"
  using assms
proof (induction n arbitrary: s)
  case (Suc n)
  obtain r s1 where o: "send_packet_once c s = (r, s1)" by fastforce
  show ?case
  proof (cases r)
    case (Inr x)
    then show ?thesis using Suc.prems o once_uses [of c s x s1] by simp
  next
    case (Inl e)
    have "rs_left (rs_close (s1\<lparr>rs_last_error := Some e\<rparr>)) \<le> rs_left s1"
      using rs_left_close [of "s1\<lparr>rs_last_error := Some e\<rparr>"] by (simp add: rs_left_def)
    moreover have "rs_left s1 \<le> rs_left s" using preservesD [OF left_once [of "rs_left s" c], of s] o by simp
    ultimately show ?thesis
      using Suc.IH [of "rs_close (s1\<lparr>rs_last_error := Some e\<rparr>)"] Suc.prems o Inl by (auto split: if_splits)
  qed
qed simp

lemma exchange_uses: "rs_exchange c s = (Inr (Some q), s') \<Longrightarrow> rs_left s' < rs_left s"
  using attempts_use [of c _ "s\<lparr>rs_last_error := None\<rparr>"] by (fastforce simp: rs_exchange_def rs_left_def)

section \<open>EAP\<close>

text \<open>
  The challenge loop of \<^verbatim>\<open>_send_auth_packet\<close>. A packet is an \<^verbatim>\<open>OrderedDict\<close>, so a reply without stored
  attributes counts as false and ends the loop.
\<close>

function rs_rounds :: "radsec_client \<Rightarrow> eap_method \<Rightarrow> packet option \<Rightarrow> packet option rm" where
  "rs_rounds c m reply s =
     (case reply of
        None \<Rightarrow> (Inr None, s)
      | Some q \<Rightarrow>
          if p_attrs q = [] \<or> p_code q \<noteq> pt AccessChallenge then (Inr (Some q), s)
          else
            case method_respond (rc_des c) m (rs_pkt s) q of
              Inl e \<Rightarrow> (Inl e, s)
            | Inr (m', p) \<Rightarrow>
                (case rs_exchange c (s\<lparr>rs_pkt := p\<rparr>) of
                   (Inl e, s') \<Rightarrow> (Inl e, s')
                 | (Inr None, s') \<Rightarrow> (Inr None, s')
                 | (Inr (Some q'), s') \<Rightarrow> rs_rounds c m' (Some q') s'))"
  by pat_completeness auto

termination rs_rounds
  by (relation "measure (\<lambda>(c, m, reply, s). rs_left s)")
    (auto dest!: sym [THEN exchange_uses] simp: rs_left_def)

declare rs_rounds.simps [simp del]

definition rs_send_auth_packet :: "radsec_client \<Rightarrow> packet option rm" where
  "rs_send_auth_packet c s =
     (case get_method (rc_methods c) (Some (p_auth_type (rs_pkt s))) of
        None \<Rightarrow> rs_exchange c s
      | Some m \<Rightarrow>
          (case method_start (rs_cur s) m (rs_pkt s) of
             Inl e \<Rightarrow> (Inl e, s)
           | Inr (m', p) \<Rightarrow> bindS (rs_exchange c) (rs_rounds c m') (s\<lparr>rs_pkt := p\<rparr>)))"

definition rs_send_packet :: "radsec_client \<Rightarrow> packet option rm" where
  "rs_send_packet c s = (if p_class (rs_pkt s) = AuthC then rs_send_auth_packet c s else rs_exchange c s)"

end
