(* ===== verification/RadSecServer.thy ===== *)
theory RadSecServer
  imports RadSec
begin

text \<open>
  \<^verbatim>\<open>pyrad2/radsec/server.py\<close>: the RadSec server. \<open>handle_client\<close> is the life of one accepted TLS
  connection; the peer's address, its certificate, the protocol that ALPN selected and the stream
  that it sends are the input. The handlers of Access-Requests and Accounting-Requests are the
  application's; those of CoA- and Disconnect-Requests are optional and answer with a NAK when
  they are not overridden. Listening and the TLS handshake are not modelled (the SSL context is in theory \<open>TlsSetup\<close>), and
  writing to the connection does not fail.
\<close>

record 'u rsv =
  rv_packets :: nat
  rv_cur :: int
  rv_sent :: "bytes list"
  rv_user :: 'u

type_synonym ('u, 'a) rvm = "('u rsv, 'a) sm"
type_synonym 'u rs_handler = "packet \<Rightarrow> ('u, packet) rvm"

record 'u rs_handlers =
  rh_access :: "'u rs_handler"
  rh_accounting :: "'u rs_handler"
  rh_coa :: "'u rs_handler option"
  rh_disconnect :: "'u rs_handler option"

record radsec_server =
  rv_hosts :: "(string, bytes) od"
  rv_dict :: "dictionary option"
  rv_verify :: bool
  rv_require_ma :: bool
  rv_require_eap :: bool
  rv_enable_coa :: bool
  rv_enable_disconnect :: bool
  rv_allowed :: "ustr list"
  rv_versions :: "RadiusVersion list"
  rv_max :: "int option"
  rv_rng :: "nat \<Rightarrow> nat \<Rightarrow> int"

section \<open>One packet\<close>

definition rs_remote_secret :: "radsec_server \<Rightarrow> string \<Rightarrow> bytes res" where
  "rs_remote_secret srv host =
     (case od_get (rv_hosts srv) host of
        Some s \<Rightarrow> Inr s
      | None \<Rightarrow>
          (case od_get (rv_hosts srv) ''0.0.0.0'' of Some s \<Rightarrow> Inr s | None \<Rightarrow> Inl UnknownHost))"

definition rs_parse :: "radsec_server \<Rightarrow> bytes \<Rightarrow> bytes \<Rightarrow> RadiusVersion \<Rightarrow> ('u, packet) rvm" where
  "rs_parse srv data secret v s =
     (bindE (parse_packet data secret (rv_dict srv) v (rv_rng srv (rv_packets s)) 0 (rv_cur s)) (\<lambda>(p, _). Inr p),
      s\<lparr>rv_packets := Suc (rv_packets s), rv_cur := next_id (rv_cur s)\<rparr>)"

definition rs_verify_packet :: "packet \<Rightarrow> bool res" where
  "rs_verify_packet p =
     (case p_class p of
        AuthC \<Rightarrow> verify_auth_request p
      | StatusC \<Rightarrow> Inr (verify_status_request p)
      | _ \<Rightarrow> verify_packet p)"

text \<open>\<^verbatim>\<open>create_reply\<close> without attributes: nothing can loop.\<close>

definition bare_reply :: "int option \<Rightarrow> packet \<Rightarrow> packet res" where
  "bare_reply code p =
     (case create_reply code None [] 0 p of
        Some r \<Rightarrow> bindE r (\<lambda>(q, _). Inr q)
      | None \<Rightarrow> Inl RuntimeError)"

definition create_unsupported_coa_reply :: "packet \<Rightarrow> int \<Rightarrow> packet res" where
  "create_unsupported_coa_reply p code =
     bindE (bare_reply None p) (\<lambda>q.
     Inr (raw_setitem (KInt 101) (Vals [PBytes (be_bytes 4 ErrorCause_UnsupportedExtension)]) (q\<lparr>p_code := code\<rparr>)))"

definition coa_or_nak :: "bool \<Rightarrow> 'u rs_handler option \<Rightarrow> int \<Rightarrow> 'u rs_handler" where
  "coa_or_nak enabled handler nak p =
     (case handler of
        Some h \<Rightarrow> if enabled then h p else liftE (create_unsupported_coa_reply p nak)
      | None \<Rightarrow> liftE (create_unsupported_coa_reply p nak))"

definition rs_dispatch :: "radsec_server \<Rightarrow> 'u rs_handlers \<Rightarrow> 'u rs_handler" where
  "rs_dispatch srv hs p =
     (if p_code p = pt StatusServer then liftE (bare_reply (Some (pt AccessAccept)) p)
      else if p_code p = pt AccessRequest then rh_access hs p
      else if p_code p \<in> {pt AccountingRequest, pt AccountingResponse} then rh_accounting hs p
      else if p_code p = pt CoARequest then coa_or_nak (rv_enable_coa srv) (rh_coa hs) (pt CoANAK) p
      else if p_code p = pt DisconnectRequest then
        coa_or_nak (rv_enable_disconnect srv) (rh_disconnect hs) (pt DisconnectNAK) p
      else failS ServerPacketError)"

definition rs_packet_received ::
    "radsec_server \<Rightarrow> 'u rs_handlers \<Rightarrow> bytes \<Rightarrow> string \<Rightarrow> RadiusVersion \<Rightarrow> ('u, packet) rvm" where
  "rs_packet_received srv hs data host v =
     bindS (liftE (rs_remote_secret srv host)) (\<lambda>secret.
     bindS (rs_parse srv data secret v) (\<lambda>p.
     bindS (liftE (if rv_verify srv then bindE (rs_verify_packet p) (\<lambda>b. checkE b PacketError) else Inr ())) (\<lambda>_.
     bindS (liftE (validate_message_authenticator_policy (rv_require_ma srv) (rv_require_eap srv) p)) (\<lambda>p.
     bindS (rs_dispatch srv hs p) (\<lambda>reply.
     liftE (prepare_reply_message_authenticator p (rv_require_ma srv) (rv_require_eap srv) reply))))))"

section \<open>One connection\<close>

definition rs_answer :: "radsec_server \<Rightarrow> 'u rs_handlers \<Rightarrow> bytes \<Rightarrow> string \<Rightarrow> RadiusVersion \<Rightarrow> ('u, unit) rvm" where
  "rs_answer srv hs data host v =
     bindS (rs_packet_received srv hs data host v) (\<lambda>reply.
     bindS (liftE (reply_packet reply)) (\<lambda>(raw, _).
     modifyS (\<lambda>s. s\<lparr>rv_sent := rv_sent s @ [raw]\<rparr>)))"

text \<open>
  The loop of \<^verbatim>\<open>_handle_client\<close> after \<open>n\<close> packets. Every packet takes at least 20 octets of the stream.
\<close>

function rs_serve ::
    "radsec_server \<Rightarrow> 'u rs_handlers \<Rightarrow> string \<Rightarrow> RadiusVersion \<Rightarrow> nat \<Rightarrow> stream \<Rightarrow> ('u, unit) rvm" where
  "rs_serve srv hs host v n st s =
     (case read_radius_packet st of
        (Inl e, _) \<Rightarrow> (if e \<in> {IncompleteReadError, TimeoutError, ValueError} then Inr () else Inl e, s)
      | (Inr data, st') \<Rightarrow>
          (case rs_answer srv hs data host v s of
             (Inl e, s') \<Rightarrow> (if e = UnknownHost then Inr () else Inl e, s')
           | (Inr _, s') \<Rightarrow>
               if (case rv_max srv of None \<Rightarrow> False | Some m \<Rightarrow> m \<le> int (Suc n)) then (Inr (), s')
               else rs_serve srv hs host v (Suc n) st' s'))"
  by pat_completeness auto

termination rs_serve
  by (relation "measure (\<lambda>(srv, hs, host, v, n, st, s). length (fst st))")
    (auto dest: sym [THEN read_packet_shorter])

declare rs_serve.simps [simp del]

definition handle_client ::
    "radsec_server \<Rightarrow> 'u rs_handlers \<Rightarrow> string \<Rightarrow> bytes option \<Rightarrow> string option \<Rightarrow> stream \<Rightarrow> ('u, unit) rvm" where
  "handle_client srv hs host cert alpn st s =
     (if \<not> fingerprint_allowed (rv_allowed srv) cert then (Inr (), s)
      else
        case negotiate (rv_versions srv) alpn of
          Inl _ \<Rightarrow> (Inr (), s)
        | Inr v \<Rightarrow> rs_serve srv hs host v 0 st s)"

end
