(* ===== verification/Tunnel.thy ===== *)
theory Tunnel
  imports RadSecClient RadSecServer Requests
begin

text \<open>
  What both ends of a RadSec connection guarantee: packets are read off the stream as they were
  written, a RADIUS/1.1 server echoes the tokens of the requests in their order, the client gives a
  reason whenever it returns nothing; and what the RADIUS/1.1 client does not check.
\<close>

section \<open>Framing\<close>

definition framed :: "bytes \<Rightarrow> bool" where
  "framed raw \<longleftrightarrow> 20 \<le> length raw \<and> be_val (drop 2 (take 4 raw)) = int (length raw)"

fun read_packets :: "nat \<Rightarrow> (stream, bytes list) sm" where
  "read_packets 0 = retS []"
| "read_packets (Suc n) =
     bindS read_radius_packet (\<lambda>raw. bindS (read_packets n) (\<lambda>raws. retS (raw # raws)))"

lemma read_framed:
  assumes "framed raw"
  shows "read_radius_packet (raw @ rest, e) = (Inr raw, (rest, e))"
proof -
  have l: "20 \<le> length raw" "be_val (drop 2 (take 4 raw)) = int (length raw)"
    using assms by (simp_all add: framed_def)
  have "readexactly 4 (raw @ rest, e) = (Inr (take 4 raw), (drop 4 raw @ rest, e))"
    using l by (simp add: readexactly_eq)
  moreover have "readexactly (length raw - 4) (drop 4 raw @ rest, e) = (Inr (drop 4 raw), (rest, e))"
    using l by (simp add: readexactly_eq)
  ultimately show ?thesis
    using l by (simp add: read_radius_packet_def bindS_ok [where m = "readexactly 4"] bindS_def retS_def)
qed

lemma read_framed_list:
  "list_all framed raws \<Longrightarrow> read_packets (length raws) (concat raws @ rest, e) = (Inr raws, (rest, e))"
  by (induction raws) (simp_all add: retS_def bindS_def read_framed)

lemma header_length:
  assumes "pack_header p n = Inr h"
  shows "length h = 4" "be_val (drop 2 h) = int n"
proof -
  obtain c i where "h = c # i # be_bytes 2 (int n)" "int n < 65536"
    using assms by (auto simp: pack_header_def pack_uint_eq_Inr elim!: bindE_InrE split: option.splits)
  then show "length h = 4" "be_val (drop 2 h) = int n"
    by (simp_all add: be_val_be_bytes_id del: be_bytes.simps)
qed

lemma framed_v10:
  assumes "pack_header p (20 + length attr) = Inr h" "length a = 16"
  shows "framed (h @ a @ attr)"
  using header_length [OF assms(1)] assms(2) by (simp add: framed_def)

lemma framed_v11:
  assumes "serialize_v11 p = Inr (raw, p')"
  shows "framed raw" "p_token p = Some (py_slice raw 4 8)"
proof -
  obtain attr h where e: "pkt_encode_attributes p = Inr (attr, p')"
      "pack_v11_header (p_code p') (20 + length attr) (p_token p') False = Inr h" "raw = h @ attr"
    using assms by (auto simp: serialize_v11_def elim!: bindE_InrE)
  obtain c t where h: "h = c @ [0] @ be_bytes 2 (int (20 + length attr)) @ t @ zero_octets 12" "length c = 1"
      "length t = 4" "int (20 + length attr) < 65536" "p_token p' = Some t"
    using e(2) by (auto simp: pack_v11_header_def pack_uint_eq_Inr elim!: bindE_InrE split: option.splits if_splits)
  show "framed raw"
    using h(2-4) by (simp add: framed_def e(3) h(1) zero_octets_def be_val_be_bytes_id del: be_bytes.simps)
  have "p_token p = p_token p'"
    using encode_attributes_send [OF e(1), THEN arg_cong [where f = p_token]] by (simp add: send_frame_def)
  then show "p_token p = Some (py_slice raw 4 8)"
    using h(2,3,5) by (simp add: e(3) h(1) py_slice_def)
qed

lemma length_pack_s [simp]: "length (pack_s n bs) = n"
  by (simp add: pack_s_def)

lemma framed_random:
  assumes "encode_v10_random p = Inr (raw, p')"
  shows "framed raw"
  by (rule encode_v10_randomE [OF assms]) (simp add: framed_v10)

lemma framed_body_md5:
  assumes "encode_v10_body_md5 p = Inr (raw, p')"
  shows "framed raw"
  using assms by (auto simp: encode_v10_body_md5_def Let_def framed_v10 elim!: bindE_InrE)

lemma framed_request: "request_packet p = Inr (raw, p') \<Longrightarrow> framed raw"
  by (auto simp: request_packet_def Let_def elim!: bindE_InrE
      dest: framed_v11(1) framed_random framed_body_md5 split: if_splits pclass.splits)

lemma framed_reply: "reply_packet p = Inr (raw, p') \<Longrightarrow> framed raw"
  by (auto simp: reply_packet_def Let_def framed_v10 elim!: bindE_InrE
      dest: framed_v11(1) split: if_splits option.splits)


section \<open>Tokens\<close>

text \<open>
  A handler whose replies carry the request's token and version, as \<^verbatim>\<open>create_reply\<close> makes them, and
  that sends nothing itself.
\<close>

definition echoing :: "(packet \<Rightarrow> ('u, packet) rvm) \<Rightarrow> bool" where
  "echoing h \<longleftrightarrow>
     (\<forall>p s r s'. h p s = (r, s') \<longrightarrow> rv_sent s' = rv_sent s
        \<and> (\<forall>q. r = Inr q \<longrightarrow> p_token q = p_token p \<and> p_version q = p_version p))"

definition echoing_handlers :: "'u rs_handlers \<Rightarrow> bool" where
  "echoing_handlers hs \<longleftrightarrow>
     echoing (rh_access hs) \<and> echoing (rh_accounting hs)
     \<and> (\<forall>h. rh_coa hs = Some h \<longrightarrow> echoing h) \<and> (\<forall>h. rh_disconnect hs = Some h \<longrightarrow> echoing h)"

lemma bare_reply_echoes:
  assumes "bare_reply code p = Inr q"
  shows "p_token q = p_token p \<and> p_version q = p_version p"
  using assms
  by (auto simp: bare_reply_def create_reply_def new_packet_def init_contents_def Let_def elim!: bindE_InrE
      split: prod.splits option.splits)

lemma unsupported_echoes: "create_unsupported_coa_reply p code = Inr q \<Longrightarrow> p_token q = p_token p \<and> p_version q = p_version p"
  by (auto simp: create_unsupported_coa_reply_def raw_setitem_def elim!: bindE_InrE dest: bare_reply_echoes)

lemma echoing_lift:
  "(\<And>p q. f p = Inr q \<Longrightarrow> p_token q = p_token p \<and> p_version q = p_version p) \<Longrightarrow> echoing (\<lambda>p. liftE (f p))"
  by (auto simp: echoing_def liftE_def)

lemma echoing_if: "echoing f \<Longrightarrow> echoing g \<Longrightarrow> echoing (\<lambda>p. if P p then f p else g p)"
  by (simp add: echoing_def)

lemma echoing_coa:
  assumes "\<forall>h. handler = Some h \<longrightarrow> echoing h"
  shows "echoing (\<lambda>p. coa_or_nak enabled handler nak p)"
proof -
  have "echoing (\<lambda>p. liftE (create_unsupported_coa_reply p nak))"
    by (rule echoing_lift) (rule unsupported_echoes)
  then show ?thesis
    using assms by (cases handler; cases enabled) (simp_all add: coa_or_nak_def)
qed

lemma dispatch_echoes:
  assumes "echoing_handlers hs"
  shows "echoing (rs_dispatch srv hs)"
proof -
  have h: "echoing (\<lambda>p. rh_access hs p)" "echoing (\<lambda>p. rh_accounting hs p)"
    "\<And>b n. echoing (\<lambda>p. coa_or_nak b (rh_coa hs) n p)" "\<And>b n. echoing (\<lambda>p. coa_or_nak b (rh_disconnect hs) n p)"
    using assms echoing_coa unfolding echoing_handlers_def by blast+
  have l: "echoing (\<lambda>p. liftE (bare_reply (Some (pt AccessAccept)) p))" "echoing (\<lambda>p. failS ServerPacketError)"
    by (rule echoing_lift, erule bare_reply_echoes) (simp add: echoing_def failS_def)
  show ?thesis
    unfolding rs_dispatch_def [abs_def] by (intro echoing_if h l)
qed

lemma decode_token:
  assumes "decode_packet w q0 = Inr q" "p_version q0 = V1_1"
  shows "p_token q = Some (py_slice w 4 8) \<and> p_version q = V1_1"
proof -
  obtain q1 q2 q3 where s: "decode_header w q0 = Inr q1"
      "decode_loop (drop 20 w) (q1\<lparr>p_attrs := [], p_lbuf := [], p_vbuf := []\<rparr>) = Inr q2"
      "merge_concat_attributes q2 = Inr q3" "q = split_array_attributes q3"
    using assms(1) by (auto simp: decode_packet_def elim!: bindE_InrE)
  have q1: "p_token q1 = Some (py_slice w 4 8)" "p_version q1 = V1_1"
    using s(1) assms(2) by (auto simp: decode_header_def Let_def py_slice_def split: if_splits)
  have f: "packet_frame q = packet_frame (q1\<lparr>p_attrs := [], p_lbuf := [], p_vbuf := []\<rparr>)"
    using decode_loop_frame_kept [OF s(2)] merge_core [OF s(3)] split_core [of q3] s(4)
    by (simp add: packet_frame_def)
  show ?thesis
    using arg_cong [where f = p_token, OF f] arg_cong [where f = p_version, OF f] q1
    by (simp add: packet_frame_def packet_core_def)
qed

lemma parse_token:
  assumes "parse_packet data secret d V1_1 rng pos cur = Inr (p, cur')"
  shows "p_token p = Some (py_slice data 4 8) \<and> p_version p = V1_1"
  using assms
  by (auto simp: parse_packet_def new_packet_def Let_def elim!: bindE_InrE dest!: decode_token
      split: list.splits prod.splits)

lemma answer_echoes:
  assumes "rs_answer srv hs data host V1_1 s = (Inr (), s')" "echoing_handlers hs"
  shows "\<exists>raw. rv_sent s' = rv_sent s @ [raw] \<and> py_slice raw 4 8 = py_slice data 4 8"
proof -
  obtain reply s1 raw r' where r: "rs_packet_received srv hs data host V1_1 s = (Inr reply, s1)"
      "reply_packet reply = Inr (raw, r')" "s' = s1\<lparr>rv_sent := rv_sent s1 @ [raw]\<rparr>"
    using assms(1) by (auto simp: rs_answer_def liftE_def modifyS_def elim!: bindS_InrE)
  obtain secret p s0 p1 q s2 where p: "rs_parse srv data secret V1_1 s = (Inr p, s0)"
      "validate_message_authenticator_policy (rv_require_ma srv) (rv_require_eap srv) p = Inr p1"
      "rs_dispatch srv hs p1 s0 = (Inr q, s2)" "s1 = s2"
      "prepare_reply_message_authenticator p1 (rv_require_ma srv) (rv_require_eap srv) q = Inr reply"
    using r(1) unfolding rs_packet_received_def by (elim bindS_InrE) (auto simp: liftE_def)
  have 0: "rv_sent s0 = rv_sent s" using p(1) by (auto simp: rs_parse_def)
  have t: "p_token p = Some (py_slice data 4 8)" "p_version p = V1_1"
    using p(1) by (auto simp: rs_parse_def elim!: bindE_InrE dest: parse_token split: prod.splits)
  have 1: "p1 = p" using p(2) t(2) by (simp add: validate_message_authenticator_policy_def)
  have "rv_sent s2 = rv_sent s0 \<and> p_token q = p_token p \<and> p_version q = p_version p"
    using dispatch_echoes [OF assms(2), of srv] p(3) unfolding echoing_def 1 by blast
  then have q: "p_token q = p_token p" "p_version q = V1_1" "rv_sent s2 = rv_sent s0" using t(2) by simp_all
  have 2: "reply = q" using p(5) 1 t(2) by (simp add: prepare_reply_message_authenticator_def)
  have "serialize_v11 q = Inr (raw, r')" using r(2) 2 q(2) by (simp add: reply_packet_def)
  from framed_v11(2) [OF this] have "py_slice raw 4 8 = py_slice data 4 8" using q(1) t(1) by simp
  then show ?thesis using r(3) p(4) q(3) 0 by simp
qed

lemma sent_by_answer:
  assumes "rs_answer srv hs data host v s = (Inl e, s')" "echoing_handlers hs"
  shows "rv_sent s' = rv_sent s"
proof -
  have "rv_sent s1 = rv_sent s0" if "rs_dispatch srv hs p s0 = (r, s1)" for p s0 r s1
    using dispatch_echoes [OF assms(2), of srv] that unfolding echoing_def by blast
  moreover have "rv_sent s1 = rv_sent s0" if "rs_parse srv data secret v s0 = (r, s1)" for secret s0 r s1
    using that by (auto simp: rs_parse_def)
  ultimately show ?thesis
    using assms(1) unfolding rs_answer_def rs_packet_received_def
    by (elim bindS_cases) (auto simp: liftE_def modifyS_def)
qed

text \<open>
  The packets that a stream begins with, from the length fields alone: as many whole packets of at
  least 20 octets as it has, and the first \<open>rv_max\<close> of them for a server that stops there (it
  looks at the limit only after a packet, so it answers one at least).
\<close>

function packets_of :: "bytes \<Rightarrow> bytes list" where
  "packets_of w =
     (let n = nat (be_val (drop 2 (take 4 w)))
      in if length w < 4 \<or> n < 20 \<or> length w < n then [] else take n w # packets_of (drop n w))"
  by pat_completeness auto

termination packets_of
  by (relation "measure length") auto

declare packets_of.simps [simp del]

definition within_max :: "radsec_server \<Rightarrow> nat \<Rightarrow> bytes list \<Rightarrow> bytes list" where
  "within_max srv n pks =
     (case rv_max srv of None \<Rightarrow> pks | Some m \<Rightarrow> take (max 1 (nat (m - int n))) pks)"

lemma within_max_Nil [simp]: "within_max srv n [] = []"
  by (simp add: within_max_def split: option.split)

lemma within_max_Cons:
  "within_max srv n (x # pks) =
     x # (if (case rv_max srv of None \<Rightarrow> False | Some m \<Rightarrow> m \<le> int (Suc n)) then []
          else within_max srv (Suc n) pks)"
proof (cases "rv_max srv")
  case (Some m)
  show ?thesis
  proof (cases "m \<le> int (Suc n)")
    case True
    then have "max 1 (nat (m - int n)) = Suc 0" by simp
    then show ?thesis using Some True by (simp add: within_max_def)
  next
    case False
    then have "max 1 (nat (m - int n)) = Suc (max 1 (nat (m - int (Suc n))))" by simp
    then show ?thesis using Some False by (simp add: within_max_def)
  qed
qed (simp add: within_max_def)

lemma read_packets_of:
  assumes "read_radius_packet st = (x, st')"
  shows "packets_of (fst st) = (case x of Inl _ \<Rightarrow> [] | Inr data \<Rightarrow> data # packets_of (fst st'))"
proof -
  obtain w e where st: "st = (w, e)" by (cases st)
  let ?n = "nat (be_val (drop 2 (take 4 w)))"
  show ?thesis
  proof (cases x)
    case (Inr data)
    then obtain n where n: "n = ?n" "20 \<le> n" "n \<le> length w" "data = take n w" "st' = (drop n w, e)"
      using read_packetE [of w e data st'] assms st by blast
    then have "packets_of w = take ?n w # packets_of (drop ?n w)"
      by (subst packets_of.simps) (simp add: Let_def)
    then show ?thesis using n Inr st by simp
  next
    case (Inl e')
    have "\<not> (4 \<le> length w \<and> 20 \<le> ?n \<and> ?n \<le> length w)"
      using assms Inl st
      by (auto simp: read_radius_packet_def bindS_def readexactly_eq Let_def retS_def failS_def
          split: if_splits)
    then show ?thesis using Inl st by (subst packets_of.simps) (auto simp: Let_def)
  qed
qed

text \<open>
  One reply to each packet, in order and with its token, up to the first packet that the server
  fails to answer, which decides how the connection ends.
\<close>

definition answers ::
    "radsec_server \<Rightarrow> 'u rs_handlers \<Rightarrow> string \<Rightarrow> bytes list \<Rightarrow> 'u rsv \<Rightarrow> unit res \<times> 'u rsv \<Rightarrow> bool" where
  "answers srv hs host pks s out \<longleftrightarrow>
     (\<exists>new. rv_sent (snd out) = rv_sent s @ new \<and> length new \<le> length pks
        \<and> map (\<lambda>raw. py_slice raw 4 8) new = map (\<lambda>raw. py_slice raw 4 8) (take (length new) pks)
        \<and> (length new < length pks \<longrightarrow>
            (\<exists>s1 e. fst (rs_answer srv hs (pks ! length new) host V1_1 s1) = Inl e
               \<and> rv_sent s1 = rv_sent s @ new \<and> fst out = (if e = UnknownHost then Inr () else Inl e))))"

lemma answers_Nil: "rv_sent (snd out) = rv_sent s \<Longrightarrow> answers srv hs host [] s out"
  by (simp add: answers_def)

lemma answers_fails:
  assumes "rs_answer srv hs data host V1_1 s = (Inl e, s')" "rv_sent s' = rv_sent s"
  shows "answers srv hs host (data # pks) s (if e = UnknownHost then Inr () else Inl e, s')"
proof -
  have "\<exists>s1 e'. fst (rs_answer srv hs data host V1_1 s1) = Inl e' \<and> rv_sent s1 = rv_sent s
      \<and> (if e = UnknownHost then Inr () else Inl e) = (if e' = UnknownHost then Inr () else Inl e')"
    by (intro exI [of _ s] exI [of _ e]) (simp add: assms(1))
  then show ?thesis
    unfolding answers_def by (intro exI [of _ "[]"]) (simp add: assms(2))
qed

lemma answers_Cons:
  assumes "rv_sent s' = rv_sent s @ [raw]" "py_slice raw 4 8 = py_slice data 4 8"
    and "answers srv hs host pks s' out"
  shows "answers srv hs host (data # pks) s out"
proof -
  obtain new where n: "rv_sent (snd out) = rv_sent s' @ new" "length new \<le> length pks"
      "map (\<lambda>raw. py_slice raw 4 8) new = map (\<lambda>raw. py_slice raw 4 8) (take (length new) pks)"
      "length new < length pks \<longrightarrow>
        (\<exists>s1 e. fst (rs_answer srv hs (pks ! length new) host V1_1 s1) = Inl e
           \<and> rv_sent s1 = rv_sent s' @ new \<and> fst out = (if e = UnknownHost then Inr () else Inl e))"
    using assms(3) unfolding answers_def by blast
  then show ?thesis
    unfolding answers_def using assms(1,2) by (intro exI [of _ "raw # new"]) simp
qed

lemma serve_answers:
  assumes "echoing_handlers hs" "v = V1_1"
  shows "answers srv hs host (within_max srv n (packets_of (fst st))) s (rs_serve srv hs host v n st s)"
  using assms
proof (induction srv hs host v n st s rule: rs_serve.induct)
  case (1 srv hs host v n st s)
  obtain x st' where x: "read_radius_packet st = (x, st')" by (cases "read_radius_packet st") auto
  note pks = read_packets_of [OF x]
  show ?case
  proof (cases x)
    case (Inl e)
    have "rv_sent (snd (rs_serve srv hs host v n st s)) = rv_sent s"
      using x Inl by (subst rs_serve.simps) simp
    then show ?thesis using answers_Nil Inl pks by simp
  next
    case (Inr data)
    obtain r s' where a: "rs_answer srv hs data host v s = (r, s')" by (cases "rs_answer srv hs data host v s") auto
    show ?thesis
    proof (cases r)
      case (Inl e)
      have k: "rv_sent s' = rv_sent s" using a Inl sent_by_answer "1.prems" by blast
      have "rs_serve srv hs host v n st s = (if e = UnknownHost then Inr () else Inl e, s')"
        using x \<open>x = Inr data\<close> a Inl by (subst rs_serve.simps) simp
      then show ?thesis
        using answers_fails [OF a [unfolded Inl "1.prems"(2)] k] \<open>x = Inr data\<close> pks
        by (simp add: within_max_Cons)
    next
      case Ok: (Inr y)
      obtain raw where raw: "rv_sent s' = rv_sent s @ [raw]" "py_slice raw 4 8 = py_slice data 4 8"
        using answer_echoes [of srv hs data host s s'] a Ok "1.prems" by auto
      show ?thesis
      proof (cases "case rv_max srv of None \<Rightarrow> False | Some m \<Rightarrow> m \<le> int (Suc n)")
        case True
        then have "rs_serve srv hs host v n st s = (Inr (), s')"
          using x Inr a Ok by (subst rs_serve.simps) simp
        then show ?thesis
          using answers_Cons [OF raw answers_Nil] True Inr pks by (simp add: within_max_Cons)
      next
        case False
        have "answers srv hs host (within_max srv (Suc n) (packets_of (fst st'))) s'
            (rs_serve srv hs host v (Suc n) st' s')"
          using "1.IH" [OF x [symmetric] Inr a [symmetric] Ok False] "1.prems" by blast
        moreover have "rs_serve srv hs host v n st s = rs_serve srv hs host v (Suc n) st' s'"
          using x Inr a Ok False by (subst rs_serve.simps) simp
        ultimately show ?thesis
          using answers_Cons [OF raw] False Inr pks by (simp add: within_max_Cons)
      qed
    qed
  qed
qed

section \<open>The client\<close>

lemma attempts_cause:
  assumes "rs_attempts c (Suc n) s = (Inr None, s')"
  shows "(\<exists>e. rs_last_error s' = Some e \<and> (e = PacketError \<or> e \<in> retryable_errors)) \<and> rs_conn s' = None"
  using assms
proof (induction n arbitrary: s)
  case 0
  then show ?case by (auto simp: rs_close_def split: prod.splits sum.splits if_splits)
next
  case (Suc n)
  obtain r s1 where o: "send_packet_once c s = (r, s1)" by (cases "send_packet_once c s") auto
  show ?case
  proof (cases r)
    case (Inl e)
    then show ?thesis using Suc o by (auto simp: rs_close_def simp del: rs_attempts.simps(2) simp: rs_attempts.simps(2) [of c "Suc n"] split: if_splits)
  next
    case (Inr q)
    then show ?thesis using Suc.prems o by simp
  qed
qed

lemma exchange_cause:
  assumes "rs_exchange c s = (Inr None, s')"
  shows "(\<exists>e. rs_last_error s' = Some e \<and> (e = PacketError \<or> e \<in> retryable_errors)) \<and> rs_conn s' = None"
proof -
  obtain n where "nat (max 1 (rc_retries c)) = Suc n" by (cases "nat (max 1 (rc_retries c))") auto
  then show ?thesis using assms attempts_cause [of c n] by (simp add: rs_exchange_def del: rs_attempts.simps)
qed

lemma rounds_cause:
  assumes "rs_rounds c m (Some q) s = (Inr None, s')"
  shows "(\<exists>e. rs_last_error s' = Some e \<and> (e = PacketError \<or> e \<in> retryable_errors)) \<and> rs_conn s' = None"
  using assms
proof (induction c m "Some q" s arbitrary: q rule: rs_rounds.induct)
  case (1 c m s)
  have open_up: "\<not> (p_attrs q = [] \<or> p_code q \<noteq> pt AccessChallenge)"
    using "1.prems" by (auto simp: rs_rounds.simps [of c m "Some q"] split: if_splits)
  then obtain m' p where m: "method_respond (rc_des c) m (rs_pkt s) q = Inr (m', p)"
    using "1.prems" by (auto simp: rs_rounds.simps [of c m "Some q"] split: sum.splits)
  then obtain x s1 where x: "rs_exchange c (s\<lparr>rs_pkt := p\<rparr>) = (Inr x, s1)"
      "(case x of None \<Rightarrow> (Inr None, s1) | Some q' \<Rightarrow> rs_rounds c m' (Some q') s1) = (Inr None, s')"
    using "1.prems" open_up by (auto simp: rs_rounds.simps [of c m "Some q"] split: prod.splits sum.splits option.splits)
  show ?case
  proof (cases x)
    case None
    then show ?thesis using x exchange_cause by simp
  next
    case (Some q')
    then show ?thesis using "1.hyps" [OF _ open_up m HOL.refl] x by simp
  qed
qed

section \<open>An unchecked token\<close>

lemma header_only_decodes:
  assumes "length body = 16" "p_version r = V1_1"
  shows "\<exists>q. decode_packet ([c, i, 0, 20] @ body) r = Inr q \<and> p_code q = uint c \<and> p_version q = V1_1"
proof -
  let ?w = "[c, i, 0, 20] @ body"
  let ?q = "r\<lparr>p_code := uint c, p_token := Some (take 4 body), p_auth := None, p_id := Some 0\<rparr>"
  have "decode_header ?w r = Inr ?q"
    using assms by (simp add: decode_header_def Let_def py_slice_def be_val_def)
  then show ?thesis
    using assms
    by (cases "p_dict r") (simp_all add: decode_packet_def merge_concat_attributes_def split_array_attributes_def)
qed

lemma any_token:
  assumes "p_version p = V1_1" "p_token p = Some t" "length body = 16"
  shows "\<exists>q. accept_response p ([c, i, 0, 20] @ body) = Inr q \<and> p_code q = uint c \<and> p_token q = Some t"
proof -
  obtain cls c0 where cls: "reply_shell (p_class p) = (cls, c0)" by (cases "reply_shell (p_class p)")
  obtain r cur where r: "new_packet cls c0 (p_id p) (p_secret p) (p_auth p) (p_version p) (p_dict p) (p_rng p) (p_pos p) 0
      = (r, cur)" by (cases "new_packet cls c0 (p_id p) (p_secret p) (p_auth p) (p_version p) (p_dict p) (p_rng p) (p_pos p) 0")
  then have "p_version (r\<lparr>p_raw := Some ([c, i, 0, 20] @ body)\<rparr>) = V1_1"
    using assms(1) by (auto simp: new_packet_def Let_def)
  from header_only_decodes [OF assms(3) this]
  obtain q where q: "decode_packet ([c, i, 0, 20] @ body) (r\<lparr>p_raw := Some ([c, i, 0, 20] @ body)\<rparr>) = Inr q"
      "p_code q = uint c" by blast
  then show ?thesis
    using assms(1,2) cls r
    by (simp add: accept_response_def create_reply_from_def verify_reply_keep_def)
qed

section \<open>Properties\<close>

text \<open>
  C28 Packets on the stream. RADIUS packets that the serialisers made, requests and replies of
  either protocol version, written one after the other, are read off the stream one by one as they
  were, whatever follows them.
\<close>

theorem radsec_framing:
  assumes "\<forall>raw \<in> set raws. (\<exists>p p'. request_packet p = Inr (raw, p')) \<or> (\<exists>p p'. reply_packet p = Inr (raw, p'))"
  shows "read_packets (length raws) (concat raws @ rest, e) = (Inr raws, (rest, e))"
proof -
  have "list_all framed raws"
    using assms framed_request framed_reply unfolding list_all_iff by blast
  then show ?thesis by (rule read_framed_list)
qed

lemma radsec_framing_witness:
  "\<exists>raw. read_packets 2 (raw @ raw @ [5], IncompleteReadError) = (Inr [raw, raw], ([5], IncompleteReadError))"
proof -
  have "okE (request_packet coa_request) (\<lambda>_. True)" by code_simp
  then obtain raw p where "request_packet coa_request = Inr (raw, p)" using okE_Inr by (metis prod.exhaust)
  then have "\<forall>x \<in> set [raw, raw]. (\<exists>p p'. request_packet p = Inr (x, p')) \<or> (\<exists>p p'. reply_packet p = Inr (x, p'))"
    by auto
  from radsec_framing [OF this, of "[5]"] show ?thesis by (auto simp: numeral_2_eq_2)
qed

text \<open>
  C23 The RADIUS/1.1 client does not check the token. \<^verbatim>\<open>create_reply(packet=response)\<close> overwrites the
  token that was decoded with that of the request, so \<^verbatim>\<open>verify_reply\<close> compares the request's token
  with itself: a response of 20 octets is accepted whatever its code and its token are.
\<close>

theorem v11_any_token_accepted:
  assumes "p_version p = V1_1" "p_token p = Some t" "length body = 16"
  shows "\<exists>q. accept_response p ([c, i, 0, 20] @ body) = Inr q \<and> p_code q = uint c \<and> p_token q = Some t"
  by (rule any_token [OF assms])

definition v11_request :: packet where
  "v11_request = (blank_packet None)\<lparr>p_class := AuthC, p_code := 1, p_version := V1_1, p_token := Some [0, 0, 0, 1]\<rparr>"

lemma v11_any_token_accepted_witness:
  "\<exists>q. accept_response v11_request ([2, 0, 0, 20] @ [9, 9, 9, 9] @ zero_octets 12) = Inr q
    \<and> p_code q = pt AccessAccept \<and> p_token q = Some [0, 0, 0, 1]"
  using v11_any_token_accepted [of v11_request "[0, 0, 0, 1]" "[9, 9, 9, 9] @ zero_octets 12" 2 0]
  by (simp add: v11_request_def zero_octets_def)

text \<open>
  No reply without a reason. Whenever \<^verbatim>\<open>send_packet\<close> of the RadSec client returns nothing, with
  EAP rounds or without, the cause is in \<^verbatim>\<open>last_error\<close>, also when no reply was received, and the
  connection is closed.
\<close>

theorem radsec_none_has_cause:
  assumes "rs_send_packet c s = (Inr None, s')"
  shows "(\<exists>e. rs_last_error s' = Some e \<and> (e = PacketError \<or> e \<in> retryable_errors)) \<and> rs_conn s' = None"
proof -
  have r: "(\<exists>e. rs_last_error s' = Some e \<and> (e = PacketError \<or> e \<in> retryable_errors)) \<and> rs_conn s' = None"
    if b: "bindS (rs_exchange c) (rs_rounds c m) s0 = (Inr None, s')" for m s0
  proof -
    obtain x s1 where "rs_exchange c s0 = (Inr x, s1)" "rs_rounds c m x s1 = (Inr None, s')"
      by (rule bindS_InrE [OF b]) (rule that)
    then show ?thesis
      using exchange_cause rounds_cause by (cases x) (auto simp: rs_rounds.simps [of c m None])
  qed
  show ?thesis
    using assms exchange_cause r
    by (auto simp: rs_send_packet_def rs_send_auth_packet_def split: if_splits option.splits sum.splits)
qed

definition small_radsec :: radsec_client where
  "small_radsec = \<lparr>rc_retries = 2, rc_reuse = True, rc_allowed = [], rc_versions = [V1_0], rc_secret = [115, 51],
     rc_dict = None, rc_methods = builtin_methods, rc_des = None, rc_seed = (\<lambda>_. 0)\<rparr>"

definition radsec_start :: "packet \<Rightarrow> (exn + peer) list \<Rightarrow> rs_state" where
  "radsec_start p offers = \<lparr>rs_pkt = p, rs_offers = offers, rs_conn = None, rs_version = V1_0, rs_counter = None,
     rs_counters = 0, rs_last_error = None, rs_sent = [], rs_cur = 0\<rparr>"

definition silent_peer :: peer where
  "silent_peer = \<lparr>pe_alpn = None, pe_cert = None, pe_octets = [44, 7], pe_end = IncompleteReadError,
     pe_writes = 1, pe_looks = 0\<rparr>"

lemma radsec_none_has_cause_witness:
  "\<exists>s'. rs_send_packet small_radsec (radsec_start coa_request [Inl OSError, Inr silent_peer]) = (Inr None, s')
    \<and> rs_conn s' = None \<and> length (rs_sent s') = 1"
proof -
  let ?r = "rs_send_packet small_radsec (radsec_start coa_request [Inl OSError, Inr silent_peer])"
  have "okE (fst ?r) (\<lambda>x. case x of None \<Rightarrow> True | Some _ \<Rightarrow> False)" by code_simp
  then have "\<exists>s'. ?r = (Inr None, s')" by (cases ?r) (auto dest!: okE_Inr split: option.splits)
  moreover have "length (rs_sent (snd ?r)) = 1" by code_simp
  ultimately obtain s' where r: "?r = (Inr None, s')" "length (rs_sent s') = 1"
    by auto
  then show ?thesis using radsec_none_has_cause [OF r(1)] by blast
qed

text \<open>
  C24 The replies of a RADIUS/1.1 connection. The packets of the connection are those that the
  stream is made of, by their length fields, up to the server's limit. When the application's
  handlers answer with packets that \<^verbatim>\<open>create_reply\<close> made, the server sends one reply to each of
  them, in their order, each with the token of its request; it leaves a packet and those after it
  unanswered only when processing that packet raises, after the replies to all before it were
  sent, and then that exception ends the connection (an unknown host quietly).
\<close>

theorem v11_replies_echo_tokens:
  assumes "echoing_handlers hs" "negotiate (rv_versions srv) alpn = Inr V1_1"
    and "fingerprint_allowed (rv_allowed srv) cert"
    and "handle_client srv hs host cert alpn (octets, ending) s = (r, s')"
    and "pks = (case rv_max srv of None \<Rightarrow> packets_of octets | Some m \<Rightarrow> take (max 1 (nat m)) (packets_of octets))"
  shows "\<exists>new. rv_sent s' = rv_sent s @ new \<and> length new \<le> length pks
    \<and> map (\<lambda>raw. py_slice raw 4 8) new = map (\<lambda>raw. py_slice raw 4 8) (take (length new) pks)
    \<and> (length new < length pks \<longrightarrow>
        (\<exists>s1 e. fst (rs_answer srv hs (pks ! length new) host V1_1 s1) = Inl e
           \<and> rv_sent s1 = rv_sent s @ new \<and> r = (if e = UnknownHost then Inr () else Inl e)))"
proof -
  have "pks = within_max srv 0 (packets_of (fst (octets, ending)))"
    unfolding assms(5) within_max_def by (cases "rv_max srv") simp_all
  then have "answers srv hs host pks s (rs_serve srv hs host V1_1 0 (octets, ending) s)"
    using serve_answers [OF assms(1) HOL.refl] by (simp only:)
  moreover have "rs_serve srv hs host V1_1 0 (octets, ending) s = (r, s')"
    using assms(2-4) by (simp add: handle_client_def)
  ultimately show ?thesis by (simp add: answers_def)
qed

definition small_server :: radsec_server where
  "small_server = \<lparr>rv_hosts = [(''0.0.0.0'', [115, 51])], rv_dict = None, rv_verify = True, rv_require_ma = True,
     rv_require_eap = True, rv_enable_coa = True, rv_enable_disconnect = True, rv_allowed = [],
     rv_versions = [V1_0, V1_1], rv_max = None, rv_rng = (\<lambda>_ _. 0)\<rparr>"

definition plain_handlers :: "unit rs_handlers" where
  "plain_handlers = \<lparr>rh_access = (\<lambda>p. liftE (bare_reply None p)), rh_accounting = (\<lambda>p. liftE (bare_reply None p)),
     rh_coa = None, rh_disconnect = None\<rparr>"

definition two_requests :: bytes where
  "two_requests = [1, 0, 0, 20, 0, 0, 0, 7] @ zero_octets 12 @ [12, 0, 0, 20, 0, 0, 0, 8] @ zero_octets 12"

lemma v11_replies_echo_tokens_witness:
  "\<exists>r s' new. handle_client small_server plain_handlers ''10.0.0.1'' None (Some ''radius/1.1'')
        (two_requests, IncompleteReadError) \<lparr>rv_packets = 0, rv_cur = 0, rv_sent = [], rv_user = ()\<rparr> = (r, s')
    \<and> length (packets_of two_requests) = 2 \<and> length (rv_sent s') = 2
    \<and> map (\<lambda>raw. py_slice raw 4 8) (rv_sent s') = map (\<lambda>raw. py_slice raw 4 8) (packets_of two_requests)"
proof -
  let ?s = "\<lparr>rv_packets = 0, rv_cur = 0, rv_sent = [], rv_user = ()\<rparr>"
  have e: "echoing_handlers plain_handlers"
    using echoing_lift [OF bare_reply_echoes] by (simp add: echoing_handlers_def plain_handlers_def)
  have n: "negotiate (rv_versions small_server) (Some ''radius/1.1'') = Inr V1_1" by code_simp
  have f: "fingerprint_allowed (rv_allowed small_server) None" by code_simp
  obtain r s' where h: "handle_client small_server plain_handlers ''10.0.0.1'' None (Some ''radius/1.1'')
      (two_requests, IncompleteReadError) ?s = (r, s')" by fastforce
  have l: "length (packets_of two_requests) = 2" by code_simp
  have "length (rv_sent (snd (handle_client small_server plain_handlers ''10.0.0.1'' None (Some ''radius/1.1'')
      (two_requests, IncompleteReadError) ?s))) = 2"
    by code_simp
  then have "length (rv_sent s') = 2" by (simp add: h)
  then show ?thesis
    using v11_replies_echo_tokens [OF e n f h, of "packets_of two_requests"] h l
    by (auto simp: small_server_def)
qed

end
