(* ===== verification/Scenario.thy ===== *)
theory Scenario
  imports Serving RadSecServer Eap
begin

text \<open>
  \<^verbatim>\<open>scenarios/_shared.py\<close> and the handlers of the servers in \<^verbatim>\<open>scenarios/\<close> that answer at once:
  Access-Request, CHAP, Accounting, CoA, Status-Server, duplicates, RadSec. A handler is a value of
  \<open>ahandler\<close> (\<open>ServerAsync\<close>) or \<open>rs_handler\<close> (\<open>RadSecServer\<close>), so the theorems about the servers
  apply to it. Log lines are kept where their arguments can raise; the scripts' \<^verbatim>\<open>main\<close>, which
  starts a server and a client in one process, is not modelled.
\<close>

section \<open>Octets from attribute values\<close>

text \<open>\<^verbatim>\<open>bytes.fromhex\<close>: ASCII whitespace is skipped between the pairs of digits.\<close>

definition ascii_space :: "nat \<Rightarrow> bool" where
  "ascii_space c \<longleftrightarrow> c = 32 \<or> 9 \<le> c \<and> c \<le> 13"

fun fromhex :: "ustr \<Rightarrow> bytes res" where
  "fromhex [] = Inr []"
| "fromhex [c] = (if ascii_space c then Inr [] else Inl ValueError)"
| "fromhex (c # d # s) =
     (if ascii_space c then fromhex (d # s)
      else
        case (hex_val c, hex_val d) of
          (Some x, Some y) \<Rightarrow> bindE (fromhex s) (\<lambda>bs. Inr (byte_of (16 * x + y) # bs))
        | _ \<Rightarrow> Inl ValueError)"

definition attribute_bytes :: "pyval \<Rightarrow> bytes res" where
  "attribute_bytes v =
     (case v of
        PBytes bs \<Rightarrow> Inr bs
      | PStr s \<Rightarrow> (case fromhex s of Inr bs \<Rightarrow> Inr bs | Inl _ \<Rightarrow> utf8_encode s)
      | _ \<Rightarrow> Inl TypeError)"

text \<open>\<^verbatim>\<open>attribute_bytes(pkt[name][0])\<close>.\<close>

definition octets_of :: "ustr \<Rightarrow> packet \<Rightarrow> bytes res" where
  "octets_of n p = bindE (bindE (getitem n p) first_item) attribute_bytes"

definition USER_NAME :: ustr where
  "USER_NAME = u ''User-Name''"

text \<open>Octets that \<^verbatim>\<open>decode_string\<close> shows as a text that reads as hexadecimal digits.\<close>

definition hex_text :: "bytes \<Rightarrow> bool" where
  "hex_text bs \<longleftrightarrow>
     (case utf8_decode bs of
        Inl _ \<Rightarrow> False
      | Inr s \<Rightarrow> (case fromhex s of Inl _ \<Rightarrow> False | Inr _ \<Rightarrow> True))"

lemma hex_char_space: "d < 16 \<Longrightarrow> \<not> ascii_space (hex_char d)"
  by (auto simp: ascii_space_def hex_char_def)

lemma fromhex_hex_of: "fromhex (hex_of bs) = Inr bs"
proof (induction bs)
  case (Cons b bs)
  have "unat b div 16 < 16" "unat b mod 16 < 16" using unat_byte_less [of b] by simp_all
  with Cons show ?case
    by (simp add: hex_of_def hex_byte_def hex_val_hex_char hex_char_space)
qed (simp add: hex_of_def)

lemma fromhex_length: "fromhex s = Inr bs \<Longrightarrow> 2 * length bs \<le> length s"
proof (induction s arbitrary: bs rule: fromhex.induct)
  case (3 c d s)
  show ?case
  proof (cases "ascii_space c")
    case True
    then show ?thesis using 3 by auto
  next
    case False
    then show ?thesis using 3 by (fastforce simp: bindE_eq_Inr split: option.splits)
  qed
qed (auto split: if_splits)

lemma utf8_decode_length: "utf8_decode bs = Inr s \<Longrightarrow> length s \<le> length bs"
proof (induction bs arbitrary: s rule: utf8_decode.induct)
  case (2 b r)
  obtain c n t where st: "utf8_step (b # r) = Inr (c, n)" "utf8_decode (drop (n - 1) r) = Inr t" "s = c # t"
    using "2.prems" by (auto simp: bindE_eq_Inr simp del: utf8_step.simps split: sum.splits)
  have "length t \<le> length (drop (n - 1) r)" by (rule "2.IH" [OF st(1) refl st(2)])
  then show ?case by (simp add: st(3))
qed simp

lemma attribute_bytes_plain: "\<not> hex_text bs \<Longrightarrow> attribute_bytes (decode_string bs) = Inr bs"
  by (auto simp: attribute_bytes_def decode_string_def hex_text_def fromhex_hex_of dest: utf8_encode_decode
      split: sum.splits)

text \<open>An EAP packet begins with its code, which is no digit and no blank.\<close>

lemma eap_no_hex_text:
  assumes "0 < unat b" "unat b < 9"
  shows "\<not> hex_text (b # bs)"
proof -
  have "fromhex (unat b # t) = Inl ValueError" for t
    using assms by (cases t) (auto simp: ascii_space_def hex_val_def)
  then show ?thesis
    using assms by (auto simp: hex_text_def bindE_eq_Inr split: sum.splits)
qed

text \<open>
  \<^verbatim>\<open>attribute_bytes\<close> takes back what \<^verbatim>\<open>decode_string\<close> did to octets, binary or text, with one
  exception: octets that are a text which itself reads as pairs of hexadecimal digits (blanks
  between the pairs allowed) come back as the octets those digits name. No other octets are lost.
\<close>

theorem attribute_bytes_inverts:
  "attribute_bytes (decode_string bs) = Inr bs \<longleftrightarrow> bs = [] \<or> \<not> hex_text bs"
proof (cases "hex_text bs")
  case True
  then obtain s r where s: "utf8_decode bs = Inr s" "fromhex s = Inr r"
    by (auto simp: hex_text_def split: sum.splits)
  have "2 * length r \<le> length bs"
    using fromhex_length [OF s(2)] utf8_decode_length [OF s(1)] by simp
  then have "r = bs \<longleftrightarrow> bs = []" by auto
  then show ?thesis using True s by (simp add: attribute_bytes_def decode_string_def)
next
  case False
  then show ?thesis by (simp add: attribute_bytes_plain)
qed

theorem attribute_bytes_inverts_witness:
  "attribute_bytes (decode_string [255, 52]) = Inr [255, 52] \<and> attribute_bytes (decode_string [52, 49]) \<noteq> Inr [52, 49]"
proof -
  have "\<not> hex_text [255, 52]" "hex_text [52, 49]" by code_simp+
  then show ?thesis
    using attribute_bytes_inverts [of "[255, 52]"] attribute_bytes_inverts [of "[52, 49]"] by simp
qed

section \<open>Answers\<close>

text \<open>\<^verbatim>\<open>create_reply_packet(pkt)\<close>, the code, \<^verbatim>\<open>send_response\<close>.\<close>

definition answer :: "env \<Rightarrow> router \<Rightarrow> int \<Rightarrow> 'u ahandler" where
  "answer env rt code addr p =
     bindS (liftE (as_plain_reply rt None p)) (\<lambda>reply.
     send_response env rt (reply\<lparr>p_code := code\<rparr>) addr)"

definition framed_attributes :: "(ustr \<times> pyval list) list" where
  "framed_attributes =
     [(u ''Service-Type'', [PStr (u ''Framed-User'')]), (u ''Framed-IP-Address'', [PStr (u ''10.0.0.42'')])]"

text \<open>
  The reply with the two attributes. The constructor walks over the parents of a sub-attribute;
  where that walk does not end there is no reply, and \<open>RuntimeError\<close> stands for it
  (\<open>framed_reply_total\<close>: not with plain attributes).
\<close>

definition framed_reply :: "router \<Rightarrow> packet \<Rightarrow> packet res" where
  "framed_reply rt p =
     (case as_create_reply_packet rt None None framed_attributes (Some p) of
        Some r \<Rightarrow> r
      | None \<Rightarrow> Inl RuntimeError)"

lemma dash_framed: "dash_name (u ''Service-Type'') = u ''Service-Type''"
    "dash_name (u ''Framed-IP-Address'') = u ''Framed-IP-Address''"
    "split_tag (u ''Service-Type'') = (u ''Service-Type'', [])"
    "split_tag (u ''Framed-IP-Address'') = (u ''Framed-IP-Address'', [])"
  by code_simp+

lemma add_attribute_plain:
  assumes "p_dict p = d" "\<And>d' a. d = Some d' \<Longrightarrow> dict_getitem d' (fst (split_tag key)) = Inr a \<Longrightarrow> \<not> a_is_sub a"
  obtains e where "add_attribute key vs p = Some (Inl e)"
    | p' where "add_attribute key vs p = Some (Inr p')" "p_dict p' = d"
proof -
  have "p_dict p' = p_dict p" if "encode_key_values key vs p = Inr (x, p')" for x p'
    using that
    by (auto simp: encode_key_values_def with_dict_def bindE_eq_Inr split: option.splits prod.splits
        dest!: send.encoded_list send_frame_fields(2))
  moreover have "\<exists>r. add_attribute key vs p = Some r \<and> (\<forall>p'. r = Inr p' \<longrightarrow>
      (\<exists>x q st. encode_key_values key vs p = Inr (x, q) \<and> p' = q\<lparr>p_attrs := st\<rparr>))"
    using assms by (auto simp: add_attribute_def is_tlv_sub_attribute_def bindE_eq_Inr
        split: option.splits sum.splits prod.splits)
  then obtain r where r: "add_attribute key vs p = Some r"
      "\<forall>p'. r = Inr p' \<longrightarrow> (\<exists>x q st. encode_key_values key vs p = Inr (x, q) \<and> p' = q\<lparr>p_attrs := st\<rparr>)"
    by blast
  ultimately show ?thesis
    using that assms(1) by (cases r) fastforce+
qed

text \<open>A dictionary in which the two attributes, if it has them, are no sub-attributes.\<close>

definition framed_plain :: "dictionary option \<Rightarrow> bool" where
  "framed_plain d \<longleftrightarrow>
     (case d of
        None \<Rightarrow> True
      | Some d \<Rightarrow> list_all (\<lambda>(n, _). case dict_getitem d n of Inl _ \<Rightarrow> True | Inr a \<Rightarrow> \<not> a_is_sub a) framed_attributes)"

lemma framed_added:
  assumes "framed_plain d" "p_dict p = d"
  shows "add_attributes framed_attributes p \<noteq> None"
proof -
  have n: "\<not> a_is_sub a"
    if "d = Some d'" "dict_getitem d' n = Inr a" "n \<in> {u ''Service-Type'', u ''Framed-IP-Address''}" for d' n a
    using assms(1) that by (auto simp: framed_plain_def framed_attributes_def simp del: u_simps)
  have 1: "\<not> a_is_sub a" if "d = Some d'" "dict_getitem d' (fst (split_tag (u ''Service-Type''))) = Inr a" for d' a
    using n that by (simp add: dash_framed del: u_simps)
  have 2: "\<not> a_is_sub a" if "d = Some d'" "dict_getitem d' (fst (split_tag (u ''Framed-IP-Address''))) = Inr a" for d' a
    using n that by (simp add: dash_framed del: u_simps)
  show ?thesis
  proof (rule add_attribute_plain [OF assms(2) 1, where vs = "[PStr (u ''Framed-User'')]"])
    fix p' assume p': "add_attribute (u ''Service-Type'') [PStr (u ''Framed-User'')] p = Some (Inr p')" "p_dict p' = d"
    have "add_attribute (u ''Framed-IP-Address'') [PStr (u ''10.0.0.42'')] p' \<noteq> None"
      by (rule add_attribute_plain [OF p'(2) 2, where vs = "[PStr (u ''10.0.0.42'')]"]) blast+
    then show ?thesis
      unfolding framed_attributes_def add_attributes.simps dash_framed p'(1)
      by (auto simp del: u_simps split: sum.split)
  qed (simp_all add: framed_attributes_def dash_framed del: u_simps)
qed

lemma framed_reply_total:
  assumes "framed_plain (p_dict p)"
  shows "as_create_reply_packet rt None None framed_attributes (Some p) = Some (framed_reply rt p)"
proof -
  have "create_reply None None framed_attributes 0 p \<noteq> None"
    using framed_added [OF assms]
    by (simp add: create_reply_def init_contents_def new_packet_def Let_def split: prod.split)
  then show ?thesis by (auto simp: framed_reply_def as_create_reply_packet_def)
qed

section \<open>The asyncio servers\<close>

definition no_handler :: "'u ahandler" where
  "no_handler addr p = retS ()"

text \<open>\<^verbatim>\<open>auth.py\<close>: every Access-Request is accepted.\<close>

definition demo_auth :: "env \<Rightarrow> router \<Rightarrow> 'u ahandler" where
  "demo_auth env rt addr p =
     bindS (liftE (getitem USER_NAME p)) (\<lambda>_.
     bindS (liftE (framed_reply rt p)) (\<lambda>reply.
     send_response env rt (reply\<lparr>p_code := pt AccessAccept\<rparr>) addr))"

text \<open>\<^verbatim>\<open>acct.py\<close>: the reply keeps the code that its class gives it.\<close>

definition demo_acct :: "env \<Rightarrow> router \<Rightarrow> 'u ahandler" where
  "demo_acct env rt addr p =
     bindS (liftE (getitem (u ''Acct-Status-Type'') p)) (\<lambda>_.
     bindS (liftE (as_plain_reply rt None p)) (\<lambda>reply.
     send_response env rt reply addr))"

text \<open>\<^verbatim>\<open>Packet.get\<close>: only a missing key gives the default.\<close>

definition packet_get :: "ustr \<Rightarrow> item option \<Rightarrow> packet \<Rightarrow> item option res" where
  "packet_get n failobj p =
     (case getitem n p of
        Inr x \<Rightarrow> Inr (Some x)
      | Inl e \<Rightarrow> if e = KeyError then Inr failobj else Inl e)"

definition demo_coa :: "env \<Rightarrow> router \<Rightarrow> 'u ahandler" where
  "demo_coa env rt addr p =
     bindS (liftE (packet_get (u ''Acct-Session-Id'') None p)) (\<lambda>_. answer env rt (pt CoAACK) addr p)"

text \<open>\<^verbatim>\<open>dedup.py\<close>: the handler counts its calls; the count is the state.\<close>

definition demo_count :: "env \<Rightarrow> router \<Rightarrow> nat ahandler" where
  "demo_count env rt addr p =
     bindS (modifyS (\<lambda>s. s\<lparr>sv_user := Suc (sv_user s)\<rparr>)) (\<lambda>_.
     bindS (liftE (if p_auth p = None then Inl AttributeError else Inr ())) (\<lambda>_.
     bindS (liftE (framed_reply rt p)) (\<lambda>reply.
     send_response env rt (reply\<lparr>p_code := pt AccessAccept\<rparr>) addr)))"

text \<open>\<^verbatim>\<open>auth_chap.py\<close>: the digest is computed again from the password of the one user.\<close>

definition DEMO_PASSWORD :: bytes where
  "DEMO_PASSWORD = ascii ''clientPass''"

definition demo_chap :: "env \<Rightarrow> router \<Rightarrow> 'u ahandler" where
  "demo_chap env rt addr p =
     bindS (liftE (octets_of CHAP_PASSWORD_NAME p)) (\<lambda>cp.
     bindS (liftE (octets_of CHAP_NAME p)) (\<lambda>challenge.
     bindS (liftE (case cp of [] \<Rightarrow> Inl IndexError | i # _ \<Rightarrow> Inr (uint i))) (\<lambda>i.
     bindS (liftE (build_chap_password i DEMO_PASSWORD challenge)) (\<lambda>expected.
     bindS (liftE (framed_reply rt p)) (\<lambda>reply.
     bindS (liftE (getitem USER_NAME p)) (\<lambda>_.
     send_response env rt
       (reply\<lparr>p_code := (if expected = cp then pt AccessAccept else pt AccessReject)\<rparr>) addr))))))"

text \<open>The five servers: the handlers that a class does not override are the framework's.\<close>

definition demo_server :: "env \<Rightarrow> router \<Rightarrow> 'u ahandler \<Rightarrow> 'u ahandler \<Rightarrow> 'u ahandlers" where
  "demo_server env rt auth acct =
     \<lparr>ah_auth = auth, ah_acct = acct, ah_coa = handle_coa_packet env rt,
      ah_disconnect = handle_disconnect_packet env rt\<rparr>"

definition auth_server :: "env \<Rightarrow> router \<Rightarrow> 'u ahandlers" where
  "auth_server env rt = demo_server env rt (demo_auth env rt) no_handler"

definition acct_server :: "env \<Rightarrow> router \<Rightarrow> 'u ahandlers" where
  "acct_server env rt = demo_server env rt no_handler (demo_acct env rt)"

definition coa_server :: "env \<Rightarrow> router \<Rightarrow> 'u ahandlers" where
  "coa_server env rt = (demo_server env rt no_handler no_handler)\<lparr>ah_coa := demo_coa env rt\<rparr>"

definition status_server :: "env \<Rightarrow> router \<Rightarrow> 'u ahandlers" where
  "status_server env rt = demo_server env rt no_handler no_handler"

definition dedup_server :: "env \<Rightarrow> router \<Rightarrow> nat ahandlers" where
  "dedup_server env rt = demo_server env rt (demo_count env rt) no_handler"

definition chap_server :: "env \<Rightarrow> router \<Rightarrow> 'u ahandlers" where
  "chap_server env rt = demo_server env rt (demo_chap env rt) no_handler"

section \<open>The RadSec servers\<close>

definition rs_framed :: "packet \<Rightarrow> packet res" where
  "rs_framed p =
     (case create_reply None None framed_attributes 0 p of
        Some r \<Rightarrow> bindE r (\<lambda>(q, _). Inr (q\<lparr>p_code := pt AccessAccept\<rparr>))
      | None \<Rightarrow> Inl RuntimeError)"

lemma rs_framed_total: "framed_plain (p_dict p) \<Longrightarrow> create_reply None None framed_attributes 0 p \<noteq> None"
  using framed_added [of "p_dict p"]
  by (simp add: create_reply_def init_contents_def new_packet_def Let_def split: prod.split)

definition demo_access :: "'u rs_handler" where
  "demo_access p = bindS (liftE (getitem USER_NAME p)) (\<lambda>_. liftE (rs_framed p))"

text \<open>\<^verbatim>\<open>radsec_v11.py\<close> reads the password first, which RADIUS/1.1 carries as it is.\<close>

definition demo_access_v11 :: "'u rs_handler" where
  "demo_access_v11 p =
     bindS (liftE (packet_get USER_PASSWORD (Some (IList [PBytes []])) p)) (\<lambda>x.
     bindS (liftE (case x of Some i \<Rightarrow> first_item i | None \<Rightarrow> Inl TypeError)) (\<lambda>_.
     bindS (liftE (getitem USER_NAME p)) (\<lambda>_. liftE (rs_framed p))))"

definition demo_accounting :: "'u rs_handler" where
  "demo_accounting p = liftE (bare_reply None p)"

definition demo_radsec :: "'u rs_handler \<Rightarrow> 'u rs_handlers" where
  "demo_radsec access =
     \<lparr>rh_access = access, rh_accounting = demo_accounting, rh_coa = None, rh_disconnect = None\<rparr>"

end
