(* ===== verification/EapServers.thy ===== *)
theory EapServers
  imports Scenario
begin

text \<open>
  The servers of \<^verbatim>\<open>scenarios/auth_eap_md5.py\<close>, \<^verbatim>\<open>auth_eap_gtc.py\<close> and \<^verbatim>\<open>auth_eap_mschapv2.py\<close>:
  the other end of the methods in \<open>Eap\<close>. A conversation is kept in a dictionary under the octets
  of the State attribute that the server handed out. The application's state is that dictionary
  with the numbers that \<^verbatim>\<open>secrets\<close> draws.
\<close>

record 's demo =
  demo_sessions :: "(bytes, 's) od"
  demo_rng :: "nat \<Rightarrow> int"
  demo_pos :: nat

type_synonym ('s, 'a) demom = "('s demo, 'a) srvm"

section \<open>Sessions and random octets\<close>

text \<open>\<^verbatim>\<open>secrets.token_bytes(n)\<close>; \<^verbatim>\<open>secrets.randbelow(256)\<close> is one of them.\<close>

definition token_bytes :: "nat \<Rightarrow> ('s, bytes) demom" where
  "token_bytes n s =
     (let d = sv_user s in
      (Inr (map (\<lambda>i. word_of_int (demo_rng d (demo_pos d + i))) [0..<n]),
       s\<lparr>sv_user := d\<lparr>demo_pos := demo_pos d + n\<rparr>\<rparr>))"

definition with_sessions :: "((bytes, 's) od \<Rightarrow> (bytes, 's) od) \<Rightarrow> 's demo srv \<Rightarrow> 's demo srv" where
  "with_sessions f s = s\<lparr>sv_user := (sv_user s)\<lparr>demo_sessions := f (demo_sessions (sv_user s))\<rparr>\<rparr>"

definition open_session :: "bytes \<Rightarrow> 's \<Rightarrow> ('s, unit) demom" where
  "open_session state ses = modifyS (with_sessions (od_set state ses))"

text \<open>\<^verbatim>\<open>self._sessions.get(state)\<close> and \<^verbatim>\<open>self._sessions.pop(state, None)\<close>.\<close>

definition get_session :: "bytes \<Rightarrow> ('s, 's option) demom" where
  "get_session state s = (Inr (od_get (demo_sessions (sv_user s)) state), s)"

definition pop_session :: "bytes \<Rightarrow> ('s, 's option) demom" where
  "pop_session state s =
     (Inr (od_get (demo_sessions (sv_user s)) state), with_sessions (od_del state) s)"

section \<open>Challenges\<close>

definition STATE_NAME :: ustr where
  "STATE_NAME = u ''State''"

text \<open>An Access-Challenge with the EAP packet and the State.\<close>

definition send_challenge :: "env \<Rightarrow> router \<Rightarrow> bytes \<Rightarrow> bytes \<Rightarrow> 'u ahandler" where
  "send_challenge env rt payload state addr p =
     bindS (liftE (as_plain_reply rt None p)) (\<lambda>r.
     bindS (liftE (setitem EAP_NAME [PBytes payload] r)) (\<lambda>r.
     bindS (liftE (setitem STATE_NAME [PBytes state] r)) (\<lambda>r.
     send_response env rt (r\<lparr>p_code := pt AccessChallenge\<rparr>) addr)))"

text \<open>The first octets of an EAP-Request: \<^verbatim>\<open>struct.pack("!BBHB", 1, id, n, type)\<close>.\<close>

definition request_header :: "int \<Rightarrow> nat \<Rightarrow> int \<Rightarrow> bytes res" where
  "request_header i n ty =
     bindE (pack2 1 i) (\<lambda>a.
     bindE (pack_uint 2 (int n)) (\<lambda>b.
     bindE (pack_uint 1 ty) (\<lambda>c. Inr (a @ b @ c))))"

definition EAP_TYPE_MD5 :: int where
  "EAP_TYPE_MD5 = 4"

text \<open>Every server begins with the header and goes on by the type.\<close>

definition eap_dispatch ::
    "env \<Rightarrow> router \<Rightarrow> (bytes \<Rightarrow> 'u ahandler) \<Rightarrow> int \<Rightarrow> (bytes \<Rightarrow> 'u ahandler) \<Rightarrow> 'u ahandler" where
  "eap_dispatch env rt identity ty respond addr p =
     bindS (liftE (octets_of EAP_NAME p)) (\<lambda>e.
     if length e < 5 then answer env rt (pt AccessReject) addr p
     else if uint (e ! 4) = EAPType_IDENTITY then identity e addr p
     else if uint (e ! 4) = ty then respond e addr p
     else answer env rt (pt AccessReject) addr p)"

section \<open>EAP-MD5\<close>

definition md5_request :: "int \<Rightarrow> bytes \<Rightarrow> bytes res" where
  "md5_request i challenge =
     bindE (request_header i (6 + length challenge) EAP_TYPE_MD5) (\<lambda>h.
     bindE (pack_uint 1 (int (length challenge))) (\<lambda>l. Inr (h @ l @ challenge)))"

definition send_md5_challenge :: "env \<Rightarrow> router \<Rightarrow> bytes \<Rightarrow> (int \<times> bytes) demo ahandler" where
  "send_md5_challenge env rt e addr p =
     bindS (token_bytes 16) (\<lambda>challenge.
     let i = (uint (e ! 1) + 1) mod 256 in
     bindS (token_bytes 16) (\<lambda>state.
     bindS (open_session state (i, challenge)) (\<lambda>_.
     bindS (liftE (getitem USER_NAME p)) (\<lambda>_.
     bindS (liftE (md5_request i challenge)) (\<lambda>payload.
     send_challenge env rt payload state addr p)))))"

definition verify_md5_response :: "env \<Rightarrow> router \<Rightarrow> bytes \<Rightarrow> (int \<times> bytes) demo ahandler" where
  "verify_md5_response env rt e addr p =
     bindS (liftE (octets_of STATE_NAME p)) (\<lambda>state.
     bindS (pop_session state) (\<lambda>ses.
     case ses of
       None \<Rightarrow> answer env rt (pt AccessReject) addr p
     | Some (_, challenge) \<Rightarrow>
         if length e < 22 \<or> uint (e ! 5) \<noteq> 16 then answer env rt (pt AccessReject) addr p
         else
           answer env rt
             (if py_slice e 6 22 = md5 ([e ! 1] @ DEMO_PASSWORD @ challenge) then pt AccessAccept
              else pt AccessReject) addr p))"

definition eap_md5_auth :: "env \<Rightarrow> router \<Rightarrow> (int \<times> bytes) demo ahandler" where
  "eap_md5_auth env rt =
     eap_dispatch env rt (send_md5_challenge env rt) EAP_TYPE_MD5 (verify_md5_response env rt)"

section \<open>EAP-GTC\<close>

definition gtc_request :: "int \<Rightarrow> bytes res" where
  "gtc_request i =
     (let prompt = ascii ''Password: ''
      in bindE (request_header i (5 + length prompt) EAP_TYPE_GTC) (\<lambda>h. Inr (h @ prompt)))"

definition send_gtc_prompt :: "env \<Rightarrow> router \<Rightarrow> bytes \<Rightarrow> int demo ahandler" where
  "send_gtc_prompt env rt e addr p =
     (let i = (uint (e ! 1) + 1) mod 256 in
      bindS (token_bytes 16) (\<lambda>state.
      bindS (open_session state i) (\<lambda>_.
      bindS (liftE (gtc_request i)) (\<lambda>payload.
      bindS (liftE (getitem USER_NAME p)) (\<lambda>_.
      send_challenge env rt payload state addr p)))))"

definition verify_gtc_response :: "env \<Rightarrow> router \<Rightarrow> bytes \<Rightarrow> int demo ahandler" where
  "verify_gtc_response env rt e addr p =
     bindS (liftE (octets_of STATE_NAME p)) (\<lambda>state.
     bindS (pop_session state) (\<lambda>ses.
     answer env rt
       (if ses \<noteq> None \<and> drop 5 e = DEMO_PASSWORD then pt AccessAccept else pt AccessReject) addr p))"

definition eap_gtc_auth :: "env \<Rightarrow> router \<Rightarrow> int demo ahandler" where
  "eap_gtc_auth env rt =
     eap_dispatch env rt (send_gtc_prompt env rt) EAP_TYPE_GTC (verify_gtc_response env rt)"

section \<open>EAP-MSCHAPv2\<close>

record mschap_session =
  ses_eap_id :: int
  ses_mschap_id :: byte
  ses_challenge :: bytes
  ses_identity :: bytes

definition DEMO_PASSWORD_STR :: ustr where
  "DEMO_PASSWORD_STR = u ''clientPass''"

text \<open>The frame of an MS-CHAPv2 request: \<^verbatim>\<open>n\<close> counts from the OpCode.\<close>

definition mschap_frame :: "int \<Rightarrow> int \<Rightarrow> byte \<Rightarrow> nat \<Rightarrow> bytes res" where
  "mschap_frame i oc ident n =
     bindE (request_header i (5 + n) EAP_TYPE_MSCHAPV2) (\<lambda>h.
     bindE (pack_uint 1 oc) (\<lambda>c.
     bindE (pack_uint 2 (int n)) (\<lambda>l. Inr (h @ c @ [ident] @ l))))"

definition mschap_challenge_request :: "int \<Rightarrow> byte \<Rightarrow> bytes \<Rightarrow> bytes res" where
  "mschap_challenge_request i ident challenge =
     (let name = ascii ''pyrad2-demo''
      in bindE (mschap_frame i OP_CHALLENGE ident (1 + 1 + 2 + 1 + 16 + length name)) (\<lambda>h.
         Inr (h @ [16] @ challenge @ name)))"

definition mschap_success_request :: "int \<Rightarrow> byte \<Rightarrow> bytes \<Rightarrow> bytes res" where
  "mschap_success_request i ident auth_response =
     (let message = auth_response @ ascii '' M=Welcome''
      in bindE (mschap_frame i OP_SUCCESS ident (1 + 1 + 2 + length message)) (\<lambda>h. Inr (h @ message)))"

definition send_mschap_challenge :: "env \<Rightarrow> router \<Rightarrow> bytes \<Rightarrow> mschap_session demo ahandler" where
  "send_mschap_challenge env rt e addr p =
     (let i = (uint (e ! 1) + 1) mod 256 in
      bindS (token_bytes 1) (\<lambda>ident.
      bindS (token_bytes 16) (\<lambda>challenge.
      bindS (token_bytes 16) (\<lambda>state.
      bindS (open_session state \<lparr>ses_eap_id = i, ses_mschap_id = hd ident, ses_challenge = challenge,
          ses_identity = drop 5 e\<rparr>) (\<lambda>_.
      bindS (liftE (mschap_challenge_request i (hd ident) challenge)) (\<lambda>payload.
      send_challenge env rt payload state addr p))))))"

definition verify_mschap_response :: "des \<Rightarrow> env \<Rightarrow> router \<Rightarrow> bytes \<Rightarrow> mschap_session demo ahandler" where
  "verify_mschap_response des env rt e addr p =
     bindS (liftE (octets_of STATE_NAME p)) (\<lambda>state.
     bindS (get_session state) (\<lambda>found.
     case found of
       None \<Rightarrow> answer env rt (pt AccessReject) addr p
     | Some ses \<Rightarrow>
         if length e < 59 \<or> uint (e ! 9) \<noteq> 49 then answer env rt (pt AccessReject) addr p
         else
           let peer = py_slice e 10 26; nt = py_slice e 34 58;
               user = PBytes (ses_identity ses); password = PStr DEMO_PASSWORD_STR in
           bindS (liftE (generate_nt_response des (ses_challenge ses) peer user password)) (\<lambda>expected.
           if nt \<noteq> expected then
             bindS (pop_session state) (\<lambda>_. answer env rt (pt AccessReject) addr p)
           else
             bindS (liftE (generate_authenticator_response password nt peer (ses_challenge ses) user)) (\<lambda>ar.
             bindS (liftE (mschap_success_request ((uint (e ! 1) + 1) mod 256) (ses_mschap_id ses) ar)) (\<lambda>payload.
             send_challenge env rt payload state addr p)))))"

definition send_access_accept :: "env \<Rightarrow> router \<Rightarrow> mschap_session demo ahandler" where
  "send_access_accept env rt addr p =
     bindS (liftE (octets_of STATE_NAME p)) (\<lambda>state.
     bindS (pop_session state) (\<lambda>_. answer env rt (pt AccessAccept) addr p))"

definition mschap_respond_to :: "des \<Rightarrow> env \<Rightarrow> router \<Rightarrow> bytes \<Rightarrow> mschap_session demo ahandler" where
  "mschap_respond_to des env rt e addr p =
     (let oc = (if 6 \<le> length e then uint (e ! 5) else 0)
      in if oc = OP_RESPONSE then verify_mschap_response des env rt e addr p
         else if oc = OP_SUCCESS then send_access_accept env rt addr p
         else answer env rt (pt AccessReject) addr p)"

definition eap_mschap_auth :: "des \<Rightarrow> env \<Rightarrow> router \<Rightarrow> mschap_session demo ahandler" where
  "eap_mschap_auth des env rt =
     eap_dispatch env rt (send_mschap_challenge env rt) EAP_TYPE_MSCHAPV2 (mschap_respond_to des env rt)"

end
