(* ===== verification/EapAgreement.thy ===== *)
theory EapAgreement
  imports EapServers Requests
begin

text \<open>
  The EAP methods of the client against the servers of the scenarios: what one side makes of a
  challenge the other side accepts, an Access-Accept of the EAP-MD5 server needs the digest over a
  challenge that is open, and the place where the EAP-MSCHAPv2 server accepts without one.
\<close>

section \<open>Attributes that the dictionary declares plainly\<close>

definition plain_attr :: "dictionary \<Rightarrow> ustr \<Rightarrow> int \<Rightarrow> string \<Rightarrow> bool" where
  "plain_attr d n k ty \<longleftrightarrow>
     (case dict_getitem d n of
        Inl _ \<Rightarrow> False
      | Inr a \<Rightarrow> a_code a = k \<and> a_type a = ty \<and> a_vendor a = [] \<and> \<not> a_is_sub a \<and> a_encrypt a \<noteq> 2
          \<and> backward (a_values a) = [])"

lemma plain_attrE:
  assumes "plain_attr d n k ty"
  obtains a where "dict_getitem d n = Inr a" "a_code a = k" "a_type a = ty" "a_encrypt a \<noteq> 2"
    "backward (a_values a) = []" "encode_name d n = Inr (KInt k)"
  using assms
  by (auto simp: plain_attr_def encode_name_def split: sum.splits)

lemma getitem_one:
  assumes "plain_attr d n k ty" "p_dict p = Some d" "od_get (p_attrs p) (KInt k) = Some (Vals [PBytes bs])"
    and "ty \<notin> set container_types"
  shows "getitem n p = bindE (decode_attr ty (PBytes bs)) (\<lambda>v. Inr (IList [v]))"
proof -
  obtain a where a: "dict_getitem d n = Inr a" "a_type a = ty" "a_encrypt a \<noteq> 2"
      "backward (a_values a) = []" "encode_name d n = Inr (KInt k)"
    using assms(1) by (rule plain_attrE)
  have "decode_value p a (PBytes bs) = decode_attr ty (PBytes bs)"
    using a by (simp add: decode_value_def od_get_def)
  then show ?thesis
    using a assms
    by (simp add: getitem_def with_dict_def raw_getitem_def store_iter_def bindE_assoc)
qed

lemma octets_string:
  assumes "plain_attr d n k ''string''" "p_dict p = Some d"
    and "od_get (p_attrs p) (KInt k) = Some (Vals [PBytes bs])" "\<not> hex_text bs"
  shows "octets_of n p = Inr bs"
  using getitem_one [OF assms(1-3)] attribute_bytes_plain [OF assms(4)]
  by (simp add: octets_of_def first_item_def decode_attr_def decode_bytes_def container_types_def)

lemma octets_octets:
  assumes "plain_attr d n k ''octets''" "p_dict p = Some d"
    and "od_get (p_attrs p) (KInt k) = Some (Vals [PBytes bs])"
  shows "octets_of n p = Inr bs"
  using getitem_one [OF assms]
  by (simp add: octets_of_def first_item_def decode_attr_def decode_bytes_def decode_octets_def
      attribute_bytes_def container_types_def)

text \<open>A packet with one EAP packet and one State, as it is parsed on either side.\<close>

definition eap_dict :: "dictionary \<Rightarrow> bool" where
  "eap_dict d \<longleftrightarrow> plain_attr d EAP_NAME 79 ''string'' \<and> plain_attr d STATE_NAME 24 ''octets''"

definition carries :: "packet \<Rightarrow> bytes \<Rightarrow> bytes \<Rightarrow> bool" where
  "carries p e state \<longleftrightarrow>
     od_get (p_attrs p) EAP_MESSAGE_ATTR = Some (Vals [PBytes e])
     \<and> od_get (p_attrs p) STATE_ATTR = Some (Vals [PBytes state])"

definition eap_packet :: "bytes \<Rightarrow> bool" where
  "eap_packet e \<longleftrightarrow> 5 \<le> length e \<and> 0 < unat (e ! 0) \<and> unat (e ! 0) < 9"

lemma carried:
  assumes "eap_dict d" "p_dict p = Some d" "carries p e state"
  shows "eap_packet e \<Longrightarrow> octets_of EAP_NAME p = Inr e" "octets_of STATE_NAME p = Inr state"
proof -
  assume e: "eap_packet e"
  then have "\<not> hex_text e" using eap_no_hex_text [of "hd e" "tl e"] by (cases e) (auto simp: eap_packet_def)
  then show "octets_of EAP_NAME p = Inr e"
    using assms by (intro octets_string [of d]) (auto simp: eap_dict_def carries_def EAP_MESSAGE_ATTR_def)
next
  show "octets_of STATE_NAME p = Inr state"
    using assms by (intro octets_octets [of d]) (auto simp: eap_dict_def carries_def STATE_ATTR_def)
qed

lemma eap_payload_carried: "carries p e state \<Longrightarrow> eap_payload p = Inr e"
  by (simp add: carries_def eap_payload_def first_value_def raw_getitem_def as_bytes_def)

lemma carry_state_carried:
  assumes "carries chal e state"
  shows "\<exists>p'. carry_state chal (set_eap x p) = Inr p' \<and> carries p' x state"
proof -
  have "EAP_MESSAGE_ATTR \<noteq> STATE_ATTR" by (simp add: EAP_MESSAGE_ATTR_def STATE_ATTR_def)
  then show ?thesis
    using assms
    by (simp add: carries_def carry_state_def raw_getitem_def set_eap_def raw_setitem_def od.get_set)
qed

section \<open>Frames\<close>

lemma request_header_octets:
  assumes "request_header i n ty = Inr h"
  obtains l1 l2 where "h = [1, word_of_int i, l1, l2, word_of_int ty]" "0 \<le> i" "i < 256" "0 \<le> ty" "ty < 256"
proof -
  obtain l where l: "pack_uint 2 (int n) = Inr l" "h = [1, word_of_int i] @ l @ [word_of_int ty]"
      "0 \<le> i" "i < 256" "0 \<le> ty" "ty < 256"
    using assms
    by (auto simp: request_header_def pack2_def pack_uint_eq_Inr be_bytes_1 elim!: bindE_InrE)
  moreover have "length l = 2" using l(1) by (auto simp: pack_uint_eq_Inr)
  then obtain l1 l2 where "l = [l1, l2]" by (auto simp: length_Suc_conv eval_nat_numeral)
  ultimately show ?thesis using that by simp
qed

lemma eap_header_octets:
  assumes "eap_header i n ty = Inr h"
  obtains l1 l2 where "h = [2, word_of_int i, l1, l2, word_of_int ty]" "0 \<le> i" "i < 256" "0 \<le> ty" "ty < 256"
proof -
  obtain l where l: "pack_uint 2 (int n) = Inr l" "h = [2, word_of_int i] @ l @ [word_of_int ty]"
      "0 \<le> i" "i < 256" "0 \<le> ty" "ty < 256"
    using assms
    by (auto simp: eap_header_def pack2_def EAPPacketType_RESPONSE_def pack_uint_eq_Inr be_bytes_1 elim!: bindE_InrE)
  moreover have "length l = 2" using l(1) by (auto simp: pack_uint_eq_Inr)
  then obtain l1 l2 where "l = [l1, l2]" by (auto simp: length_Suc_conv eval_nat_numeral)
  ultimately show ?thesis using that by simp
qed

section \<open>What an answer sends\<close>

lemma kept_reply_ma: "prepare_reply rt p q = Inr q' \<Longrightarrow> request_kept q q'" "force_reply_ma rt q = Inr q' \<Longrightarrow> request_kept q q'"
  by (auto simp: prepare_reply_def prepare_reply_message_authenticator_def force_reply_ma_def
      ensure_message_authenticator_def kept.refl kept_ma dest: kept_add split: if_splits)

lemma kept_version: "request_kept p q \<Longrightarrow> p_version q = p_version p" "request_kept p q \<Longrightarrow> p_code q = p_code p"
    "request_kept p q \<Longrightarrow> p_dict q = p_dict p"
  by (simp_all add: request_kept_def req_core_def)

lemma as_plain_reply_version:
  assumes "as_plain_reply rt code p = Inr q"
  shows "p_version q = p_version p"
  using assms
  by (auto simp: as_plain_reply_def as_create_reply_packet_def as_finish_reply_def create_reply_def init_contents_def
      new_packet_def Let_def attach_dedup_key_def elim!: bindE_InrE dest!: kept_reply_ma kept_version(1)
      split: prod.splits if_splits)

lemma reply_packet_code:
  assumes "reply_packet q = Inr (raw, q')" "p_version q = V1_0"
  shows "uint (hd raw) = p_code q"
proof -
  obtain p1 attr h a where r: "refresh_if_set q = Inr p1" "pkt_encode_attributes p1 = Inr (attr, q')"
      "pack_header q' (20 + length attr) = Inr h" "raw = h @ md5 (h @ a @ attr @ p_secret q') @ attr"
    by (rule reply_packetE [OF assms]) (rule that)
  have "request_kept q q'" by (rule kept.trans [OF kept.refreshed_if_set [OF r(1)] kept.serialised [OF r(2)]])
  from kept_version(2) [OF this] show ?thesis
    by (rule_tac pack_header_octets [OF r(3)]) (simp add: r(4))
qed

text \<open>At most one datagram, to the sender of the request, with the code in front.\<close>

definition one_answer :: "source \<Rightarrow> int \<Rightarrow> 'u srv \<Rightarrow> 'u srv \<Rightarrow> bool" where
  "one_answer a code s s' \<longleftrightarrow> sv_user s' = sv_user s
     \<and> (\<exists>raws. sv_sent s' = sv_sent s @ map (\<lambda>raw. (raw, a)) raws \<and> length raws \<le> 1
          \<and> list_all (\<lambda>raw. uint (hd raw) = code) raws)"

lemma one_answer_refl: "one_answer a code s s"
  unfolding one_answer_def by (intro conjI refl exI [of _ "[]"]) simp_all

lemma send_response_answers:
  assumes "p_version q = V1_0"
  shows "one_answer a (p_code q) s (snd (send_response env rt q a s))"
proof (cases "force_reply_ma rt q")
  case (Inr q1)
  note k = kept_version [OF kept_reply_ma(2) [OF Inr]]
  show ?thesis
  proof (cases "reply_packet q1")
    case (Inr x)
    then obtain raw q2 where r: "reply_packet q1 = Inr (raw, q2)" by (cases x) auto
    have "uint (hd raw) = p_code q" using reply_packet_code [OF r] k assms by simp
    then show ?thesis
      using \<open>force_reply_ma rt q = Inr q1\<close> r
      by (auto simp: one_answer_def send_response_def prepare_reply_packet_def bindS_def sendto_def
          rt_record_reply_def liftE_def intro!: exI [of _ "[raw]"])
  qed (simp add: send_response_def prepare_reply_packet_def \<open>force_reply_ma rt q = Inr q1\<close> failS_def
      one_answer_refl)
qed (simp add: send_response_def prepare_reply_packet_def failS_def one_answer_refl)

lemma answer_answers:
  assumes "p_version p = V1_0"
  shows "one_answer a code s (snd (answer env rt code a p s))"
proof (cases "as_plain_reply rt None p")
  case (Inr q)
  have "p_version (q\<lparr>p_code := code\<rparr>) = V1_0" using as_plain_reply_version [OF Inr] assms by simp
  from send_response_answers [OF this] show ?thesis by (simp add: answer_def Inr)
qed (simp add: answer_def failS_def one_answer_refl)

lemma setitem_version: "setitem n vs q = Inr q' \<Longrightarrow> p_version q' = p_version q"
  by (drule kept.stored) (rule kept_version)

lemma send_challenge_answers:
  assumes "p_version p = V1_0"
  shows "one_answer a (pt AccessChallenge) s (snd (send_challenge env rt payload state a p s))"
proof (cases "as_plain_reply rt None p")
  case (Inr q)
  note q = Inr as_plain_reply_version [OF Inr]
  show ?thesis
  proof (cases "setitem EAP_NAME [PBytes payload] q")
    case (Inr q1)
    note q1 = Inr setitem_version [OF Inr]
    show ?thesis
    proof (cases "setitem STATE_NAME [PBytes state] q1")
      case (Inr q2)
      have "p_version (q2\<lparr>p_code := pt AccessChallenge\<rparr>) = V1_0"
        using setitem_version [OF Inr] q1(2) q(2) assms by simp
      from send_response_answers [OF this] show ?thesis by (simp add: send_challenge_def q(1) q1(1) Inr)
    qed (simp add: send_challenge_def q(1) q1(1) failS_def one_answer_refl)
  qed (simp add: send_challenge_def q(1) failS_def one_answer_refl)
qed (simp add: send_challenge_def failS_def one_answer_refl)

section \<open>EAP-MD5\<close>

lemma with_sessions_fields [simp]:
  "sv_sent (with_sessions f s) = sv_sent s" "sv_cache (with_sessions f s) = sv_cache s"
  "demo_sessions (sv_user (with_sessions f s)) = f (demo_sessions (sv_user s))"
  by (simp_all add: with_sessions_def)

text \<open>Answers after steps that sent nothing.\<close>

definition later_answer :: "source \<Rightarrow> int \<Rightarrow> 'u srv \<Rightarrow> 'u srv \<Rightarrow> bool" where
  "later_answer a code s s' \<longleftrightarrow> (\<exists>s1. sv_sent s1 = sv_sent s \<and> one_answer a code s1 s')"

lemma later_now: "one_answer a code s s' \<Longrightarrow> later_answer a code s s'"
  by (auto simp: later_answer_def)

lemma later_bind:
  assumes "\<And>x s1. m s = (Inr x, s1) \<Longrightarrow> later_answer a code s1 (snd (f x s1))" "sv_sent (snd (m s)) = sv_sent s"
  shows "later_answer a code s (snd (bindS m f s))"
  using assms one_answer_refl
  by (cases "m s") (fastforce simp: bindS_def later_answer_def split: sum.splits)

lemma later_code:
  assumes "later_answer a code s s'" "(raw, b) \<in> set (drop (length (sv_sent s)) (sv_sent s'))"
  shows "uint (hd raw) = code \<and> b = a"
  using assms by (auto simp: later_answer_def one_answer_def list_all_iff)

lemma quiet_steps [simp]:
  "sv_sent (snd (token_bytes n s)) = sv_sent s" "sv_sent (snd (open_session state ses s)) = sv_sent s"
  "sv_sent (snd (get_session state s)) = sv_sent s" "sv_sent (snd (pop_session state s)) = sv_sent s"
  "sv_sent (snd (liftE r s)) = sv_sent s"
  by (simp_all add: token_bytes_def Let_def open_session_def modifyS_def get_session_def pop_session_def liftE_def)

lemma md5_challenge_sent:
  "p_version p = V1_0 \<Longrightarrow> later_answer a (pt AccessChallenge) s (snd (send_md5_challenge env rt e a p s))"
  unfolding send_md5_challenge_def Let_def
  by (intro later_bind later_now send_challenge_answers) simp_all

lemma challenge_not_accept: "pt AccessChallenge \<noteq> pt AccessAccept" "pt AccessReject \<noteq> pt AccessAccept"
  by code_simp+

text \<open>
  C13 The EAP-MD5 server sends an Access-Accept only for a request that carries an EAP-Response with
  the digest of its identifier, the password and a challenge that the server has open under the
  State of the request. The challenge is closed then: the same State is not accepted again.
\<close>

theorem eap_md5_accepts_only:
  assumes "p_version p = V1_0"
    and "(raw, b) \<in> set (drop (length (sv_sent s)) (sv_sent (snd (eap_md5_auth env rt a p s))))"
    and "uint (hd raw) = pt AccessAccept"
  shows "\<exists>e state i challenge. octets_of EAP_NAME p = Inr e \<and> octets_of STATE_NAME p = Inr state
    \<and> od_get (demo_sessions (sv_user s)) state = Some (i, challenge)
    \<and> uint (e ! 4) = EAP_TYPE_MD5 \<and> py_slice e 6 22 = md5 ([e ! 1] @ DEMO_PASSWORD @ challenge)
    \<and> od_get (demo_sessions (sv_user (snd (eap_md5_auth env rt a p s)))) state = None"
proof -
  let ?r = "snd (eap_md5_auth env rt a p s)"
  note d = eap_md5_auth_def eap_dispatch_def
  have no: False if "later_answer a c s ?r" "c \<noteq> pt AccessAccept" for c
    using later_code [OF that(1) assms(2)] assms(3) that(2) by simp
  have rej: False if "eap_md5_auth env rt a p s = answer env rt (pt AccessReject) a p s1" "sv_sent s1 = sv_sent s" for s1
  proof -
    have "later_answer a (pt AccessReject) s ?r"
      unfolding that(1) later_answer_def using answer_answers [OF assms(1)] that(2) by blast
    then show False using no challenge_not_accept(2) by blast
  qed
  obtain e where e: "octets_of EAP_NAME p = Inr e"
    using assms(2) by (cases "octets_of EAP_NAME p") (auto simp: d failS_def)
  have len: "5 \<le> length e" by (rule ccontr) (use rej [of s] e in \<open>simp add: d\<close>)
  have id: "uint (e ! 4) \<noteq> EAPType_IDENTITY"
  proof
    assume "uint (e ! 4) = EAPType_IDENTITY"
    then have "eap_md5_auth env rt a p s = send_md5_challenge env rt e a p s" using e len by (simp add: d)
    then show False using no md5_challenge_sent [OF assms(1)] challenge_not_accept(1) by metis
  qed
  have ty: "uint (e ! 4) = EAP_TYPE_MD5"
    by (rule ccontr) (use rej [of s] e len id in \<open>simp add: d\<close>)
  then have h: "eap_md5_auth env rt a p s = verify_md5_response env rt e a p s"
    using e len by (simp add: d EAP_TYPE_MD5_def EAPType_IDENTITY_def)
  obtain state where st: "octets_of STATE_NAME p = Inr state"
    using assms(2) unfolding h by (cases "octets_of STATE_NAME p") (auto simp: verify_md5_response_def failS_def)
  let ?s = "with_sessions (od_del state) s"
  obtain i challenge where ses: "od_get (demo_sessions (sv_user s)) state = Some (i, challenge)"
    using rej [of ?s] unfolding h
    by (cases "od_get (demo_sessions (sv_user s)) state") (auto simp: verify_md5_response_def st pop_session_def bindS_def)
  have v: "eap_md5_auth env rt a p s =
      (if length e < 22 \<or> uint (e ! 5) \<noteq> 16 then answer env rt (pt AccessReject) a p
       else answer env rt (if py_slice e 6 22 = md5 ([e ! 1] @ DEMO_PASSWORD @ challenge) then pt AccessAccept
         else pt AccessReject) a p) ?s"
    unfolding h by (simp add: verify_md5_response_def st pop_session_def bindS_def ses)
  have size: "\<not> (length e < 22 \<or> uint (e ! 5) \<noteq> 16)" by (rule notI) (rule rej [of ?s], use v in \<open>simp_all only: if_True simp_thms with_sessions_fields\<close>)
  have dig: "py_slice e 6 22 = md5 ([e ! 1] @ DEMO_PASSWORD @ challenge)"
    by (rule ccontr) (rule rej [of ?s], use v size in \<open>simp_all only: if_False simp_thms with_sessions_fields\<close>)
  from v size dig have "eap_md5_auth env rt a p s = answer env rt (pt AccessAccept) a p ?s"
    by (simp only: if_False if_True refl)
  then have "sv_user ?r = sv_user ?s"
    using answer_answers [OF assms(1), where s = ?s] by (simp add: one_answer_def)
  then show ?thesis using e st ses ty dig by (simp add: od.get_del)
qed

lemma md5_request_octets:
  assumes "md5_request i challenge = Inr e"
  obtains l1 l2 l where "e = [1, word_of_int i, l1, l2, 4, l] @ challenge" "0 \<le> i" "i < 256"
  using assms
  by (auto simp: md5_request_def EAP_TYPE_MD5_def pack_uint_eq_Inr be_bytes_1 elim!: bindE_InrE request_header_octets)

lemma md5_response_octets:
  assumes "build_eap_md5_challenge i pw eap = Inr x"
  obtains l1 l2 where "x = [2, word_of_int i, l1, l2, 4, 16] @ md5 ([word_of_int i] @ pw @ drop 1 eap)"
    "0 \<le> i" "i < 256"
  using assms
  by (auto simp: build_eap_md5_challenge_def Let_def pack_uint_eq_Inr be_bytes_1 elim!: bindE_InrE eap_header_octets)

text \<open>
  C16 The EAP-MD5 method of the client and the server of the scenario agree: the response that the
  client makes of the server's challenge from its User-Password, carried back with the State, is
  answered with an Access-Accept if the digest is that of the expected password, in particular
  for the same password, and with an Access-Reject otherwise; the challenge is used up either way.
\<close>

theorem eap_md5_agreement:
  assumes "eap_dict d" "md5_request i challenge = Inr e" "carries chal e state"
    and "password_from_packet req = Inr pw" "method_respond des Md5Method req chal = Inr (m, req')"
    and "p_dict q = Some d" "od_get (p_attrs q) EAP_MESSAGE_ATTR = od_get (p_attrs req') EAP_MESSAGE_ATTR"
      "od_get (p_attrs q) STATE_ATTR = od_get (p_attrs req') STATE_ATTR"
    and "od_get (demo_sessions (sv_user s)) state = Some (i, challenge)"
  shows "eap_md5_auth env rt a q s =
    answer env rt
      (if md5 ([word_of_int i] @ pw @ challenge) = md5 ([word_of_int i] @ DEMO_PASSWORD @ challenge)
       then pt AccessAccept else pt AccessReject) a q (with_sessions (od_del state) s)"
proof -
  obtain l1 l2 l where e: "e = [1, word_of_int i, l1, l2, 4, l] @ challenge" "0 \<le> i" "i < 256"
    by (rule md5_request_octets [OF assms(2)])
  obtain x where x: "build_eap_md5_challenge i pw ([l] @ challenge) = Inr x" "carry_state chal (set_eap x req) = Inr req'"
    using assms(4,5) eap_payload_carried [OF assms(3)] e
    by (auto simp: apply_eap_md5_challenge_def uint_word_of_int_byte elim!: bindE_InrE)
  obtain k1 k2 where o: "x = [2, word_of_int i, k1, k2, 4, 16] @ md5 ([word_of_int i] @ pw @ challenge)"
    by (rule md5_response_octets [OF x(1)]) simp
  have "carries q x state"
    using carry_state_carried [OF assms(3), of x req] x(2) assms(7,8) by (simp add: carries_def)
  moreover have "eap_packet x" by (simp add: o eap_packet_def)
  ultimately have c: "octets_of EAP_NAME q = Inr x" "octets_of STATE_NAME q = Inr state"
    using carried [OF assms(1,6)] by simp_all
  have "length x = 22" "py_slice x 6 22 = md5 ([word_of_int i] @ pw @ challenge)" by (simp_all add: o py_slice_def)
  moreover have "x ! 1 = word_of_int i" "x ! 4 = 4" "x ! 5 = 16" by (simp_all add: o)
  ultimately show ?thesis
    by (simp add: eap_md5_auth_def eap_dispatch_def c EAP_TYPE_MD5_def EAPType_IDENTITY_def
        verify_md5_response_def pop_session_def bindS_def [where m = "\<lambda>s. (Inr _, _ s)"] assms(9) bindS_def)
qed

section \<open>A conversation for the witnesses\<close>

definition eap_sample_dict :: dictionary where
  "eap_sample_dict = foldl (\<lambda>d (a, k). register_attribute a k d) sample_dict0
     [(sample_attribute ''User-Name'' 1 ''string'', KInt 1), (sample_attribute ''EAP-Message'' 79 ''string'', KInt 79),
      (sample_attribute ''State'' 24 ''octets'', KInt 24), (sample_attribute ''CHAP-Password'' 3 ''octets'', KInt 3),
      (sample_attribute ''CHAP-Challenge'' 60 ''string'', KInt 60),
      ((sample_attribute ''Service-Type'' 6 ''integer'')
         \<lparr>a_values := bd_add (u ''Framed-User'') (PBytes [0, 0, 0, 2]) bd_empty\<rparr>, KInt 6),
      (sample_attribute ''Framed-IP-Address'' 8 ''ipaddr'', KInt 8)]"

definition eap_packet_with :: "(pkey, store) od \<Rightarrow> packet" where
  "eap_packet_with st = (blank_packet (Some eap_sample_dict))\<lparr>p_class := AuthC, p_code := 1, p_id := Some 7,
     p_secret := [115, 51], p_auth := Some (replicate 16 5), p_attrs := st\<rparr>"

definition eap_exchange :: "bytes \<Rightarrow> bytes \<Rightarrow> packet" where
  "eap_exchange e state = eap_packet_with [(KInt 79, Vals [PBytes e]), (KInt 24, Vals [PBytes state])]"

definition eap_router :: router where
  "eap_router = \<lparr>rt_hosts = [(''10.0.0.1'', [115, 51])], rt_dict = Some eap_sample_dict, rt_verify = True,
     rt_require_ma = False, rt_require_eap = False\<rparr>"

definition eap_start :: "(bytes \<times> 's) list \<Rightarrow> 's demo srv" where
  "eap_start sessions = \<lparr>sv_cache = None, sv_sent = [], sv_ticks = 0, sv_packets = 0, sv_cur = 0,
     sv_user = \<lparr>demo_sessions = sessions, demo_rng = (\<lambda>n. int n), demo_pos = 0\<rparr>\<rparr>"

lemma eap_packet_with_fields [simp]:
  "p_attrs (eap_packet_with st) = st" "p_dict (eap_packet_with st) = Some eap_sample_dict"
  "p_version (eap_packet_with st) = V1_0"
  by (simp_all add: eap_packet_with_def blank_packet_def)

lemma eap_start_fields [simp]:
  "sv_sent (eap_start ses) = []" "demo_sessions (sv_user (eap_start ses)) = ses"
  by (simp_all add: eap_start_def)

lemma eap_sample_dict_plain:
  "eap_dict eap_sample_dict" "plain_attr eap_sample_dict CHAP_PASSWORD_NAME 3 ''octets''"
  "plain_attr eap_sample_dict CHAP_NAME 60 ''string''"
  by code_simp+

definition sample_response :: bytes where
  "sample_response = [2, 8, 0, 22, 4, 16] @ md5 ([8] @ DEMO_PASSWORD @ replicate 16 1)"

definition sent_accept :: "(bytes \<times> source) list \<Rightarrow> bool" where
  "sent_accept xs = (case xs of [(raw, b)] \<Rightarrow> uint (hd raw) = pt AccessAccept | _ \<Rightarrow> False)"

lemma eap_md5_accepts_only_witness:
  "\<exists>s raw b state. (raw, b) \<in> set (sv_sent s) \<and> uint (hd raw) = pt AccessAccept
    \<and> s = snd (eap_md5_auth small_env eap_router (''10.0.0.1'', 9) (eap_exchange sample_response (replicate 16 2))
        (eap_start [(replicate 16 2, (8, replicate 16 1))]))
    \<and> od_get (demo_sessions (sv_user s)) state = None"
proof -
  let ?a = "(''10.0.0.1'', 9)" and ?p = "eap_exchange sample_response (replicate 16 2)"
    and ?s = "eap_start [(replicate 16 2, (8, replicate 16 1))]"
  have "sent_accept (sv_sent (snd (eap_md5_auth small_env eap_router ?a ?p ?s)))" by code_simp
  then obtain raw b where r: "(raw, b) \<in> set (sv_sent (snd (eap_md5_auth small_env eap_router ?a ?p ?s)))"
      "uint (hd raw) = pt AccessAccept"
    by (auto simp: sent_accept_def split: list.splits)
  then have "\<exists>state. od_get (demo_sessions (sv_user (snd (eap_md5_auth small_env eap_router ?a ?p ?s)))) state = None"
    using eap_md5_accepts_only [of ?p raw b ?s small_env eap_router ?a] by (auto simp: eap_exchange_def)
  then show ?thesis using r by blast
qed

lemma eap_md5_agreement_witness:
  "\<exists>req'. method_respond None Md5Method (eap_packet_with [(KInt 2, Vals [PBytes DEMO_PASSWORD])])
        (eap_exchange ([1, 8, 0, 22, 4, 16] @ replicate 16 1) (replicate 16 2)) = Inr (Md5Method, req')
    \<and> eap_md5_auth small_env eap_router (''10.0.0.1'', 9) (eap_packet_with (p_attrs req'))
        (eap_start [(replicate 16 2, (8, replicate 16 1))])
      = answer small_env eap_router (pt AccessAccept) (''10.0.0.1'', 9) (eap_packet_with (p_attrs req')) (eap_start [])"
proof -
  let ?req = "eap_packet_with [(KInt 2, Vals [PBytes DEMO_PASSWORD])]" and ?e = "[1, 8, 0, 22, 4, 16] @ replicate 16 1"
  let ?chal = "eap_exchange ?e (replicate 16 2)"
  have "okE (method_respond None Md5Method ?req ?chal) (\<lambda>_. True)" by code_simp
  then obtain m req' where r: "method_respond None Md5Method ?req ?chal = Inr (m, req')" by (auto dest: okE_Inr)
  then have m: "m = Md5Method" by (auto elim: bindE_InrE)
  have "okE (md5_request 8 (replicate 16 1)) (\<lambda>x. x = ?e)" by code_simp
  then have e: "md5_request 8 (replicate 16 1) = Inr ?e" by (auto dest: okE_Inr)
  have c: "carries ?chal ?e (replicate 16 2)"
    by (simp add: carries_def eap_exchange_def EAP_MESSAGE_ATTR_def STATE_ATTR_def od_get_def)
  have pw: "password_from_packet ?req = Inr DEMO_PASSWORD"
    by (simp add: password_from_packet_def USER_PASSWORD_ATTR_def first_value_def raw_getitem_def od_mem_def od_get_def as_bytes_def)
  let ?s = "eap_start [(replicate 16 2, (8 :: int, replicate 16 1))]"
  have w: "with_sessions (od_del (replicate 16 2)) ?s = eap_start []"
    by (simp add: with_sessions_def eap_start_def od_del_def)
  have "eap_md5_auth small_env eap_router (''10.0.0.1'', 9) (eap_packet_with (p_attrs req')) ?s
      = answer small_env eap_router (pt AccessAccept) (''10.0.0.1'', 9) (eap_packet_with (p_attrs req')) (eap_start [])"
    using eap_md5_agreement [OF eap_sample_dict_plain(1) e c pw r, where q = "eap_packet_with (p_attrs req')" and s = ?s]
    unfolding w by (simp add: od_get_def)
  then show ?thesis using r unfolding m by blast
qed

end
