(* ===== verification/ChapAgreement.thy ===== *)
theory ChapAgreement
  imports EapAgreement
begin

text \<open>
  CHAP, EAP-GTC and EAP-MSCHAPv2: the client's methods against the servers of the scenarios, with
  the mutual authentication of MS-CHAPv2, and the acknowledgement that the EAP-MSCHAPv2 server
  takes for a proof.
\<close>

section \<open>CHAP\<close>

lemma length_cp:
  assumes "build_chap_password i pw c = Inr cp"
  shows "cp = [word_of_int i] @ md5 ([word_of_int i] @ pw @ c)" "0 \<le> i" "i < 256"
  using assms by (auto simp: build_chap_password_def Let_def split: if_splits)

lemma setitem_plain:
  assumes "plain_attr d n k ty" "p_dict p = Some d" "split_tag n = (n, [])" "encode_attr ty (PBytes bs) = Inr (PBytes bs)"
  shows "setitem n [PBytes bs] p = Inr (raw_setitem (KInt k) (Vals [PBytes bs]) p)"
proof -
  obtain a where a: "dict_getitem d n = Inr a" "a_type a = ty" "a_encrypt a \<noteq> 2"
      "encode_name d n = Inr (KInt k)"
    using assms(1) by (rule plain_attrE)
  then show ?thesis
    using assms(2-4)
    by (simp add: setitem_def encode_key_values_def with_dict_def tag_bytes_def encode_value_def named_value_def)
qed

lemma chap_tags: "split_tag CHAP_PASSWORD_NAME = (CHAP_PASSWORD_NAME, [])" "split_tag CHAP_NAME = (CHAP_NAME, [])"
  by code_simp+

text \<open>
  A CHAP request that \<^verbatim>\<open>prepare_chap_request\<close> made is judged by its password alone: the server of
  the scenario reads the identifier and the challenge out of the two attributes and accepts if
  the digest is that of the expected password. The challenge must survive the text codec of its
  attribute, and the identifier must not make the attribute look like hexadecimal text.
\<close>

theorem chap_agreement:
  assumes "plain_attr d CHAP_PASSWORD_NAME 3 ''octets''" "plain_attr d CHAP_NAME 60 ''string''"
    and "p_dict p = Some d" "prepare_chap_request (PBytes pw) (Some i) (Some c) p = Inr p'" "i \<noteq> 0x30" "\<not> hex_text c"
    and "p_dict q = Some d" "od_get (p_attrs q) (KInt 3) = od_get (p_attrs p') (KInt 3)"
      "od_get (p_attrs q) (KInt 60) = od_get (p_attrs p') (KInt 60)"
    and "framed_reply rt q = Inr r" "getitem USER_NAME q = Inr x"
  shows "demo_chap env rt a q s =
    send_response env rt
      (r\<lparr>p_code := (if md5 ([word_of_int i] @ DEMO_PASSWORD @ c) = md5 ([word_of_int i] @ pw @ c)
         then pt AccessAccept else pt AccessReject)\<rparr>) a s"
proof -
  obtain p3 cp p4 where s: "drop_user_password p = Inr p3" "build_chap_password i pw c = Inr cp"
      "setitem CHAP_PASSWORD_NAME [PBytes cp] p3 = Inr p4" "setitem CHAP_NAME [PBytes c] p4 = Inr p'"
    using assms(4) by (auto simp: prepare_chap_request_def plain_bytes_def elim!: bindE_InrE)
  note cp = length_cp [OF s(2)]
  have d3: "p_dict p3 = Some d"
    using s(1) assms(3) by (auto simp: drop_user_password_def delitem_def elim!: bindE_InrE split: if_splits)
  have "word_of_int i \<noteq> (0x30 :: byte)"
  proof
    assume "word_of_int i = (0x30 :: byte)"
    then have "uint (word_of_int i :: byte) = uint (0x30 :: byte)" by (rule arg_cong)
    then show False using cp(2,3) assms(5) by simp
  qed
  then have "\<not> startswith cp hex_prefix" by (simp add: cp(1) startswith_def hex_prefix_def)
  then have e3: "encode_attr ''octets'' (PBytes cp) = Inr (PBytes cp)" by (simp add: encode_attr_def encode_octets_def)
  have p4: "p4 = raw_setitem (KInt 3) (Vals [PBytes cp]) p3"
    using setitem_plain [OF assms(1) d3 chap_tags(1) e3] s(3) by simp
  have d4: "p_dict p4 = Some d" using d3 by (simp add: p4 raw_setitem_def)
  have e60: "encode_attr ''string'' (PBytes c) = Inr (PBytes c)"
    using s(4) d4 assms(2)
    by (auto simp: setitem_def encode_key_values_def with_dict_def chap_tags encode_value_def named_value_def
        encode_attr_def encode_string_def elim!: plain_attrE bindE_InrE split: if_splits)
  have "p' = raw_setitem (KInt 60) (Vals [PBytes c]) p4"
    using setitem_plain [OF assms(2) d4 chap_tags(2) e60] s(4) by simp
  then have st: "od_get (p_attrs q) (KInt 3) = Some (Vals [PBytes cp])" "od_get (p_attrs q) (KInt 60) = Some (Vals [PBytes c])"
    using assms(8,9) by (simp_all add: p4 raw_setitem_def od.get_set)
  note o = octets_octets [OF assms(1,7) st(1)] octets_string [OF assms(2,7) st(2) assms(6)]
  show ?thesis
    using cp by (auto simp: demo_chap_def o assms(10,11) build_chap_password_def uint_word_of_int_byte Let_def)
qed

lemma prepared_dict:
  assumes "prepare_chap_request pw (Some i) (Some c) p = Inr p'"
  shows "p_dict p' = p_dict p"
proof -
  have "p_dict q = p_dict p" if "drop_user_password p = Inr q" for p q
    using that by (auto simp: drop_user_password_def delitem_def elim!: bindE_InrE split: if_splits)
  moreover have "p_dict q = p_dict p" if "setitem n vs p = Inr q" for n vs p q
    using kept_version(3) [OF kept.stored [OF that]] .
  ultimately show ?thesis
    using assms by (fastforce simp: prepare_chap_request_def elim!: bindE_InrE)
qed

definition chap_packet :: packet where
  "chap_packet = eap_packet_with [(KInt 1, Vals [PBytes [97]])]"

lemma chap_agreement_witness:
  "\<exists>p' r. prepare_chap_request (PBytes DEMO_PASSWORD) (Some 0x42) (Some (replicate 16 0xAB)) chap_packet = Inr p'
    \<and> demo_chap small_env eap_router (''10.0.0.1'', 9) p' (start None ())
      = send_response small_env eap_router (r\<lparr>p_code := pt AccessAccept\<rparr>) (''10.0.0.1'', 9) (start None ())"
proof -
  let ?pr = "prepare_chap_request (PBytes DEMO_PASSWORD) (Some 0x42) (Some (replicate 16 0xAB)) chap_packet"
  have "okE ?pr (\<lambda>p'. p_dict p' \<noteq> None
      \<and> okE (framed_reply eap_router p') (\<lambda>_. okE (getitem USER_NAME p') (\<lambda>_. True)))"
    by code_simp
  then obtain p' r x where r: "?pr = Inr p'" "framed_reply eap_router p' = Inr r" "getitem USER_NAME p' = Inr x"
    by (auto dest!: okE_Inr)
  have d: "p_dict p' = Some eap_sample_dict"
    using prepared_dict [OF r(1)] by (simp add: chap_packet_def)
  have h: "\<not> hex_text (replicate 16 0xAB)" by code_simp
  have "demo_chap small_env eap_router (''10.0.0.1'', 9) p' (start None ())
      = send_response small_env eap_router (r\<lparr>p_code := pt AccessAccept\<rparr>) (''10.0.0.1'', 9) (start None ())"
    using chap_agreement [OF eap_sample_dict_plain(2,3) _ r(1) _ h d refl refl r(2,3)]
    by (simp add: chap_packet_def)
  then show ?thesis using r(1) by blast
qed

section \<open>EAP-GTC\<close>

lemma gtc_request_octets:
  assumes "gtc_request i = Inr e"
  obtains l1 l2 where "e = [1, word_of_int i, l1, l2, 6] @ ascii ''Password: ''" "0 \<le> i" "i < 256"
  using assms by (auto simp: gtc_request_def EAP_TYPE_GTC_def Let_def elim!: bindE_InrE request_header_octets)

lemma gtc_response_octets:
  assumes "build_eap_gtc_response i pw = Inr x"
  obtains l1 l2 where "x = [2, word_of_int i, l1, l2, 6] @ pw" "0 \<le> i" "i < 256"
  using assms by (auto simp: build_eap_gtc_response_def EAP_TYPE_GTC_def elim!: bindE_InrE eap_header_octets)

text \<open>The client's answer to the prompt is accepted for the expected password and for no other.\<close>

theorem eap_gtc_agreement:
  assumes "eap_dict d" "gtc_request i = Inr e" "carries chal e state"
    and "password_from_packet req = Inr pw" "method_respond des GtcMethod req chal = Inr (m, req')"
    and "p_dict q = Some d" "od_get (p_attrs q) EAP_MESSAGE_ATTR = od_get (p_attrs req') EAP_MESSAGE_ATTR"
      "od_get (p_attrs q) STATE_ATTR = od_get (p_attrs req') STATE_ATTR"
    and "od_get (demo_sessions (sv_user s)) state = Some i"
  shows "eap_gtc_auth env rt a q s =
    answer env rt (if pw = DEMO_PASSWORD then pt AccessAccept else pt AccessReject) a q (with_sessions (od_del state) s)"
proof -
  obtain l1 l2 where e: "e = [1, word_of_int i, l1, l2, 6] @ ascii ''Password: ''" "0 \<le> i" "i < 256"
    by (rule gtc_request_octets [OF assms(2)])
  obtain x where x: "build_eap_gtc_response i pw = Inr x" "carry_state chal (set_eap x req) = Inr req'"
    using assms(4,5) eap_payload_carried [OF assms(3)] e
    by (auto simp: apply_eap_gtc_challenge_def uint_word_of_int_byte elim!: bindE_InrE)
  obtain k1 k2 where o: "x = [2, word_of_int i, k1, k2, 6] @ pw" by (rule gtc_response_octets [OF x(1)])
  have "carries q x state"
    using carry_state_carried [OF assms(3), of x req] x(2) assms(7,8) by (simp add: carries_def)
  moreover have "eap_packet x" by (simp add: o eap_packet_def)
  ultimately have c: "octets_of EAP_NAME q = Inr x" "octets_of STATE_NAME q = Inr state"
    using carried [OF assms(1,6)] by simp_all
  have "5 \<le> length x" "x ! 4 = 6" "drop 5 x = pw" by (simp_all add: o)
  then show ?thesis
    by (simp add: eap_gtc_auth_def eap_dispatch_def c EAP_TYPE_GTC_def EAPType_IDENTITY_def
        verify_gtc_response_def pop_session_def bindS_def assms(9))
qed

end
