(* ===== verification/MschapAgreement.thy ===== *)
theory MschapAgreement
  imports EapAgreement
begin

text \<open>
  EAP-MSCHAPv2 between \<^verbatim>\<open>pyrad2/eap/mschapv2.py\<close> and the server of
  \<^verbatim>\<open>scenarios/auth_eap_mschapv2.py\<close>: a whole conversation ends in an Access-Accept, with each
  side having checked the other, and the acknowledgement that the server takes for a proof.
\<close>

section \<open>The packets of a conversation\<close>

lemma pack2_octets: "pack_uint 2 x = Inr bs \<Longrightarrow> bs = [word_of_int (x div 256), word_of_int x]"
  by (auto simp: pack_uint_eq_Inr numeral_2_eq_2)

lemma mschap_frame_octets:
  assumes "mschap_frame i oc ident n = Inr h"
  obtains l1 l2 where
    "h = [1, word_of_int i, l1, l2, 26, word_of_int oc, ident, word_of_int (int n div 256), word_of_int (int n)]"
    "0 \<le> i" "i < 256" "0 \<le> oc" "oc < 256"
  using assms
  by (auto simp: mschap_frame_def EAP_TYPE_MSCHAPV2_def pack_uint_eq_Inr be_bytes_1 dest: pack2_octets
      elim!: bindE_InrE request_header_octets)

lemma mschap_ack_octets:
  assumes "0 \<le> i" "i < 256" "0 \<le> oc" "oc < 256"
  shows "mschap_ack i oc = Inr [2, word_of_int i, 0, 6, 26, word_of_int oc]"
  using assms
  by (simp add: mschap_ack_def eap_header_def pack2_def EAPPacketType_RESPONSE_def EAP_TYPE_MSCHAPV2_def
      be_bytes_1 numeral_2_eq_2)

text \<open>\<open>des\<close> works on blocks of eight octets, as its documentation says.\<close>

definition des_blocks :: "des \<Rightarrow> bool" where
  "des_blocks des \<longleftrightarrow> (\<forall>f. des = Some f \<longrightarrow> (\<forall>k b. length b = 8 \<longrightarrow> length (f k b) = 8))"

lemma des_encrypt_length: "des_blocks des \<Longrightarrow> des_encrypt des k b = Inr c \<Longrightarrow> length c = 8"
  by (auto simp: des_encrypt_def des_blocks_def elim!: bindE_InrE split: if_splits option.splits)

lemma nt_response:
  assumes "des_blocks des" "generate_nt_response des c peer user password = Inr nt"
  obtains h ch where "length nt = 24" "nt_password_hash password = Inr h" "length h = 16"
    "challenge_hash peer c user = Inr ch"
proof -
  obtain h ch where h: "challenge_hash peer c user = Inr ch" "nt_password_hash password = Inr h"
      "challenge_response des ch h = Inr nt"
    using assms(2) by (auto simp: generate_nt_response_def elim!: bindE_InrE)
  obtain x y z where "nt = x @ y @ z" "\<exists>k. des_encrypt des k ch = Inr x" "\<exists>k. des_encrypt des k ch = Inr y"
      "\<exists>k. des_encrypt des k ch = Inr z" "length h = 16"
    using h(3) by (auto simp: challenge_response_def Let_def elim!: bindE_InrE split: if_splits)
  then show ?thesis using that h des_encrypt_length [OF assms(1)] by auto
qed

lemma authenticator_response:
  assumes "des_blocks des" "generate_nt_response des c peer user password = Inr nt"
  obtains ar where "generate_authenticator_response password nt peer c user = Inr ar" "length ar = 42" "take 2 ar = ascii ''S=''"
proof -
  obtain h ch where h: "length nt = 24" "nt_password_hash password = Inr h" "length h = 16"
      "challenge_hash peer c user = Inr ch"
    by (rule nt_response [OF assms])
  have "hash_nt_password_hash h = Inr (rfc_md4 h)" using h(3) by (simp add: hash_nt_password_hash_def md4_is_rfc)
  then show ?thesis
    using h that by (simp add: generate_authenticator_response_def Let_def upper_hex_def ascii_def)
qed

lemma challenge_request_octets:
  assumes "mschap_challenge_request i ident c = Inr e"
  obtains l1 l2 m1 m2 where "e = [1, word_of_int i, l1, l2, 26, 1, ident, m1, m2, 16] @ c @ ascii ''pyrad2-demo''"
    "0 \<le> i" "i < 256"
  using assms
  by (auto simp: mschap_challenge_request_def Let_def OP_CHALLENGE_def elim!: bindE_InrE mschap_frame_octets)

lemma success_request_octets:
  assumes "mschap_success_request i ident ar = Inr e" "length ar = 42"
  obtains l1 l2 where "e = [1, word_of_int i, l1, l2, 26, 3, ident, 0, 56] @ ar @ ascii '' M=Welcome''"
    "0 \<le> i" "i < 256"
  using assms
  by (auto simp: mschap_success_request_def Let_def OP_SUCCESS_def ascii_def elim!: bindE_InrE mschap_frame_octets)

lemma success_request_total:
  assumes "length ar = 42"
  shows "\<exists>e. mschap_success_request (i mod 256) ident ar = Inr e"
  using assms
  by (simp add: mschap_success_request_def Let_def mschap_frame_def request_header_def pack2_def ascii_def
      EAP_TYPE_MSCHAPV2_def OP_SUCCESS_def)

lemma rand_bytes_length: "rand_bytes n p = (bs, p') \<Longrightarrow> length bs = n"
  by (induction n arbitrary: p bs p') (auto simp: Let_def split: prod.splits)

lemma build_response_octets:
  assumes "build_response des i e st p = Inr (x, st1, p1)"
    and "e = [1, b, l1, l2, 26, 1, ident, m1, m2, 16] @ c @ rest" "length c = 16"
  obtains peer nt k1 k2 n1 n2 where
    "x = [2, word_of_int i, k1, k2, 26, 2, ident, n1, n2, 49] @ peer @ replicate 8 0 @ nt @ [0] @ ms_user st"
    "length peer = 16" "generate_nt_response des c peer (PBytes (ms_user st)) (PStr (ms_password st)) = Inr nt"
    "st1 = st\<lparr>ms_authenticator := c, ms_peer := peer, ms_nt := nt\<rparr>" "0 \<le> i" "i < 256"
proof -
  obtain peer p2 where p2: "rand_bytes 16 p = (peer, p2)" by (cases "rand_bytes 16 p") auto
  have sl: "\<not> length e < 26" "uint (e ! 9) = 16" "py_slice e 10 26 = c" "e ! 6 = ident"
    using assms(2,3) by (simp_all add: py_slice_def)
  let ?n = "1 + 1 + 2 + 1 + 49 + length (ms_user st)"
  obtain nt h oc l where b: "generate_nt_response des c peer (PBytes (ms_user st)) (PStr (ms_password st)) = Inr nt"
      "eap_header i (5 + ?n) EAP_TYPE_MSCHAPV2 = Inr h" "pack_uint 1 OP_RESPONSE = Inr oc" "pack_uint 2 (int ?n) = Inr l"
      "x = h @ oc @ [ident] @ l @ [49] @ (peer @ replicate 8 0 @ nt @ [0]) @ ms_user st"
      "st1 = st\<lparr>ms_authenticator := c, ms_peer := peer, ms_nt := nt\<rparr>"
    using assms(1) unfolding build_response_def sl(3,4) p2
    by (simp add: sl(1,2) Let_def del: of_nat_add) (elim bindE_InrE, simp)
  obtain k1 k2 where h: "h = [2, word_of_int i, k1, k2, word_of_int EAP_TYPE_MSCHAPV2]" "0 \<le> i" "i < 256"
    using b(2) by (rule eap_header_octets)
  have "oc = [2]" using b(3) by (simp add: OP_RESPONSE_def pack_uint_eq_Inr be_bytes_1)
  then show ?thesis
    using that [OF _ rand_bytes_length [OF p2] b(1,6) h(2,3)] b(5) h(1) pack2_octets [OF b(4)]
    by (simp add: EAP_TYPE_MSCHAPV2_def)
qed

text \<open>Any acknowledgement is accepted.\<close>

lemma ack_accepted:
  assumes "eap_dict d" "p_dict q = Some d" "carries q ([2, b, 0, 6, 26, 3] @ rest) state"
  shows "eap_mschap_auth des env rt a q s = answer env rt (pt AccessAccept) a q (with_sessions (od_del state) s)"
proof -
  have "eap_packet ([2, b, 0, 6, 26, 3] @ rest)" by (simp add: eap_packet_def)
  note c = carried [OF assms] this
  then show ?thesis
    by (simp add: eap_mschap_auth_def eap_dispatch_def EAP_TYPE_MSCHAPV2_def EAPType_IDENTITY_def
        mschap_respond_to_def OP_SUCCESS_def OP_RESPONSE_def Let_def send_access_accept_def pop_session_def bindS_def)
qed

text \<open>The server's side of the second round: the client's response is right.\<close>

lemma response_verified:
  assumes "eap_dict d" "p_dict q = Some d" "carries q x state"
    and x: "x = [2, b, k1, k2, 26, 2, ident, n1, n2, 49] @ peer @ replicate 8 0 @ nt @ [0] @ user"
      "length peer = 16" "length nt = 24"
    and nt: "generate_nt_response des (ses_challenge ses) peer (PBytes (ses_identity ses)) (PStr DEMO_PASSWORD_STR) = Inr nt"
      "generate_authenticator_response (PStr DEMO_PASSWORD_STR) nt peer (ses_challenge ses) (PBytes (ses_identity ses)) = Inr ar"
      "mschap_success_request ((uint b + 1) mod 256) (ses_mschap_id ses) ar = Inr e"
    and "od_get (demo_sessions (sv_user s)) state = Some ses"
  shows "eap_mschap_auth des env rt a q s = send_challenge env rt e state a q s"
proof -
  have "eap_packet x" by (simp add: x eap_packet_def)
  note c = carried [OF assms(1-3)] this
  have o: "59 \<le> length x" "x ! 4 = 26" "x ! 5 = 2" "x ! 9 = 49" "x ! 1 = b" "py_slice x 10 26 = peer" "py_slice x 34 58 = nt"
    using x(2,3) by (simp_all add: x(1) py_slice_def)
  then show ?thesis
    using c nt assms(10)
    by (simp add: eap_mschap_auth_def eap_dispatch_def EAP_TYPE_MSCHAPV2_def EAPType_IDENTITY_def
        mschap_respond_to_def OP_SUCCESS_def OP_RESPONSE_def Let_def verify_mschap_response_def get_session_def
        bindS_def)
qed

text \<open>The client's side of the third: the message is the server's proof, and is acknowledged.\<close>

lemma find_message:
  assumes "take 2 ar = ascii ''S=''"
  shows "find_sub (ascii ''S='') (ident # 0 # 56 # ar @ rest) = Some 3"
proof -
  obtain t where "ar = 83 # 61 # t" using assms by (cases ar; cases "tl ar") (auto simp: ascii_def)
  moreover have "ascii ''S='' = [83, 61]" by code_simp
  ultimately show ?thesis by (simp add: startswith_def numeral_3_eq_3)
qed

lemma success_acknowledged:
  assumes "carries chal e state" "e = [1, word_of_int i, l1, l2, 26, 3, ident, 0, 56] @ ar @ rest" "0 \<le> i" "i < 256"
    and ar: "generate_authenticator_response (PStr (ms_password st)) (ms_nt st) (ms_peer st) (ms_authenticator st)
      (PBytes (ms_user st)) = Inr ar" "length ar = 42" "take 2 ar = ascii ''S=''"
  shows "\<exists>req'. mschap_respond des st req chal = Inr (st, req') \<and> carries req' [2, word_of_int i, 0, 6, 26, 3] state"
proof -
  have "py_slice (ident # 0 # 56 # ar @ rest) 3 (3 + 42) = ar" using ar(2) by (simp add: py_slice_def)
  then have "build_success_response i e st = mschap_ack i OP_SUCCESS"
    using find_message [OF ar(3)]
    by (simp add: build_success_response_def assms(2) verify_authenticator_response_def ar(1))
  also have "\<dots> = Inr [2, word_of_int i, 0, 6, 26, 3]"
    using mschap_ack_octets [OF assms(3,4)] by (simp add: OP_SUCCESS_def)
  finally have ack: "build_success_response i e st = Inr [2, word_of_int i, 0, 6, 26, 3]" .
  obtain req' where r: "carry_state chal (set_eap [2, word_of_int i, 0, 6, 26, 3] req) = Inr req'"
      "carries req' [2, word_of_int i, 0, 6, 26, 3] state"
    using carry_state_carried [OF assms(1)] by blast
  have o: "6 \<le> length e" "e ! 4 = 26" "e ! 5 = 3" "e ! 1 = word_of_int i" by (simp_all add: assms(2))
  have "mschap_respond des st req chal = Inr (st, req')"
    using r(1) ack o assms(3,4) eap_payload_carried [OF assms(1)]
    by (simp add: mschap_respond_def Let_def EAP_TYPE_MSCHAPV2_def OP_CHALLENGE_def OP_SUCCESS_def
        uint_word_of_int_byte)
  then show ?thesis using r(2) by blast
qed

section \<open>Properties\<close>

text \<open>
  C15 The EAP-MSCHAPv2 server of the scenario sends an Access-Accept for every packet that looks
  like the client's acknowledgement of a success: the six octets with OpCode 3 and any State, with
  or without a conversation, before any response was verified. No password is needed.
\<close>

theorem mschap_success_unverified:
  assumes "eap_dict d" "p_dict q = Some d" "carries q ([2, b, 0, 6, 26, 3] @ rest) state"
  shows "eap_mschap_auth des env rt a q s = answer env rt (pt AccessAccept) a q (with_sessions (od_del state) s)"
  using assms by (rule ack_accepted)

lemma mschap_success_unverified_witness:
  "eap_mschap_auth None small_env eap_router (''10.0.0.1'', 9) (eap_exchange [2, 8, 0, 6, 26, 3] []) (eap_start [])
     = answer small_env eap_router (pt AccessAccept) (''10.0.0.1'', 9) (eap_exchange [2, 8, 0, 6, 26, 3] []) (eap_start [])
   \<and> sent_accept (sv_sent (snd (answer small_env eap_router (pt AccessAccept) (''10.0.0.1'', 9)
       (eap_exchange [2, 8, 0, 6, 26, 3] []) (eap_start ([] :: (bytes \<times> mschap_session) list)))))"
proof
  have "carries (eap_exchange [2, 8, 0, 6, 26, 3] []) ([2, 8, 0, 6, 26, 3] @ []) []"
    by (simp add: carries_def eap_exchange_def EAP_MESSAGE_ATTR_def STATE_ATTR_def od_get_def)
  note t = mschap_success_unverified [OF eap_sample_dict_plain(1) _ this, where s = "eap_start []" and des = None
      and env = small_env and rt = eap_router and a = "(''10.0.0.1'', 9)"]
  have "with_sessions (od_del []) (eap_start []) = eap_start ([] :: (bytes \<times> mschap_session) list)"
    by (simp add: with_sessions_def eap_start_def od_del_def)
  with t show "eap_mschap_auth None small_env eap_router (''10.0.0.1'', 9) (eap_exchange [2, 8, 0, 6, 26, 3] []) (eap_start [])
     = answer small_env eap_router (pt AccessAccept) (''10.0.0.1'', 9) (eap_exchange [2, 8, 0, 6, 26, 3] []) (eap_start [])"
    by (simp add: eap_exchange_def)
  show "sent_accept (sv_sent (snd (answer small_env eap_router (pt AccessAccept) (''10.0.0.1'', 9)
       (eap_exchange [2, 8, 0, 6, 26, 3] []) (eap_start ([] :: (bytes \<times> mschap_session) list)))))"
    by code_simp
qed

text \<open>
  C14 EAP-MSCHAPv2 between the client and the server of the scenario, for one user name and one
  password: the server finds the NT-Response in the client's answer right and proves itself with
  the Authenticator Response; the client finds that right in turn and acknowledges it; the server
  answers the acknowledgement with an Access-Accept and forgets the conversation.
\<close>

theorem mschap_mutual_authentication:
  assumes "eap_dict d" "des_blocks des" "length (ses_challenge ses) = 16"
    and "ses_identity ses = ms_user st" "ms_password st = DEMO_PASSWORD_STR"
    and "mschap_challenge_request i (ses_mschap_id ses) (ses_challenge ses) = Inr e" "carries chal e state"
    and "mschap_respond des st req chal = Inr (st1, req1)"
    and "p_dict q = Some d" "od_get (p_attrs q) EAP_MESSAGE_ATTR = od_get (p_attrs req1) EAP_MESSAGE_ATTR"
      "od_get (p_attrs q) STATE_ATTR = od_get (p_attrs req1) STATE_ATTR"
    and "od_get (demo_sessions (sv_user s)) state = Some ses"
  shows "\<exists>e2 ack. eap_mschap_auth des env rt a q s = send_challenge env rt e2 state a q s
    \<and> (\<forall>chal2 req2. carries chal2 e2 state \<longrightarrow>
        (\<exists>req3. mschap_respond des st1 req2 chal2 = Inr (st1, req3) \<and> carries req3 ack state))
    \<and> (\<forall>q2 s2. p_dict q2 = Some d \<longrightarrow> carries q2 ack state \<longrightarrow>
        eap_mschap_auth des env rt a q2 s2 =
          answer env rt (pt AccessAccept) a q2 (with_sessions (od_del state) s2))"
proof -
  obtain l1 l2 m1 m2 where e: "e = [1, word_of_int i, l1, l2, 26, 1, ses_mschap_id ses, m1, m2, 16]
      @ ses_challenge ses @ ascii ''pyrad2-demo''" "0 \<le> i" "i < 256"
    by (rule challenge_request_octets [OF assms(6)])
  obtain x p1 where x: "build_response des i e st req = Inr (x, st1, p1)" "carry_state chal (set_eap x p1) = Inr req1"
    using assms(8) eap_payload_carried [OF assms(7)] e
    by (auto simp: mschap_respond_def Let_def EAP_TYPE_MSCHAPV2_def OP_CHALLENGE_def uint_word_of_int_byte elim!: bindE_InrE)
  obtain peer nt k1 k2 n1 n2 where r:
    "x = [2, word_of_int i, k1, k2, 26, 2, ses_mschap_id ses, n1, n2, 49] @ peer @ replicate 8 0 @ nt @ [0] @ ms_user st"
    "length peer = 16"
    "generate_nt_response des (ses_challenge ses) peer (PBytes (ms_user st)) (PStr (ms_password st)) = Inr nt"
    "st1 = st\<lparr>ms_authenticator := ses_challenge ses, ms_peer := peer, ms_nt := nt\<rparr>"
    by (rule build_response_octets [OF x(1) e(1) assms(3)])
  obtain ar where ar: "generate_authenticator_response (PStr (ms_password st)) nt peer (ses_challenge ses) (PBytes (ms_user st)) = Inr ar"
      "length ar = 42" "take 2 ar = ascii ''S=''"
    by (rule authenticator_response [OF assms(2) r(3)])
  have nt: "length nt = 24" by (rule nt_response [OF assms(2) r(3)])
  let ?i = "(uint (word_of_int i :: byte) + 1) mod 256"
  obtain e2 where e2: "mschap_success_request ?i (ses_mschap_id ses) ar = Inr e2"
    using success_request_total [OF ar(2)] by blast
  obtain j1 j2 where o: "e2 = [1, word_of_int ?i, j1, j2, 26, 3, ses_mschap_id ses, 0, 56] @ ar @ ascii '' M=Welcome''"
    by (rule success_request_octets [OF e2 ar(2)])
  have "carries q x state"
    using carry_state_carried [OF assms(7), of x p1] x(2) assms(10,11) by (simp add: carries_def)
  then have 1: "eap_mschap_auth des env rt a q s = send_challenge env rt e2 state a q s"
    using response_verified [OF assms(1,9) _ r(1,2) nt _ _ e2 assms(12)] r(3) ar(1) assms(4,5) by simp
  have 2: "\<exists>req3. mschap_respond des st1 req2 chal2 = Inr (st1, req3) \<and> carries req3 [2, word_of_int ?i, 0, 6, 26, 3] state"
    if "carries chal2 e2 state" for chal2 req2
    by (rule success_acknowledged [OF that o]) (use ar r(4) in simp_all)
  have 3: "eap_mschap_auth des env rt a q2 s2 = answer env rt (pt AccessAccept) a q2 (with_sessions (od_del state) s2)"
    if "p_dict q2 = Some d" "carries q2 [2, word_of_int ?i, 0, 6, 26, 3] state" for q2 s2
    by (rule ack_accepted [OF assms(1) that(1), where rest = "[]"]) (use that(2) in simp)
  show ?thesis using 1 2 3 by blast
qed

text \<open>A block function of the right sizes in the place of DES.\<close>

definition sample_des :: des where
  "sample_des = Some (\<lambda>k b. map ((+) (hd k)) b)"

definition sample_session :: mschap_session where
  "sample_session = \<lparr>ses_eap_id = 8, ses_mschap_id = 3, ses_challenge = replicate 16 1, ses_identity = [97]\<rparr>"

definition sample_method :: mschap_state where
  "sample_method = mschap_init\<lparr>ms_user := [97], ms_password := DEMO_PASSWORD_STR\<rparr>"

definition sample_mschap_challenge :: bytes where
  "sample_mschap_challenge = [1, 8, 0, 37, 26, 1, 3, 0, 32, 16] @ replicate 16 1 @ ascii ''pyrad2-demo''"

lemma expand_total: "length k = 7 \<Longrightarrow> \<exists>x. expand_des_key k = Inr x"
  by (simp add: expand_des_key_def Let_def)

lemma des_total:
  assumes "length k = 7" "length b = 8"
  shows "\<exists>c. des_encrypt (Some f) k b = Inr c"
  using expand_total [OF assms(1)] assms(2) by (auto simp: des_encrypt_def)

lemma length_rfc_md4: "length (rfc_md4 m) = 16"
  by (simp add: rfc_md4_def rfc_out_def split: prod.split)

lemma challenge_response_total:
  assumes "length ch = 8" "length h = 16"
  shows "\<exists>nt. challenge_response (Some f) ch h = Inr nt"
proof -
  let ?z = "h @ replicate 5 0"
  have "length (py_slice ?z 0 7) = 7" "length (py_slice ?z 7 14) = 7" "length (py_slice ?z 14 21) = 7"
    using assms(2) by (simp_all add: py_slice_def)
  then show ?thesis
    using des_total [of "py_slice ?z 0 7" ch f] des_total [of "py_slice ?z 7 14" ch f]
      des_total [of "py_slice ?z 14 21" ch f] assms
    by (auto simp: challenge_response_def Let_def)
qed

lemma nt_response_total:
  assumes "length c = 16" "length peer = 16" "utf16le_encode pw = Inr t" "length t < 1000"
  shows "\<exists>nt. generate_nt_response (Some f) c peer (PBytes user) (PStr pw) = Inr nt"
proof -
  have "nt_password_hash (PStr pw) = Inr (rfc_md4 t)"
    using assms(3,4) by (simp add: nt_password_hash_def md4_is_rfc)
  moreover have "\<exists>ch. challenge_hash peer c (PBytes user) = Inr ch \<and> length ch = 8"
    using assms(1,2) by (simp add: challenge_hash_def plain_bytes_def)
  ultimately show ?thesis using challenge_response_total [of _ "rfc_md4 t" f] length_rfc_md4
    by (auto simp: generate_nt_response_def)
qed

lemma sample_respond:
  "\<exists>st1 req1. mschap_respond sample_des sample_method (eap_packet_with [])
    (eap_exchange sample_mschap_challenge (replicate 16 2)) = Inr (st1, req1)"
proof -
  let ?chal = "eap_exchange sample_mschap_challenge (replicate 16 2)"
  have c: "carries ?chal sample_mschap_challenge (replicate 16 2)"
    by (simp add: carries_def eap_exchange_def EAP_MESSAGE_ATTR_def STATE_ATTR_def od_get_def)
  have len: "length sample_mschap_challenge = 37" "sample_mschap_challenge ! 9 = 16" "sample_mschap_challenge ! 4 = 26"
      "sample_mschap_challenge ! 5 = 1" "sample_mschap_challenge ! Suc 0 = 8"
      "py_slice sample_mschap_challenge 10 26 = replicate 16 1"
    by code_simp+
  obtain peer p1 where p: "rand_bytes 16 (eap_packet_with []) = (peer, p1)" by (cases "rand_bytes 16 (eap_packet_with [])") auto
  obtain t where t: "utf16le_encode DEMO_PASSWORD_STR = Inr t" "length t < 1000"
    by (simp add: utf16le_encode_def DEMO_PASSWORD_STR_def utf16_char_def scalar_def)
  obtain nt where nt: "generate_nt_response sample_des (replicate 16 1) peer (PBytes [97]) (PStr DEMO_PASSWORD_STR) = Inr nt"
    using nt_response_total [OF _ rand_bytes_length [OF p] t, of "replicate 16 1"] by (auto simp: sample_des_def)
  have "okE (eap_header 8 60 EAP_TYPE_MSCHAPV2) (\<lambda>_. okE (pack_uint 1 OP_RESPONSE) (\<lambda>_. okE (pack_uint 2 55) (\<lambda>_. True)))"
    by code_simp
  then obtain h oc l where h: "eap_header 8 60 EAP_TYPE_MSCHAPV2 = Inr h" "pack_uint 1 OP_RESPONSE = Inr oc" "pack_uint 2 55 = Inr l"
    by (auto dest!: okE_Inr)
  have "\<exists>x st1. build_response sample_des 8 sample_mschap_challenge sample_method (eap_packet_with []) = Inr (x, st1, p1)"
    using nt h by (simp add: build_response_def len p Let_def sample_method_def)
  then obtain x st1 where x: "build_response sample_des 8 sample_mschap_challenge sample_method (eap_packet_with []) = Inr (x, st1, p1)"
    by blast
  obtain req1 where "carry_state ?chal (set_eap x p1) = Inr req1" using carry_state_carried [OF c] by blast
  then show ?thesis
    using x by (simp add: mschap_respond_def eap_payload_carried [OF c] len EAP_TYPE_MSCHAPV2_def OP_CHALLENGE_def)
qed

lemma mschap_mutual_authentication_witness:
  "\<exists>st1 req1 e2. mschap_respond sample_des sample_method (eap_packet_with [])
        (eap_exchange sample_mschap_challenge (replicate 16 2)) = Inr (st1, req1)
    \<and> eap_mschap_auth sample_des small_env eap_router (''10.0.0.1'', 9) (eap_packet_with (p_attrs req1))
        (eap_start [(replicate 16 2, sample_session)])
      = send_challenge small_env eap_router e2 (replicate 16 2) (''10.0.0.1'', 9) (eap_packet_with (p_attrs req1))
          (eap_start [(replicate 16 2, sample_session)])"
proof -
  let ?chal = "eap_exchange sample_mschap_challenge (replicate 16 2)" and ?s = "eap_start [(replicate 16 2, sample_session)]"
  obtain st1 req1 where r: "mschap_respond sample_des sample_method (eap_packet_with []) ?chal = Inr (st1, req1)"
    using sample_respond by blast
  have "okE (mschap_challenge_request 8 3 (replicate 16 1)) (\<lambda>x. x = sample_mschap_challenge)" by code_simp
  then have e: "mschap_challenge_request 8 (ses_mschap_id sample_session) (ses_challenge sample_session)
      = Inr sample_mschap_challenge"
    by (auto simp: sample_session_def dest: okE_Inr)
  have c: "carries ?chal sample_mschap_challenge (replicate 16 2)"
    by (simp add: carries_def eap_exchange_def EAP_MESSAGE_ATTR_def STATE_ATTR_def od_get_def)
  have d: "des_blocks sample_des" by (simp add: des_blocks_def sample_des_def)
  have "\<exists>e2. eap_mschap_auth sample_des small_env eap_router (''10.0.0.1'', 9) (eap_packet_with (p_attrs req1)) ?s
      = send_challenge small_env eap_router e2 (replicate 16 2) (''10.0.0.1'', 9) (eap_packet_with (p_attrs req1)) ?s"
    using mschap_mutual_authentication [OF eap_sample_dict_plain(1) d _ _ _ e c r, where s = ?s
        and q = "eap_packet_with (p_attrs req1)" and env = small_env and rt = eap_router and a = "(''10.0.0.1'', 9)"]
    by (auto simp: sample_session_def sample_method_def od_get_def)
  then show ?thesis using r by blast
qed

end
