(* ===== verification/ProxyDemo.thy ===== *)
theory ProxyDemo
  imports Scenario Requests
begin

text \<open>
  \<^verbatim>\<open>scenarios/proxy.py\<close>: a proxy on \<^verbatim>\<open>pyrad2/proxy.py\<close> that forwards Access-Requests to one upstream
  server and relays its replies, and that upstream server. The proxy's state is the table of
  routes by identifier. A route names the address of the client; its socket is the one for
  authentication requests, on which the request came in.
\<close>

record proxy_state =
  px_pending :: "(int option, source) od"

section \<open>The two servers\<close>

definition framed_server_reply :: "router \<Rightarrow> packet \<Rightarrow> packet res" where
  "framed_server_reply rt p =
     (case create_reply_packet rt None None framed_attributes p of Some r \<Rightarrow> r | None \<Rightarrow> Inl RuntimeError)"

lemma framed_server_reply_total:
  assumes "framed_plain (p_dict p)"
  shows "create_reply_packet rt None None framed_attributes p = Some (framed_server_reply rt p)"
  using rs_framed_total [OF assms] by (auto simp: framed_server_reply_def create_reply_packet_def)

definition demo_upstream_auth :: "env \<Rightarrow> router \<Rightarrow> 'u handler" where
  "demo_upstream_auth env rt p =
     bindS (liftE (if p_source p = None then Inl AttributeError else Inr ())) (\<lambda>_.
     bindS (liftE (getitem USER_NAME p)) (\<lambda>_.
     bindS (liftE (framed_server_reply rt p)) (\<lambda>reply.
     send_reply_packet env rt (reply\<lparr>p_code := pt AccessAccept\<rparr>))))"

definition set_route :: "int option \<Rightarrow> source \<Rightarrow> proxy_state srv \<Rightarrow> proxy_state srv" where
  "set_route i a s = s\<lparr>sv_user := (sv_user s)\<lparr>px_pending := od_set i a (px_pending (sv_user s))\<rparr>\<rparr>"

definition drop_route :: "int option \<Rightarrow> proxy_state srv \<Rightarrow> proxy_state srv" where
  "drop_route i s = s\<lparr>sv_user := (sv_user s)\<lparr>px_pending := od_del i (px_pending (sv_user s))\<rparr>\<rparr>"

definition demo_proxy_auth :: "source \<Rightarrow> proxy_state handler" where
  "demo_proxy_auth upstream p =
     (case p_source p of
        None \<Rightarrow> failS AttributeError
      | Some a \<Rightarrow>
          bindS (modifyS (set_route (p_id p) a)) (\<lambda>_.
          bindS (liftE (request_packet p)) (\<lambda>(raw, _).
          sendto raw (Some upstream))))"

text \<open>\<^verbatim>\<open>_handle_proxy_packet\<close>: the checks of the base class, then the octets as they came.\<close>

definition demo_handle_proxy_packet :: "router \<Rightarrow> packet \<Rightarrow> (proxy_state, unit) srvm" where
  "demo_handle_proxy_packet rt p s =
     bindS (liftE (handle_proxy_packet rt p)) (\<lambda>_.
     bindS (\<lambda>s. (Inr (od_get (px_pending (sv_user s)) (p_id p)), drop_route (p_id p) s)) (\<lambda>route.
     case route of
       None \<Rightarrow> retS ()
     | Some a \<Rightarrow> (case p_raw p of Some w \<Rightarrow> sendto w (Some a) | None \<Rightarrow> failS TypeError))) s"

definition proxy_handlers :: "source \<Rightarrow> proxy_state handlers" where
  "proxy_handlers upstream =
     \<lparr>h_auth = demo_proxy_auth upstream, h_acct = (\<lambda>_. retS ()), h_coa = (\<lambda>_. retS ()),
      h_disconnect = (\<lambda>_. retS ())\<rparr>"

text \<open>\<^verbatim>\<open>Proxy._process_input\<close> with the method above; \<open>None\<close> is the proxy's own socket.\<close>

definition demo_proxy_input ::
    "env \<Rightarrow> router \<Rightarrow> server_conf \<Rightarrow> source \<Rightarrow> fdkind option \<Rightarrow> bytes \<Rightarrow> source \<Rightarrow> (proxy_state, unit) srvm" where
  "demo_proxy_input env rt conf upstream fd data a =
     (case fd of
        None \<Rightarrow> bindS (grab_packet env rt data a) (demo_handle_proxy_packet rt)
      | Some fd \<Rightarrow> process_input env rt conf (proxy_handlers upstream) fd data a)"

definition proxy_turn ::
    "env \<Rightarrow> router \<Rightarrow> server_conf \<Rightarrow> source \<Rightarrow> fdkind option \<times> bytes \<times> source \<Rightarrow> (proxy_state, unit) srvm" where
  "proxy_turn env rt conf upstream ev =
     (case ev of (fd, data, a) \<Rightarrow>
        catchS (demo_proxy_input env rt conf upstream fd data a)
          (\<lambda>e. if e \<in> dropped then retS () else failS e))"

fun proxy_run ::
    "env \<Rightarrow> router \<Rightarrow> server_conf \<Rightarrow> source \<Rightarrow> (fdkind option \<times> bytes \<times> source) list \<Rightarrow> (proxy_state, unit) srvm" where
  "proxy_run env rt conf upstream [] = retS ()"
| "proxy_run env rt conf upstream (ev # evs) =
     bindS (proxy_turn env rt conf upstream ev) (\<lambda>_. proxy_run env rt conf upstream evs)"

section \<open>Forwarding\<close>

lemma route_fields [simp]:
  "sv_sent (set_route i a s) = sv_sent s" "sv_sent (drop_route i s) = sv_sent s"
  "px_pending (sv_user (set_route i a s)) = od_set i a (px_pending (sv_user s))"
  "px_pending (sv_user (drop_route i s)) = od_del i (px_pending (sv_user s))"
  by (simp_all add: set_route_def drop_route_def)

text \<open>What the dispatcher hands to the handler of requests.\<close>

definition forwardable :: "env \<Rightarrow> router \<Rightarrow> bytes \<Rightarrow> source \<Rightarrow> packet \<Rightarrow> bool" where
  "forwardable env rt w a p \<longleftrightarrow>
     (\<exists>p0 k p1. grabbed env rt w a p0 \<and> p_code p0 = pt AccessRequest \<and> rt_validate_policy rt p0 = Inr p1
        \<and> p = p1\<lparr>p_dedup := k\<rparr>)"

lemma forwardable_fields:
  assumes "forwardable env rt w a p"
  shows "p_source p = Some a" "p_class p = AuthC" "p_version p = V1_0" "p_id p = Some (uint (w ! 1))"
    "p_auth p = Some (py_slice w 4 20)" "length (py_slice w 4 20) = 16"
proof -
  obtain p0 k p1 where g: "grabbed env rt w a p0" "p_code p0 = pt AccessRequest" "rt_validate_policy rt p0 = Inr p1"
      "p = p1\<lparr>p_dedup := k\<rparr>"
    using assms unfolding forwardable_def by blast
  obtain s q rng cur cur' where q: "p0 = q\<lparr>p_source := Some a\<rparr>"
    and pp: "parse_packet w s (rt_dict rt) V1_0 rng 0 cur = Inr (q, cur')"
    using g(1) unfolding grabbed_def by blast
  note f = parsed_fields [OF pp]
  have w: "w \<noteq> []" using f(2) by auto
  have same: "send_frame p1 = send_frame p0 \<and> p_auth p1 = Some (py_slice w 4 20)"
    by (rule policy_same [OF g(3)]) (use f q w in simp_all)
  note h = send_frame_fields [OF conjunct1 [OF same]] send_frame_more [OF conjunct1 [OF same]]
  show "p_source p = Some a" "p_version p = V1_0" "p_id p = Some (uint (w ! 1))"
    "p_auth p = Some (py_slice w 4 20)"
    using h f same q by (simp_all add: g(4))
  show "p_class p = AuthC"
    using h(8) f(3,9) q g(2) by (simp add: g(4) packet_class_of_def)
  show "length (py_slice w 4 20) = 16" using f(2) by (simp add: py_slice_def)
qed

text \<open>Serialising a request that has its identifier and authenticator changes neither.\<close>

lemma forwarded_octets:
  assumes "request_packet p = Inr (raw, p')" "p_class p = AuthC" "p_version p = V1_0" "p_id p = Some i"
    "p_auth p = Some a" "length a = 16"
  shows "uint (raw ! 1) = i \<and> py_slice raw 4 20 = a"
proof -
  have e: "encode_v10_random p = Inr (raw, p')"
    using assms(1-4) by (simp add: request_packet_def Let_def ensure_id_def)
  obtain p1 attr h b where r: "refresh_if_set (need_authenticator p) = Inr p1"
      "pkt_encode_attributes p1 = Inr (attr, p')" "pack_header p' (20 + length attr) = Inr h"
      "p_auth p' = Some b" "raw = h @ pack_s 16 b @ attr"
    by (rule encode_v10_randomE [OF e]) (rule that)
  have "send_frame p' = send_frame p"
    using send.trans [OF send.need send.trans [OF send.refreshed_if_set [OF r(1)] send.serialised [OF r(2)]]] .
  from send_frame_fields(4) [OF this] have i: "p_id p' = Some i" using assms(4) by simp
  have "auth_kept p p'"
    using auth.trans [OF auth.need auth.trans [OF auth.refreshed_if_set [OF r(1)] auth.serialised [OF r(2)]]] .
  then have "p_auth p' = Some a" using assms(5) by (simp add: auth_kept_def)
  moreover have "says raw p'" by (rule random_says [OF e]) (simp add: auth16_def assms(5,6))
  ultimately show ?thesis using i by (simp add: says_def)
qed

lemma proxy_auth_sends:
  assumes "forwardable env rt w a p" "demo_proxy_auth upstream p s = (Inr (), s1)"
  obtains raw where "sv_sent s1 = sv_sent s @ [(raw, upstream)]" "uint (raw ! 1) = uint (w ! 1)"
    "py_slice raw 4 20 = py_slice w 4 20"
    "px_pending (sv_user s1) = od_set (Some (uint (w ! 1))) a (px_pending (sv_user s))"
proof -
  note f = forwardable_fields [OF assms(1)]
  obtain raw p' where r: "request_packet p = Inr (raw, p')"
    using assms(2) f(1) by (cases "request_packet p") (auto simp: demo_proxy_auth_def modifyS_def bindS_def failS_def liftE_def)
  then have "s1 = (set_route (p_id p) a s)\<lparr>sv_sent := sv_sent s @ [(raw, upstream)]\<rparr>"
    using assms(2) f(1) by (simp add: demo_proxy_auth_def modifyS_def bindS_def liftE_def sendto_def)
  then show ?thesis using that [of raw] forwarded_octets [OF r f(2-6)] f(4) by simp
qed

section \<open>Relaying\<close>

text \<open>A reply of an upstream server that the base class lets through.\<close>

definition upstream_reply :: "env \<Rightarrow> router \<Rightarrow> bytes \<Rightarrow> source \<Rightarrow> 'u srv \<Rightarrow> bool" where
  "upstream_reply env rt w from s \<longleftrightarrow>
     (\<exists>secret p. od_get (rt_hosts rt) (fst from) = Some secret \<and> fst (rt_parse env rt w secret s) = Inr p)
     \<and> uint (hd w) \<in> {pt AccessAccept, pt AccessReject, pt AccountingResponse}"

lemma proxy_relays:
  assumes "upstream_reply env rt w from s"
  obtains s' where "proxy_turn env rt conf upstream (None, w, from) s = (Inr (), s')"
    "sv_sent s' = sv_sent s @ (case od_get (px_pending (sv_user s)) (Some (uint (w ! 1))) of None \<Rightarrow> [] | Some a \<Rightarrow> [(w, a)])"
    "px_pending (sv_user s') = od_del (Some (uint (w ! 1))) (px_pending (sv_user s))"
proof -
  obtain secret p where u: "od_get (rt_hosts rt) (fst from) = Some secret" "fst (rt_parse env rt w secret s) = Inr p"
      "uint (hd w) \<in> {pt AccessAccept, pt AccessReject, pt AccountingResponse}"
    using assms unfolding upstream_reply_def by blast
  have l: "lookup_secret rt (fst from) = Inr secret" using u(1) by (simp add: lookup_secret_def)
  obtain cur where "parse_packet w secret (rt_dict rt) V1_0 (env_rng env (sv_packets s)) 0 (sv_cur s) = Inr (p, cur)"
    using u(2) by (auto simp: rt_parse_Inr)
  note f = parsed_fields [OF this]
  obtain s1 where s1: "rt_parse env rt w secret s = (Inr p, s1)" "sv_sent s1 = sv_sent s" "sv_user s1 = sv_user s"
    using u(2) by (auto simp: rt_parse_def split: if_splits)
  let ?p = "p\<lparr>p_source := Some from\<rparr>"
  have g: "grab_packet env rt w from s = (Inr ?p, s1)" 
    by (simp add: grab_packet_def l bindS_ok [where m = "rt_parse env rt w secret" and s = s, OF s1(1)] retS_def)
  have h: "handle_proxy_packet rt ?p = Inr (?p\<lparr>p_secret := secret\<rparr>)"
    using u(1,3) f(3) by (cases "from") (simp add: handle_proxy_packet_def)
  let ?r = "od_get (px_pending (sv_user s)) (Some (uint (w ! 1)))" and ?s2 = "drop_route (Some (uint (w ! 1))) s1"
  have "demo_handle_proxy_packet rt ?p s1 = (case ?r of None \<Rightarrow> retS () | Some a \<Rightarrow> sendto w (Some a)) ?s2"
    using f(1,4) h s1(3) by (simp add: demo_handle_proxy_packet_def bindS_def split: option.split)
  then have t: "proxy_turn env rt conf upstream (None, w, from) s
      = catchS (\<lambda>_. (case ?r of None \<Rightarrow> retS () | Some a \<Rightarrow> sendto w (Some a)) ?s2)
          (\<lambda>e. if e \<in> dropped then retS () else failS e) s"
    by (simp add: proxy_turn_def demo_proxy_input_def catchS_def 
        bindS_ok [where m = "grab_packet env rt w from" and s = s, OF g])
  show ?thesis
  proof (cases ?r)
    case None
    show ?thesis by (rule that [of ?s2]) (use t None s1 in \<open>simp_all add: catchS_def retS_def\<close>)
  next
    case (Some a)
    show ?thesis
      by (rule that [of "?s2\<lparr>sv_sent := sv_sent s1 @ [(w, a)]\<rparr>"]) (use t Some s1 in \<open>simp_all add: catchS_def sendto_def\<close>)
  qed
qed

section \<open>Properties\<close>

text \<open>A router with two clients and an upstream server, and one step of it, for the witnesses.\<close>

definition proxy_router :: router where
  "proxy_router = \<lparr>rt_hosts = [(''10.0.0.1'', [115, 51]), (''10.0.0.2'', [115, 51]), (''10.0.0.9'', [115, 51])],
     rt_dict = None, rt_verify = True, rt_require_ma = False, rt_require_eap = False\<rparr>"

definition upstream_addr :: source where
  "upstream_addr = (''10.0.0.9'', 1812)"

definition proxy_start :: "proxy_state srv" where
  "proxy_start = start None \<lparr>px_pending = []\<rparr>"

definition forwarded_then :: "source \<Rightarrow> bytes \<Rightarrow> proxy_state srv \<Rightarrow> (proxy_state srv \<Rightarrow> bool) \<Rightarrow> bool" where
  "forwarded_then a w s P =
     (uint (hd w) = pt AccessRequest \<and> lookup_secret proxy_router (fst a) = Inr [115, 51] \<and>
      okE (parse_packet w [115, 51] None V1_0 (\<lambda>_. 0) 0 0) (\<lambda>(q, _).
      okE (rt_validate_policy proxy_router (q\<lparr>p_source := Some a\<rparr>)) (\<lambda>p.
      fst (demo_proxy_auth upstream_addr p s) = Inr () \<and> P (snd (demo_proxy_auth upstream_addr p s)))))"

definition replied :: "bytes \<Rightarrow> proxy_state srv \<Rightarrow> bool" where
  "replied w s = (uint (hd w) = pt AccessAccept \<and> okE (fst (rt_parse small_env proxy_router w [115, 51] s)) (\<lambda>_. True))"

lemma forwarded_thenE:
  assumes "forwarded_then a w s P"
  obtains p s1 where "forwardable small_env proxy_router w a p" "demo_proxy_auth upstream_addr p s = (Inr (), s1)" "P s1"
proof -
  obtain q cur p where q: "uint (hd w) = pt AccessRequest" "lookup_secret proxy_router (fst a) = Inr [115, 51]"
      "parse_packet w [115, 51] None V1_0 (\<lambda>_. 0) 0 0 = Inr (q, cur)"
      "rt_validate_policy proxy_router (q\<lparr>p_source := Some a\<rparr>) = Inr p"
      "fst (demo_proxy_auth upstream_addr p s) = Inr ()" "P (snd (demo_proxy_auth upstream_addr p s))"
    using assms unfolding forwarded_then_def by (auto dest!: okE_Inr)
  have "grabbed small_env proxy_router w a (q\<lparr>p_source := Some a\<rparr>)"
    unfolding grabbed_def using q(2,3) by (intro exI conjI) (auto simp: proxy_router_def)
  then have "forwardable small_env proxy_router w a p"
    using q(1,4) parsed_fields(3) [OF q(3)] unfolding forwardable_def
    by (intro exI [of _ "q\<lparr>p_source := Some a\<rparr>"] exI [of _ "p_dedup p"] exI [of _ p]) simp
  then show ?thesis by (rule that) (use q(5,6) in \<open>simp_all add: prod_eq_iff\<close>)
qed

lemma replied_upstream: "replied w s \<Longrightarrow> upstream_reply small_env proxy_router w upstream_addr s"
  by (auto simp: replied_def upstream_reply_def proxy_router_def upstream_addr_def od_get_def dest!: okE_Inr)

text \<open>
  C26 A request goes through the proxy and its reply comes back to the client: the datagram sent
  upstream has the identifier and the Request Authenticator of the client's, and a reply with that
  identifier is sent to the client octet by octet, after which the route is forgotten. So the
  client, which checks the reply against its own request, can verify it.
\<close>

theorem proxy_relays_reply:
  assumes "forwardable env rt w0 a p" "demo_proxy_auth upstream p s = (Inr (), s1)"
    and "upstream_reply env rt w from s1" "w ! 1 = w0 ! 1"
  shows "\<exists>raw s2. sv_sent s1 = sv_sent s @ [(raw, upstream)] \<and> raw ! 1 = w0 ! 1
    \<and> py_slice raw 4 20 = py_slice w0 4 20
    \<and> proxy_turn env rt conf upstream (None, w, from) s1 = (Inr (), s2)
    \<and> sv_sent s2 = sv_sent s1 @ [(w, a)] \<and> od_get (px_pending (sv_user s2)) (Some (uint (w0 ! 1))) = None"
proof -
  obtain raw where r: "sv_sent s1 = sv_sent s @ [(raw, upstream)]" "uint (raw ! 1) = uint (w0 ! 1)"
      "py_slice raw 4 20 = py_slice w0 4 20"
      "px_pending (sv_user s1) = od_set (Some (uint (w0 ! 1))) a (px_pending (sv_user s))"
    by (rule proxy_auth_sends [OF assms(1,2)])
  obtain s2 where t: "proxy_turn env rt conf upstream (None, w, from) s1 = (Inr (), s2)"
    "sv_sent s2 = sv_sent s1 @ (case od_get (px_pending (sv_user s1)) (Some (uint (w ! 1))) of None \<Rightarrow> [] | Some a \<Rightarrow> [(w, a)])"
    "px_pending (sv_user s2) = od_del (Some (uint (w ! 1))) (px_pending (sv_user s1))"
    by (rule proxy_relays [OF assms(3)])
  have "raw ! 1 = w0 ! 1" using r(2) by (simp only: word_uint_eq_iff)
  then show ?thesis using r t assms(4) by (auto simp: od.get_set od.get_del)
qed

lemma proxy_relays_reply_witness:
  "\<exists>p s1 s2. demo_proxy_auth upstream_addr p proxy_start = (Inr (), s1)
    \<and> proxy_turn small_env proxy_router all_ports upstream_addr (None, [2, 7, 0, 20] @ replicate 16 9, upstream_addr) s1 = (Inr (), s2)
    \<and> sv_sent s2 = sv_sent s1 @ [([2, 7, 0, 20] @ replicate 16 9, (''10.0.0.1'', 5))]"
proof -
  let ?w = "[2, 7, 0, 20] @ replicate 16 9 :: bytes"
  have "forwarded_then (''10.0.0.1'', 5) ([1, 7, 0, 20] @ replicate 16 5) proxy_start (replied ?w)" by code_simp
  then obtain p s1 where p: "forwardable small_env proxy_router ([1, 7, 0, 20] @ replicate 16 5) (''10.0.0.1'', 5) p"
      "demo_proxy_auth upstream_addr p proxy_start = (Inr (), s1)" "replied ?w s1"
    by (rule forwarded_thenE)
  show ?thesis
    using proxy_relays_reply [OF p(1,2) replied_upstream [OF p(3)], where conf = all_ports] p(2) by auto
qed

text \<open>
  C27 The routes of the proxy are kept by identifier alone: when two clients use the same identifier
  at the same time, the first reply goes to the client that came second, and the reply to the first
  client's request, when it comes, is dropped: the first client gets nothing.
\<close>

theorem proxy_identifier_collision:
  assumes "forwardable env rt wa a p" "forwardable env rt wb b q" "wa ! 1 = wb ! 1"
    and "demo_proxy_auth upstream p s = (Inr (), s1)" "demo_proxy_auth upstream q s1 = (Inr (), s2)"
    and "upstream_reply env rt w from s2" "w ! 1 = wa ! 1"
    and "proxy_turn env rt conf upstream (None, w, from) s2 = (Inr (), s3)"
    and "upstream_reply env rt w' from s3" "w' ! 1 = wa ! 1"
  shows "\<exists>s4. proxy_turn env rt conf upstream (None, w', from) s3 = (Inr (), s4)
    \<and> sv_sent s4 = sv_sent s2 @ [(w, b)]"
proof -
  obtain raw where q: "px_pending (sv_user s2) = od_set (Some (uint (wb ! 1))) b (px_pending (sv_user s1))"
    by (rule proxy_auth_sends [OF assms(2,5)])
  obtain s3' where t: "proxy_turn env rt conf upstream (None, w, from) s2 = (Inr (), s3')"
    "sv_sent s3' = sv_sent s2 @ (case od_get (px_pending (sv_user s2)) (Some (uint (w ! 1))) of None \<Rightarrow> [] | Some a \<Rightarrow> [(w, a)])"
    "px_pending (sv_user s3') = od_del (Some (uint (w ! 1))) (px_pending (sv_user s2))"
    by (rule proxy_relays [OF assms(6)])
  obtain s4 where v: "proxy_turn env rt conf upstream (None, w', from) s3 = (Inr (), s4)"
    "sv_sent s4 = sv_sent s3 @ (case od_get (px_pending (sv_user s3)) (Some (uint (w' ! 1))) of None \<Rightarrow> [] | Some a \<Rightarrow> [(w', a)])"
    by (rule proxy_relays [OF assms(9)])
  have "s3' = s3" using t(1) assms(8) by simp
  then show ?thesis using q t(2,3) v assms(3,7,10) by (simp add: od.get_set od.get_del)
qed

lemma proxy_identifier_collision_witness:
  "\<exists>p q s1 s2 s3 s4. demo_proxy_auth upstream_addr p proxy_start = (Inr (), s1)
    \<and> demo_proxy_auth upstream_addr q s1 = (Inr (), s2)
    \<and> proxy_turn small_env proxy_router all_ports upstream_addr (None, [2, 7, 0, 20] @ replicate 16 9, upstream_addr) s2 = (Inr (), s3)
    \<and> proxy_turn small_env proxy_router all_ports upstream_addr (None, [2, 7, 0, 20] @ replicate 16 8, upstream_addr) s3 = (Inr (), s4)
    \<and> sv_sent s4 = sv_sent s2 @ [([2, 7, 0, 20] @ replicate 16 9, (''10.0.0.2'', 6))]"
proof -
  let ?w = "[2, 7, 0, 20] @ replicate 16 9 :: bytes" and ?w' = "[2, 7, 0, 20] @ replicate 16 8 :: bytes"
  let ?t = "proxy_turn small_env proxy_router all_ports upstream_addr (None, ?w, upstream_addr)"
  have "forwarded_then (''10.0.0.1'', 5) ([1, 7, 0, 20] @ replicate 16 5) proxy_start (\<lambda>s1.
      forwarded_then (''10.0.0.2'', 6) ([1, 7, 0, 20] @ replicate 16 4) s1 (\<lambda>s2.
      replied ?w s2 \<and> (case ?t s2 of (Inr _, s3) \<Rightarrow> replied ?w' s3 | (Inl _, _) \<Rightarrow> False)))"
    by code_simp
  then obtain p s1 q s2 where p: "forwardable small_env proxy_router ([1, 7, 0, 20] @ replicate 16 5) (''10.0.0.1'', 5) p"
      "demo_proxy_auth upstream_addr p proxy_start = (Inr (), s1)"
    and q: "forwardable small_env proxy_router ([1, 7, 0, 20] @ replicate 16 4) (''10.0.0.2'', 6) q"
      "demo_proxy_auth upstream_addr q s1 = (Inr (), s2)"
    and r: "replied ?w s2" "case ?t s2 of (Inr _, s3) \<Rightarrow> replied ?w' s3 | (Inl _, _) \<Rightarrow> False"
    by (elim forwarded_thenE conjE) (rule that; assumption)
  obtain s3 where s3: "?t s2 = (Inr (), s3)" "replied ?w' s3" using r(2) by (auto split: prod.splits sum.splits)
  obtain s4 where "proxy_turn small_env proxy_router all_ports upstream_addr (None, ?w', upstream_addr) s3 = (Inr (), s4)"
      "sv_sent s4 = sv_sent s2 @ [(?w, (''10.0.0.2'', 6))]"
    using proxy_identifier_collision [OF p(1) q(1) _ p(2) q(2) replied_upstream [OF r(1)] _ s3(1)
        replied_upstream [OF s3(2)]] by auto
  then show ?thesis using p(2) q(2) s3(1) by blast
qed

end
