(* ===== verification/Listeners.thy ===== *)
theory Listeners
  imports Serving "HOL-Library.Multiset"
begin

text \<open>
  The sockets of the two servers: binding and dispatch by file descriptor in
  \<^verbatim>\<open>pyrad2/server.py\<close>, starting and closing the transports in \<^verbatim>\<open>pyrad2/server_async.py\<close>. The
  operating system is a parameter: \<open>resolve\<close> is \<^verbatim>\<open>socket.getaddrinfo\<close> (\<open>None\<close> is \<^verbatim>\<open>gaierror\<close>) and \<open>binds\<close>
  says whether binding to an address and a port succeeds. A new socket gets a descriptor that no open
  socket has. The set that \<^verbatim>\<open>_get_addr_info\<close> returns is taken in the order of its elements' first
  appearance, an address family is known from its address.
\<close>

section \<open>The sync server\<close>

record listeners =
  ls_auth :: "nat list"
  ls_acct :: "nat list"
  ls_coa :: "nat list"
  ls_next :: nat

record ports =
  authport :: int
  acctport :: int
  coaport :: int

text \<open>\<^verbatim>\<open>socket.socket(...)\<close>, \<^verbatim>\<open>bind\<close> and \<^verbatim>\<open>append\<close>: a socket that cannot be bound is not kept.\<close>

fun add_socket :: "fdkind \<Rightarrow> bool \<Rightarrow> listeners \<Rightarrow> listeners res" where
  "add_socket k False ls = Inl OSError"
| "add_socket AuthFd True ls = Inr (ls\<lparr>ls_auth := ls_auth ls @ [ls_next ls], ls_next := Suc (ls_next ls)\<rparr>)"
| "add_socket AcctFd True ls = Inr (ls\<lparr>ls_acct := ls_acct ls @ [ls_next ls], ls_next := Suc (ls_next ls)\<rparr>)"
| "add_socket CoaFd True ls = Inr (ls\<lparr>ls_coa := ls_coa ls @ [ls_next ls], ls_next := Suc (ls_next ls)\<rparr>)"

definition bind_sockets :: "server_conf \<Rightarrow> ports \<Rightarrow> (string \<Rightarrow> int \<Rightarrow> bool) \<Rightarrow> string \<Rightarrow> listeners \<Rightarrow> listeners res" where
  "bind_sockets conf ps binds address ls =
     bindE (if auth_enabled conf then add_socket AuthFd (binds address (authport ps)) ls else Inr ls) (\<lambda>ls.
     bindE (if acct_enabled conf then add_socket AcctFd (binds address (acctport ps)) ls else Inr ls) (\<lambda>ls.
     if coa_enabled conf then add_socket CoaFd (binds address (coaport ps)) ls else Inr ls))"

text \<open>\<^verbatim>\<open>_get_addr_info\<close>: a name that cannot be resolved has no addresses.\<close>

definition get_addr_info :: "(string \<Rightarrow> string list option) \<Rightarrow> string \<Rightarrow> string list" where
  "get_addr_info resolve addr = (case resolve addr of None \<Rightarrow> [] | Some as \<Rightarrow> remdups as)"

definition bind_to_address ::
    "server_conf \<Rightarrow> ports \<Rightarrow> (string \<Rightarrow> string list option) \<Rightarrow> (string \<Rightarrow> int \<Rightarrow> bool) \<Rightarrow> string \<Rightarrow> listeners \<Rightarrow> listeners res" where
  "bind_to_address conf ps resolve binds addr ls =
     foldE (bind_sockets conf ps binds) (get_addr_info resolve addr) ls"

definition no_listeners :: "nat \<Rightarrow> listeners" where
  "no_listeners n = \<lparr>ls_auth = [], ls_acct = [], ls_coa = [], ls_next = n\<rparr>"

text \<open>The sockets that \<^verbatim>\<open>Server.__init__\<close> opens.\<close>

definition server_sockets ::
    "server_conf \<Rightarrow> ports \<Rightarrow> (string \<Rightarrow> string list option) \<Rightarrow> (string \<Rightarrow> int \<Rightarrow> bool) \<Rightarrow> string list \<Rightarrow> nat \<Rightarrow> listeners res" where
  "server_sockets conf ps resolve binds addresses n =
     foldE (bind_to_address conf ps resolve binds) addresses (no_listeners n)"

text \<open>\<^verbatim>\<open>_prepare_sockets\<close>: what the loop polls, and the sets that the dispatch looks into.\<close>

definition polled :: "listeners \<Rightarrow> nat list" where
  "polled ls = ls_auth ls @ ls_acct ls @ ls_coa ls"

text \<open>\<^verbatim>\<open>_process_input\<close> by descriptor.\<close>

definition process_fd ::
    "env \<Rightarrow> router \<Rightarrow> server_conf \<Rightarrow> 'u handlers \<Rightarrow> listeners \<Rightarrow> nat \<Rightarrow> bytes \<Rightarrow> source \<Rightarrow> ('u, unit) srvm" where
  "process_fd env rt conf hs ls fd data source =
     (if auth_enabled conf \<and> fd \<in> set (ls_auth ls) then
        bindS (grab_packet env rt data source) (handle_auth env rt hs)
      else if acct_enabled conf \<and> fd \<in> set (ls_acct ls) then
        bindS (grab_packet env rt data source) (handle_acct env rt hs)
      else if coa_enabled conf then bindS (grab_packet env rt data source) (handle_coa env rt hs)
      else failS ServerPacketError)"

text \<open>
  One event that \<^verbatim>\<open>poll\<close> reports: on \<^verbatim>\<open>POLLIN\<close> a datagram is waiting, any other event is logged.
\<close>

definition poll_turn ::
    "env \<Rightarrow> router \<Rightarrow> server_conf \<Rightarrow> 'u handlers \<Rightarrow> listeners \<Rightarrow> nat \<times> (bytes \<times> source) option \<Rightarrow> ('u, unit) srvm" where
  "poll_turn env rt conf hs ls ev =
     (case ev of
        (fd, None) \<Rightarrow> retS ()
      | (fd, Some (data, source)) \<Rightarrow>
          if fd \<notin> set (polled ls) then failS KeyError
          else
            catchS (process_fd env rt conf hs ls fd data source)
              (\<lambda>e. if e \<in> dropped then retS () else failS e))"

fun poll_run ::
    "env \<Rightarrow> router \<Rightarrow> server_conf \<Rightarrow> 'u handlers \<Rightarrow> listeners \<Rightarrow> (nat \<times> (bytes \<times> source) option) list \<Rightarrow> ('u, unit) srvm" where
  "poll_run env rt conf hs ls [] = retS ()"
| "poll_run env rt conf hs ls (ev # evs) =
     bindS (poll_turn env rt conf hs ls ev) (\<lambda>_. poll_run env rt conf hs ls evs)"

text \<open>Descriptors are used once, and a list is empty unless its port is enabled.\<close>

definition ls_ok :: "server_conf \<Rightarrow> listeners \<Rightarrow> bool" where
  "ls_ok conf ls \<longleftrightarrow> distinct (polled ls) \<and> (\<forall>fd \<in> set (polled ls). fd < ls_next ls)
     \<and> (\<not> auth_enabled conf \<longrightarrow> ls_auth ls = []) \<and> (\<not> acct_enabled conf \<longrightarrow> ls_acct ls = [])
     \<and> (\<not> coa_enabled conf \<longrightarrow> ls_coa ls = [])"

lemma add_socket_ok:
  assumes "add_socket k b ls = Inr ls'" "ls_ok conf ls"
    "case k of AuthFd \<Rightarrow> auth_enabled conf | AcctFd \<Rightarrow> acct_enabled conf | CoaFd \<Rightarrow> coa_enabled conf"
  shows "ls_ok conf ls'"
  using assms by (cases k; cases b) (auto simp: ls_ok_def polled_def less_Suc_eq)

lemma bind_sockets_ok: "bind_sockets conf ps binds a ls = Inr ls' \<Longrightarrow> ls_ok conf ls \<Longrightarrow> ls_ok conf ls'"
  by (auto simp: bind_sockets_def elim!: bindE_InrE dest!: add_socket_ok split: if_splits)

lemma foldE_keeps:
  assumes "foldE f xs s = Inr s'" "P s" "\<And>x s s'. f x s = Inr s' \<Longrightarrow> P s \<Longrightarrow> P s'"
  shows "P s'"
  using assms(1,2) by (induction xs arbitrary: s) (auto elim!: bindE_InrE dest: assms(3))

lemma bind_to_address_ok: "bind_to_address conf ps resolve binds a ls = Inr ls' \<Longrightarrow> ls_ok conf ls \<Longrightarrow> ls_ok conf ls'"
  unfolding bind_to_address_def by (erule foldE_keeps) (assumption, rule bind_sockets_ok)

lemma server_sockets_ok: "server_sockets conf ps resolve binds as n = Inr ls \<Longrightarrow> ls_ok conf ls"
  unfolding server_sockets_def
  by (erule foldE_keeps) (simp add: no_listeners_def ls_ok_def polled_def, rule bind_to_address_ok)

text \<open>The port that a descriptor was opened for.\<close>

definition kind_of :: "listeners \<Rightarrow> nat \<Rightarrow> fdkind" where
  "kind_of ls fd =
     (if fd \<in> set (ls_auth ls) then AuthFd else if fd \<in> set (ls_acct ls) then AcctFd else CoaFd)"

definition datagrams :: "listeners \<Rightarrow> (nat \<times> (bytes \<times> source) option) list \<Rightarrow> (fdkind \<times> bytes \<times> source) list" where
  "datagrams ls evs = concat (map (\<lambda>(fd, ev). case ev of None \<Rightarrow> [] | Some (data, src) \<Rightarrow> [(kind_of ls fd, data, src)]) evs)"

lemma process_by_kind:
  assumes "ls_ok conf ls" "fd \<in> set (polled ls)"
  shows "process_fd env rt conf hs ls fd data src = process_input env rt conf hs (kind_of ls fd) data src"
  using assms by (auto simp: process_fd_def process_input_def kind_of_def ls_ok_def polled_def)

text \<open>
  C18 Dispatch by file descriptor implements dispatch by port: with the sockets that the constructor
  opened, the loop over the events of \<^verbatim>\<open>poll\<close> does what the abstract loop does over the datagrams
  with the port each came in on, whatever other events are reported between them.
\<close>

theorem poll_refines_run:
  assumes "server_sockets conf ps resolve binds addresses n = Inr ls" "\<forall>ev \<in> set evs. fst ev \<in> set (polled ls)"
  shows "poll_run env rt conf hs ls evs = run env rt conf hs (datagrams ls evs)"
  using assms(2)
proof (induction evs)
  case (Cons ev evs)
  obtain fd d where ev: "ev = (fd, d)" by (cases ev)
  have "process_fd env rt conf hs ls fd data src = process_input env rt conf hs (kind_of ls fd) data src" for data src
    by (rule process_by_kind [OF server_sockets_ok [OF assms(1)]]) (use Cons.prems ev in simp)
  then show ?case
    using Cons by (cases d) (auto simp: ev datagrams_def poll_turn_def turn_def)
qed (simp add: datagrams_def)

theorem poll_refines_run_witness:
  "poll_run small_env small_router all_ports log_handlers
     \<lparr>ls_auth = [5], ls_acct = [6], ls_coa = [7], ls_next = 8\<rparr>
     [(7, None), (7, Some ([43, 0, 0, 7], (''10.0.0.9'', 1)))] =
   run small_env small_router all_ports log_handlers [(CoaFd, [43, 0, 0, 7], (''10.0.0.9'', 1))]"
proof -
  have "server_sockets all_ports \<lparr>authport = 1812, acctport = 1813, coaport = 3799\<rparr> (\<lambda>a. Some [a, a])
          (\<lambda>_ _. True) [''127.0.0.1''] 5 = Inr \<lparr>ls_auth = [5], ls_acct = [6], ls_coa = [7], ls_next = 8\<rparr>"
    by code_simp
  from poll_refines_run [OF this, of "[(7, None), (7, Some ([43, 0, 0, 7], (''10.0.0.9'', 1)))]"]
  show ?thesis by (simp add: polled_def datagrams_def kind_of_def)
qed

section \<open>The asyncio server\<close>

text \<open>
  The protocol lists hold the addresses of their protocols, \<open>tr_open\<close> the endpoints that are open.
\<close>

record transports =
  tr_auth :: "string list"
  tr_acct :: "string list"
  tr_coa :: "string list"
  tr_open :: "(ServerType \<times> string) list"

definition no_transports :: transports where
  "no_transports = \<lparr>tr_auth = [], tr_acct = [], tr_coa = [], tr_open = []\<rparr>"

fun proto_list :: "ServerType \<Rightarrow> transports \<Rightarrow> string list" where
  "proto_list Auth st = tr_auth st"
| "proto_list Acct st = tr_acct st"
| "proto_list Coa st = tr_coa st"

fun append_proto :: "ServerType \<Rightarrow> string \<Rightarrow> transports \<Rightarrow> transports" where
  "append_proto Auth ip st = st\<lparr>tr_auth := tr_auth st @ [ip]\<rparr>"
| "append_proto Acct ip st = st\<lparr>tr_acct := tr_acct st @ [ip]\<rparr>"
| "append_proto Coa ip st = st\<lparr>tr_coa := tr_coa st @ [ip]\<rparr>"

text \<open>
  \<^verbatim>\<open>_start_transport\<close> is in two parts, before and after it waits for the endpoint: the guard, and the
  endpoint with the append.
\<close>

definition starts_transport :: "transports \<Rightarrow> ServerType \<times> string \<times> int \<Rightarrow> bool" where
  "starts_transport st = (\<lambda>(ty, ip, port). ip \<notin> set (proto_list ty st))"

definition started_transport :: "ServerType \<times> string \<times> int \<Rightarrow> transports \<Rightarrow> transports" where
  "started_transport = (\<lambda>(ty, ip, port) st. append_proto ty ip (st\<lparr>tr_open := tr_open st @ [(ty, ip)]\<rparr>))"

definition transport_tasks :: "ports \<Rightarrow> bool \<Rightarrow> bool \<Rightarrow> bool \<Rightarrow> string list \<Rightarrow> (ServerType \<times> string \<times> int) list" where
  "transport_tasks ps acct auth coa addresses =
     concat (map (\<lambda>addr.
       (if auth then [(Auth, addr, authport ps)] else []) @
       (if acct then [(Acct, addr, acctport ps)] else []) @
       (if coa then [(Coa, addr, coaport ps)] else []))
     (if addresses = [] then [''127.0.0.1''] else addresses))"

text \<open>
  \<^verbatim>\<open>asyncio.gather\<close> runs every task to its first wait before any of them is resumed, so all guards look at
  the lists as they were. The state is the one after the last task; a task whose endpoint cannot be bound
  raises and the others go on.
\<close>

definition initialize_transports ::
    "(string \<Rightarrow> int \<Rightarrow> bool) \<Rightarrow> ports \<Rightarrow> bool \<Rightarrow> bool \<Rightarrow> bool \<Rightarrow> string list \<Rightarrow> transports \<Rightarrow> unit res \<times> transports" where
  "initialize_transports binds ps acct auth coa addresses st =
     (if \<not> (acct \<or> auth \<or> coa) then (Inl ValueError, st)
      else
        let starting = filter (starts_transport st) (transport_tasks ps acct auth coa addresses);
            bound = filter (\<lambda>(ty, ip, port). binds ip port) starting
        in (if length bound = length starting then Inr () else Inl OSError, fold started_transport bound st))"

text \<open>\<^verbatim>\<open>close_transport\<close> closes the endpoint of its protocol.\<close>

definition close_protos :: "ServerType \<Rightarrow> transports \<Rightarrow> transports" where
  "close_protos ty st = fold (\<lambda>ip st. st\<lparr>tr_open := remove1 (ty, ip) (tr_open st)\<rparr>) (proto_list ty st) st"

definition deinitialize_transports :: "transports \<Rightarrow> transports" where
  "deinitialize_transports st =
     (let st = (close_protos Auth st)\<lparr>tr_auth := []\<rparr>;
          st = (close_protos Acct st)\<lparr>tr_acct := []\<rparr>
      in (close_protos Coa st)\<lparr>tr_coa := []\<rparr>)"

text \<open>The states between the calls.\<close>

inductive transports_reach :: "(string \<Rightarrow> int \<Rightarrow> bool) \<Rightarrow> ports \<Rightarrow> transports \<Rightarrow> bool" for binds ps where
  fresh: "transports_reach binds ps no_transports"
| opened: "transports_reach binds ps st \<Longrightarrow>
    transports_reach binds ps (snd (initialize_transports binds ps acct auth coa addresses st))"
| closed: "transports_reach binds ps st \<Longrightarrow> transports_reach binds ps (deinitialize_transports st)"

definition listed :: "transports \<Rightarrow> (ServerType \<times> string) multiset" where
  "listed st = image_mset (Pair Auth) (mset (tr_auth st)) + image_mset (Pair Acct) (mset (tr_acct st))
     + image_mset (Pair Coa) (mset (tr_coa st))"

definition all_listed :: "transports \<Rightarrow> bool" where
  "all_listed st \<longleftrightarrow> mset (tr_open st) = listed st"

lemma proto_list_append: "proto_list ty' (append_proto ty ip st) = proto_list ty' st @ (if ty' = ty then [ip] else [])"
  by (cases ty; cases ty') auto

lemma proto_list_open [simp]: "proto_list ty (st\<lparr>tr_open := os\<rparr>) = proto_list ty st"
  by (cases ty) auto

lemma started_all_listed: "all_listed st \<Longrightarrow> all_listed (started_transport t st)"
  by (cases t; cases "fst t") (auto simp: started_transport_def all_listed_def listed_def)

lemma fold_started_all_listed: "all_listed st \<Longrightarrow> all_listed (fold started_transport ts st)"
  by (induction ts arbitrary: st) (auto simp: started_all_listed)

lemma fold_close:
  "fold (\<lambda>ip st. st\<lparr>tr_open := remove1 (ty, ip) (tr_open st)\<rparr>) ips st
     = st\<lparr>tr_open := fold (\<lambda>ip. remove1 (ty, ip)) ips (tr_open st)\<rparr>"
  by (induction ips arbitrary: st) auto

lemma mset_fold_remove1: "mset (fold (\<lambda>ip. remove1 (ty, ip)) ips os) = mset os - image_mset (Pair ty) (mset ips)"
  by (induction ips arbitrary: os) auto

lemma deinitialize_empty:
  assumes "all_listed st"
  shows "deinitialize_transports st = no_transports"
proof -
  have "mset (tr_open (deinitialize_transports st)) = {#}"
    using assms by (simp add: deinitialize_transports_def close_protos_def fold_close mset_fold_remove1 all_listed_def listed_def)
  then show ?thesis
    by (simp add: deinitialize_transports_def close_protos_def fold_close no_transports_def)
qed

lemma no_transports_listed: "all_listed no_transports"
  by (simp add: all_listed_def listed_def no_transports_def)

lemma reach_all_listed: "transports_reach binds ps st \<Longrightarrow> all_listed st"
proof (induction rule: transports_reach.induct)
  case (closed st)
  then show ?case by (simp add: deinitialize_empty no_transports_listed)
qed (auto simp: initialize_transports_def Let_def fold_started_all_listed no_transports_listed)

text \<open>
  Whatever calls to start and stop came before, also calls that failed because some address could not
  be bound, \<open>deinitialize_transports\<close> closes every endpoint the asyncio server has opened.
\<close>

theorem deinitialize_closes_all:
  assumes "transports_reach binds ps st"
  shows "tr_open (deinitialize_transports st) = []"
  using deinitialize_empty [OF reach_all_listed [OF assms]] by (simp add: no_transports_def)

theorem deinitialize_closes_all_witness:
  "let st = snd (initialize_transports (\<lambda>a _. a = ''10.0.0.1'') \<lparr>authport = 1812, acctport = 1813, coaport = 3799\<rparr>
       True True False [''10.0.0.1'', ''10.0.0.2''] no_transports)
   in tr_open st = [(Auth, ''10.0.0.1''), (Acct, ''10.0.0.1'')] \<and> tr_open (deinitialize_transports st) = []"
  unfolding Let_def
  by (rule conjI, code_simp) (rule deinitialize_closes_all [OF transports_reach.opened [OF transports_reach.fresh]])

lemma length_filter_all: "length (filter P xs) = length xs \<Longrightarrow> \<forall>x \<in> set xs. P x"
  using sum_length_filter_compl [of P xs] by (auto simp: filter_empty_conv)

lemma proto_list_started:
  "set (proto_list ty (fold started_transport ts st)) = set (proto_list ty st) \<union> {ip. \<exists>port. (ty, ip, port) \<in> set ts}"
  by (induction ts arbitrary: st) (auto simp: started_transport_def proto_list_append split: prod.splits)

text \<open>
  Starting twice is starting once: when \<open>initialize_transports\<close> has returned, a second call with the
  same arguments returns too and opens no further endpoint.
\<close>

theorem initialize_idempotent:
  assumes "initialize_transports binds ps acct auth coa addresses st = (Inr (), st')"
  shows "initialize_transports binds ps acct auth coa addresses st' = (Inr (), st')"
proof -
  let ?ts = "transport_tasks ps acct auth coa addresses"
  let ?starting = "filter (starts_transport st) ?ts"
  have en: "acct \<or> auth \<or> coa" and st': "st' = fold started_transport (filter (\<lambda>(ty, ip, port). binds ip port) ?starting) st"
    and len: "length (filter (\<lambda>(ty, ip, port). binds ip port) ?starting) = length ?starting"
    using assms by (auto simp: initialize_transports_def Let_def split: if_splits)
  from len have "\<forall>t \<in> set ?starting. case t of (ty, ip, port) \<Rightarrow> binds ip port" by (rule length_filter_all)
  then have "filter (starts_transport st') ?ts = []"
    by (auto simp: filter_empty_conv st' starts_transport_def proto_list_started split: prod.splits)
  with en show ?thesis by (simp add: initialize_transports_def)
qed

theorem initialize_idempotent_witness:
  "let ps = \<lparr>authport = 1812, acctport = 1813, coaport = 3799\<rparr>;
       st = snd (initialize_transports (\<lambda>_ _. True) ps True True False [] no_transports)
   in tr_open st = [(Auth, ''127.0.0.1''), (Acct, ''127.0.0.1'')] \<and>
      initialize_transports (\<lambda>_ _. True) ps True True False [] st = (Inr (), st)"
proof -
  let ?ps = "\<lparr>authport = 1812, acctport = 1813, coaport = 3799\<rparr>"
  let ?st = "\<lparr>tr_auth = [''127.0.0.1''], tr_acct = [''127.0.0.1''], tr_coa = [], tr_open = [(Auth, ''127.0.0.1''), (Acct, ''127.0.0.1'')]\<rparr>"
  have "initialize_transports (\<lambda>_ _. True) ?ps True True False [] no_transports = (Inr (), ?st)" by code_simp
  from this initialize_idempotent [OF this] show ?thesis by simp
qed

text \<open>The guard does not see the tasks of its own call: an address given twice gets two endpoints.\<close>

lemma repeated_address_two_endpoints:
  "tr_open (snd (initialize_transports (\<lambda>_ _. True) ps False True False [ip, ip] no_transports)) = [(Auth, ip), (Auth, ip)]"
  by (simp add: initialize_transports_def transport_tasks_def starts_transport_def started_transport_def no_transports_def Let_def)

end
