(* ===== verification/AsyncExchange.thy ===== *)
theory AsyncExchange
  imports EapAgreement Pending
begin

text \<open>
  The asyncio client and the asyncio server of the scenarios against each other, from
  \<^verbatim>\<open>send_packet\<close> to the settled future: the composition of \<open>ClientAsync\<close>, \<open>PacketAuth\<close>,
  \<open>ServerAsync\<close>, \<open>Dedup\<close> and the handlers of \<open>Scenario\<close>. The network delivers every datagram.
\<close>

section \<open>What the client puts on the wire\<close>

text \<open>
  A request whose authenticator is the digest of its octets: attributes that are sent as they are
  stored, no Message-Authenticator, no EAP.
\<close>

definition plain_request :: "packet \<Rightarrow> bool" where
  "plain_request p \<longleftrightarrow>
     p_version p = V1_0 \<and> p_ma p \<noteq> Some True \<and> p_deferred p = []
     \<and> list_all (flat_entry (p_dict p)) (p_attrs p) \<and> od_wf (p_attrs p)
     \<and> \<not> has_attribute MA_NAME 80 p \<and> \<not> has_eap_message p"

fun kind_of_class :: "pclass \<Rightarrow> kind option" where
  "kind_of_class AcctC = Some KAcct"
| "kind_of_class CoAC = Some KCoa"
| "kind_of_class _ = None"

lemma body_request:
  assumes "request_packet p = Inr (raw, p')" "plain_request p" "kind_of_class (p_class p) \<noteq> None" "p_id p = Some i"
  obtains attr auth where "encode_stored p [] = Inr attr" "raw = datagram (p_code p) i auth attr"
    "auth = md5 (take 4 raw @ zero_octets 16 @ attr @ p_secret p)" "p' = p\<lparr>p_auth := Some auth\<rparr>"
    "0 \<le> p_code p" "p_code p < 256" "0 \<le> i" "i < 256" "encode_v10_body_md5 p = Inr (raw, p')"
proof -
  have e: "encode_v10_body_md5 p = Inr (raw, p')"
    using assms
    by (cases "p_class p") (auto simp: request_packet_def ensure_id_def plain_request_def Let_def)
  have q: "refresh_if_set p = Inr p" "p_deferred p = []"
    using assms(2) by (simp_all add: refresh_if_set_def plain_request_def)
  obtain attr h where s: "encode_stored p [] = Inr attr" "pack_header p (20 + length attr) = Inr h"
      "raw = h @ md5 (h @ zero_octets 16 @ attr @ p_secret p) @ attr"
      "p' = p\<lparr>p_auth := Some (md5 (h @ zero_octets 16 @ attr @ p_secret p))\<rparr>"
    using e q by (auto simp: encode_v10_body_md5_def encode_attributes_plain Let_def elim!: bindE_InrE)
  have b: "0 \<le> p_code p" "p_code p < 256" "0 \<le> i" "i < 256"
      "h = word_of_int (p_code p) # word_of_int i # be_bytes 2 (int (20 + length attr))"
    using s(2) assms(4) by (auto simp: pack_header_eq_Inr)
  have t: "take 4 raw = h" using pack_header_length [OF s(2)] by (simp add: s(3))
  have "raw = datagram (p_code p) i (md5 (take 4 raw @ zero_octets 16 @ attr @ p_secret p)) attr"
    unfolding t by (simp add: s(3) b(5) datagram_def be_bytes_1)
  then show ?thesis by (rule that [OF s(1)]) (use s(4) b e t in auto)
qed

text \<open>\<^verbatim>\<open>send_packet\<close>: one entry, one datagram, a future that waits.\<close>

lemma async_sent:
  assumes "send_packet_async c now i w = (Inr f, w1)" "p_class (w_heap w ! i) = cls" "kind_of_class cls = Some k"
    and "i < length (w_heap w)" "p_code (w_heap w ! i) \<notin> {pt AccessRequest, pt StatusServer}"
  obtains raw p' t t1 where "request_packet (w_heap w ! i) = Inr (raw, p')" "w_heap w1 ! i = p'"
    "w_tr w k = Some t" "w_tr w1 k = Some t1" "t_sent t1 = t_sent t @ [raw]"
    "od_get (pending_of k w1) (p_id (w_heap w ! i)) = Some \<lparr>q_packet = i, q_retries = 0, q_future = f, q_send_date = now\<rparr>"
    "w_futures w1 ! f = Waiting" "f < length (w_futures w1)"
proof -
  let ?w = "w\<lparr>w_futures := w_futures w @ [Waiting]\<rparr>"
  let ?p = "w_heap w ! i"
  have prep: "prepare_outgoing_async c i ?w = (Inr (), ?w)"
    using assms(4,5)
    by (simp add: prepare_outgoing_async_def on_packet_def prepare_request_message_authenticator_def)
  have s: "send_over k now i (length (w_futures w)) ?w = (Inr (), w1)" "f = length (w_futures w)"
    using assms(1-3) prep
    by (cases cls; auto simp: send_packet_async_def new_future_def bindS_def retS_def split: prod.splits sum.splits)+
  then obtain t where t: "w_tr w k = Some t" by (auto simp: send_over_def split: if_splits)
  let ?q = "\<lparr>q_packet = i, q_retries = 0, q_future = f, q_send_date = now\<rparr>"
  let ?t = "t\<lparr>t_pending := od_set (p_id ?p) ?q (t_pending t)\<rparr>"
  let ?w2 = "update_tr k (\<lambda>t. t\<lparr>t_pending := od_set (p_id ?p) ?q (t_pending t)\<rparr>) ?w"
  have "transmit_async k i ?w2 = (Inr (), w1)"
    using s t by (auto simp: send_over_def protocol_send_def Let_def split: if_splits)
  moreover have "w_tr ?w2 k = Some ?t" using t by simp
  ultimately obtain raw p' where r: "request_packet ?p = Inr (raw, p')"
      "w1 = update_tr k (\<lambda>t. t\<lparr>t_sent := t_sent t @ [raw]\<rparr>) (?w2\<lparr>w_heap := (w_heap w)[i := p']\<rparr>)"
    by (auto simp: transmit_async_def split: if_splits sum.splits prod.splits)
  then have t1: "w_tr w1 k = Some (?t\<lparr>t_sent := t_sent t @ [raw]\<rparr>)" using t by (simp add: update_tr_def)
  show ?thesis
    by (rule that [OF r(1) _ t t1]) (use r(2) assms(4) s(2) t in \<open>simp_all add: pending_of_def update_tr_def od_get_set\<close>)
qed

section \<open>What the server makes of it\<close>

definition datagram_key :: "bytes \<Rightarrow> source \<Rightarrow> DedupKey" where
  "datagram_key raw a = \<lparr>src_ip = fst a, src_port = snd a, dk_code = uint (hd raw),
     dk_identifier = uint (raw ! 1), dk_request_authenticator = py_slice raw 4 20\<rparr>"

text \<open>The server has no memory of the datagram: it is no retransmission.\<close>

definition fresh_datagram :: "bytes \<Rightarrow> source \<Rightarrow> 'u srv \<Rightarrow> bool" where
  "fresh_datagram raw a s \<longleftrightarrow>
     (case sv_cache s of
        None \<Rightarrow> True
      | Some c \<Rightarrow> od_get (cached c) (datagram_key raw a) = None \<and> datagram_key raw a \<notin> in_flight c)"

text \<open>The packet that the handler gets is the one that was sent.\<close>

definition received_as :: "packet \<Rightarrow> bytes \<Rightarrow> packet \<Rightarrow> bool" where
  "received_as p auth q \<longleftrightarrow>
     p_class q = p_class p \<and> p_code q = p_code p \<and> p_id q = p_id p \<and> p_version q = V1_0
     \<and> p_auth q = Some auth \<and> p_attrs q = p_attrs p \<and> p_dict q = p_dict p \<and> p_secret q = p_secret p
     \<and> p_ma q = None"

lemma received_dedup [simp]: "received_as p auth (q\<lparr>p_dedup := k\<rparr>) = received_as p auth q"
  by (simp add: received_as_def)

lemma has_attribute_cong:
  "p_attrs q = p_attrs p \<Longrightarrow> p_dict q = p_dict p \<Longrightarrow> has_attribute n c q = has_attribute n c p"
  by (simp add: has_attribute_def contains_def encode_key_def with_dict_def cong: sum.case_cong)

lemma received_plain:
  assumes "plain_request p" "received_as p auth q"
  shows "\<not> has_message_authenticator q" "\<not> has_eap_message q"
  using assms has_attribute_cong [of q p]
  by (auto simp: plain_request_def received_as_def has_message_authenticator_def has_eap_message_def)

lemma dispatched:
  assumes "fresh_datagram raw a s" "key_for p (Some a) = Some (datagram_key raw a)"
    and "\<And>s0 k. \<exists>s1. h (p\<lparr>p_dedup := k\<rparr>) s0 = (Inr (), s1) \<and> sv_sent s1 = sv_sent s0 @ [(reply, a)]"
    and "p_dedup p = None"
  shows "\<exists>s'. dedup_dispatch env h (Some a) p s = (Inr (), s') \<and> sv_sent s' = sv_sent s @ [(reply, a)]"
proof -
  let ?key = "if sv_cache s = None then None else Some (datagram_key raw a)"
  obtain s0 where s0: "dedup_consult env ?key (Some a) s = (Inr PROCESS, s0)" "sv_sent s0 = sv_sent s"
    using assms(1)
    by (cases "sv_cache s")
      (auto simp: dedup_consult_def consult_cache_def consult_cache_cases fresh_datagram_def lookup_def split: option.splits)
  obtain s1 where s1: "h (p\<lparr>p_dedup := ?key\<rparr>) s0 = (Inr (), s1)" "sv_sent s1 = sv_sent s0 @ [(reply, a)]"
    using assms(3) by blast
  have "dedup_key_for p (Some a) s = (Inr ?key, s)" using assms(2) by (simp add: dedup_key_for_def)
  moreover have "(if ?key \<noteq> None then p\<lparr>p_dedup := ?key\<rparr> else p) = p\<lparr>p_dedup := ?key\<rparr>"
    using assms(4) by simp
  ultimately have "dedup_dispatch env h (Some a) p s = (Inr (), dedup_drop_in_flight ?key s1)"
    using s0(1) s1(1) unfolding dedup_dispatch_def bindS_def finallyS_def by simp
  moreover have "sv_sent (dedup_drop_in_flight ?key s1) = sv_sent s1"
    by (simp add: dedup_drop_in_flight_def split: option.split)
  ultimately show ?thesis using s0(2) s1(2) by simp
qed

definition body_codes :: "int list" where
  "body_codes = [pt AccountingRequest, pt CoARequest, pt DisconnectRequest]"

lemma body_codes_simps:
  assumes "c \<in> set body_codes"
  shows "c \<in> set DEDUPABLE_CODES" "c \<noteq> pt StatusServer" "c \<noteq> pt AccessRequest" "c \<notin> set response_codes"
    "reject_response_codes c = Inr ()"
  using assms
  by (auto simp: body_codes_def DEDUPABLE_CODES_def response_codes_def reject_response_codes_def checkE_eq_Inr)

text \<open>
  The way of a datagram through the server: the code is let in, the octets are parsed with the
  host's secret, the digest is verified, and the handler of the port is called.
\<close>

lemma parsed_request:
  assumes "plain_request p" "request_packet p = Inr (raw, p')" "kind_of_class (p_class p) \<noteq> None" "p_id p = Some i"
    and "packet_class_of (p_code p) = p_class p" "length raw \<le> 8192"
  obtains q auth where "parse_packet raw (p_secret p) (p_dict p) V1_0 rng 0 cur = Inr (q, next_id cur)"
    "received_as p auth q" "p_auth p' = Some auth" "verify_packet q = Inr True" "p_dedup q = None"
proof -
  obtain attr auth where r: "encode_stored p [] = Inr attr" "raw = datagram (p_code p) i auth attr"
      "auth = md5 (take 4 raw @ zero_octets 16 @ attr @ p_secret p)" "p' = p\<lparr>p_auth := Some auth\<rparr>"
      "0 \<le> p_code p" "p_code p < 256" "0 \<le> i" "i < 256" "encode_v10_body_md5 p = Inr (raw, p')"
    by (rule body_request [OF assms(2,1,3,4)]) (rule that)
  let ?cls = "p_class p"
  define q0 where "q0 = (fst (new_packet ?cls (default_code ?cls) None (p_secret p) None V1_0 (p_dict p) rng 0 cur))
    \<lparr>p_raw := Some raw\<rparr>"
  define q where "q = q0\<lparr>p_code := p_code p, p_id := Some i, p_auth := Some auth, p_attrs := p_attrs p,
      p_lbuf := [], p_vbuf := []\<rparr>"
  have a16: "length auth = 16" unfolding r(3) by (rule length_md5)
  have len: "length attr \<le> 8172" using assms(6) a16 by (simp add: r(2) datagram_def)
  have d: "decode_packet raw q0 = Inr q"
    unfolding q_def r(2)
    by (rule decode_datagram [OF _ _ r(1) len r(5-8) a16])
      (use assms(1) in \<open>simp_all add: plain_request_def list_all_iff q0_def new_packet_def Let_def\<close>)
  obtain c cs where c: "raw = c # cs" "uint c = p_code p"
    using r(5,6) by (simp add: r(2) datagram_def be_bytes_1 uint_word_of_int_byte)
  have pp: "parse_packet raw (p_secret p) (p_dict p) V1_0 rng 0 cur = Inr (q, next_id cur)"
    using d assms(5) by (simp add: parse_packet_def q0_def new_packet_def Let_def c)
  have "q0\<lparr>p_raw := Some raw\<rparr> = q0" by (simp add: q0_def)
  with d have "decode_packet raw (q0\<lparr>p_raw := Some raw\<rparr>) = Inr q" by simp
  then have ver: "verify_packet q = Inr True"
    by (rule body_md5_verifies [OF r(9), rotated 2]) (simp_all add: q0_def new_packet_def Let_def)
  show ?thesis
    by (rule that [OF pp]) (use ver r(4) assms(4) in \<open>simp_all add: received_as_def q_def q0_def new_packet_def Let_def\<close>)
qed

lemma handled:
  assumes "plain_request p" "request_packet p = Inr (raw, p')" "kind_of_class (p_class p) \<noteq> None" "p_id p = Some i"
    and "packet_class_of (p_code p) = p_class p" "length raw \<le> 8192" "p_code p \<in> set body_codes"
    and "gate_code (p_code p) ty = Inr ()" "p_auth p' = Some auth"
    and "lookup_secret rt (fst a) = Inr (p_secret p)" "rt_dict rt = p_dict p" "fresh_datagram raw a s"
    and "\<And>q. p_code q = p_code p \<Longrightarrow> select_handler hs ty q = Inr h"
    and "\<And>q s0. received_as p auth q \<Longrightarrow> \<exists>s1. h a q s0 = (Inr (), s1) \<and> sv_sent s1 = sv_sent s0 @ [(reply, a)]"
  shows "\<exists>s'. datagram_received env rt hs ty raw a s = (Inr (), s') \<and> sv_sent s' = sv_sent s @ [(reply, a)]"
proof -
  let ?s = "s\<lparr>sv_packets := Suc (sv_packets s), sv_cur := next_id (sv_cur s)\<rparr>"
  obtain q auth' where pp: "parse_packet raw (p_secret p) (p_dict p) V1_0 (env_rng env (sv_packets s)) 0 (sv_cur s)
        = Inr (q, next_id (sv_cur s))"
    and q': "received_as p auth' q" "p_auth p' = Some auth'" "verify_packet q = Inr True" "p_dedup q = None"
    by (rule parsed_request [OF assms(1-6)]) (rule that)
  then have q: "received_as p auth q" "verify_packet q = Inr True" using assms(9) by simp_all
  note f = parsed_fields [OF pp] and b = body_codes_simps [OF assms(7)]
  obtain c cs where raw: "raw = c # cs" using f(2) by (cases raw) auto
  have code: "uint c = p_code p" "p_code q = p_code p" using f(3) q(1) by (simp_all add: raw received_as_def)
  have v: "verify_request rt q = Inr ()"
    using b(3) q(2) assms(7) code(2)
    by (auto simp: verify_request_def body_codes_def checkE_eq_Inr)
  have pol: "rt_validate_policy rt q = Inr q"
    using received_plain [OF assms(1) q(1)] b(2,3) code(2)
    by (simp add: rt_validate_policy_def validate_message_authenticator_policy_def)
  have "arrived rt raw (fst a, snd a) q"
    unfolding arrived_def using assms(10,11) pp pol by auto
  from arrived_key [OF this] have key: "key_for q (Some a) = Some (datagram_key raw a)"
    using b(1) code(1) by (simp add: datagram_key_def raw)
  have "\<exists>s'. dedup_dispatch env (h a) (Some a) q ?s = (Inr (), s') \<and> sv_sent s' = sv_sent ?s @ [(reply, a)]"
  proof (rule dispatched)
    show "fresh_datagram raw a ?s" using assms(12) by (simp add: fresh_datagram_def cong: option.case_cong)
    show "\<exists>s1. h a (q\<lparr>p_dedup := k\<rparr>) s0 = (Inr (), s1) \<and> sv_sent s1 = sv_sent s0 @ [(reply, a)]" for s0 k
      using assms(14) q(1) by simp
  qed (use key q'(4) in simp_all)
  then obtain s' where s': "dedup_dispatch env (h a) (Some a) q ?s = (Inr (), s')" "sv_sent s' = sv_sent s @ [(reply, a)]"
    by auto
  have "rt_parse env rt raw (p_secret p) s = (Inr q, ?s)"
    using pp assms(11) by (simp add: rt_parse_def raw)
  then have "datagram_received env rt hs ty raw a s = (Inr (), s')"
    using assms(8,10) b(2,5) code s'(1) v pol assms(13) [OF code(2)]
    by (simp add: datagram_received_def raw logged_def catchS_def bindS_def liftE_def request_handler_def)
  then show ?thesis using s'(2) by blast
qed

section \<open>Replies without attributes\<close>

definition empty_reply :: "byte \<Rightarrow> byte \<Rightarrow> bytes \<Rightarrow> bytes \<Rightarrow> bytes" where
  "empty_reply c i auth secret = [c, i, 0, 20] @ md5 ([c, i, 0, 20] @ auth @ secret)"

lemma empty_reply_sent:
  assumes "p_attrs r = []" "p_version r = V1_0" "p_auth r = Some auth" "auth \<noteq> []" "p_id r = Some (uint i)"
    "p_deferred r = []" "p_ma r = None" "p_code r = uint c" "p_code r \<notin> set access_reply_codes"
  shows "\<exists>s'. send_response env rt r a s = (Inr (), s')
    \<and> sv_sent s' = sv_sent s @ [(empty_reply c i auth (p_secret r), a)]"
proof -
  have "pack_header r 20 = Inr [c, i, 0, 20]"
  proof -
    have "pack_uint 2 20 = Inr [0, 20]" by code_simp
    moreover have "pack_uint 1 (uint x) = Inr [x]" for x :: byte
      using uint_byte_bounds [of x] by (simp add: pack_uint_def)
    ultimately show ?thesis using assms(5,8) by (simp add: pack_header_def)
  qed
  then have "reply_packet r = Inr (empty_reply c i auth (p_secret r), r)"
    using assms by (simp add: reply_packet_def truthy_def refresh_if_set_def encode_attributes_plain
        encode_stored_def empty_reply_def)
  moreover have "prepare_reply_packet rt r = Inr r"
    using assms(1,9) by (simp add: prepare_reply_packet_def force_reply_ma_def has_eap_message_def)
  ultimately show ?thesis by (simp add: send_response_def bindS_def sendto_def rt_record_reply_def)
qed

text \<open>The client takes such a reply for its request, whatever it enforces.\<close>

lemma empty_reply_accepted:
  assumes "od_get (pending_of k w) (Some (uint i)) = Some q" "q_future q = f" "w_futures w ! f = Waiting"
    "f < length (w_futures w)"
    and "w_heap w ! q_packet q = p" "p_id p = Some (uint i)" "p_version p = V1_0" "p_auth p = Some auth"
      "length auth = 16" "p_code p \<noteq> pt AccessRequest" "c \<noteq> 0"
  shows "\<exists>r. w_futures (reply_received cl k (empty_reply c i auth (p_secret p)) w) ! f = Result r
    \<and> p_code r = uint c
    \<and> od_get (pending_of k (reply_received cl k (empty_reply c i auth (p_secret p)) w)) (Some (uint i)) = None"
proof -
  let ?raw = "empty_reply c i auth (p_secret p)" and ?b = "md5 ([c, i, 0, 20] @ auth @ p_secret p)"
  define r0 where "r0 = (fst (new_packet PacketC 0 None [] None V1_0 (ac_dict cl) (ac_rng cl (w_packets w)) 0 (w_cur w)))
    \<lparr>p_raw := Some ?raw\<rparr>"
  define r where "r = r0\<lparr>p_code := uint c, p_id := Some (uint i), p_auth := Some ?b, p_attrs := [],
    p_lbuf := [], p_vbuf := []\<rparr>"
  let ?w = "w\<lparr>w_cur := next_id (w_cur w), w_packets := Suc (w_packets w)\<rparr>"
  have one: "be_bytes 1 (uint x) = [x]" for x :: byte by (simp add: be_bytes_1)
  have two: "be_bytes 2 20 = [0, 20]" by code_simp
  have "decode_packet (datagram (uint c) (uint i) ?b []) r0 = Inr r"
    unfolding r_def
    by (rule decode_datagram [of "r0\<lparr>p_attrs := []\<rparr>", simplified])
      (use uint_byte_bounds [of c] uint_byte_bounds [of i] in
        \<open>simp_all add: encode_stored_def r0_def new_packet_def Let_def od_wf_def\<close>)
  moreover have "datagram (uint c) (uint i) ?b [] = ?raw" by (simp add: datagram_def one two empty_reply_def)
  ultimately have nr: "new_reply cl ?raw w = (Inr r, ?w)"
    by (simp add: new_reply_def r0_def new_packet_def Let_def)
  let ?r = "r\<lparr>p_dict := p_dict p, p_secret := p_secret p\<rparr>"
  have fields: "p_id r = Some (uint i)" "p_code r = uint c" "p_attrs r = []" "p_deferred r = []" "p_ma r = None"
    by (simp_all add: r_def r0_def new_packet_def Let_def)
  have "verify_reply_keep p ?r ?raw (ac_enforce_ma cl) = Inr (True, ?r)"
    using fields assms(6-10)
    by (simp add: verify_reply_keep_def encode_attributes_plain encode_stored_def has_message_authenticator_def
        empty_reply_def py_slice_def)
  moreover have "uint c \<noteq> 0" using assms(11) by (simp add: unsigned_eq_0_iff)
  ultimately have "deliver cl k ?raw r ?w = bindS (settle f (Result ?r)) (\<lambda>_. modifyS (remove_pending k [Some (uint i)])) ?w"
    using fields assms(1,2,5) by (simp add: deliver_def Let_def pending_of_def)
  then have "reply_received cl k ?raw w = remove_pending k [Some (uint i)] (?w\<lparr>w_futures := (w_futures w)[f := Result ?r]\<rparr>)"
    using nr assms(3,4)
    by (simp add: reply_received_def catchS_def bindS_def settle_waiting modifyS_def)
  then show ?thesis
    using fields(2) assms(4)
    by (simp add: remove_pending_def od_get_del split: option.split)
qed

section \<open>The handlers\<close>

text \<open>An attribute of the dictionary whose values are integers, named or not.\<close>

definition integer_attr :: "dictionary \<Rightarrow> ustr \<Rightarrow> int \<Rightarrow> bool" where
  "integer_attr d n k \<longleftrightarrow>
     (case dict_getitem d n of
        Inl _ \<Rightarrow> False
      | Inr a \<Rightarrow> a_code a = k \<and> a_type a = ''integer'' \<and> a_vendor a = [] \<and> \<not> a_is_sub a \<and> a_encrypt a \<noteq> 2)"

lemma integer_readable:
  assumes "integer_attr d n k" "p_dict p = Some d" "od_get (p_attrs p) (KInt k) = Some (Vals [PBytes v])" "length v = 4"
  shows "\<exists>x. getitem n p = Inr x"
proof -
  obtain a where a: "dict_getitem d n = Inr a" "a_type a = ''integer''" "a_encrypt a \<noteq> 2" "encode_name d n = Inr (KInt k)"
    using assms(1) by (auto simp: integer_attr_def encode_name_def split: sum.splits)
  obtain x where "decode_value p a (PBytes v) = Inr x"
    using a assms(4)
    by (cases "od_get (backward (a_values a)) (PBytes v)")
      (auto simp: decode_value_def decode_attr_def decode_bytes_def decode_integer_def unpack_int_def unpack_uint_def)
  then show ?thesis
    using a assms(2,3) by (simp add: getitem_def with_dict_def raw_getitem_def store_iter_def container_types_def)
qed

lemma demo_acct_answers:
  assumes "plain_request p" "received_as p auth q" "auth \<noteq> []" "p_class p = AcctC" "p_code p = pt AccountingRequest"
    "p_id p = Some n" "0 \<le> n" "n < 256" "getitem (u ''Acct-Status-Type'') q = Inr x"
  shows "\<exists>s1. demo_acct env rt a q s = (Inr (), s1)
    \<and> sv_sent s1 = sv_sent s @ [(empty_reply 5 (word_of_int n) auth (p_secret p), a)]"
proof -
  note q = assms(2) [unfolded received_as_def] and n = received_plain [OF assms(1,2)]
  have i: "uint (word_of_int n :: byte) = n" using assms(7,8) by (simp add: uint_word_of_int_byte)
  have shell: "reply_shell (p_class q) = (AcctC, pt AccountingResponse)" "p_class q \<noteq> StatusC"
      "p_code q \<noteq> pt AccessRequest" "p_id q = Some n"
    using q assms(4-6) by (simp_all add: reply_shell_def)
  obtain r where r: "as_plain_reply rt None q = Inr r" "p_attrs r = []" "p_version r = p_version q" "p_auth r = p_auth q"
      "p_id r = p_id q" "p_secret r = p_secret q" "p_deferred r = []" "p_ma r = None" "p_code r = pt AccountingResponse"
    by (rule plain_reply_fields [OF shell(1,2) n shell(3,4), of rt]) (rule that)
  have "\<exists>s1. send_response env rt r a s = (Inr (), s1) \<and> sv_sent s1 = sv_sent s @ [(empty_reply 5 (word_of_int n) auth (p_secret r), a)]"
    by (rule empty_reply_sent) (use r q shell(4) assms(3) i in \<open>simp_all add: access_reply_codes_def\<close>)
  then show ?thesis using r(1,6) q assms(9) by (simp add: demo_acct_def del: u_simps)
qed

lemma demo_coa_answers:
  assumes "plain_request p" "received_as p auth q" "auth \<noteq> []" "p_class p = CoAC" "p_code p = pt CoARequest"
    "p_id p = Some n" "0 \<le> n" "n < 256" "packet_get (u ''Acct-Session-Id'') None q = Inr x"
  shows "\<exists>s1. demo_coa env rt a q s = (Inr (), s1)
    \<and> sv_sent s1 = sv_sent s @ [(empty_reply 44 (word_of_int n) auth (p_secret p), a)]"
proof -
  note q = assms(2) [unfolded received_as_def] and n = received_plain [OF assms(1,2)]
  have i: "uint (word_of_int n :: byte) = n" using assms(7,8) by (simp add: uint_word_of_int_byte)
  have shell: "reply_shell (p_class q) = (CoAC, pt CoAACK)" "p_class q \<noteq> StatusC"
      "p_code q \<noteq> pt AccessRequest" "p_id q = Some n"
    using q assms(4-6) by (simp_all add: reply_shell_def)
  obtain r where r: "as_plain_reply rt None q = Inr r" "p_attrs r = []" "p_version r = p_version q" "p_auth r = p_auth q"
      "p_id r = p_id q" "p_secret r = p_secret q" "p_deferred r = []" "p_ma r = None"
    by (rule plain_reply_fields [OF shell(1,2) n shell(3,4), of rt]) (rule that)
  let ?r = "r\<lparr>p_code := pt CoAACK\<rparr>"
  have "\<exists>s1. send_response env rt ?r a s = (Inr (), s1) \<and> sv_sent s1 = sv_sent s @ [(empty_reply 44 (word_of_int n) auth (p_secret ?r), a)]"
    by (rule empty_reply_sent) (use r q shell(4) assms(3) i in \<open>simp_all add: access_reply_codes_def\<close>)
  then show ?thesis using r(1,6) q assms(9) by (simp add: demo_coa_def answer_def del: u_simps)
qed

section \<open>From the request to the settled future\<close>

text \<open>
  A request that is answered by an empty reply of a code: the server takes the datagram for the
  request, its handler answers, and the client's future gets the reply.
\<close>

lemma exchange:
  assumes "send_packet_async c now i w = (Inr f, w1)" "i < length (w_heap w)" "w_heap w ! i = p"
    and p: "plain_request p" "kind_of_class (p_class p) = Some k" "packet_class_of (p_code p) = p_class p"
      "p_code p \<in> set body_codes" "p_id p = Some n"
    and sent: "map_option t_sent (w_tr w1 k) = Some (before @ [raw])" "length raw \<le> 8192"
    and srv: "lookup_secret rt (fst a) = Inr (p_secret p)" "rt_dict rt = p_dict p" "fresh_datagram raw a s"
      "gate_code (p_code p) ty = Inr ()"
    and h: "\<And>q. p_code q = p_code p \<Longrightarrow> select_handler hs ty q = Inr h" "rc \<noteq> 0"
      "\<And>q s0 auth. received_as p auth q \<Longrightarrow> auth \<noteq> [] \<Longrightarrow> 0 \<le> n \<Longrightarrow> n < 256 \<Longrightarrow> \<exists>s1. h a q s0 = (Inr (), s1)
         \<and> sv_sent s1 = sv_sent s0 @ [(empty_reply rc (word_of_int n) auth (p_secret p), a)]"
  shows "\<exists>s' reply r. datagram_received env rt hs ty raw a s = (Inr (), s') \<and> sv_sent s' = sv_sent s @ [(reply, a)]
    \<and> w_futures (reply_received c k reply w1) ! f = Result r \<and> p_code r = uint rc
    \<and> od_get (pending_of k (reply_received c k reply w1)) (p_id p) = None"
proof -
  note b = body_codes_simps [OF p(4)]
  have cls: "p_class (w_heap w ! i) = p_class p" "p_code (w_heap w ! i) \<notin> {pt AccessRequest, pt StatusServer}"
    using assms(3) b(2,3) by simp_all
  obtain raw' p' t t1 where w1: "request_packet p = Inr (raw', p')" "w_heap w1 ! i = p'" "w_tr w k = Some t"
      "w_tr w1 k = Some t1" "t_sent t1 = t_sent t @ [raw']"
      "od_get (pending_of k w1) (p_id p) = Some \<lparr>q_packet = i, q_retries = 0, q_future = f, q_send_date = now\<rparr>"
      "w_futures w1 ! f = Waiting" "f < length (w_futures w1)"
    by (rule async_sent [OF assms(1) cls(1) p(2) assms(2) cls(2), unfolded assms(3)]) (rule that)
  have req: "request_packet p = Inr (raw, p')" using w1(1,4,5) sent(1) by simp
  have k: "kind_of_class (p_class p) \<noteq> None" using p(2) by simp
  obtain attr auth where r: "p' = p\<lparr>p_auth := Some auth\<rparr>" "0 \<le> n" "n < 256"
      "auth = md5 (take 4 raw @ zero_octets 16 @ attr @ p_secret p)"
    by (rule body_request [OF req p(1) k p(5)]) (rule that)
  have a16: "length auth = 16" unfolding r(4) by (rule length_md5)
  then have a0: "auth \<noteq> []" by auto
  let ?i = "word_of_int n :: byte" and ?reply = "empty_reply rc (word_of_int n) auth (p_secret p)"
  have n: "uint ?i = n" using r(2,3) by (simp add: uint_word_of_int_byte)
  have "\<exists>s'. datagram_received env rt hs ty raw a s = (Inr (), s') \<and> sv_sent s' = sv_sent s @ [(?reply, a)]"
    by (rule handled [OF p(1) req k p(5,3) sent(2) p(4) srv(4) _ srv(1-3) h(1)]) (use r(1-3) h(3) a0 in auto)
  moreover have "\<exists>r. w_futures (reply_received c k (empty_reply rc ?i auth (p_secret p')) w1) ! f = Result r
      \<and> p_code r = uint rc \<and> od_get (pending_of k (reply_received c k (empty_reply rc ?i auth (p_secret p')) w1)) (Some (uint ?i)) = None"
    by (rule empty_reply_accepted [OF _ _ w1(7,8),
        where q = "\<lparr>q_packet = i, q_retries = 0, q_future = f, q_send_date = now\<rparr>"])
      (use w1(2,6) p(1,5) r(1) b(3) h(2) n a16 in \<open>simp_all add: plain_request_def\<close>)
  ultimately show ?thesis using r(1) n p(5) by auto
qed

text \<open>
  C10 An accounting request that the asyncio client sends is answered by the scenario's accounting
  server, and the client takes the answer. Nothing on the way can go wrong: the octets are parsed as
  the packet that was sent, its digest is found right, the handler runs, the reply's digest is found
  right, the future holds the Accounting-Response and the identifier is free again. Needed are the
  same secret and dictionary on both sides, attributes that are sent as they are stored, an
  Acct-Status-Type among them, and a datagram that the server does not know already.
\<close>

theorem accounting_exchange:
  assumes "send_packet_async c now i w = (Inr f, w1)" "i < length (w_heap w)" "w_heap w ! i = p"
    and "plain_request p" "p_class p = AcctC" "p_code p = pt AccountingRequest" "p_id p = Some n"
    and "p_dict p = Some d" "integer_attr d (u ''Acct-Status-Type'') 40"
      "od_get (p_attrs p) (KInt 40) = Some (Vals [PBytes v])" "length v = 4"
    and "map_option t_sent (w_tr w1 KAcct) = Some (before @ [raw])" "length raw \<le> 8192"
    and "lookup_secret rt (fst a) = Inr (p_secret p)" "rt_dict rt = Some d" "fresh_datagram raw a s"
  shows "\<exists>s' reply r. datagram_received env rt (acct_server env rt) Acct raw a s = (Inr (), s')
    \<and> sv_sent s' = sv_sent s @ [(reply, a)]
    \<and> w_futures (reply_received c KAcct reply w1) ! f = Result r \<and> p_code r = pt AccountingResponse
    \<and> od_get (pending_of KAcct (reply_received c KAcct reply w1)) (p_id p) = None"
proof -
  have "\<exists>s1. demo_acct env rt a q s0 = (Inr (), s1)
      \<and> sv_sent s1 = sv_sent s0 @ [(empty_reply 5 (word_of_int n) auth (p_secret p), a)]"
    if "received_as p auth q" "auth \<noteq> []" "0 \<le> n" "n < 256" for q s0 auth
  proof -
    have q: "p_dict q = Some d" "od_get (p_attrs q) (KInt 40) = Some (Vals [PBytes v])"
      using that(1) assms(8,10) by (simp_all add: received_as_def)
    obtain x where "getitem (u ''Acct-Status-Type'') q = Inr x"
      using integer_readable [OF assms(9) q assms(11)] by blast
    then show ?thesis by (rule demo_acct_answers [OF assms(4) that(1,2) assms(5-7) that(3,4)])
  qed
  then have "\<exists>s' reply r. datagram_received env rt (acct_server env rt) Acct raw a s = (Inr (), s')
    \<and> sv_sent s' = sv_sent s @ [(reply, a)]
    \<and> w_futures (reply_received c KAcct reply w1) ! f = Result r \<and> p_code r = uint (5 :: byte)
    \<and> od_get (pending_of KAcct (reply_received c KAcct reply w1)) (p_id p) = None"
    by (intro exchange [OF assms(1-4) _ _ _ assms(7,12-14) _ assms(16), where h = "demo_acct env rt"])
      (use assms(5,6,8,15) in \<open>simp_all add: packet_class_of_def body_codes_def gate_code_def checkE_def
          select_handler_def acct_server_def demo_server_def\<close>)
  then show ?thesis by simp
qed

lemma session_id_read:
  assumes "plain_attr d n k ''string''" "p_dict q = Some d"
    "case od_get (p_attrs q) (KInt k) of None \<Rightarrow> True | Some st \<Rightarrow> \<exists>bs. st = Vals [PBytes bs]"
  shows "\<exists>x. packet_get n None q = Inr x"
proof (cases "od_get (p_attrs q) (KInt k)")
  case None
  obtain a where "dict_getitem d n = Inr a" "encode_name d n = Inr (KInt k)" using assms(1) by (rule plain_attrE)
  then show ?thesis
    using assms(2) None by (simp add: packet_get_def getitem_def with_dict_def raw_getitem_def)
next
  case (Some st)
  then obtain bs where "od_get (p_attrs q) (KInt k) = Some (Vals [PBytes bs])" using assms(3) by auto
  from getitem_one [OF assms(1,2) this] show ?thesis
    by (simp add: packet_get_def decode_attr_def decode_bytes_def container_types_def)
qed

text \<open>
  A CoA-Request that the asyncio client sends is answered by the scenario's server with a CoA-ACK
  that the client takes, under the same conditions; Acct-Session-Id may be missing.
\<close>

theorem coa_exchange:
  assumes "send_packet_async c now i w = (Inr f, w1)" "i < length (w_heap w)" "w_heap w ! i = p"
    and "plain_request p" "p_class p = CoAC" "p_code p = pt CoARequest" "p_id p = Some n"
    and "p_dict p = Some d" "plain_attr d (u ''Acct-Session-Id'') 44 ''string''"
      "case od_get (p_attrs p) (KInt 44) of None \<Rightarrow> True | Some st \<Rightarrow> \<exists>bs. st = Vals [PBytes bs]"
    and "map_option t_sent (w_tr w1 KCoa) = Some (before @ [raw])" "length raw \<le> 8192"
    and "lookup_secret rt (fst a) = Inr (p_secret p)" "rt_dict rt = Some d" "fresh_datagram raw a s"
  shows "\<exists>s' reply r. datagram_received env rt (coa_server env rt) Coa raw a s = (Inr (), s')
    \<and> sv_sent s' = sv_sent s @ [(reply, a)]
    \<and> w_futures (reply_received c KCoa reply w1) ! f = Result r \<and> p_code r = pt CoAACK
    \<and> od_get (pending_of KCoa (reply_received c KCoa reply w1)) (p_id p) = None"
proof -
  have "\<exists>s1. demo_coa env rt a q s0 = (Inr (), s1)
      \<and> sv_sent s1 = sv_sent s0 @ [(empty_reply 44 (word_of_int n) auth (p_secret p), a)]"
    if "received_as p auth q" "auth \<noteq> []" "0 \<le> n" "n < 256" for q s0 auth
  proof -
    have q: "p_dict q = Some d"
        "case od_get (p_attrs q) (KInt 44) of None \<Rightarrow> True | Some st \<Rightarrow> \<exists>bs. st = Vals [PBytes bs]"
      using that(1) assms(8,10) by (simp_all add: received_as_def)
    obtain x where "packet_get (u ''Acct-Session-Id'') None q = Inr x"
      using session_id_read [OF assms(9) q] by blast
    then show ?thesis by (rule demo_coa_answers [OF assms(4) that(1,2) assms(5-7) that(3,4)])
  qed
  then have "\<exists>s' reply r. datagram_received env rt (coa_server env rt) Coa raw a s = (Inr (), s')
    \<and> sv_sent s' = sv_sent s @ [(reply, a)]
    \<and> w_futures (reply_received c KCoa reply w1) ! f = Result r \<and> p_code r = uint (44 :: byte)
    \<and> od_get (pending_of KCoa (reply_received c KCoa reply w1)) (p_id p) = None"
    by (intro exchange [OF assms(1-4) _ _ _ assms(7,11-13) _ assms(15), where h = "demo_coa env rt"])
      (use assms(5,6,8,14) in \<open>simp_all add: packet_class_of_def body_codes_def gate_code_def checkE_def
          select_handler_def coa_server_def demo_server_def\<close>)
  then show ?thesis by simp
qed

text \<open>A dictionary with the two attributes, requests and a router for the witnesses.\<close>

definition exchange_dict :: dictionary where
  "exchange_dict = foldl (\<lambda>d (a, k). register_attribute a k d) eap_sample_dict
     [(sample_attribute ''Acct-Status-Type'' 40 ''integer'', KInt 40),
      (sample_attribute ''Acct-Session-Id'' 44 ''string'', KInt 44)]"

definition exchange_request :: "pclass \<Rightarrow> int \<Rightarrow> packet" where
  "exchange_request cls code = (blank_packet (Some exchange_dict))\<lparr>p_class := cls, p_code := code, p_id := Some 7,
     p_secret := [115, 51], p_attrs := [(KInt 40, Vals [PBytes [0, 0, 0, 1]]), (KInt 44, Vals [PBytes [97, 98]])]\<rparr>"

definition exchange_world :: "packet \<Rightarrow> world" where
  "exchange_world p = (world_of [p])\<lparr>w_tr := [KCoa \<mapsto> idle_transport, KAcct \<mapsto> idle_transport]\<rparr>"

definition exchange_router :: router where
  "exchange_router = eap_router\<lparr>rt_dict := Some exchange_dict\<rparr>"

text \<open>One datagram has been sent, and not a long one.\<close>

definition one_sent :: "kind \<Rightarrow> world \<Rightarrow> bool" where
  "one_sent k w \<longleftrightarrow>
     (case w_tr w k of Some t \<Rightarrow> (case t_sent t of [raw] \<Rightarrow> length raw \<le> 8192 | _ \<Rightarrow> False) | None \<Rightarrow> False)"

lemma one_sentE:
  assumes "one_sent k w"
  obtains raw where "map_option t_sent (w_tr w k) = Some ([] @ [raw])" "length raw \<le> 8192"
  using assms by (auto simp: one_sent_def split: option.splits list.splits)

lemma exchange_request_fields [simp]:
  "p_class (exchange_request cls code) = cls" "p_code (exchange_request cls code) = code"
  "p_id (exchange_request cls code) = Some 7" "p_dict (exchange_request cls code) = Some exchange_dict"
  "p_secret (exchange_request cls code) = [115, 51]"
  "p_attrs (exchange_request cls code) = [(KInt 40, Vals [PBytes [0, 0, 0, 1]]), (KInt 44, Vals [PBytes [97, 98]])]"
  by (simp_all add: exchange_request_def blank_packet_def)

lemma exchange_host: "lookup_secret exchange_router ''10.0.0.1'' = Inr [115, 51]"
    "rt_dict exchange_router = Some exchange_dict"
  by (simp_all add: exchange_router_def eap_router_def lookup_secret_def od_get_def)

lemma fresh_start: "fresh_datagram raw a (start None x)" "sv_sent (start None x) = []"
  by (simp_all add: fresh_datagram_def start_def)

lemma accounting_exchange_witness:
  "\<exists>w1 raw s' reply r. send_packet_async small_async 0 0 (exchange_world (exchange_request AcctC 4)) = (Inr 0, w1)
    \<and> datagram_received small_env exchange_router (acct_server small_env exchange_router) Acct raw (''10.0.0.1'', 9)
        (start None ()) = (Inr (), s')
    \<and> sv_sent s' = [(reply, ''10.0.0.1'', 9)]
    \<and> w_futures (reply_received small_async KAcct reply w1) ! 0 = Result r \<and> p_code r = pt AccountingResponse"
proof -
  let ?w = "exchange_world (exchange_request AcctC 4)"
  have "case send_packet_async small_async 0 0 ?w of (Inr f, w1) \<Rightarrow> f = 0 \<and> one_sent KAcct w1 | _ \<Rightarrow> False"
    by code_simp
  then obtain w1 where w1: "send_packet_async small_async 0 0 ?w = (Inr 0, w1)" "one_sent KAcct w1"
    by (auto split: prod.splits sum.splits)
  obtain raw where raw: "map_option t_sent (w_tr w1 KAcct) = Some ([] @ [raw])" "length raw \<le> 8192"
    using w1(2) by (rule one_sentE)
  have h: "0 < length (w_heap ?w)" "w_heap ?w ! 0 = exchange_request AcctC 4"
    by (simp_all add: exchange_world_def world_of_def)
  have p: "plain_request (exchange_request AcctC 4)" "integer_attr exchange_dict (u ''Acct-Status-Type'') 40"
    by code_simp+
  have "od_get (p_attrs (exchange_request AcctC 4)) (KInt 40) = Some (Vals [PBytes [0, 0, 0, 1]])"
    by (simp add: od_get_def)
  from accounting_exchange [OF w1(1) h p(1) _ _ _ _ p(2) this _ raw, where rt = exchange_router
      and a = "(''10.0.0.1'', 9)" and s = "start None ()" and env = small_env and n = 7] w1(1)
  show ?thesis by (auto simp: exchange_host fresh_start)
qed

lemma coa_exchange_witness:
  "\<exists>w1 raw s' reply r. send_packet_async small_async 0 0 (exchange_world (exchange_request CoAC 43)) = (Inr 0, w1)
    \<and> datagram_received small_env exchange_router (coa_server small_env exchange_router) Coa raw (''10.0.0.1'', 9)
        (start None ()) = (Inr (), s')
    \<and> sv_sent s' = [(reply, ''10.0.0.1'', 9)]
    \<and> w_futures (reply_received small_async KCoa reply w1) ! 0 = Result r \<and> p_code r = pt CoAACK"
proof -
  let ?w = "exchange_world (exchange_request CoAC 43)"
  have "case send_packet_async small_async 0 0 ?w of (Inr f, w1) \<Rightarrow> f = 0 \<and> one_sent KCoa w1 | _ \<Rightarrow> False"
    by code_simp
  then obtain w1 where w1: "send_packet_async small_async 0 0 ?w = (Inr 0, w1)" "one_sent KCoa w1"
    by (auto split: prod.splits sum.splits)
  obtain raw where raw: "map_option t_sent (w_tr w1 KCoa) = Some ([] @ [raw])" "length raw \<le> 8192"
    using w1(2) by (rule one_sentE)
  have h: "0 < length (w_heap ?w)" "w_heap ?w ! 0 = exchange_request CoAC 43"
    by (simp_all add: exchange_world_def world_of_def)
  have p: "plain_request (exchange_request CoAC 43)" "plain_attr exchange_dict (u ''Acct-Session-Id'') 44 ''string''"
    by code_simp+
  have "case od_get (p_attrs (exchange_request CoAC 43)) (KInt 44) of None \<Rightarrow> True | Some st \<Rightarrow> \<exists>bs. st = Vals [PBytes bs]"
    by (simp add: od_get_def)
  from coa_exchange [OF w1(1) h p(1) _ _ _ _ p(2) this raw, where rt = exchange_router
      and a = "(''10.0.0.1'', 9)" and s = "start None ()" and env = small_env and n = 7] w1(1)
  show ?thesis by (auto simp: exchange_host fresh_start)
qed

end
