(* ===== verification/ExampleServers.thy ===== *)
theory ExampleServers
  imports Scenario
begin

text \<open>
  The servers of \<^verbatim>\<open>src/examples/\<close>: \<^verbatim>\<open>server.py\<close> and \<^verbatim>\<open>server_coa.py\<close> on the sync server,
  \<^verbatim>\<open>server_async.py\<close>, \<^verbatim>\<open>server_radsec.py\<close>, and the round trip of \<^verbatim>\<open>dictionary_features.py\<close>. Their
  handlers log every attribute of the request, which decodes it: that can raise, and on the sync
  server what a handler raises ends the main loop.
\<close>

section \<open>The handlers\<close>

text \<open>\<^verbatim>\<open>for attr in pkt.keys(): logger.info("{}: {}", attr, pkt[attr])\<close>.\<close>

definition log_attributes :: "packet \<Rightarrow> unit res" where
  "log_attributes p =
     bindE (packet_keys p) (\<lambda>ks.
     foldE (\<lambda>k _.
       case k of
         KName n \<Rightarrow> bindE (getitem n p) (\<lambda>_. Inr ())
       | KRaw r \<Rightarrow> bindE (raw_getitem r p) (\<lambda>_. Inr ())) ks ())"

definition fake_attributes :: "(ustr \<times> pyval list) list" where
  "fake_attributes =
     [(u ''Service-Type'', [PStr (u ''Framed-User'')]), (u ''Framed-IP-Address'', [PStr (u ''192.168.0.1'')]),
      (u ''Framed-IPv6-Prefix'', [PStr (u ''fc66::1/64'')])]"

text \<open>As for \<open>framed_reply\<close>, \<open>RuntimeError\<close> stands for the walk over parents that does not end.\<close>

definition fake_reply :: "router \<Rightarrow> packet \<Rightarrow> packet res" where
  "fake_reply rt p =
     (case create_reply_packet rt None None fake_attributes p of Some r \<Rightarrow> r | None \<Rightarrow> Inl RuntimeError)"

definition fake_auth :: "env \<Rightarrow> router \<Rightarrow> 'u handler" where
  "fake_auth env rt p =
     bindS (liftE (log_attributes p)) (\<lambda>_.
     bindS (liftE (fake_reply rt p)) (\<lambda>reply.
     send_reply_packet env rt (reply\<lparr>p_code := pt AccessAccept\<rparr>)))"

text \<open>The reply keeps the code of its class (\<open>None\<close>), or gets one.\<close>

definition fake_answer :: "int option \<Rightarrow> env \<Rightarrow> router \<Rightarrow> 'u handler" where
  "fake_answer code env rt p =
     bindS (liftE (log_attributes p)) (\<lambda>_.
     bindS (liftE (plain_reply rt None p)) (\<lambda>reply.
     send_reply_packet env rt (case code of None \<Rightarrow> reply | Some c \<Rightarrow> reply\<lparr>p_code := c\<rparr>)))"

definition fake_acct :: "env \<Rightarrow> router \<Rightarrow> 'u handler" where
  "fake_acct = fake_answer None"

definition fake_coa :: "env \<Rightarrow> router \<Rightarrow> 'u handler" where
  "fake_coa = fake_answer None"

text \<open>Code 45 is a CoA-NAK.\<close>

definition fake_disconnect :: "env \<Rightarrow> router \<Rightarrow> 'u handler" where
  "fake_disconnect = fake_answer (Some 45)"

definition fake_server :: "env \<Rightarrow> router \<Rightarrow> 'u handlers" where
  "fake_server env rt =
     \<lparr>h_auth = fake_auth env rt, h_acct = fake_acct env rt, h_coa = fake_coa env rt,
      h_disconnect = fake_disconnect env rt\<rparr>"

text \<open>\<^verbatim>\<open>server_coa.py\<close>; the two handlers that it does not override do nothing.\<close>

definition fake_coa_ack :: "env \<Rightarrow> router \<Rightarrow> 'u handler" where
  "fake_coa_ack = fake_answer (Some (pt CoAACK))"

definition fake_disconnect_ack :: "env \<Rightarrow> router \<Rightarrow> 'u handler" where
  "fake_disconnect_ack = fake_answer (Some (pt DisconnectACK))"

definition fake_coa_server :: "env \<Rightarrow> router \<Rightarrow> 'u handlers" where
  "fake_coa_server env rt =
     \<lparr>h_auth = (\<lambda>_. retS ()), h_acct = (\<lambda>_. retS ()), h_coa = fake_coa_ack env rt,
      h_disconnect = fake_disconnect_ack env rt\<rparr>"

text \<open>\<^verbatim>\<open>server_async.py\<close>.\<close>

definition as_fake_auth :: "env \<Rightarrow> router \<Rightarrow> 'u ahandler" where
  "as_fake_auth env rt addr p =
     bindS (liftE (if p_auth p = None then Inl AttributeError else Inr ())) (\<lambda>_.
     bindS (liftE (log_attributes p)) (\<lambda>_.
     bindS (liftE (case as_create_reply_packet rt None None fake_attributes (Some p) of
                     Some r \<Rightarrow> r | None \<Rightarrow> Inl RuntimeError)) (\<lambda>reply.
     send_response env rt (reply\<lparr>p_code := pt AccessAccept\<rparr>) addr)))"

definition as_fake_answer :: "int option \<Rightarrow> env \<Rightarrow> router \<Rightarrow> 'u ahandler" where
  "as_fake_answer code env rt addr p =
     bindS (liftE (log_attributes p)) (\<lambda>_.
     bindS (liftE (as_plain_reply rt None p)) (\<lambda>reply.
     send_response env rt (case code of None \<Rightarrow> reply | Some c \<Rightarrow> reply\<lparr>p_code := c\<rparr>) addr))"

definition as_fake_server :: "env \<Rightarrow> router \<Rightarrow> 'u ahandlers" where
  "as_fake_server env rt =
     \<lparr>ah_auth = as_fake_auth env rt, ah_acct = as_fake_answer None env rt, ah_coa = as_fake_answer None env rt,
      ah_disconnect = as_fake_answer (Some 45) env rt\<rparr>"

text \<open>\<^verbatim>\<open>server_radsec.py\<close>.\<close>

definition rs_fake_access :: "'u rs_handler" where
  "rs_fake_access p =
     bindS (liftE (log_attributes p)) (\<lambda>_.
     liftE (case create_reply None None fake_attributes 0 p of
              Some r \<Rightarrow> bindE r (\<lambda>(q, _). Inr (q\<lparr>p_code := pt AccessAccept\<rparr>))
            | None \<Rightarrow> Inl RuntimeError))"

definition rs_fake_answer :: "int option \<Rightarrow> 'u rs_handler" where
  "rs_fake_answer code p =
     bindS (liftE (log_attributes p)) (\<lambda>_.
     bindS (liftE (bare_reply None p)) (\<lambda>reply.
     retS (case code of None \<Rightarrow> reply | Some c \<Rightarrow> reply\<lparr>p_code := c\<rparr>)))"

definition rs_fake_server :: "'u rs_handlers" where
  "rs_fake_server =
     \<lparr>rh_access = rs_fake_access, rh_accounting = rs_fake_answer None, rh_coa = Some (rs_fake_answer None),
      rh_disconnect = Some (rs_fake_answer (Some 45))\<rparr>"

section \<open>What ends the example server\<close>

text \<open>An attribute whose values are integers without names.\<close>

definition plain_integer :: "dictionary \<Rightarrow> int \<Rightarrow> bool" where
  "plain_integer d k \<longleftrightarrow>
     (case decode_key d (KInt k) of
        KRaw _ \<Rightarrow> False
      | KName n \<Rightarrow>
          (case dict_getitem d n of
             Inl _ \<Rightarrow> False
           | Inr a \<Rightarrow> a_code a = k \<and> a_type a = ''integer'' \<and> a_vendor a = [] \<and> \<not> a_is_sub a \<and> a_encrypt a \<noteq> 2
               \<and> backward (a_values a) = []))"

lemma short_integer_raises:
  assumes "plain_integer d k" "p_dict p = Some d" "p_attrs p = [(KInt k, Vals [PBytes v])]" "length v \<noteq> 4"
  shows "log_attributes p = Inl StructError"
proof -
  obtain n a where a: "decode_key d (KInt k) = KName n" "dict_getitem d n = Inr a" "a_type a = ''integer''"
      "a_encrypt a \<noteq> 2" "backward (a_values a) = []" "encode_name d n = Inr (KInt k)"
    using assms(1) by (auto simp: plain_integer_def encode_name_def split: akey.splits sum.splits)
  have "decode_value p a (PBytes v) = Inl StructError"
    using a assms(4)
    by (simp add: decode_value_def decode_attr_def decode_bytes_def decode_integer_def unpack_int_def unpack_uint_def od_get_def)
  then have "getitem n p = Inl StructError"
    using a assms(2,3)
    by (simp add: getitem_def with_dict_def raw_getitem_def store_iter_def container_types_def od_get_def)
  then show ?thesis
    using a(1) assms(2,3) by (simp add: log_attributes_def packet_keys_def with_dict_def od_keys_def)
qed

lemma integer_avp_encoded:
  assumes "flat_entry d (KInt k, Vals [PBytes v])" "0 \<le> k" "k < 256" "length v \<le> 253"
    "p_attrs p = [(KInt k, Vals [PBytes v])]" "p_dict p = d"
  shows "encode_stored p [] = Inr ([word_of_int k, word_of_nat (length v + 2)] @ v)"
proof -
  have "encode_avp_group d (KInt k) (Vals [PBytes v]) = Inr ([word_of_int k, word_of_nat (length v + 2)] @ v)"
    using assms(1-4)
    by (simp add: encode_avp_group_def flat_entry_def flat_key_def store_iter_def encode_plain_group_def
        pkt_encode_attribute_def pack2_def pack_uint_ok as_bytes_def be_bytes_1)
  then show ?thesis
    using assms by (simp add: encode_stored_flat)
qed

text \<open>A datagram with one attribute, as it reaches the accounting handler.\<close>

definition accounting_datagram :: "int \<Rightarrow> int \<Rightarrow> bytes \<Rightarrow> int \<Rightarrow> bytes \<Rightarrow> bytes" where
  "accounting_datagram code i auth k v = datagram code i auth ([word_of_int k, word_of_nat (length v + 2)] @ v)"

lemma accounting_parsed:
  assumes "flat_entry d (KInt k, Vals [PBytes v])" "0 \<le> k" "k < 256" "length v \<le> 253" "length auth = 16"
    "0 \<le> i" "i < 256"
  obtains q where
    "parse_packet (accounting_datagram 5 i auth k v) secret d V1_0 rng 0 cur = Inr (q, next_id cur)"
    "p_attrs q = [(KInt k, Vals [PBytes v])]" "p_dict q = d" "p_code q = 5" "p_ma q = None" "p_version q = V1_0"
proof -
  let ?raw = "accounting_datagram 5 i auth k v"
  define q0 where "q0 = (fst (new_packet AcctC (default_code AcctC) None secret None V1_0 d rng 0 cur))\<lparr>p_raw := Some ?raw\<rparr>"
  define p where "p = q0\<lparr>p_attrs := [(KInt k, Vals [PBytes v])]\<rparr>"
  have e: "encode_stored p [] = Inr ([word_of_int k, word_of_nat (length v + 2)] @ v)"
    by (rule integer_avp_encoded [OF assms(1-4)]) (simp_all add: p_def q0_def new_packet_def Let_def)
  have "decode_packet ?raw q0 = Inr (q0\<lparr>p_code := 5, p_id := Some i, p_auth := Some auth, p_attrs := p_attrs p,
      p_lbuf := [], p_vbuf := []\<rparr>)"
    unfolding accounting_datagram_def
    by (rule decode_datagram [OF _ _ e])
      (use assms in \<open>simp_all add: p_def q0_def new_packet_def Let_def od_wf_def\<close>)
  moreover obtain cs where "?raw = 5 # cs" by (simp add: accounting_datagram_def datagram_def be_bytes_1)
  ultimately have "parse_packet ?raw secret d V1_0 rng 0 cur = Inr (q0\<lparr>p_code := 5, p_id := Some i,
      p_auth := Some auth, p_attrs := p_attrs p, p_lbuf := [], p_vbuf := []\<rparr>, next_id cur)"
    by (simp add: parse_packet_def packet_class_of_def q0_def new_packet_def Let_def)
  then show ?thesis by (rule that) (simp_all add: p_def q0_def new_packet_def Let_def)
qed

text \<open>
  C25 One datagram ends the example server. Its accounting handler looks at every attribute, an integer
  that is not four octets long raises \<^verbatim>\<open>struct.error\<close>, and the main loop of the sync server drops a
  packet on two other exceptions only. The datagram is an Accounting-Response, so no digest is
  verified: whoever can send from the address of a host needs no secret.
\<close>

theorem example_server_killed:
  assumes "acct_enabled conf" "lookup_secret rt (fst a) = Inr secret" "rt_dict rt = Some d"
    and "plain_integer d k" "flat_entry (Some d) (KInt k, Vals [PBytes v])" "0 \<le> k" "k < 256"
      "encode_name d MA_NAME \<noteq> Inr (KInt k)" "encode_name d EAP_NAME \<noteq> Inr (KInt k)" "k \<noteq> 79"
    and "length v \<noteq> 4" "length v \<le> 253" "length auth = 16" "0 \<le> i" "i < 256"
  shows "fst (run env rt conf (fake_server env rt) ((AcctFd, accounting_datagram 5 i auth k v, a) # evs) s) = Inl StructError"
proof -
  let ?raw = "accounting_datagram 5 i auth k v"
  let ?s = "s\<lparr>sv_packets := Suc (sv_packets s), sv_cur := next_id (sv_cur s)\<rparr>"
  obtain q where pp: "parse_packet ?raw secret (Some d) V1_0 (env_rng env (sv_packets s)) 0 (sv_cur s) = Inr (q, next_id (sv_cur s))"
    and q: "p_attrs q = [(KInt k, Vals [PBytes v])]" "p_dict q = Some d" "p_code q = 5" "p_ma q = None" "p_version q = V1_0"
    by (rule accounting_parsed [OF assms(5-7,12-15)]) (rule that)
  let ?p = "q\<lparr>p_source := Some a\<rparr>"
  have raw: "?raw \<noteq> []" by (simp add: accounting_datagram_def datagram_def be_bytes_1)
  have grab: "grab_packet env rt ?raw a s = (Inr ?p, ?s)"
    using pp raw assms(2,3) by (simp add: grab_packet_def rt_parse_def bindS_def retS_def)
  then have "grabbed env rt ?raw a ?p" using grab_packet_result [of env rt ?raw a s ?p] by simp
  then have sec: "add_secret rt ?p = Inr ?p" by (rule add_secret_grabbed)
  have "k \<noteq> 80" using assms(5) by (auto simp: flat_entry_def flat_key_def)
  then have no: "\<not> has_message_authenticator ?p" "\<not> has_eap_message ?p"
    using q assms(8-10)
    by (auto simp: has_message_authenticator_def has_eap_message_def has_attribute_def contains_def encode_key_def
        with_dict_def od_mem_def split: sum.splits if_splits)
  have pol: "rt_validate_policy rt ?p = Inr ?p" "verify_request rt ?p = Inr ()"
    using no q(3) by (simp_all add: rt_validate_policy_def validate_message_authenticator_policy_def verify_request_def)
  have "log_attributes ?p = Inl StructError"
    by (rule short_integer_raises [OF assms(4)]) (use q assms(11) in simp_all)
  then have h: "fake_acct env rt ?p s1 = (Inl StructError, s1)" for s1 :: "'a srv"
    by (simp add: fake_acct_def fake_answer_def failS_def)
  have "key_for ?p None = None" using q(3) by (simp add: key_for_def DEDUPABLE_CODES_def)
  moreover have "consult_cache now c None = (PROCESS, [], c)" for now c
    by (cases c) (simp_all add: consult_cache_def)
  ultimately have "fst (dedup_dispatch env (fake_acct env rt) None ?p ?s) = Inl StructError"
    using h by (simp add: dedup_dispatch_def bindS_def dedup_key_for_def dedup_consult_def finallyS_def)
  then have "fst (process_input env rt conf (fake_server env rt) AcctFd ?raw a s) = Inl StructError"
    using assms(1) grab sec pol q(3)
    by (simp add: process_input_def bindS_def handle_acct_def handle_status_packet_def verified_dispatch_def
        fake_server_def retS_def liftE_def split: prod.split)
  then show ?thesis
    by (auto simp: turn_def catchS_def bindS_def dropped_def failS_def split: prod.splits sum.splits)
qed

definition port_router :: router where
  "port_router = small_router\<lparr>rt_dict := Some (register_attribute (sample_attribute ''NAS-Port'' 5 ''integer'') (KInt 5) dict_init)\<rparr>"

lemma example_server_killed_witness:
  "fst (run small_env port_router all_ports (fake_server small_env port_router)
     [(AcctFd, [5, 1, 0, 25] @ replicate 16 0 @ [5, 5, 0, 0, 1], ''10.0.0.9'', 1000)] (start None ())) = Inl StructError"
proof -
  let ?d = "register_attribute (sample_attribute ''NAS-Port'' 5 ''integer'') (KInt 5) dict_init"
  have d: "plain_integer ?d 5" "flat_entry (Some ?d) (KInt 5, Vals [PBytes [0, 0, 1]])"
      "encode_name ?d MA_NAME \<noteq> Inr (KInt 5)" "encode_name ?d EAP_NAME \<noteq> Inr (KInt 5)"
    by code_simp+
  have "accounting_datagram 5 1 (replicate 16 0) 5 [0, 0, 1] = [5, 1, 0, 25] @ replicate 16 0 @ [5, 5, 0, 0, 1]"
    by code_simp
  moreover have "fst (run small_env port_router all_ports (fake_server small_env port_router)
     [(AcctFd, accounting_datagram 5 1 (replicate 16 0) 5 [0, 0, 1], ''10.0.0.9'', 1000)] (start None ())) = Inl StructError"
    by (rule example_server_killed [OF _ _ _ d(1,2) _ _ d(3,4)])
      (simp_all add: all_ports_def port_router_def small_router_def lookup_secret_def od_get_def)
  ultimately show ?thesis by simp
qed

section \<open>The round trip of the dictionary features\<close>

text \<open>\<^verbatim>\<open>dictionary_features.py\<close>: a packet, its attributes behind a header made by hand, and a packet parsed from that.\<close>

definition fresh_packet :: "dictionary \<Rightarrow> packet" where
  "fresh_packet d =
     fst (new_packet PacketC 0 (Some 1) (ascii ''secret'') (Some (ascii ''0123456789ABCDEF'')) V1_0 (Some d) (\<lambda>_. 0) 0 0)"

definition encode_and_decode :: "packet \<Rightarrow> dictionary \<Rightarrow> packet res" where
  "encode_and_decode p d =
     bindE (pkt_encode_attributes p) (\<lambda>(attrs, _).
     bindE (pack_uint 1 1) (\<lambda>c. bindE (pack_uint 1 1) (\<lambda>i. bindE (pack_uint 2 (20 + int (length attrs))) (\<lambda>l.
     decode_packet (c @ i @ l @ ascii ''0123456789ABCDEF'' @ attrs) (fresh_packet d)))))"

lemma features_roundtrip:
  assumes "\<forall>e \<in> set (p_attrs p). flat_entry (Some d) e" "od_wf (p_attrs p)" "p_dict p = Some d" "p_deferred p = []"
    "encode_stored p [] = Inr attrs" "length attrs \<le> 8172"
  shows "\<exists>q. encode_and_decode p d = Inr q \<and> p_attrs q = p_attrs p"
proof -
  let ?a = "ascii ''0123456789ABCDEF''"
  have f: "p_version (fresh_packet d) = V1_0" "p_dict (fresh_packet d) = p_dict p"
    using assms(3) by (simp_all add: fresh_packet_def new_packet_def Let_def)
  have "pack_uint 1 1 = Inr (be_bytes 1 1)" "pack_uint 2 (20 + int (length attrs)) = Inr (be_bytes 2 (20 + int (length attrs)))"
    using assms(6) by (simp_all add: pack_uint_ok)
  moreover have "length ?a = 16" by code_simp
  then have "\<exists>q. decode_packet (datagram 1 1 ?a attrs) (fresh_packet d) = Inr q \<and> p_attrs q = p_attrs p"
    using decode_datagram [OF _ assms(2,5,6) _ _ _ _ _ f, of 1 1 ?a] assms(1,3) by simp
  ultimately show ?thesis
    using assms(4,5) by (simp add: encode_and_decode_def encode_attributes_plain datagram_def)
qed

end
