(* ===== verification/TlsSetup.thy ===== *)
theory TlsSetup
  imports RadSecServer RadSecClient
begin

text \<open>
  The constructors of \<^verbatim>\<open>RadSecClient\<close> and \<^verbatim>\<open>RadSecServer\<close> with their \<^verbatim>\<open>setup_ssl\<close>, over a record of
  what the code sets in an \<^verbatim>\<open>ssl.SSLContext\<close>. What OpenSSL meets when it loads a file or reads a cipher
  string is the input \<open>tls_files\<close>. The handshake is its one outcome that the code looks at: the
  protocol that ALPN selects from the lists of both contexts.
\<close>

section \<open>The \<^verbatim>\<open>ssl\<close> module\<close>

datatype verify_mode = CERT_NONE | CERT_OPTIONAL | CERT_REQUIRED

record ssl_context =
  sc_chain :: "(ustr \<times> ustr) option"
  sc_cafile :: "ustr option"
  sc_verify_mode :: verify_mode
  sc_check_hostname :: bool
  sc_minimum :: int
  sc_ciphers :: "ustr option"
  sc_alpn :: "string list option"

text \<open>
  FileNotFoundError carries a message that the code composes, or none when it comes from the
  \<^verbatim>\<open>ssl\<close> module. Every other exception is of the kinds of the rest of the model (\<^verbatim>\<open>ssl.SSLError\<close> is an
  OSError).
\<close>

datatype setup_error = Raised exn | FileNotFound "ustr option"

type_synonym 'a tls_res = "setup_error + 'a"

record tls_files =
  tf_chain :: "ustr \<Rightarrow> ustr \<Rightarrow> setup_error option"
  tf_ca :: "ustr \<Rightarrow> setup_error option"
  tf_ciphers :: "ustr \<Rightarrow> setup_error option"

definition attempt :: "setup_error option \<Rightarrow> 'a \<Rightarrow> 'a tls_res" where
  "attempt e x = (case e of None \<Rightarrow> Inr x | Some err \<Rightarrow> Inl err)"

definition load_cert_chain :: "tls_files \<Rightarrow> ustr \<Rightarrow> ustr \<Rightarrow> ssl_context \<Rightarrow> ssl_context tls_res" where
  "load_cert_chain fs cert key ctx = attempt (tf_chain fs cert key) (ctx\<lparr>sc_chain := Some (cert, key)\<rparr>)"

definition load_verify_locations :: "tls_files \<Rightarrow> ustr \<Rightarrow> ssl_context \<Rightarrow> ssl_context tls_res" where
  "load_verify_locations fs ca ctx = attempt (tf_ca fs ca) (ctx\<lparr>sc_cafile := Some ca\<rparr>)"

definition set_ciphers :: "tls_files \<Rightarrow> ustr option \<Rightarrow> ssl_context \<Rightarrow> ssl_context tls_res" where
  "set_ciphers fs ciphers ctx =
     (case ciphers of
        None \<Rightarrow> Inr ctx
      | Some c \<Rightarrow> attempt (tf_ciphers fs c) (ctx\<lparr>sc_ciphers := Some c\<rparr>))"

text \<open>
  \<^verbatim>\<open>ssl.create_default_context\<close>: a context for connecting checks certificates and names, one for
  accepting does not. Checking names and not checking certificates exclude each other.
\<close>

definition context_for_client :: "tls_files \<Rightarrow> ustr \<Rightarrow> ssl_context tls_res" where
  "context_for_client fs ca =
     load_verify_locations fs ca
       \<lparr>sc_chain = None, sc_cafile = None, sc_verify_mode = CERT_REQUIRED, sc_check_hostname = True,
        sc_minimum = TLSv1_2, sc_ciphers = None, sc_alpn = None\<rparr>"

definition context_for_server :: ssl_context where
  "context_for_server =
     \<lparr>sc_chain = None, sc_cafile = None, sc_verify_mode = CERT_NONE, sc_check_hostname = False,
      sc_minimum = TLSv1_2, sc_ciphers = None, sc_alpn = None\<rparr>"

definition set_check_hostname :: "bool \<Rightarrow> ssl_context \<Rightarrow> ssl_context" where
  "set_check_hostname b ctx =
     ctx\<lparr>sc_check_hostname := b,
         sc_verify_mode := (if b \<and> sc_verify_mode ctx = CERT_NONE then CERT_REQUIRED else sc_verify_mode ctx)\<rparr>"

definition set_verify_mode :: "verify_mode \<Rightarrow> ssl_context \<Rightarrow> ssl_context tls_res" where
  "set_verify_mode v ctx =
     (if v = CERT_NONE \<and> sc_check_hostname ctx then Inl (Raised ValueError) else Inr (ctx\<lparr>sc_verify_mode := v\<rparr>))"

section \<open>\<^verbatim>\<open>setup_ssl\<close>\<close>

definition missing_files_message :: "ustr list \<Rightarrow> ustr" where
  "missing_files_message paths =
     u ''One or more SSL files could not be found. Current paths: '' @ join_with (u '', '') paths"

text \<open>\<^verbatim>\<open>except FileNotFoundError as e: raise FileNotFoundError(...) from e\<close>.\<close>

definition naming_files :: "ustr list \<Rightarrow> 'a tls_res \<Rightarrow> 'a tls_res" where
  "naming_files paths r =
     (case r of Inl (FileNotFound _) \<Rightarrow> Inl (FileNotFound (Some (missing_files_message paths))) | _ \<Rightarrow> r)"

definition advertise :: "RadiusVersion list \<Rightarrow> ssl_context \<Rightarrow> ssl_context tls_res" where
  "advertise versions ctx =
     (case apply_alpn versions of
        Inl e \<Rightarrow> Inl (Raised e)
      | Inr None \<Rightarrow> Inr ctx
      | Inr (Some ps) \<Rightarrow> Inr (ctx\<lparr>sc_alpn := Some ps\<rparr>))"

definition client_setup_ssl ::
    "tls_files \<Rightarrow> ustr \<Rightarrow> ustr \<Rightarrow> ustr \<Rightarrow> bool \<Rightarrow> int \<Rightarrow> ustr option \<Rightarrow> RadiusVersion list \<Rightarrow> ssl_context tls_res" where
  "client_setup_ssl fs cert key server_cert hostname minimum ciphers versions =
     bindE (naming_files [cert, key, server_cert]
              (bindE (context_for_client fs server_cert) (load_cert_chain fs cert key))) (\<lambda>ctx.
     bindE (set_ciphers fs ciphers ((set_check_hostname hostname ctx)\<lparr>sc_minimum := minimum\<rparr>)) (\<lambda>ctx.
     advertise versions ctx))"

definition server_setup_ssl ::
    "tls_files \<Rightarrow> ustr \<Rightarrow> ustr \<Rightarrow> ustr \<Rightarrow> verify_mode \<Rightarrow> int \<Rightarrow> ustr option \<Rightarrow> RadiusVersion list
     \<Rightarrow> ssl_context tls_res" where
  "server_setup_ssl fs cert key ca mode minimum ciphers versions =
     bindE (naming_files [cert, key, ca] (load_cert_chain fs cert key context_for_server)) (\<lambda>ctx.
     bindE (set_verify_mode mode ctx) (\<lambda>ctx.
     bindE (load_verify_locations fs ca (ctx\<lparr>sc_minimum := minimum\<rparr>)) (\<lambda>ctx.
     bindE (set_ciphers fs ciphers ctx) (\<lambda>ctx.
     advertise versions ctx))))"

section \<open>The constructors\<close>

text \<open>The set comprehension of both constructors; \<open>None\<close> is as good as no fingerprint.\<close>

fun normalize_all :: "ustr list \<Rightarrow> ustr list res" where
  "normalize_all [] = Inr []"
| "normalize_all (f # fs) =
     bindE (normalize_cert_fingerprint f) (\<lambda>n. bindE (normalize_all fs) (\<lambda>ns. Inr (List.insert n ns)))"

definition liftR :: "'a res \<Rightarrow> 'a tls_res" where
  "liftR r = (case r of Inl e \<Rightarrow> Inl (Raised e) | Inr x \<Rightarrow> Inr x)"

text \<open>The arguments of the constructors that the model uses, with their defaults.\<close>

record client_options =
  co_secret :: bytes
  co_dict :: "dictionary option"
  co_retries :: int
  co_certfile :: ustr
  co_keyfile :: ustr
  co_certfile_server :: ustr
  co_check_hostname :: bool
  co_minimum :: int
  co_ciphers :: "ustr option"
  co_fingerprints :: "ustr list"
  co_reuse :: bool
  co_versions :: "RadiusVersion list"

definition client_defaults :: client_options where
  "client_defaults =
     \<lparr>co_secret = ascii ''radsec'', co_dict = None, co_retries = 3,
      co_certfile = u ''certs/client/client.cert.pem'', co_keyfile = u ''certs/client/client.key.pem'',
      co_certfile_server = u ''certs//ca/ca.cert.pem'', co_check_hostname = True, co_minimum = TLSv1_3,
      co_ciphers = None, co_fingerprints = [], co_reuse = True, co_versions = [V1_0]\<rparr>"

record server_options =
  so_hosts :: "(string, bytes) od"
  so_dict :: "dictionary option"
  so_verify :: bool
  so_certfile :: ustr
  so_keyfile :: ustr
  so_ca_certfile :: ustr
  so_verify_mode :: verify_mode
  so_minimum :: int
  so_ciphers :: "ustr option"
  so_fingerprints :: "ustr list"
  so_max :: "int option"
  so_require_ma :: bool
  so_require_eap :: bool
  so_enable_coa :: bool
  so_enable_disconnect :: bool
  so_versions :: "RadiusVersion list"

definition server_defaults :: server_options where
  "server_defaults =
     \<lparr>so_hosts = [], so_dict = None, so_verify = False,
      so_certfile = u ''certs/server/server.cert.pem'', so_keyfile = u ''certs/server/server.key.pem'',
      so_ca_certfile = u ''certs/ca/ca.cert.pem'', so_verify_mode = CERT_REQUIRED, so_minimum = TLSv1_3,
      so_ciphers = None, so_fingerprints = [], so_max = None, so_require_ma = False, so_require_eap = True,
      so_enable_coa = True, so_enable_disconnect = True, so_versions = [V1_0]\<rparr>"

text \<open>The registered EAP methods, DES and the random numbers are the surroundings of the client.\<close>

definition radsec_client_init ::
    "tls_files \<Rightarrow> registry \<Rightarrow> des \<Rightarrow> (nat \<Rightarrow> int) \<Rightarrow> client_options \<Rightarrow> (radsec_client \<times> ssl_context) tls_res" where
  "radsec_client_init fs methods des seed opts =
     bindE (liftR (normalize_all (co_fingerprints opts))) (\<lambda>allowed.
     if co_versions opts = [] then Inl (Raised ValueError)
     else
       bindE (client_setup_ssl fs (co_certfile opts) (co_keyfile opts) (co_certfile_server opts) (co_check_hostname opts)
                (enforce_tls_version_floor (co_minimum opts) (co_versions opts)) (co_ciphers opts) (co_versions opts)) (\<lambda>ctx.
       Inr (\<lparr>rc_retries = co_retries opts, rc_reuse = co_reuse opts, rc_allowed = allowed,
             rc_versions = co_versions opts, rc_secret = co_secret opts, rc_dict = co_dict opts,
             rc_methods = methods, rc_des = des, rc_seed = seed\<rparr>, ctx)))"

definition radsec_server_init ::
    "tls_files \<Rightarrow> (nat \<Rightarrow> nat \<Rightarrow> int) \<Rightarrow> server_options \<Rightarrow> (radsec_server \<times> ssl_context) tls_res" where
  "radsec_server_init fs rng opts =
     bindE (liftR (normalize_all (so_fingerprints opts))) (\<lambda>allowed.
     if so_versions opts = [] then Inl (Raised ValueError)
     else
       bindE (server_setup_ssl fs (so_certfile opts) (so_keyfile opts) (so_ca_certfile opts) (so_verify_mode opts)
                (enforce_tls_version_floor (so_minimum opts) (so_versions opts)) (so_ciphers opts) (so_versions opts)) (\<lambda>ctx.
       Inr (\<lparr>rv_hosts = so_hosts opts, rv_dict = so_dict opts, rv_verify = so_verify opts,
             rv_require_ma = so_require_ma opts, rv_require_eap = so_require_eap opts,
             rv_enable_coa = so_enable_coa opts, rv_enable_disconnect = so_enable_disconnect opts,
             rv_allowed = allowed, rv_versions = so_versions opts, rv_max = so_max opts, rv_rng = rng\<rparr>, ctx)))"

text \<open>
  The protocol that \<^verbatim>\<open>selected_alpn_protocol()\<close> returns at both ends of a handshake: the first of the
  server's that the client offered, \<^verbatim>\<open>None\<close> when there is none or one end does not use ALPN.
\<close>

definition alpn_selected :: "ssl_context \<Rightarrow> ssl_context \<Rightarrow> string option" where
  "alpn_selected client server =
     (case (sc_alpn client, sc_alpn server) of
        (Some cs, Some ss) \<Rightarrow> List.find (\<lambda>p. p \<in> set cs) ss
      | _ \<Rightarrow> None)"

end
