(* ===== verification/TlsAgreement.thy ===== *)
theory TlsAgreement
  imports TlsSetup Tunnel
begin

text \<open>
  What the endpoints that the constructors return are like: their TLS contexts, the version that
  both ends of a handshake go on with, and the certificates that a list of fingerprints lets in.
\<close>

section \<open>Contexts\<close>

lemma naming_files_Inr [simp]: "naming_files ps r = Inr x \<longleftrightarrow> r = Inr x"
  by (auto simp: naming_files_def split: sum.splits setup_error.splits)

lemma attempt_Inr [simp]: "attempt e x = Inr y \<longleftrightarrow> e = None \<and> y = x"
  by (auto simp: attempt_def split: option.splits)

lemma liftR_Inr [simp]: "liftR r = Inr x \<longleftrightarrow> r = Inr x"
  by (auto simp: liftR_def split: sum.splits)

definition offered :: "RadiusVersion list \<Rightarrow> string list option" where
  "offered vs = (case apply_alpn vs of Inr ps \<Rightarrow> ps | Inl _ \<Rightarrow> None)"

lemma advertise_Inr: "advertise vs ctx = Inr ctx' \<Longrightarrow> sc_alpn ctx = None \<Longrightarrow> ctx' = ctx\<lparr>sc_alpn := offered vs\<rparr>"
  by (auto simp: advertise_def offered_def split: sum.splits option.splits)

lemma set_ciphers_Inr: "set_ciphers fs c ctx = Inr ctx' \<Longrightarrow> ctx' = ctx\<lparr>sc_ciphers := (if c = None then sc_ciphers ctx else c)\<rparr>"
  by (auto simp: set_ciphers_def split: option.splits)

lemma client_context:
  assumes "radsec_client_init fs ms des seed opts = Inr (c, ctx)"
  shows "ctx = \<lparr>sc_chain = Some (co_certfile opts, co_keyfile opts), sc_cafile = Some (co_certfile_server opts),
      sc_verify_mode = CERT_REQUIRED, sc_check_hostname = co_check_hostname opts,
      sc_minimum = enforce_tls_version_floor (co_minimum opts) (co_versions opts),
      sc_ciphers = co_ciphers opts, sc_alpn = offered (co_versions opts)\<rparr>"
    and "rc_versions c = co_versions opts" "co_versions opts \<noteq> []"
    and "normalize_all (co_fingerprints opts) = Inr (rc_allowed c)"
  using assms
  by (auto simp: radsec_client_init_def client_setup_ssl_def context_for_client_def load_verify_locations_def
      load_cert_chain_def set_check_hostname_def elim!: bindE_InrE split: if_splits dest!: set_ciphers_Inr advertise_Inr)

lemma server_context:
  assumes "radsec_server_init fs rng opts = Inr (srv, ctx)"
  shows "ctx = \<lparr>sc_chain = Some (so_certfile opts, so_keyfile opts), sc_cafile = Some (so_ca_certfile opts),
      sc_verify_mode = so_verify_mode opts, sc_check_hostname = False,
      sc_minimum = enforce_tls_version_floor (so_minimum opts) (so_versions opts),
      sc_ciphers = so_ciphers opts, sc_alpn = offered (so_versions opts)\<rparr>"
    and "rv_versions srv = so_versions opts" "so_versions opts \<noteq> []"
    and "normalize_all (so_fingerprints opts) = Inr (rv_allowed srv)"
  using assms
  by (auto simp: radsec_server_init_def server_setup_ssl_def context_for_server_def load_verify_locations_def
      load_cert_chain_def set_verify_mode_def elim!: bindE_InrE split: if_splits dest!: set_ciphers_Inr advertise_Inr)

lemma advertised: "vs \<noteq> [] \<Longrightarrow> advertise vs ctx = Inr (if vs = [V1_0] then ctx else ctx\<lparr>sc_alpn := offered vs\<rparr>)"
  by (simp add: advertise_def apply_alpn_def offered_def)

text \<open>The constructors return when the files are there and the arguments are good.\<close>

lemma client_constructed:
  assumes "tf_chain fs (co_certfile opts) (co_keyfile opts) = None" "tf_ca fs (co_certfile_server opts) = None"
    "co_ciphers opts = None" "normalize_all (co_fingerprints opts) = Inr ns" "co_versions opts \<noteq> []"
  obtains c ctx where "radsec_client_init fs ms des seed opts = Inr (c, ctx)"
  using assms that
  by (simp add: radsec_client_init_def liftR_def client_setup_ssl_def context_for_client_def load_verify_locations_def
      load_cert_chain_def attempt_def naming_files_def set_ciphers_def advertised)

lemma server_constructed:
  assumes "tf_chain fs (so_certfile opts) (so_keyfile opts) = None" "tf_ca fs (so_ca_certfile opts) = None"
    "so_ciphers opts = None" "normalize_all (so_fingerprints opts) = Inr ns" "so_versions opts \<noteq> []"
  obtains srv ctx where "radsec_server_init fs rng opts = Inr (srv, ctx)"
  using assms that
  by (simp add: radsec_server_init_def liftR_def server_setup_ssl_def context_for_server_def load_verify_locations_def
      load_cert_chain_def attempt_def naming_files_def set_ciphers_def set_verify_mode_def advertised)

text \<open>
  When the CA file is missing the client names the three files; the server loads its CA file after
  the \<^verbatim>\<open>try\<close>, so its error names none.
\<close>

lemma missing_ca_client:
  assumes "tf_ca fs (co_certfile_server opts) = Some (FileNotFound m)"
    "normalize_all (co_fingerprints opts) = Inr ns" "co_versions opts \<noteq> []"
  shows "radsec_client_init fs ms des seed opts = Inl (FileNotFound (Some
     (missing_files_message [co_certfile opts, co_keyfile opts, co_certfile_server opts])))"
  using assms by (simp add: radsec_client_init_def liftR_def client_setup_ssl_def context_for_client_def
      load_verify_locations_def attempt_def naming_files_def)

lemma missing_ca_server:
  assumes "tf_ca fs (so_ca_certfile opts) = Some (FileNotFound None)" "tf_chain fs (so_certfile opts) (so_keyfile opts) = None"
    "normalize_all (so_fingerprints opts) = Inr ns" "so_versions opts \<noteq> []"
  shows "radsec_server_init fs rng opts = Inl (FileNotFound None)"
  using assms by (simp add: radsec_server_init_def liftR_def server_setup_ssl_def context_for_server_def
      load_verify_locations_def load_cert_chain_def set_verify_mode_def attempt_def naming_files_def)

section \<open>Versions\<close>

lemma version_sets:
  assumes "vs \<noteq> []"
  obtains "set vs = {V1_0}" | "set vs = {V1_1}" | "set vs = {V1_0, V1_1}"
proof -
  have v: "v = V1_0 \<or> v = V1_1" for v by (cases v) simp_all
  have ne: "set vs \<noteq> {}" using assms by simp
  have "set vs \<subseteq> {V1_0, V1_1}" using v by blast
  then have "set vs \<in> Pow {V1_0, V1_1}" by (rule PowI)
  then have "set vs \<in> {{}, {V1_0}, {V1_1}, {V1_0, V1_1}}" by (simp add: Pow_insert) blast
  then show thesis using that ne by blast
qed

lemma offered_eq:
  "vs \<noteq> [] \<Longrightarrow> offered vs =
     (if vs = [V1_0] then None else Some (map ALPN_BY_VERSION (rev (sorted_list_of_set (set vs)))))"
  by (simp add: offered_def apply_alpn_def)

lemma sorted_versions: "sorted_list_of_set {V1_0, V1_1} = [V1_0, V1_1]"
  by (simp add: less_eq_RadiusVersion_def)

lemma offered_cases:
  assumes "vs \<noteq> []"
  obtains "set vs = {V1_0}" "offered vs = None"
  | "set vs = {V1_0}" "offered vs = Some [ALPN_V1_0]"
  | "set vs = {V1_1}" "offered vs = Some [ALPN_V1_1]"
  | "set vs = {V1_0, V1_1}" "offered vs = Some [ALPN_V1_1, ALPN_V1_0]"
proof (rule version_sets [OF assms])
  assume v: "set vs = {V1_0}"
  show thesis
  proof (cases "vs = [V1_0]")
    case True
    then show thesis using that(1) by (simp add: offered_eq)
  next
    case False
    then show thesis using that(2) by (simp add: offered_eq [OF assms] v)
  qed
next
  assume v: "set vs = {V1_1}"
  then have "vs \<noteq> [V1_0]" by force
  then show thesis using that(3) by (simp add: offered_eq [OF assms] v)
next
  assume v: "set vs = {V1_0, V1_1}"
  then have "vs \<noteq> [V1_0]" by force
  then show thesis using that(4) by (simp add: offered_eq [OF assms] v sorted_versions)
qed

lemma Max_versions: "Max {V1_0, V1_1} = V1_1"
  by (simp add: max_def less_eq_RadiusVersion_def)

text \<open>
  C21 Both ends of a handshake go on with the highest version that both were constructed with; without
  a common version at least one of them closes the connection. Python's ALPN callback picks the first
  protocol of the server's list that the client offered, and no protocol when there is none.
\<close>

theorem handshake_agrees:
  assumes "radsec_client_init fc ms des seed co = Inr (c, cc)" "radsec_server_init fs rng so = Inr (srv, sc)"
  shows "let common = set (co_versions co) \<inter> set (so_versions so); p = alpn_selected cc sc
    in if common = {} then negotiate (rc_versions c) p = Inl NoCommonRadiusVersion
         \<or> negotiate (rv_versions srv) p = Inl NoCommonRadiusVersion
       else negotiate (rc_versions c) p = Inr (Max common) \<and> negotiate (rv_versions srv) p = Inr (Max common)
         \<and> (Max common = V1_1 \<longrightarrow> TLSv1_3 \<le> sc_minimum cc \<and> TLSv1_3 \<le> sc_minimum sc)"
proof -
  note c = client_context [OF assms(1)] and s = server_context [OF assms(2)]
  have n: "ALPN_V1_0 \<noteq> ALPN_V1_1" "ALPN_V1_1 \<noteq> ALPN_V1_0" by (simp_all add: ALPN_V1_0_def ALPN_V1_1_def)
  have floor: "TLSv1_3 \<le> enforce_tls_version_floor m vs" if "V1_1 \<in> set vs" for m vs
    using enforce_tls_floor that by blast
  show ?thesis
    by (rule offered_cases [OF c(3)]; rule offered_cases [OF s(3)])
      (simp_all add: c(1,2) s(1,2) alpn_selected_def negotiate_def VERSION_BY_ALPN_def Max_versions n floor insert_commute)
qed

lemma handshake_agrees_witness:
  "\<exists>c cc srv sc.
     radsec_client_init \<lparr>tf_chain = \<lambda>_ _. None, tf_ca = \<lambda>_. None, tf_ciphers = \<lambda>_. None\<rparr> [] None (\<lambda>_. 7)
       (client_defaults\<lparr>co_versions := [V1_0, V1_1], co_minimum := TLSv1_2\<rparr>) = Inr (c, cc)
     \<and> radsec_server_init \<lparr>tf_chain = \<lambda>_ _. None, tf_ca = \<lambda>_. None, tf_ciphers = \<lambda>_. None\<rparr> (\<lambda>_ _. 5)
       (server_defaults\<lparr>so_versions := [V1_1, V1_0]\<rparr>) = Inr (srv, sc)
     \<and> negotiate (rc_versions c) (alpn_selected cc sc) = Inr V1_1
     \<and> negotiate (rv_versions srv) (alpn_selected cc sc) = Inr V1_1
     \<and> sc_minimum cc = TLSv1_3"
proof -
  let ?fs = "\<lparr>tf_chain = \<lambda>_ _. None, tf_ca = \<lambda>_. None, tf_ciphers = \<lambda>_. None\<rparr>"
  let ?co = "client_defaults\<lparr>co_versions := [V1_0, V1_1], co_minimum := TLSv1_2\<rparr>"
  let ?so = "server_defaults\<lparr>so_versions := [V1_1, V1_0]\<rparr>"
  obtain c cc where c: "radsec_client_init ?fs [] None (\<lambda>_. 7) ?co = Inr (c, cc)"
    by (rule client_constructed [of ?fs ?co]) (simp_all add: client_defaults_def)
  obtain srv sc where s: "radsec_server_init ?fs (\<lambda>_ _. 5) ?so = Inr (srv, sc)"
    by (rule server_constructed [of ?fs ?so]) (simp_all add: server_defaults_def)
  have m: "sc_minimum cc = TLSv1_3"
    using client_context(1) [OF c] by (simp add: client_defaults_def enforce_tls_version_floor_def TLSv1_2_def TLSv1_3_def)
  have i: "{V1_0, V1_1} \<inter> {V1_1, V1_0} = {V1_0, V1_1}" by blast
  show ?thesis
    using handshake_agrees [OF c s] c s m by (simp add: client_defaults_def server_defaults_def Let_def i Max_versions)
qed

section \<open>Fingerprints\<close>

lemma length_sha256_step: "length s = 8 \<Longrightarrow> length (sha256_step kw s) = 8"
  by (cases "(kw, s)" rule: sha256_step.cases) (simp_all add: Let_def)

lemma length_sha256_fold: "length s = 8 \<Longrightarrow> length (fold sha256_step kws s) = 8"
  by (induction kws arbitrary: s) (simp_all add: length_sha256_step)

lemma length_sha256_blocks: "length s = 8 \<Longrightarrow> length (fold sha256_block bs s) = 8"
  by (induction bs arbitrary: s) (simp_all add: sha256_block_def length_sha256_fold)

lemma length_SHA256_H: "length SHA256_H = 8"
proof -
  have "length (filter is_prime_nat [2..<20]) = 8" by code_simp
  moreover have "[2..<20 + 292] = [2..<20] @ [20..<20 + 292 :: nat]" by (rule upt_add_eq_append) simp
  ultimately obtain A B where ab: "filter is_prime_nat [2..<20 + 292] = A @ B" "length A = 8"
    by (simp only: filter_append)
  have n: "(312 :: nat) = 20 + 292" by simp
  show ?thesis by (simp only: SHA256_H_def SHA256_PRIMES_def n ab(1)) (simp add: ab(2))
qed

lemma length_sha256 [simp]: "length (sha256 m) = 32"
proof -
  have "length (concat (map (\<lambda>w. be_bytes 4 (uint w)) ws)) = 4 * length ws" for ws :: "32 word list"
    by (induction ws) simp_all
  then show ?thesis by (simp add: sha256_def length_sha256_blocks length_SHA256_H del: be_bytes.simps)
qed

definition hex_digit :: "nat \<Rightarrow> bool" where
  "hex_digit c \<longleftrightarrow> 48 \<le> c \<and> c \<le> 57 \<or> 97 \<le> c \<and> c \<le> 102"

lemma hex_char_digit: "d < 16 \<Longrightarrow> hex_digit (hex_char d)"
  by (auto simp: hex_digit_def hex_char_def)

lemma nibbles: "unat (b :: byte) div 16 < 16" "unat b mod 16 < 16"
  using unat_byte_less [of b] by simp_all

lemma hex_of_digits: "list_all hex_digit (hex_of bs)"
  by (induction bs) (simp_all add: hex_of_def hex_byte_def hex_char_digit nibbles)

lemma is_hex_hex_of: "is_hex (hex_of bs)"
proof (induction bs)
  case (Cons b bs)
  have "hex_char d \<notin> {9, 10, 11, 12, 13, 32}" for d by (simp add: hex_char_def)
  with Cons show ?case
    by (simp add: hex_of_def hex_byte_def hex_val_hex_char nibbles del: insert_iff)
qed (simp add: hex_of_def)

lemma fingerprint_digits:
  "length (get_cert_fingerprint cert) = 64" "list_all hex_digit (get_cert_fingerprint cert)"
  "is_hex (get_cert_fingerprint cert)"
  by (simp_all add: get_cert_fingerprint_def hex_of_digits is_hex_hex_of)

text \<open>
  The notations in use: the digits in either case, separated by colons or spaces, after the name of
  the digest or alone.
\<close>

definition notation_of :: "bytes \<Rightarrow> ustr \<Rightarrow> bool" where
  "notation_of cert s \<longleftrightarrow> filter (\<lambda>c. c \<noteq> 32 \<and> c \<noteq> 58) (map lower s) = get_cert_fingerprint cert"

lemma notation_normalizes:
  assumes "notation_of cert s" "pre \<in> {[], u ''sha256:'', u ''SHA256:''}"
  shows "normalize_cert_fingerprint (pre @ s) = Inr (get_cert_fingerprint cert)"
proof -
  let ?d = "get_cert_fingerprint cert" and ?m = "map lower s"
  have f: "filter (\<lambda>c. c \<noteq> 32) (filter (\<lambda>c. c \<noteq> 58) ?m) = ?d"
    using assms(1) by (simp add: notation_of_def conj_commute)
  have "115 \<notin> set ?m"
  proof
    assume "115 \<in> set ?m"
    then have "115 \<in> set (filter (\<lambda>c. c \<noteq> 32) (filter (\<lambda>c. c \<noteq> 58) ?m))" by simp
    then show False using fingerprint_digits(2) [of cert] unfolding f by (auto simp: list_all_iff hex_digit_def)
  qed
  then have "take (length (u ''sha256:'')) ?m \<noteq> u ''sha256:''"
    using in_set_takeD [of 115 "length (u ''sha256:'')" ?m] by fastforce
  then have r: "removeprefix (u ''sha256:'') ?m = ?m" by (simp only: removeprefix_def if_False)
  have "removeprefix (u ''sha256:'') (map lower (pre @ s)) = ?m"
    using assms(2) r by (auto simp: removeprefix_def lower_def)
  then show ?thesis using fingerprint_digits(1,3) f by (simp add: normalize_cert_fingerprint_def)
qed

lemma own_fingerprint: "normalize_cert_fingerprint (get_cert_fingerprint cert) = Inr (get_cert_fingerprint cert)"
proof -
  let ?d = "get_cert_fingerprint cert"
  have "map lower ?d = ?d"
    by (rule map_idI) (use fingerprint_digits(2) [of cert] in \<open>auto simp: lower_def list_all_iff hex_digit_def\<close>)
  moreover have "filter (\<lambda>c. c \<noteq> 32 \<and> c \<noteq> 58) ?d = ?d"
    by (rule filter_True) (use fingerprint_digits(2) [of cert] in \<open>auto simp: list_all_iff hex_digit_def\<close>)
  ultimately have "notation_of cert ?d" by (simp add: notation_of_def)
  then show ?thesis using notation_normalizes [of cert ?d "[]"] by simp
qed

lemma normalize_all_set:
  "normalize_all fs = Inr ns \<Longrightarrow>
     set ns = {n. \<exists>f \<in> set fs. normalize_cert_fingerprint f = Inr n}
     \<and> (\<forall>f \<in> set fs. \<exists>n. normalize_cert_fingerprint f = Inr n)"
  by (induction fs arbitrary: ns) (auto elim!: bindE_InrE)

lemma normalize_all_empty: "normalize_all fs = Inr ns \<Longrightarrow> ns = [] \<longleftrightarrow> fs = []"
  using normalize_all_set [of fs ns] by (cases fs) auto

lemma allowed_pinned:
  assumes "normalize_all fs = Inr ns" "fs \<noteq> []"
  shows "fingerprint_allowed ns cert \<longleftrightarrow>
    (\<exists>c f. cert = Some c \<and> f \<in> set fs \<and> normalize_cert_fingerprint f = Inr (get_cert_fingerprint c))"
  using normalize_all_set [OF assms(1)] normalize_all_empty [OF assms(1)] assms(2)
  by (auto simp: fingerprint_allowed_def cert_fingerprint_matches_def split: option.splits)

section \<open>Pinned peers\<close>

definition no_pinned_offer :: "radsec_client \<Rightarrow> rs_state \<Rightarrow> bool" where
  "no_pinned_offer c s \<longleftrightarrow>
     rs_conn s = None \<and> (\<forall>k. Inr k \<in> set (rs_offers s) \<longrightarrow> \<not> fingerprint_allowed (rc_allowed c) (pe_cert k))"

lemma unpinned_new:
  assumes "no_pinned_offer c s"
  obtains e s' where "use_new c s = (Inl e, s')" "no_pinned_offer c s'" "rs_sent s' = rs_sent s"
proof -
  have "\<exists>e s'. use_new c s = (Inl e, s') \<and> no_pinned_offer c s' \<and> rs_sent s' = rs_sent s"
    using assms
    by (auto simp: no_pinned_offer_def use_new_def bindS_def open_connection_def Let_def split: list.splits sum.splits)
  then show thesis using that by blast
qed

lemma unpinned_once:
  assumes "no_pinned_offer c s"
  obtains e s' where "send_packet_once c s = (Inl e, s')" "no_pinned_offer c s'" "rs_sent s' = rs_sent s"
proof -
  have closed: "no_pinned_offer c (rs_close s)" using assms by (simp add: no_pinned_offer_def rs_close_def)
  have "rs_sent (rs_close s) = rs_sent s" by (simp add: rs_close_def)
  moreover have "ensure_connection c s = use_new c (rs_close s)"
    using assms by (simp add: ensure_connection_def no_pinned_offer_def)
  ultimately obtain e s' where "(if rc_reuse c then ensure_connection c else use_new c) s = (Inl e, s')"
      "no_pinned_offer c s'" "rs_sent s' = rs_sent s"
    using unpinned_new [OF closed] unpinned_new [OF assms] by (cases "rc_reuse c") (metis (full_types))+
  then show thesis using that by (simp add: send_packet_once_def bindS_def)
qed

lemma unpinned_attempts:
  "no_pinned_offer c s \<Longrightarrow> rs_attempts c n s = (r, s') \<Longrightarrow> rs_sent s' = rs_sent s \<and> (\<forall>q. r \<noteq> Inr (Some q))"
proof (induction n arbitrary: s)
  case (Suc n)
  obtain e s1 where o: "send_packet_once c s = (Inl e, s1)" "no_pinned_offer c s1" "rs_sent s1 = rs_sent s"
    by (rule unpinned_once [OF Suc.prems(1)]) (rule that)
  let ?s2 = "rs_close (s1\<lparr>rs_last_error := Some e\<rparr>)"
  have "no_pinned_offer c ?s2" "rs_sent ?s2 = rs_sent s" using o(2,3) by (simp_all add: no_pinned_offer_def rs_close_def)
  then show ?case using Suc.IH [of ?s2] Suc.prems(2) o by (auto split: if_splits)
qed auto

lemma unpinned_exchange:
  "no_pinned_offer c s \<Longrightarrow> rs_exchange c s = (r, s') \<Longrightarrow> rs_sent s' = rs_sent s \<and> (\<forall>q. r \<noteq> Inr (Some q))"
  using unpinned_attempts [of c "s\<lparr>rs_last_error := None\<rparr>"] by (simp add: rs_exchange_def no_pinned_offer_def)

lemma unpinned_rounds: "\<forall>q. r \<noteq> Some q \<Longrightarrow> rs_rounds c m r s = (Inr None, s)"
  by (cases r) (simp_all add: rs_rounds.simps)

text \<open>
  C22 A client that was constructed with fingerprints sends nothing, in any EAP round, to a server
  whose certificate has none of them, and returns no reply from it.
\<close>

theorem unpinned_server_refused:
  assumes "radsec_client_init fs ms des seed opts = Inr (c, ctx)" "co_fingerprints opts \<noteq> []" "rs_conn s = None"
    "\<forall>k cert f. Inr k \<in> set (rs_offers s) \<longrightarrow> pe_cert k = Some cert \<longrightarrow> f \<in> set (co_fingerprints opts) \<longrightarrow>
       normalize_cert_fingerprint f \<noteq> Inr (get_cert_fingerprint cert)"
    "rs_send_packet c s = (r, s')"
  shows "rs_sent s' = rs_sent s \<and> (\<forall>q. r \<noteq> Inr (Some q))"
proof -
  have I: "no_pinned_offer c s"
    unfolding no_pinned_offer_def allowed_pinned [OF client_context(4) [OF assms(1)] assms(2)]
    using assms(3,4) by blast
  have eap: "rs_sent s' = rs_sent s \<and> (\<forall>q. r \<noteq> Inr (Some q))"
    if "bindS (rs_exchange c) (rs_rounds c m) (s\<lparr>rs_pkt := p\<rparr>) = (r, s')" for m p
  proof -
    have "no_pinned_offer c (s\<lparr>rs_pkt := p\<rparr>)" using I by (simp add: no_pinned_offer_def)
    then show ?thesis
      using that unpinned_exchange [of c "s\<lparr>rs_pkt := p\<rparr>"]
      by (auto simp: unpinned_rounds elim!: bindS_cases)
  qed
  show ?thesis
    using assms(5) unpinned_exchange [OF I] eap
    by (auto simp: rs_send_packet_def rs_send_auth_packet_def split: if_splits option.splits sum.splits)
qed

lemma unpinned_server_refused_witness:
  "\<exists>c ctx r s'.
     radsec_client_init \<lparr>tf_chain = \<lambda>_ _. None, tf_ca = \<lambda>_. None, tf_ciphers = \<lambda>_. None\<rparr> [] None (\<lambda>_. 7)
       (client_defaults\<lparr>co_fingerprints := [get_cert_fingerprint [48, 1]]\<rparr>) = Inr (c, ctx)
     \<and> rs_send_packet c (radsec_start coa_request [Inr silent_peer]) = (r, s')
     \<and> rs_sent s' = [] \<and> r \<noteq> Inr (Some coa_request)"
proof -
  let ?fs = "\<lparr>tf_chain = \<lambda>_ _. None, tf_ca = \<lambda>_. None, tf_ciphers = \<lambda>_. None\<rparr>"
  let ?f = "get_cert_fingerprint [48, 1]" and ?s = "radsec_start coa_request [Inr silent_peer]"
  have n: "normalize_cert_fingerprint ?f = Inr ?f" by (rule own_fingerprint)
  obtain c ctx where c: "radsec_client_init ?fs [] None (\<lambda>_. 7) (client_defaults\<lparr>co_fingerprints := [?f]\<rparr>) = Inr (c, ctx)"
    by (rule client_constructed [of ?fs "client_defaults\<lparr>co_fingerprints := [?f]\<rparr>" "[?f]"])
      (simp_all add: client_defaults_def n)
  obtain r s' where r: "rs_send_packet c ?s = (r, s')" by fastforce
  have "rs_sent s' = rs_sent ?s \<and> (\<forall>q. r \<noteq> Inr (Some q))"
    by (rule unpinned_server_refused [OF c _ _ _ r]) (simp_all add: radsec_start_def silent_peer_def client_defaults_def)
  then show ?thesis using c r by (auto simp: radsec_start_def)
qed

text \<open>The server serves no client without such a certificate.\<close>

lemma unpinned_client_refused:
  assumes "radsec_server_init fs rng opts = Inr (srv, ctx)" "so_fingerprints opts \<noteq> []"
    "handle_client srv hs host cert alpn st s = (r, s')" "s' \<noteq> s"
  shows "\<exists>c f. cert = Some c \<and> f \<in> set (so_fingerprints opts) \<and> normalize_cert_fingerprint f = Inr (get_cert_fingerprint c)"
  using assms(3,4) allowed_pinned [OF server_context(4) [OF assms(1)] assms(2), of cert]
  by (auto simp: handle_client_def split: if_splits)

end
