(* ===== verification/Classes.thy ===== *)
theory Classes
  imports Replies Exchange
begin

text \<open>
  The packet classes of \<^verbatim>\<open>pyrad2/packet.py\<close> one by one: constructors with keyword arguments,
  \<^verbatim>\<open>create_reply\<close> through \<^verbatim>\<open>_make_reply\<close>, \<^verbatim>\<open>request_packet\<close> and the verifiers; \<^verbatim>\<open>class Host\<close>
  (\<^verbatim>\<open>pyrad2/host.py\<close>) and the text of a \<^verbatim>\<open>ParseError\<close> (\<^verbatim>\<open>pyrad2/exceptions.py\<close>). The other theories use one
  definition for all classes (\<open>create_reply\<close>, \<open>create_reply_from\<close>, \<open>request_packet\<close>, \<open>build_packet\<close>); the
  lemmas say that each of them does what the method of the packet's class does.
\<close>

section \<open>Constructors\<close>

text \<open>
  The keyword arguments of the constructors; \<open>None\<close> for one that is not given. Attributes by name
  are in the order of the call.
\<close>

record kwargs =
  kw_code :: "int option"
  kw_id :: "int option"
  kw_secret :: "bytes option"
  kw_authenticator :: "bytes option"
  kw_version :: "RadiusVersion option"
  kw_dict :: "dictionary option"
  kw_packet :: "bytes option"
  kw_ma :: "bool option"
  kw_attrs :: "(ustr \<times> pyval list) list"

definition no_kwargs :: kwargs where
  "no_kwargs = \<lparr>kw_code = None, kw_id = None, kw_secret = None, kw_authenticator = None, kw_version = None,
     kw_dict = None, kw_packet = None, kw_ma = None, kw_attrs = []\<rparr>"

text \<open>
  A constructor takes its arguments, the random numbers from a position on, and the identifier
  counter of the module, which moves even if the constructor raises. \<open>None\<close> is non-termination.
\<close>

type_synonym ctor = "kwargs \<Rightarrow> (nat \<Rightarrow> int) \<Rightarrow> nat \<Rightarrow> int \<Rightarrow> (packet res \<times> int) option"

definition given :: "'a option \<Rightarrow> 'a \<Rightarrow> 'a" where
  "given x d = (case x of None \<Rightarrow> d | Some v \<Rightarrow> v)"

definition packet_init :: "pclass \<Rightarrow> int \<Rightarrow> bytes \<Rightarrow> ctor" where
  "packet_init cls code secret kw rng pos cur =
     (case new_packet cls (given (kw_code kw) code) (kw_id kw) (given (kw_secret kw) secret)
             (kw_authenticator kw) (given (kw_version kw) V1_0) (kw_dict kw) rng pos cur of
        (p, cur') \<Rightarrow> map_option (\<lambda>r. (r, cur')) (init_contents (kw_packet kw) (kw_ma kw) (kw_attrs kw) p))"

definition plain_packet :: ctor where
  "plain_packet = packet_init PacketC 0 (ascii ''radsec'')"

definition status_packet :: ctor where
  "status_packet = packet_init StatusC (pt StatusServer) []"

definition auth_packet :: "string \<Rightarrow> ctor" where
  "auth_packet auth_type kw rng pos cur =
     map_option (\<lambda>(r, cur'). (bindE r (\<lambda>p. Inr (p\<lparr>p_auth_type := auth_type\<rparr>)), cur'))
       (packet_init AuthC (pt AccessRequest) [] kw rng pos cur)"

definition acct_packet :: ctor where
  "acct_packet = packet_init AcctC (pt AccountingRequest) []"

definition coa_packet :: ctor where
  "coa_packet = packet_init CoAC (pt CoARequest) []"

section \<open>Replies\<close>

definition set_reply_context :: "packet \<Rightarrow> packet \<Rightarrow> packet" where
  "set_reply_context p reply = reply\<lparr>p_orig_code := Some (p_code p), p_token := p_token p\<rparr>"

text \<open>
  \<^verbatim>\<open>_make_reply(cls, code, **attributes)\<close>: what the request gives is passed by name or position, so
  that a caller who gives it too makes the call a TypeError.
\<close>

definition make_reply :: "ctor \<Rightarrow> int option \<Rightarrow> kwargs \<Rightarrow> packet \<Rightarrow> int \<Rightarrow> (packet res \<times> int) option" where
  "make_reply cls code kw p cur =
     (if kw_id kw \<noteq> None \<or> kw_secret kw \<noteq> None \<or> kw_authenticator kw \<noteq> None then Some (Inl TypeError, cur)
      else
        map_option (\<lambda>(r, cur'). (bindE r (\<lambda>q. Inr (set_reply_context p q)), cur'))
          (cls (kw\<lparr>kw_code := code, kw_id := p_id p, kw_secret := Some (p_secret p), kw_authenticator := p_auth p,
                   kw_version := Some (given (kw_version kw) (p_version p)),
                   kw_dict := (case kw_dict kw of None \<Rightarrow> p_dict p | Some d \<Rightarrow> Some d)\<rparr>)
               (p_rng p) (p_pos p) cur))"

type_synonym replier = "kwargs \<Rightarrow> packet \<Rightarrow> int \<Rightarrow> (packet res \<times> int) option"

text \<open>Only \<^verbatim>\<open>Packet\<close> and \<^verbatim>\<open>StatusPacket\<close> let the caller choose the code; the others pass their own.\<close>

definition packet_create_reply :: replier where
  "packet_create_reply kw = make_reply plain_packet (kw_code kw) kw"

definition status_create_reply :: replier where
  "status_create_reply kw = make_reply plain_packet (Some (given (kw_code kw) (pt AccessAccept))) kw"

definition own_code :: "int \<Rightarrow> ctor \<Rightarrow> replier" where
  "own_code code cls kw p cur =
     (if kw_code kw \<noteq> None then Some (Inl TypeError, cur) else make_reply cls (Some code) kw p cur)"

definition auth_create_reply :: replier where
  "auth_create_reply kw p = own_code (pt AccessAccept) (auth_packet (p_auth_type p)) kw p"

definition acct_create_reply :: replier where
  "acct_create_reply = own_code (pt AccountingResponse) acct_packet"

definition coa_create_reply :: replier where
  "coa_create_reply = own_code (pt CoAACK) coa_packet"

definition method_create_reply :: replier where
  "method_create_reply kw p =
     (case p_class p of
        PacketC \<Rightarrow> packet_create_reply kw p
      | StatusC \<Rightarrow> status_create_reply kw p
      | AuthC \<Rightarrow> auth_create_reply kw p
      | AcctC \<Rightarrow> acct_create_reply kw p
      | CoAC \<Rightarrow> coa_create_reply kw p)"

section \<open>Requests\<close>

text \<open>\<^verbatim>\<open>_ensure_id_and_short_circuit_v11\<close>: the octets of a RADIUS/1.1 packet, or none.\<close>

definition short_circuit_v11 :: "packet \<Rightarrow> (bytes option \<times> packet) res" where
  "short_circuit_v11 p =
     (let q = ensure_id p
      in if p_version q = V1_1 then bindE (serialize_v11 q) (\<lambda>(raw, r). Inr (Some raw, r)) else Inr (None, q))"

definition or_else :: "(bytes option \<times> packet) res \<Rightarrow> (packet \<Rightarrow> bytes pm) \<Rightarrow> bytes pm" where
  "or_else v11 f = bindE v11 (\<lambda>(raw, q). case raw of Some w \<Rightarrow> Inr (w, q) | None \<Rightarrow> f q)"

definition status_request_packet :: "packet \<Rightarrow> bytes pm" where
  "status_request_packet p =
     or_else (short_circuit_v11 p)
       (\<lambda>q. bindE (prepare_request_message_authenticator False (need_authenticator q)) encode_v10_random)"

definition auth_request_packet :: "packet \<Rightarrow> bytes pm" where
  "auth_request_packet p = or_else (short_circuit_v11 p) encode_v10_random"

definition acct_request_packet :: "packet \<Rightarrow> bytes pm" where
  "acct_request_packet p = or_else (short_circuit_v11 p) encode_v10_body_md5"

definition coa_request_packet :: "packet \<Rightarrow> bytes pm" where
  "coa_request_packet p = or_else (short_circuit_v11 p) encode_v10_body_md5"

definition verify_acct_request :: "packet \<Rightarrow> bool res" where
  "verify_acct_request p = verify_packet p"

definition verify_coa_request :: "packet \<Rightarrow> bool res" where
  "verify_coa_request p = verify_packet p"

section \<open>\<^verbatim>\<open>class Host\<close>\<close>

record host =
  ho_authport :: int
  ho_acctport :: int
  ho_coaport :: int
  ho_dict :: "dictionary option"

definition host_init :: "int option \<Rightarrow> int option \<Rightarrow> int option \<Rightarrow> dictionary option \<Rightarrow> host" where
  "host_init authport acctport coaport d =
     \<lparr>ho_authport = given authport 1812, ho_acctport = given acctport 1813, ho_coaport = given coaport 3799,
      ho_dict = d\<rparr>"

text \<open>\<^verbatim>\<open>cls(dict=self.dict, **args)\<close>.\<close>

definition host_construct :: "ctor \<Rightarrow> host \<Rightarrow> ctor" where
  "host_construct cls h kw rng pos cur =
     (if kw_dict kw \<noteq> None then Some (Inl TypeError, cur) else cls (kw\<lparr>kw_dict := ho_dict h\<rparr>) rng pos cur)"

definition host_create_packet :: "host \<Rightarrow> ctor" where
  "host_create_packet = host_construct plain_packet"

definition host_create_auth_packet :: "string \<Rightarrow> host \<Rightarrow> ctor" where
  "host_create_auth_packet auth_type = host_construct (auth_packet auth_type)"

definition host_create_acct_packet :: "host \<Rightarrow> ctor" where
  "host_create_acct_packet = host_construct acct_packet"

definition host_create_coa_packet :: "host \<Rightarrow> ctor" where
  "host_create_coa_packet = host_construct coa_packet"

definition host_create_status_packet :: "host \<Rightarrow> ctor" where
  "host_create_status_packet = host_construct status_packet"

text \<open>\<^verbatim>\<open>fd.sendto(octets, pkt.source)\<close>: the datagram, its destination and the packet afterwards.\<close>

definition to_source :: "bytes pm \<Rightarrow> ((bytes \<times> string \<times> int) \<times> packet) res" where
  "to_source r = bindE r (\<lambda>(raw, q). case p_source q of None \<Rightarrow> Inl AttributeError | Some a \<Rightarrow> Inr ((raw, a), q))"

definition host_send_packet :: "packet \<Rightarrow> ((bytes \<times> string \<times> int) \<times> packet) res" where
  "host_send_packet p = to_source (request_packet p)"

definition host_send_reply_packet :: "packet \<Rightarrow> ((bytes \<times> string \<times> int) \<times> packet) res" where
  "host_send_reply_packet p = to_source (reply_packet p)"

section \<open>\<^verbatim>\<open>ParseError\<close>\<close>

record parse_error =
  er_msg :: "ustr option"
  er_file :: ustr
  er_line :: int

text \<open>The text: \<^verbatim>\<open>file(line): Parse error: msg\<close>, without the parts that are not there.\<close>

definition parse_error_str :: "parse_error \<Rightarrow> ustr" where
  "parse_error_str e =
     (let known = - 1 < er_line e
      in er_file e
         @ (if known then u ''('' @ dec_of (nat (er_line e)) @ u '')'' else [])
         @ (if er_file e \<noteq> [] \<or> known then u '': '' else [])
         @ u ''Parse error''
         @ (case er_msg e of None \<Rightarrow> [] | Some m \<Rightarrow> if m = [] then [] else u '': '' @ m))"

section \<open>One definition for all classes\<close>

lemma need_authenticator_type: "p_auth_type (need_authenticator p) = p_auth_type p"
  by (rule need_authenticator_frame [of p]) simp

lemma encode_values_type: "encode_values a t vs p = Inr (ys, q) \<Longrightarrow> p_auth_type q = p_auth_type p"
proof (induction vs arbitrary: p ys)
  case (Cons v vs)
  have "p_auth_type p1 = p_auth_type p" if "encode_value a v p = Inr (x, p1)" for x p1
    using that by (auto simp: encode_value_def salt_crypt_def randrange_def Let_def need_authenticator_type
        elim!: bindE_InrE split: if_splits)
  then show ?case using Cons by (fastforce elim!: bindE_InrE)
qed simp

lemma add_attributes_type:
  "add_attributes kvs p = Some (Inr q) \<Longrightarrow> p_auth_type q = p_auth_type p"
proof (induction kvs arbitrary: p)
  case (Cons kv kvs)
  obtain k vs where kv: "kv = (k, vs)" by fastforce
  obtain p1 where a: "add_attribute (dash_name k) vs p = Some (Inr p1)" "add_attributes kvs p1 = Some (Inr q)"
    using Cons.prems by (auto simp: kv split: option.splits sum.splits)
  have "p_auth_type p1 = p_auth_type p"
    using a(1) by (auto simp: add_attribute_def encode_key_values_def with_dict_def Let_def dest!: encode_values_type
        elim!: bindE_InrE split: option.splits sum.splits prod.splits)
  then show ?case using Cons.IH [OF a(2)] by simp
qed simp

lemma frame_type: "packet_frame q' = packet_frame q \<Longrightarrow> p_auth_type q' = p_auth_type q"
  by (drule arg_cong [where f = p_auth_type]) (simp add: packet_frame_def packet_core_def)

lemma core_type: "packet_core q' = packet_core q \<Longrightarrow> p_auth_type q' = p_auth_type q"
  by (drule arg_cong [where f = p_auth_type]) (simp add: packet_core_def)

lemma decode_packet_type:
  assumes "decode_packet w p = Inr q"
  shows "p_auth_type q = p_auth_type p"
proof -
  from assms obtain q1 q2 q3 where s: "decode_header w p = Inr q1"
      "decode_loop (drop 20 w) (q1\<lparr>p_attrs := [], p_lbuf := [], p_vbuf := []\<rparr>) = Inr q2"
      "merge_concat_attributes q2 = Inr q3" "q = split_array_attributes q3"
    unfolding decode_packet_def by (auto simp: bindE_eq_Inr)
  have "p_auth_type q1 = p_auth_type p" using s(1) by (auto simp: decode_header_def Let_def split: if_splits)
  then show ?thesis
    using frame_type [OF decode_loop_frame_kept [OF s(2)]] core_type [OF merge_core [OF s(3)]]
      core_type [OF split_core [of q3]] s(4) by simp
qed

lemma init_contents_type: "init_contents raw ma attrs p = Some (Inr q) \<Longrightarrow> p_auth_type q = p_auth_type p"
  by (auto simp: init_contents_def dest!: add_attributes_type decode_packet_type split: option.splits sum.splits)

text \<open>The reply of the packet's class is the reply of the model's one \<open>create_reply\<close>.\<close>

lemma bindE_cong_Inr: "(\<And>x. r = Inr x \<Longrightarrow> f x = g x) \<Longrightarrow> bindE r f = bindE r g"
  by (cases r) simp_all

lemma create_reply_by_class:
  assumes "kw = no_kwargs\<lparr>kw_code := code, kw_ma := ma, kw_attrs := attrs\<rparr>" "p_class p \<noteq> StatusC \<Longrightarrow> code = None"
    "p_id p \<noteq> None"
  shows "map_option (\<lambda>(r, cur'). bindE r (\<lambda>q. Inr (q, cur'))) (method_create_reply kw p cur) = create_reply code ma attrs cur p"
proof -
  obtain i where i: "p_id p = Some i" using assms(3) by blast
  show ?thesis
  by (cases "p_class p") (use assms(1,2) i in \<open>auto simp: method_create_reply_def create_reply_def no_kwargs_def make_reply_def own_code_def given_def
      packet_create_reply_def status_create_reply_def auth_create_reply_def acct_create_reply_def coa_create_reply_def
      plain_packet_def status_packet_def auth_packet_def acct_packet_def coa_packet_def packet_init_def reply_shell_def
      set_reply_context_def option.map_comp comp_def bindE_assoc new_packet_def Let_def
      intro!: option.map_cong bindE_cong_Inr dest!: init_contents_type split: option.splits\<close>)
qed

text \<open>The reply made of received octets is the same method with the argument \<^verbatim>\<open>packet\<close>.\<close>

lemma create_reply_from_by_class:
  assumes "p_id p = Some i"
  shows "map_option fst (method_create_reply (no_kwargs\<lparr>kw_packet := Some raw\<rparr>) p cur) = Some (create_reply_from raw p)"
  by (cases "p_class p")
    (auto simp: assms method_create_reply_def create_reply_from_def no_kwargs_def make_reply_def own_code_def given_def
      packet_create_reply_def status_create_reply_def auth_create_reply_def acct_create_reply_def coa_create_reply_def
      plain_packet_def auth_packet_def acct_packet_def coa_packet_def packet_init_def reply_shell_def init_contents_def
      set_reply_context_def option.map_comp comp_def bindE_assoc new_packet_def Let_def
      intro!: bindE_cong_Inr dest!: decode_packet_type split: sum.splits)

lemma or_else_v11:
  "or_else (short_circuit_v11 p) f = (let q = ensure_id p in if p_version q = V1_1 then serialize_v11 q else f q)"
  by (cases "serialize_v11 (ensure_id p)") (auto simp: or_else_def short_circuit_v11_def Let_def)

lemma request_packet_by_class:
  "request_packet p =
     (case p_class p of
        PacketC \<Rightarrow> Inl AttributeError
      | StatusC \<Rightarrow> status_request_packet p
      | AuthC \<Rightarrow> auth_request_packet p
      | AcctC \<Rightarrow> acct_request_packet p
      | CoAC \<Rightarrow> coa_request_packet p)"
proof -
  have "p_class (ensure_id p) = p_class p" by (simp add: ensure_id_def create_id_def randrange_def Let_def split: prod.split)
  then show ?thesis
    by (cases "p_class p") (simp_all add: request_packet_def or_else_v11 status_request_packet_def auth_request_packet_def
        acct_request_packet_def coa_request_packet_def Let_def)
qed

text \<open>The clients' factory is the constructor of the class with the client's secret and dictionary.\<close>

lemma build_packet_by_class:
  "build_packet c pkt_id secret d enforce ma attrs rng cur =
     (case c of ReqAuth \<Rightarrow> auth_packet ''pap'' | ReqAcct \<Rightarrow> acct_packet | ReqCoA \<Rightarrow> coa_packet | ReqStatus \<Rightarrow> status_packet)
       (no_kwargs\<lparr>kw_id := pkt_id, kw_secret := Some secret, kw_dict := d,
                 kw_ma := (if c = ReqAuth \<and> ma = None then Some enforce else ma), kw_attrs := attrs\<rparr>) rng 0 cur"
proof -
  have pap: "bindE r (\<lambda>p. Inr (p\<lparr>p_auth_type := ''pap''\<rparr>)) = r" if "init_contents raw m attrs p0 = Some r" "p_auth_type p0 = ''pap''"
    for r raw m p0
    using that by (cases r) (auto dest!: init_contents_type)
  show ?thesis
    by (cases c) (auto simp: build_packet_def no_kwargs_def given_def auth_packet_def acct_packet_def coa_packet_def
        status_packet_def packet_init_def default_code_def option.map_comp comp_def new_packet_def Let_def pap
        intro!: option.map_cong)
qed

text \<open>
  A packet of \<^verbatim>\<open>class Host\<close> has the host's dictionary, and the secret of the constructor's default when
  none is given: \<^verbatim>\<open>radsec\<close> for a plain packet, empty for all others.
\<close>

lemma host_packet_secret:
  assumes "ctor \<in> {host_create_auth_packet t, host_create_acct_packet, host_create_coa_packet, host_create_status_packet}"
    "kw = no_kwargs\<lparr>kw_ma := m\<rparr>" "ctor h kw rng pos cur = Some (Inr p, cur')"
  shows "p_secret p = [] \<and> p_dict p = ho_dict h \<and> p_id p = Some cur' \<and> cur' = next_id cur"
  using assms
  by (auto simp: host_create_auth_packet_def host_create_acct_packet_def host_create_coa_packet_def
      host_create_status_packet_def host_construct_def no_kwargs_def given_def auth_packet_def acct_packet_def
      coa_packet_def status_packet_def packet_init_def init_contents_def new_packet_def Let_def split: option.splits)

end
