(* ===== verification/ServerSetup.thy ===== *)
theory ServerSetup
  imports Serving
begin

text \<open>
  The constructors of the sync server (\<^verbatim>\<open>pyrad2/server.py\<close>) and the async server
  (\<^verbatim>\<open>pyrad2/server_async.py\<close>): the router, the response cache and the table of hosts that they make of
  their arguments. Addresses are bound in theory \<open>Listeners\<close>.
\<close>

section \<open>Arguments\<close>

text \<open>
  A caller may give no table of hosts, or one that it goes on changing. \<^verbatim>\<open>hosts or {}\<close> keeps the caller's
  only if it has entries; otherwise the server has a table of its own.
\<close>

datatype host_table = Callers | Own

record server_args =
  sa_hosts :: "(string, bytes) od option"
  sa_dict :: "dictionary option"
  sa_auth_enabled :: bool
  sa_acct_enabled :: bool
  sa_coa_enabled :: bool
  sa_require_ma :: bool
  sa_require_eap :: bool
  sa_verify :: bool
  sa_dedup_enabled :: bool
  sa_dedup_ttl :: time
  sa_dedup_max :: int
  sa_dedup_cache :: "cache option"

definition udp_defaults :: server_args where
  "udp_defaults =
     \<lparr>sa_hosts = None, sa_dict = None, sa_auth_enabled = True, sa_acct_enabled = True, sa_coa_enabled = False,
      sa_require_ma = True, sa_require_eap = True, sa_verify = True, sa_dedup_enabled = True, sa_dedup_ttl = 30,
      sa_dedup_max = 4096, sa_dedup_cache = None\<rparr>"

section \<open>The constructors\<close>

definition hosts_or_own :: "(string, bytes) od option \<Rightarrow> host_table \<times> (string, bytes) od" where
  "hosts_or_own hosts =
     (case hosts of
        None \<Rightarrow> (Own, [])
      | Some hs \<Rightarrow> if hs = [] then (Own, []) else (Callers, hs))"

text \<open>What the server finds in its table after the caller's has become \<open>now\<close>.\<close>

definition table_now :: "host_table \<Rightarrow> (string, bytes) od \<Rightarrow> router \<Rightarrow> router" where
  "table_now tab now rt = (case tab of Callers \<Rightarrow> rt\<lparr>rt_hosts := now\<rparr> | Own \<Rightarrow> rt)"

definition choose_cache :: "server_args \<Rightarrow> cache option res" where
  "choose_cache a =
     (case sa_dedup_cache a of
        Some c \<Rightarrow> Inr (Some c)
      | None \<Rightarrow>
          if sa_dedup_enabled a then bindE (cache_init (sa_dedup_ttl a) (sa_dedup_max a)) (\<lambda>c. Inr (Some c))
          else Inr None)"

definition request_router :: "server_args \<Rightarrow> (string, bytes) od \<Rightarrow> router" where
  "request_router a hosts =
     \<lparr>rt_hosts = hosts, rt_dict = sa_dict a, rt_verify = sa_verify a, rt_require_ma = sa_require_ma a,
      rt_require_eap = sa_require_eap a\<rparr>"

definition server_init :: "server_args \<Rightarrow> (host_table \<times> router \<times> server_conf \<times> cache option) res" where
  "server_init a =
     (case hosts_or_own (sa_hosts a) of (tab, hosts) \<Rightarrow>
        bindE (choose_cache a) (\<lambda>cache.
        Inr (tab, request_router a hosts,
             \<lparr>auth_enabled = sa_auth_enabled a, acct_enabled = sa_acct_enabled a, coa_enabled = sa_coa_enabled a\<rparr>,
             cache)))"

definition async_server_init :: "server_args \<Rightarrow> (host_table \<times> router \<times> cache option) res" where
  "async_server_init a =
     (case hosts_or_own (sa_hosts a) of (tab, hosts) \<Rightarrow>
        bindE (choose_cache a) (\<lambda>cache. Inr (tab, request_router a hosts, cache)))"

section \<open>What the arguments mean\<close>

lemma async_server_initE:
  assumes "async_server_init a = Inr (tab, rt, cache)"
  shows "rt = request_router a (snd (hosts_or_own (sa_hosts a)))" "tab = fst (hosts_or_own (sa_hosts a))"
    "choose_cache a = Inr cache"
  using assms by (auto simp: async_server_init_def elim!: bindE_InrE split: prod.splits)

text \<open>Both servers make the same policy and cache of the same arguments.\<close>

lemma servers_share_policy:
  "map_sum id (\<lambda>(tab, rt, conf, cache). (tab, rt, cache)) (server_init a) = async_server_init a"
  by (cases "choose_cache a") (auto simp: server_init_def async_server_init_def split: prod.split)

text \<open>Duplicate detection is off only when the caller says so; a lifetime or a cap of zero is refused.\<close>

lemma dedup_settings:
  assumes "choose_cache a = Inr cache"
  shows "cache = None \<longleftrightarrow> sa_dedup_cache a = None \<and> \<not> sa_dedup_enabled a"
  using assms by (auto simp: choose_cache_def elim!: bindE_InrE split: option.splits if_splits)

lemma dedup_refused:
  "sa_dedup_cache a = None \<Longrightarrow> sa_dedup_enabled a \<Longrightarrow> sa_dedup_ttl a \<le> 0 \<or> sa_dedup_max a \<le> 0 \<Longrightarrow>
   choose_cache a = Inl ValueError"
  by (auto simp: choose_cache_def cache_init_def)

text \<open>
  A caller that passes an empty table and fills it afterwards has a server that knows no host: it
  drops every datagram.
\<close>

lemma empty_table_not_shared:
  assumes "async_server_init (a\<lparr>sa_hosts := Some []\<rparr>) = Inr (tab, rt, cache)"
  shows "lookup_secret (table_now tab now rt) ip = Inl ServerPacketError"
  using assms by (auto simp: async_server_init_def hosts_or_own_def table_now_def request_router_def lookup_secret_def
      od_get_def elim!: bindE_InrE)

lemma filled_table_shared:
  assumes "async_server_init (a\<lparr>sa_hosts := Some (h # hs)\<rparr>) = Inr (tab, rt, cache)"
  shows "rt_hosts (table_now tab now rt) = now"
  using assms by (auto simp: async_server_init_def hosts_or_own_def table_now_def elim!: bindE_InrE)

section \<open>The defaults\<close>

text \<open>Handlers that note every packet they get with the address that they were given with it.\<close>

definition note_handler :: "(source \<times> packet) list ahandler" where
  "note_handler a p s = (Inr (), s\<lparr>sv_user := sv_user s @ [(a, p)]\<rparr>)"

definition as_note_handlers :: "(source \<times> packet) list ahandlers" where
  "as_note_handlers = \<lparr>ah_auth = note_handler, ah_acct = note_handler, ah_coa = note_handler,
     ah_disconnect = note_handler\<rparr>"

definition notes_authentic :: "router \<Rightarrow> (source \<times> packet) list \<Rightarrow> bool" where
  "notes_authentic rt noted \<longleftrightarrow> (\<forall>(a, p) \<in> set noted. authentic rt (fst a) p)"

lemma as_note_contract: "as_contract rt (notes_authentic rt) as_note_handlers"
proof -
  have "handler_contract (notes_authentic rt) (as_admits rt a code) (note_handler a)" for a code
    by unfold_locales
      (auto simp: note_handler_def notes_authentic_def as_admits_def intro: authentic_key)
  then show ?thesis by (simp add: as_contract_def as_note_handlers_def)
qed

text \<open>
  C11 An async server that is constructed with the default policy hands no Access-Request to its handler
  unless the address it came from is in its table of hosts (or the table has the wildcard), the packet
  was parsed with that host's secret, its authenticator is not zero, and its Message-Authenticator
  is right for that secret, whatever datagrams arrive. An accounting, CoA or Disconnect-Request has
  the digest over its octets and the secret of the host it came from.
\<close>

theorem defaults_demand_signature:
  assumes "async_server_init (udp_defaults\<lparr>sa_hosts := hosts, sa_dict := d\<rparr>) = Inr (tab, rt, cache)"
    and "(a, p) \<in> set (sv_user (snd (serve env rt as_note_handlers evs (start cache []))))"
  shows "\<exists>w. lookup_secret rt (fst a) = Inr (p_secret p) \<and> p_raw p = Some w \<and> p_code p = uint (hd w)
    \<and> (if p_code p = pt AccessRequest then py_slice w 4 20 \<noteq> zero_octets 16
         \<and> (\<exists>k q. verify_message_authenticator None None None q = Inr (True, p\<lparr>p_dedup := k\<rparr>))
       else md5 (take 4 w @ zero_octets 16 @ drop 20 w @ p_secret p) = py_slice w 4 20)"
proof -
  have rt: "rt_verify rt" "rt_require_ma rt"
    using async_server_initE(1) [OF assms(1)] by (simp_all add: request_router_def udp_defaults_def)
  have "notes_authentic rt (sv_user (snd (serve env rt as_note_handlers evs (start cache []))))"
    using preservesD [OF keeps_serve [OF as_note_contract [of rt]], of "start cache []" env evs]
    by (simp add: start_def notes_authentic_def)
  then have "authentic rt (fst a) p" using assms(2) by (auto simp: notes_authentic_def)
  then show ?thesis using rt by (auto simp: authentic_def split: if_splits)
qed

text \<open>
  Two hosts with different secrets: a signed Access-Request and an accounting request of the first
  reach the handlers, the same Access-Request from the other host does not.
\<close>

definition signed_access_request :: bytes where
  "signed_access_request = [1, 7, 0, 43] @ replicate 16 5 @ [1, 5, 98, 111, 98,
     80, 18, 1, 128, 197, 216, 114, 218, 230, 230, 59, 90, 247, 211, 22, 51, 80, 167]"

lemma defaults_demand_signature_witness:
  "\<exists>tab rt cache noted.
     async_server_init (udp_defaults\<lparr>sa_hosts := Some [(''10.0.0.9'', [115, 51]), (''10.0.0.8'', [1])],
       sa_dict := Some ma_sample_dict\<rparr>) = Inr (tab, rt, cache)
     \<and> sv_user (snd (serve small_env rt as_note_handlers
         [(Auth, signed_access_request, ''10.0.0.9'', 1000), (Auth, signed_access_request, ''10.0.0.8'', 1000),
          (Acct, acct_datagram, ''10.0.0.9'', 1000)] (start cache []))) = noted
     \<and> map (\<lambda>(a, p). (a, p_code p)) noted = [((''10.0.0.9'', 1000), 1), ((''10.0.0.9'', 1000), 4)]
     \<and> (\<forall>(a, p) \<in> set noted. lookup_secret rt (fst a) = Inr (p_secret p))"
proof -
  let ?a = "udp_defaults\<lparr>sa_hosts := Some [(''10.0.0.9'', [115, 51]), (''10.0.0.8'', [1])],
       sa_dict := Some ma_sample_dict\<rparr>"
  let ?evs = "[(Auth, signed_access_request, ''10.0.0.9'', 1000), (Auth, signed_access_request, ''10.0.0.8'', 1000),
          (Acct, acct_datagram, ''10.0.0.9'', 1000)]"
  define cache where "cache = Some \<lparr>ttl = 30, max_entries = 4096, in_flight = {}, cached = []\<rparr>"
  define rt where "rt = \<lparr>rt_hosts = [(''10.0.0.9'', [115, 51]), (''10.0.0.8'', [1])], rt_dict = Some ma_sample_dict,
     rt_verify = True, rt_require_ma = True, rt_require_eap = True\<rparr>"
  have i: "async_server_init ?a = Inr (Callers, rt, cache)"
    by (simp add: async_server_init_def hosts_or_own_def choose_cache_def cache_init_def udp_defaults_def
        request_router_def rt_def cache_def)
  define noted where "noted = sv_user (snd (serve small_env rt as_note_handlers ?evs (start cache [])))"
  have m: "map (\<lambda>(a, p). (a, p_code p)) noted = [((''10.0.0.9'', 1000), 1), ((''10.0.0.9'', 1000), 4)]"
    unfolding noted_def rt_def cache_def by code_simp
  have "lookup_secret rt (fst a) = Inr (p_secret p)" if "(a, p) \<in> set noted" for a p
    using defaults_demand_signature [OF i that [unfolded noted_def]] by blast
  then have "\<forall>(a, p) \<in> set noted. lookup_secret rt (fst a) = Inr (p_secret p)" by auto
  then show ?thesis using i m noted_def [symmetric] by (intro exI conjI) assumption+
qed

end
