(* ===== verification/ClientSetup.thy ===== *)
theory ClientSetup
  imports Requesting ClientAsync
begin

text \<open>
  The constructors of the sync client (\<^verbatim>\<open>pyrad2/client.py\<close>) and the asyncio client
  (\<^verbatim>\<open>pyrad2/client_async.py\<close>): the retransmission policy that they make of their arguments, and what
  the default for the Message-Authenticator demands of replies.
\<close>

section \<open>The constructors\<close>

record client_args =
  ca_authport :: int
  ca_acctport :: int
  ca_coaport :: int
  ca_secret :: bytes
  ca_dict :: "dictionary option"
  ca_retries :: int
  ca_timeout :: rat
  ca_enforce_ma :: bool
  ca_policy :: "RetryPolicy option"

definition sync_defaults :: client_args where
  "sync_defaults =
     \<lparr>ca_authport = 1812, ca_acctport = 1813, ca_coaport = 3799, ca_secret = [], ca_dict = None, ca_retries = 3,
      ca_timeout = 5, ca_enforce_ma = True, ca_policy = None\<rparr>"

definition async_defaults :: client_args where
  "async_defaults = sync_defaults\<lparr>ca_timeout := 30\<rparr>"

text \<open>The registered EAP methods, DES, the clock and the random numbers are the surroundings.\<close>

definition client_init ::
    "registry \<Rightarrow> des \<Rightarrow> (nat \<Rightarrow> rat) \<Rightarrow> (nat \<Rightarrow> rat) \<Rightarrow> client_args \<Rightarrow> client" where
  "client_init methods des clock rand a =
     \<lparr>cl_policy = policy_from_legacy (ca_policy a) (ca_retries a) (ca_timeout a), cl_enforce_ma = ca_enforce_ma a,
      cl_authport = ca_authport a, cl_acctport = ca_acctport a, cl_coaport = ca_coaport a, cl_secret = ca_secret a,
      cl_dict = ca_dict a, cl_methods = methods, cl_des = des, cl_clock = clock, cl_rand = rand\<rparr>"

definition async_client_init ::
    "registry \<Rightarrow> des \<Rightarrow> (nat \<Rightarrow> nat \<Rightarrow> int) \<Rightarrow> (nat \<Rightarrow> rat) \<Rightarrow> client_args \<Rightarrow> async_client" where
  "async_client_init methods des rng rand a =
     \<lparr>ac_policy = policy_from_legacy (ca_policy a) (ca_retries a) (ca_timeout a), ac_enforce_ma = ca_enforce_ma a,
      ac_secret = ca_secret a, ac_dict = ca_dict a, ac_methods = methods, ac_des = des, ac_rng = rng, ac_rand = rand\<rparr>"

text \<open>A transport gets the policy that the client has when it is made, with retries and timeout left out.\<close>

definition transport_policy :: "async_client \<Rightarrow> RetryPolicy" where
  "transport_policy c = policy_from_legacy (Some (ac_policy c)) 3 30"

lemma transport_policy_eq: "transport_policy c = ac_policy c"
  by (simp add: transport_policy_def policy_from_legacy_def)

section \<open>Waits\<close>








section \<open>Replies to Access-Requests\<close>

text \<open>
  The reply \<open>q\<close> was parsed from a datagram that arrived, and the Message-Authenticator in its octets
  is right for the secret and the authenticator that was sent: \<open>q\<close> is what
  \<^verbatim>\<open>verify_message_authenticator\<close> left behind when it said so.
\<close>

definition signed_answer :: "bytes \<Rightarrow> packet \<Rightarrow> bytes option list \<Rightarrow> (bytes \<times> int) list \<Rightarrow> bool" where
  "signed_answer secret q polls sent \<longleftrightarrow>
     (\<exists>d w raw port. Some d \<in> set polls \<and> w = take 4096 d \<and> sent \<noteq> [] \<and> last sent = (raw, port)
        \<and> p_raw q = Some w \<and> w ! 1 = raw ! 1
        \<and> (\<exists>p q0 attr q1 q2. says raw p \<and> p_secret p = secret \<and> create_reply_from w p = Inr q0
              \<and> pkt_encode_attributes q0 = Inr (attr, q1)
              \<and> p_raw q1 = Some w \<and> has_message_authenticator q1
              \<and> verify_message_authenticator (Some secret) (Some (py_slice raw 4 20)) (Some (pt AccessRequest)) q1
                  = Inr (True, q2)
              \<and> q = q2\<lparr>p_req_auth := Some (py_slice raw 4 20)\<rparr>))"

lemma signed_answer_more:
  "signed_answer secret q polls sent \<Longrightarrow> set polls \<subseteq> set polls' \<Longrightarrow> signed_answer secret q polls' sent"
  unfolding signed_answer_def by blast

definition demanding :: "bytes \<Rightarrow> client \<Rightarrow> packet \<Rightarrow> bool" where
  "demanding secret c p \<longleftrightarrow> cl_enforce_ma c \<and> v10_request secret p \<and> p_code p = pt AccessRequest"

lemma demanding_kept: "request_kept p q \<Longrightarrow> demanding secret c p \<Longrightarrow> demanding secret c q"
  using v10_request_kept [of p q secret] by (simp add: demanding_def) (simp add: request_kept_def req_core_def)

lemma accepted_signed:
  assumes "accept_reply True p w = Inr (Some q)" "p_version p = V1_0" "p_code p = pt AccessRequest" "says raw p"
  shows "\<exists>q0 attr q1 q2. create_reply_from w p = Inr q0 \<and> pkt_encode_attributes q0 = Inr (attr, q1)
    \<and> p_raw q1 = Some w \<and> has_message_authenticator q1
    \<and> verify_message_authenticator (Some (p_secret p)) (Some (py_slice raw 4 20)) (Some (pt AccessRequest)) q1
        = Inr (True, q2)
    \<and> q = q2\<lparr>p_req_auth := Some (py_slice raw 4 20)\<rparr>"
proof -
  obtain q0 q2 where q: "create_reply_from w p = Inr q0" "verify_reply_keep p q0 w True = Inr (True, q2)"
      "q = q2\<lparr>p_req_auth := p_auth p\<rparr>"
    by (rule accept_replyE [OF assms(1)]) (rule that)
  obtain attr q1 where e: "pkt_encode_attributes q0 = Inr (attr, q1)" "has_message_authenticator q1"
      "require_valid_message_authenticator (Some (p_secret p)) (p_auth p) (Some (p_code p)) q1 = Inr q2"
    using q(2) assms(2,3) by (auto simp: verify_reply_keep_def elim!: bindE_InrE split: if_splits option.splits sum.splits)
  note c = created_reply_fields [OF q(1) assms(2)]
  have "p_raw q1 = Some w" using reply_kept_fields(2) [OF encode_reply [OF e(1)] c(4)] c(1) by simp
  moreover have "p_auth p = Some (py_slice raw 4 20)" using assms(4) by (simp add: says_def)
  ultimately show ?thesis
    using q(1,3) e assms(3) by (auto simp: require_valid_Inr)
qed

lemma send_to_signed:
  assumes "send_to c port s = (Inr q, s')" "demanding secret c (x_pkt s)"
  shows "signed_answer secret q (x_polls s) (x_sent s') \<and> demanding secret c (x_pkt s')
    \<and> set (x_polls s') \<subseteq> set (x_polls s)"
proof -
  obtain saved s1 where s1: "attempts c port 0 (nat (retries (cl_policy c))) (timeout (cl_policy c)) s = (Inr q, s1)"
    and r: "restore_delay (p_code (x_pkt s) = pt AccountingRequest) saved (x_pkt s1) = Inr (x_pkt s')"
    and p: "x_polls s' = x_polls s1" "x_sent s' = x_sent s1"
    by (rule send_toE [OF assms(1)]) (rule that)
  have step: "demanding secret c p' \<and> says raw p'" if "demanding secret c p" "sent_step c p raw p'" for p raw p'
    using sent_says [OF that(2)] that(1) by (simp add: demanding_def v10_request_def req_core_def)
  obtain p0 raw d pre new where a: "demanding secret c p0" "sent_step c p0 raw (x_pkt s1)"
      "x_sent s1 = x_sent s @ new @ [(raw, port)]" "x_polls s = pre @ x_polls s1" "d \<noteq> []" "Some d \<in> set pre"
      "accept_reply (cl_enforce_ma c) (x_pkt s1) (take 4096 d) = Inr (Some q)"
    using attempts_reply [OF s1, where I = "demanding secret c"] assms(2) step by blast
  have v: "demanding secret c (x_pkt s1)" and y: "says raw (x_pkt s1)" using step [OF a(1,2)] by simp_all
  then have k: "accept_reply True (x_pkt s1) (take 4096 d) = Inr (Some q)" "p_version (x_pkt s1) = V1_0"
      "p_code (x_pkt s1) = pt AccessRequest" "p_secret (x_pkt s1) = secret"
    using a(7) by (simp_all add: demanding_def v10_request_def)
  have "take 4096 d ! 1 = raw ! 1" "p_raw q = Some (take 4096 d)"
    using accepted_octets [OF k(1,2) y] by (simp_all add: answers_octets_def)
  moreover have "Some d \<in> set (x_polls s)" "x_sent s1 \<noteq> []" "last (x_sent s1) = (raw, port)"
    using a(3,4,6) by simp_all
  ultimately have "signed_answer secret q (x_polls s) (x_sent s1)"
    unfolding signed_answer_def using accepted_signed [OF k(1-3) y] k(4) y
    by (intro exI [of _ d] exI [of _ "take 4096 d"] exI [of _ raw] exI [of _ port]) auto
  then show ?thesis using p a(4) demanding_kept [OF kept_restore [OF r] v] by simp
qed

interpretation signed: answering "demanding secret" "signed_answer secret" for secret
  by unfold_locales (use send_to_signed demanding_kept signed_answer_more in blast)+

text \<open>
  C12 A sync client that is constructed with the defaults returns no reply to an Access-Request without a
  Message-Authenticator that is right for its secret and for the authenticator of the datagram that it
  sent last, whatever arrives and however many EAP rounds there are: the very reply that
  \<^verbatim>\<open>send_packet\<close> returns was parsed from octets that arrived and whose Message-Authenticator was
  verified.
\<close>

theorem default_client_demands_ma:
  assumes "c = client_init ms des clock rand (sync_defaults\<lparr>ca_secret := secret, ca_dict := d\<rparr>)"
    "send_packet c s = (Inr q, s')" "v10_request secret (x_pkt s)" "p_code (x_pkt s) = pt AccessRequest"
  shows "signed_answer secret q (x_polls s) (x_sent s')"
  by (rule signed.send_packet_says [OF assms(2)]) (use assms in \<open>simp add: demanding_def client_init_def sync_defaults_def\<close>)

definition witness_client :: client where
  "witness_client = client_init [] None of_nat (\<lambda>_. 0) (sync_defaults\<lparr>ca_secret := [115, 51], ca_dict := Some ma_sample_dict\<rparr>)"

definition signed_octets :: bytes where
  "signed_octets = [2, 7, 0, 43, 86, 208, 133, 155, 148, 166, 140, 70, 101, 210, 93, 96, 180, 177, 0, 213,
     1, 5, 98, 111, 98, 80, 18, 141, 159, 83, 185, 140, 56, 76, 3, 39, 113, 150, 247, 90, 121, 54, 218]"

lemma default_client_demands_ma_witness:
  "\<exists>q s'. send_packet witness_client (asking (signed_packet AuthC 1) [None, Some [1, 2], Some signed_octets]) = (Inr q, s')
     \<and> signed_answer [115, 51] q [None, Some [1, 2], Some signed_octets] (x_sent s')"
proof -
  have "okE (fst (send_packet witness_client (asking (signed_packet AuthC 1) [None, Some [1, 2], Some signed_octets]))) (\<lambda>_. True)"
    by code_simp
  then obtain q s' where r: "send_packet witness_client (asking (signed_packet AuthC 1) [None, Some [1, 2], Some signed_octets]) = (Inr q, s')"
    by (metis okE_Inr prod.collapse)
  have v: "v10_request [115, 51] (signed_packet AuthC 1)" "p_code (signed_packet AuthC 1) = pt AccessRequest" by code_simp+
  from default_client_demands_ma [OF witness_client_def r] v r show ?thesis by (auto simp: asking_def)
qed

end
