(* ===== verification/Spec2Isabelle.thy ===== *)
theory Spec2Isabelle
  imports RadiusV11 Retry Md4 Serving InFlight DictFile DedupSpec Requesting Pending Deadlines Tunnel
    ChapAgreement MschapAgreement ProxyDemo Listeners AsyncExchange ExampleServers
    TlsAgreement Classes ClientSocket ServerSetup ClientSetup
begin

text \<open>
  A model of pyrad2, a RADIUS library in Python, with its correctness properties. All paths are
  under \<^verbatim>\<open>src/pyrad2/\<close>, except \<open>scenarios/\<close> and \<open>examples/\<close>, which are
  \<^verbatim>\<open>src/scenarios/\<close> and \<^verbatim>\<open>src/examples/\<close>.

  \<^bold>\<open>The program.\<close> A dictionary file (\<open>dictionary.py\<close>) names the attributes, their codes and types.
  A packet (\<open>packet.py\<close>) is an ordered dictionary from attribute keys to lists of octet strings;
  it is filled through the value codecs (\<open>tools.py\<close>), serialised, authenticated by MD5 over the
  shared secret and by the Message-Authenticator attribute, and parsed from a datagram. The servers
  (\<open>server.py\<close>, \<open>server_async.py\<close>) share their policy (\<open>router.py\<close>) and the cache that answers
  retransmissions (\<open>dedup.py\<close>); \<open>proxy.py\<close> adds a socket for replies. \<open>retry.py\<close> schedules
  retransmissions, \<open>_md4.py\<close> is MD4. The clients (\<open>client.py\<close>, \<open>client_async.py\<close>) build packets
  (\<open>host.py\<close>), send them, wait for replies and drive EAP conversations (\<open>eap/\<close>, \<open>chap.py\<close>,
  \<open>mschap.py\<close>). RADIUS over TLS has a client and a server of its own (\<open>radsec/\<close>), which negotiate
  RADIUS/1.1 over ALPN. The programs under \<open>scenarios/\<close> are servers built on the library, one for each
  kind of request and EAP method, and a proxy; those under \<open>examples/\<close> are simpler ones.

  \<^bold>\<open>Conventions.\<close> Octets are \<open>8 word\<close>, Python integers \<open>int\<close>, Python strings lists of code points
  (\<open>ustr\<close>), dictionaries that keep their order association lists (\<open>od\<close>, theory \<open>OrderedDict\<close>). What
  can raise returns \<open>exn + 'a\<close>, sequenced by \<open>bindE\<close> (\<open>Prelude\<close>); what changes a server's state and can
  raise is a function from the state to the result and the new state (\<open>Effects\<close>), so changes made before
  an exception stay. Floats are rationals. Random numbers and clock readings are inputs of the model.

  \<^bold>\<open>The theories and the code.\<close>
  \<^item> \<open>Constants\<close>: \<open>constants.py\<close>; \<open>BiDict\<close>: \<open>bidict.py\<close>; \<open>Dictionary\<close>: \<open>dictionary.py\<close>, the reader of
    dictionary lines over a heap of attribute objects; \<open>DictFile\<close>: \<open>dictfile.py\<close>, files and their includes
    over a file system that is a parameter.
  \<^item> \<open>PyText\<close>, \<open>IpAddress\<close>, \<open>Hashes\<close>: what the code uses of the standard library (UTF-8, numbers,
    \<open>ipaddress\<close>, MD5, HMAC); \<open>Tools\<close>: the codecs of \<open>tools.py\<close>; \<open>Md4\<close>: \<open>_md4.py\<close>.
  \<^item> \<open>PacketModel\<close> (store, keys, values, salt encryption), \<open>PacketWire\<close> (serialisation), \<open>PacketDecode\<close>
    (parsing) and \<open>PacketAuth\<close> (construction, authenticators, Message-Authenticator, verification): \<open>packet.py\<close>.
  \<^item> \<open>Dedup\<close>: \<open>dedup.py\<close>; \<open>Router\<close>: \<open>router.py\<close>; \<open>Server\<close>: \<open>server.py\<close> and \<open>proxy.py\<close>; \<open>ServerAsync\<close>:
    \<open>server_async.py\<close>; \<open>Retry\<close>: \<open>retry.py\<close>; \<open>RadiusV11\<close>: \<open>radsec/v11.py\<close>.
  \<^item> \<open>Mschap\<close>: \<open>mschap.py\<close>; \<open>Eap\<close>: \<open>chap.py\<close> and \<open>eap/\<close>; \<open>Replies\<close>: \<open>create_reply(packet=...)\<close>, the reply that
    \<open>verify_reply\<close> leaves behind, and the packet factories of \<open>host.py\<close>.
  \<^item> \<open>Client\<close>: \<open>client.py\<close>; an \<open>exchange\<close> holds the packet, the datagrams that still arrive and those sent.
    \<open>ClientAsync\<close>: \<open>client_async.py\<close>; packets and futures are cells of a heap, \<open>wake_up\<close>, \<open>reply_received\<close> and
    \<open>run_callback\<close> are the callbacks that the event loop runs one at a time.
  \<^item> \<open>RadSec\<close>: stream framing and fingerprints of \<open>tools.py\<close>; \<open>RadSecClient\<close>: \<open>radsec/client.py\<close>, where
    \<open>rs_offers\<close> is what the next attempts to connect meet; \<open>RadSecServer\<close>: \<open>radsec/server.py\<close>.
  \<^item> \<open>Listeners\<close>: the sockets of \<open>server.py\<close> (binding, polling, dispatch by descriptor) and the transports of
    \<open>server_async.py\<close>.
  \<^item> \<open>Scenario\<close>: \<open>scenarios/_shared.py\<close> and the handlers that answer at once; \<open>EapServers\<close>: the three EAP servers
    with their sessions; \<open>ProxyDemo\<close>: \<open>scenarios/proxy.py\<close>. A handler is a value of the type that the
    servers' models take.
  \<^item> \<open>ExampleServers\<close>: \<open>examples/server.py\<close>, \<open>server_coa.py\<close>, \<open>server_async.py\<close>, \<open>server_radsec.py\<close> and the round
    trip of \<open>dictionary_features.py\<close>.
  \<^item> \<open>TlsSetup\<close>: the constructors of \<open>radsec/client.py\<close> and \<open>radsec/server.py\<close> with \<open>setup_ssl\<close>; \<open>ssl_context\<close> is
    what they set, \<open>tls_files\<close> what loading files meets. \<open>ClientSocket\<close>: the socket of \<open>client.py\<close>.
  \<^item> \<open>ServerSetup\<close> and \<open>ClientSetup\<close>: the constructors of \<open>server.py\<close>, \<open>server_async.py\<close>, \<open>client.py\<close> and
    \<open>client_async.py\<close>.
  \<^item> \<open>Classes\<close>: the packet classes of \<open>packet.py\<close> method by method, class Host of \<open>host.py\<close> and the text of a
    ParseError (\<open>exceptions.py\<close>).
  \<^item> \<open>Samples\<close>: a small dictionary and packets for the witnesses.

  \<^bold>\<open>What the lemmas show.\<close>
  \<^item> \<open>Dictionary\<close>: reading raises, keeps the dictionary well-formed, or runs forever, the last only when an
    attribute is its own parent, as an EVS block that redefines its marker makes it. \<open>DictFile\<close>: includes stay below the base directory; a file that includes
    itself is read forever.
  \<^item> \<open>PacketRoundTrip\<close>: every form of attribute comes back from its serialisation: plain, concat, array,
    TLV trees, vendor attributes, RFC 5904 continuation, long-extended fragments and EVS.
  \<^item> \<open>PacketDecode\<close>: parsing ends on all octets, with a packet or with PacketError.
  \<^item> \<open>Passwords\<close>: User-Password and salt encryption round trips, and where the second fails.
  \<^item> \<open>MessageAuth\<close>, \<open>Exchange\<close>: the requests, Access and Accounting replies that one side signs the other
    accepts; what is accepted is authentic; a CoA reply with a Message-Authenticator is not accepted.
  \<^item> \<open>Dedup\<close>: replay until expiry, the cap. \<open>InFlight\<close>: no request stays marked as running, whatever its handler
    did.
  \<^item> \<open>Serving\<close>: handlers see authentic requests only, whatever datagrams arrive; what can end the main loop of
    the sync server; retransmissions are replayed; the default CoA reply.
  \<^item> \<open>DedupSpec\<close>: the cache refines an expiring map. \<open>Requests\<close>: what a datagram sent says of its packet.
  \<^item> \<open>Requesting\<close> and \<open>Pending\<close>: replies that a client returns answer its request; an unanswered request of the
    sync client ends after its retransmissions; Acct-Delay-Time is restored; identifiers are not reused while
    pending; a cancelled future ends the timeout task. \<open>Deadlines\<close>: when the asyncio client sends a request
    again, gives it up or has settled it, among other requests and any datagrams (\<open>timed_run\<close>).
  \<^item> \<open>Tunnel\<close>: packets come off the stream as they went on it; the server answers every packet of the stream in
    order, with its token; the client does not check tokens; whenever it returns nothing there is a reason.
  \<^item> \<open>Listeners\<close>: dispatch by descriptor implements dispatch by port; transports can be started twice and
    are all closed in the end.
  \<^item> \<open>Scenario\<close>: octets of a text attribute come back unless they are hexadecimal text. \<open>EapAgreement\<close>,
    \<open>ChapAgreement\<close>, \<open>MschapAgreement\<close>: the client's method and the server agree on the password; what the
    EAP-MD5 server accepts; the EAP-MSCHAPv2 server accepts an acknowledgement without a conversation.
  \<^item> \<open>AsyncExchange\<close>: an accounting or CoA request of the asyncio client, through the octets, the scenario's
    server and back, settles its future. \<open>ExampleServers\<close>: one datagram ends the example server.
  \<^item> \<open>TlsAgreement\<close>: both ends that were constructed go on with the highest common version, under the TLS
    floor; fingerprints in any notation pin their certificate; nothing is sent to other servers.
  \<^item> \<open>ServerSetup\<close>, \<open>ClientSetup\<close>: what the defaults demand of requests and of replies; the waits of
    a client constructed with retries and timeout.
  \<^item> \<open>ClientSocket\<close>: at most one socket, whatever fails, and the socket that no call can close any more. \<open>Classes\<close>: the definitions that serve all classes are
    the methods of each class.
  \<^item> \<open>ProxyDemo\<close>: a request goes through and its reply comes back; two clients with one identifier.
  \<^item> \<open>Mschap\<close>: the DES key expansion keeps the 56 bits of the key.
  \<^item> \<open>Md4\<close>: the masked-integer code is RFC 1320, stated with tables of its own. \<open>Retry\<close>: the band of the waits. \<open>RadiusV11\<close>: both ends
    agree on the version; tokens repeat only after \<open>2\<^sup>3\<^sup>2\<close> calls.

  \<^bold>\<open>Interfaces.\<close> \<open>dict_like\<close> and \<open>recency_dict\<close> (\<open>OrderedDict\<close>) are what clients use of a Python dictionary;
  \<open>sending\<close> (\<open>Exchange\<close>) is what relates a packet to the one that the serialisers leave behind;
  \<open>answering\<close> (\<open>Requesting\<close>) is what one sending says of the datagrams and of the reply that it returns,
  carried through the EAP rounds;
  \<open>handler_contract\<close> (\<open>Serving\<close>) is what a server promises of the packets that it hands to a handler;
  \<open>reassembly\<close> (\<open>PacketRoundTrip\<close>) and \<open>keystream_chain\<close> (\<open>Passwords\<close>) are what the forms of fragments and
  the two password hidings share.

  \<^bold>\<open>Termination and fuel.\<close> Loops over octets and lists are total functions with a measure; the EAP rounds
  and the server's loop over a connection are measured by the octets or datagrams still to come. The walk over
  an attribute's parents and the loop over included files may not end in the code, so each is a
  \<open>partial_function (option)\<close> and \<open>None\<close> is non-termination.

  \<^bold>\<open>Not modelled.\<close> Socket options; the TLS handshake, except the protocol that ALPN selects; logging and
  tracing; listening of the RadSec server; the \<^verbatim>\<open>main\<close> functions of the scenarios and examples, which start
  both ends in one process, and the example clients, which print replies. Arriving datagrams, streams,
  connection attempts, what system calls meet and the file system are inputs. DES comes from a package
  outside the repository and is a parameter (\<open>des\<close>).
\<close>

end
